(* ===== verification/Prelude.thy ===== *)
theory Prelude
  imports Main "HOL-Library.Word"
begin

text \<open>
  Shared vocabulary of the development: the Go types the gateway is written in, the
  results of Go functions that may panic, points in time, hashes, the order in which a
  concurrent map is enumerated, and the generic lemmas the component theories use.
\<close>

unbundle bit_operations_syntax

named_theorems go_simps \<open>evaluation of Go results and machine arithmetic\<close>
named_theorems store_simps \<open>field equations of the keyed stores\<close>
named_theorems wire_simps \<open>evaluation of buffers of bytes\<close>

section \<open>Machine integers\<close>

type_synonym byte = "8 word"
type_synonym u16 = "16 word"
type_synonym u32 = "32 word"
type_synonym u64 = "64 word"

text \<open>
  A Go \<open>int\<close> or \<open>int64\<close> is an integer of 64 bits in two's complement; a computation on
  such values is a computation on \<^typ>\<open>int\<close> followed by \<open>wrap64\<close>.
\<close>

definition wrap64 :: "int \<Rightarrow> int" where
  "wrap64 x = (x + 2 ^ 63) mod 2 ^ 64 - 2 ^ 63"

definition int64_range :: "int \<Rightarrow> bool" where
  "int64_range x \<longleftrightarrow> - (2 ^ 63) \<le> x \<and> x < 2 ^ 63"

lemma wrap64_id [go_simps]: "int64_range x \<Longrightarrow> wrap64 x = x"
  by (simp add: wrap64_def int64_range_def)

lemma wrap64_range: "int64_range (wrap64 x)"
proof -
  have "(x + 2 ^ 63) mod 2 ^ 64 < (2 ^ 64 :: int)" "0 \<le> (x + 2 ^ 63) mod (2 ^ 64 :: int)"
    by simp_all
  then show ?thesis
    by (simp add: wrap64_def int64_range_def)
qed

text \<open>Counting down a machine word above a bound makes it smaller.\<close>

lemma unat_minus_one_eq: "(b :: 'a :: len word) < w \<Longrightarrow> Suc (unat (w - 1)) = unat w"
proof -
  assume "b < w"
  then have "w \<noteq> 0" by auto
  then have "unat (w - 1) = unat w - 1" by (rule unat_minus_one)
  moreover have "0 < unat w" using \<open>w \<noteq> 0\<close> by (simp add: unat_gt_0)
  ultimately show ?thesis by simp
qed

lemma unat_minus_one_less: "(b :: 'a :: len word) < w \<Longrightarrow> unat (w - 1) < unat w"
  using unat_minus_one_eq [of b w] by simp

lemma unat_plus_one_u64: "unat (w :: u64) < 2 ^ 63 \<Longrightarrow> unat (w + 1) = Suc (unat w)"
  by (simp add: unat_word_ariths)

lemma uint_small_u64: "unat (w :: u64) < 2 ^ 63 \<Longrightarrow> uint w < 2 ^ 63"
  by (metis of_nat_less_iff of_nat_numeral of_nat_power uint_nat)

lemma sint_small_u64:
  assumes "unat (w :: u64) < 2 ^ 63"
  shows "sint w = uint w"
proof -
  have "- (2 ^ 63) \<le> uint w" by (rule order_trans [OF _ uint_ge_0]) simp
  with uint_small_u64 [OF assms] show ?thesis
    unfolding sint_uint by (intro signed_take_bit_int_eq_self) simp_all
qed

text \<open>Division of two \<open>int64\<close> values truncates towards zero in Go.\<close>

definition quot64 :: "int \<Rightarrow> int \<Rightarrow> int" where
  "quot64 a b = sgn a * sgn b * (\<bar>a\<bar> div \<bar>b\<bar>)"

lemma quot64_nonneg: "0 \<le> a \<Longrightarrow> 0 < b \<Longrightarrow> quot64 a b = a div b"
  by (cases "a = 0") (auto simp: quot64_def)

section \<open>Time\<close>

text \<open>
  A \<open>time.Time\<close> is the number of nanoseconds since the Unix epoch and a \<open>time.Duration\<close> a
  number of nanoseconds. \<open>Sub\<close> saturates at the ends of the \<open>int64\<close> range; \<open>UnixNano\<close>
  keeps the low 64 bits.
\<close>

type_synonym instant = int
type_synonym duration = int

definition time_Sub :: "instant \<Rightarrow> instant \<Rightarrow> duration" where
  "time_Sub t u = max (- (2 ^ 63)) (min (2 ^ 63 - 1) (t - u))"

definition UnixNano :: "instant \<Rightarrow> int" where
  "UnixNano t = wrap64 t"

definition Second :: duration where "Second = 1000000000"
definition Minute :: duration where "Minute = 60 * Second"
definition Hour :: duration where "Hour = 60 * Minute"

lemmas duration_defs = Second_def Minute_def Hour_def

lemma UnixNano_id [go_simps]: "int64_range t \<Longrightarrow> UnixNano t = t"
  by (simp add: UnixNano_def wrap64_id)

lemma time_Sub_exact [go_simps]:
  "int64_range (t - u) \<Longrightarrow> time_Sub t u = t - u"
  by (simp add: time_Sub_def int64_range_def)

lemma time_Sub_mono: "t \<le> t' \<Longrightarrow> time_Sub t u \<le> time_Sub t' u"
  by (simp add: time_Sub_def)

lemma time_Sub_self [simp]: "time_Sub t t = 0"
  by (simp add: time_Sub_def)

section \<open>Results of Go functions\<close>

text \<open>
  A run-time panic ends the call: its value is \<^term>\<open>Inl p\<close>. Returned Go errors are values
  of their own datatypes in the component theories.
\<close>

datatype go_panic = NilDereference | IndexOutOfRange | SliceBounds | MakeSlice | ExplicitPanic string

type_synonym 'a go = "go_panic + 'a"

text \<open>
  \<open>make\<close> with room for \<open>n\<close> elements of \<open>elem\<close> bytes panics when \<open>n\<close> is negative or the slice is larger than what
  the allocator can ever serve, which is \<open>2 ^ 48\<close> bytes on 64-bit Linux. Smaller slices are granted here.
\<close>

definition maxAlloc :: int where
  "maxAlloc = 2 ^ 48"

definition make_ok :: "int \<Rightarrow> int \<Rightarrow> bool" where
  "make_ok elem n \<longleftrightarrow> 0 \<le> n \<and> elem * n \<le> maxAlloc"

definition gbind :: "'a go \<Rightarrow> ('a \<Rightarrow> 'b go) \<Rightarrow> 'b go" where
  "gbind x f = (case x of Inl p \<Rightarrow> Inl p | Inr a \<Rightarrow> f a)"

lemma gbind_simps [simp, go_simps]:
  "gbind (Inl p) f = Inl p"
  "gbind (Inr a) f = f a"
  by (simp_all add: gbind_def)

lemma gbind_Inr_iff: "gbind x f = Inr b \<longleftrightarrow> (\<exists>a. x = Inr a \<and> f a = Inr b)"
  by (cases x) auto

lemma gbind_Inl_iff: "gbind x f = Inl p \<longleftrightarrow> x = Inl p \<or> (\<exists>a. x = Inr a \<and> f a = Inl p)"
  by (cases x) auto

section \<open>Slices and hashes\<close>

text \<open>A Go slice is nil (\<^term>\<open>None\<close>) or a sequence; both nil and the empty slice have length 0.\<close>

type_synonym 'a slice = "'a list option"

definition slice_elems :: "'a slice \<Rightarrow> 'a list" where
  "slice_elems s = (case s of None \<Rightarrow> [] | Some xs \<Rightarrow> xs)"

lemma slice_elems_simps [simp]:
  "slice_elems None = []"
  "slice_elems (Some xs) = xs"
  by (simp_all add: slice_elems_def)

text \<open>A 32 byte array; \<open>hash_ok\<close> states its length.\<close>

type_synonym hash = "byte list"

definition hash_ok :: "hash \<Rightarrow> bool" where
  "hash_ok h \<longleftrightarrow> length h = 32"

definition zero_hash :: hash where
  "zero_hash = replicate 32 0"

lemma hash_ok_zero [simp]: "hash_ok zero_hash"
  by (simp add: hash_ok_def zero_hash_def)

section \<open>Enumerating a concurrent map\<close>

text \<open>
  The content of a concurrent map is a partial function. The order in which the map's
  iterator lists the entries is not determined by the content, so an enumeration is an
  argument of every operation that iterates; \<open>enumerates\<close> is what the iterator documents:
  every entry of the snapshot exactly once.
\<close>

definition enumerates :: "('k \<times> 'v) list \<Rightarrow> ('k \<rightharpoonup> 'v) \<Rightarrow> bool" where
  "enumerates items m \<longleftrightarrow> distinct (map fst items) \<and> (\<forall>k v. (k, v) \<in> set items \<longleftrightarrow> m k = Some v)"

lemma enumerates_empty [simp]: "enumerates [] m \<longleftrightarrow> m = Map.empty"
  by (auto simp: enumerates_def fun_eq_iff)

lemma enumerates_lookup: "enumerates items m \<Longrightarrow> (k, v) \<in> set items \<Longrightarrow> m k = Some v"
  by (simp add: enumerates_def)

lemma enumerates_map_of: "enumerates items m \<Longrightarrow> map_of items = m"
  by (rule ext) (metis enumerates_def map_of_SomeD map_of_eq_Some_iff not_Some_eq)

lemma map_of_enumerates: "distinct (map fst items) \<Longrightarrow> enumerates items (map_of items)"
  by (simp add: enumerates_def)

lemma enumerates_keys: "enumerates items m \<Longrightarrow> fst ` set items = dom m"
  by (metis dom_map_of_conv_image_fst enumerates_map_of)

lemma enumerates_card: "enumerates items m \<Longrightarrow> card (dom m) = length items"
  by (metis distinct_card enumerates_def enumerates_keys length_map list.set_map)

text \<open>Removing listed keys from a map one after the other.\<close>

lemma fold_remove_keys:
  "fold (\<lambda>k m. m(k := None)) ks m = (\<lambda>k. if k \<in> set ks then None else m k)"
  by (induction ks arbitrary: m) (auto simp: fun_eq_iff)

section \<open>Invariants of step functions\<close>

text \<open>
  A component is a state and a step function over its events, which may end in a panic
  (\<^term>\<open>Inl\<close>). The laws are that the invariant holds initially and that every event that is
  admitted in a state keeps it; the client lemma is that it holds along every admitted run.
\<close>

fun go_run :: "('s \<Rightarrow> 'e \<Rightarrow> 's go) \<Rightarrow> 's \<Rightarrow> 'e list \<Rightarrow> 's go" where
  "go_run step s [] = Inr s"
| "go_run step s (e # es) = gbind (step s e) (\<lambda>s'. go_run step s' es)"

lemma list_all2_right: "list_all2 P xs ys \<Longrightarrow> y \<in> set ys \<Longrightarrow> \<exists>x \<in> set xs. P x y"
  by (induction rule: list_all2_induct) auto

lemma go_run_append: "go_run step s (es @ fs) = gbind (go_run step s es) (\<lambda>s. go_run step s fs)"
  by (induction es arbitrary: s) (simp_all add: gbind_def split: sum.split)

fun go_admitted :: "('s \<Rightarrow> 'e \<Rightarrow> 's go) \<Rightarrow> ('s \<Rightarrow> 'e \<Rightarrow> bool) \<Rightarrow> 's \<Rightarrow> 'e list \<Rightarrow> bool" where
  "go_admitted step admits s [] = True"
| "go_admitted step admits s (e # es) =
     (admits s e \<and> (case step s e of Inl p \<Rightarrow> True | Inr s' \<Rightarrow> go_admitted step admits s' es))"

lemma go_admitted_append:
  "go_admitted step a s (es @ fs) \<longleftrightarrow>
     go_admitted step a s es \<and> (\<forall>s'. go_run step s es = Inr s' \<longrightarrow> go_admitted step a s' fs)"
  by (induction es arbitrary: s) (auto simp: gbind_def split: sum.splits)

lemma go_admitted_while:
  assumes "P s" "\<And>s e. e \<in> set es \<Longrightarrow> P s \<Longrightarrow> a s e" "\<And>s e s'. e \<in> set es \<Longrightarrow> P s \<Longrightarrow> step s e = Inr s' \<Longrightarrow> P s'"
  shows "go_admitted step a s es"
  using assms
proof (induction es arbitrary: s)
  case (Cons e es)
  have "go_admitted step a t es" if "step s e = Inr t" for t
  proof (rule Cons.IH)
    show "P t" by (rule Cons.prems(3) [OF _ Cons.prems(1) that]) simp
  next
    show "a s e" if "e \<in> set es" "P s" for s e by (rule Cons.prems(2) [OF _ that(2)]) (simp add: that)
  next
    show "P s'" if "e \<in> set es" "P s" "step s e = Inr s'" for s e s' by (rule Cons.prems(3) [OF _ that(2,3)]) (simp add: that)
  qed
  then show ?case using Cons.prems(1,2) by (auto split: sum.split)
qed simp

lemma go_admitted_mono: "go_admitted step a s es \<Longrightarrow> (\<And>s e. a s e \<Longrightarrow> b s e) \<Longrightarrow> go_admitted step b s es"
  by (induction es arbitrary: s) (auto split: sum.splits)

lemma go_admitted_and: "go_admitted step a s es \<Longrightarrow> \<forall>e \<in> set es. Q e \<Longrightarrow> go_admitted step (\<lambda>s e. a s e \<and> Q e) s es"
  by (induction es arbitrary: s) (auto split: sum.splits)

lemma go_admitted_events: "(\<And>s e. e \<in> set es \<Longrightarrow> admits s e) \<Longrightarrow> go_admitted step admits s es"
  by (induction es arbitrary: s) (auto split: sum.split)

locale step_machine =
  fixes init :: "'s"
    and step :: "'s \<Rightarrow> 'e \<Rightarrow> 's go"
    and admits :: "'s \<Rightarrow> 'e \<Rightarrow> bool"
    and inv :: "'s \<Rightarrow> bool"
  assumes inv_init: "inv init"
    and inv_step: "inv s \<Longrightarrow> admits s e \<Longrightarrow> step s e = Inr s' \<Longrightarrow> inv s'"
begin

lemma inv_run: "inv s \<Longrightarrow> go_admitted step admits s es \<Longrightarrow> go_run step s es = Inr s' \<Longrightarrow> inv s'"
proof (induction es arbitrary: s)
  case Nil
  then show ?case by simp
next
  case (Cons e es)
  from Cons.prems(3) obtain t where t: "step s e = Inr t" "go_run step t es = Inr s'"
    by (auto simp: gbind_Inr_iff)
  have "inv t" using inv_step [OF Cons.prems(1) _ t(1)] Cons.prems(2) by simp
  moreover have "go_admitted step admits t es" using Cons.prems(2) t(1) by simp
  ultimately show ?case using Cons.IH t(2) by blast
qed

lemma inv_reachable:
  "go_admitted step admits init es \<Longrightarrow> go_run step init es = Inr s \<Longrightarrow> inv s"
  using inv_run inv_init by blast

end

text \<open>A machine whose admitted steps never panic.\<close>

locale total_machine = step_machine +
  assumes step_returns: "inv s \<Longrightarrow> admits s e \<Longrightarrow> \<exists>s'. step s e = Inr s'"
begin

lemma run_returns: "inv s \<Longrightarrow> go_admitted step admits s es \<Longrightarrow> \<exists>s'. go_run step s es = Inr s' \<and> inv s'"
proof (induction es arbitrary: s)
  case (Cons e es)
  obtain t where t: "step s e = Inr t" using step_returns Cons.prems by auto
  then have "inv t" "go_admitted step admits t es" using inv_step [OF Cons.prems(1) _ t] Cons.prems(2) by auto
  with Cons.IH t show ?case by simp
qed simp

lemma run_from_start: "go_admitted step admits init es \<Longrightarrow> \<exists>s'. go_run step init es = Inr s' \<and> inv s'"
  using run_returns [OF inv_init] .

end

end
