(* ===== verification/Eth_Types.thy ===== *)
theory Eth_Types
  imports Prelude
begin

text \<open>
  The Ethereum values the gateway handles, as far as its code reads them. Headers, bodies and
  blocks are go-ethereum structs: the fields the gateway reads are record fields, the
  remaining header fields are kept as one abstract value of type \<^typ>\<open>'x\<close> and a transaction
  is a value of type \<^typ>\<open>'t\<close>. The hash of a header is computed by go-ethereum, so it is an
  argument \<open>HH\<close> of every definition that uses it; it takes a pointer, nil included.
\<close>

record 'x eth_header =
  ParentHash :: hash
  Number :: int
  Difficulty :: int
  Time :: u64
  hdr_rest :: 'x

record ('t, 'x) eth_body =
  Transactions :: "'t list"
  Uncles :: "'x eth_header list"

record ('t, 'x) eth_block =
  blk_header :: "'x eth_header"
  blk_body :: "('t, 'x) eth_body"

type_synonym 'x header_hash = "'x eth_header option \<Rightarrow> hash"

text \<open>\<open>big.Int.Uint64\<close> and \<open>big.Int.Int64\<close> keep the low 64 bits.\<close>

definition big_Uint64 :: "int \<Rightarrow> u64" where
  "big_Uint64 n = word_of_int n"

definition big_Int64 :: "int \<Rightarrow> int" where
  "big_Int64 n = wrap64 n"

definition NumberU64 :: "('t, 'x) eth_block \<Rightarrow> u64" where
  "NumberU64 b = big_Uint64 (Number (blk_header b))"

definition block_Hash :: "'x header_hash \<Rightarrow> ('t, 'x) eth_block \<Rightarrow> hash" where
  "block_Hash HH b = HH (Some (blk_header b))"

text \<open>
  Collision resistance of the header hash, as far as the chain relies on it: equal hashes
  mean equal numbers and equal parents, and no header has the hash of the nil header.
\<close>

definition hash_binds :: "'x header_hash \<Rightarrow> bool" where
  "hash_binds HH \<longleftrightarrow> (\<forall>h h'. HH (Some h) = HH (Some h') \<longrightarrow>
     Number h = Number h' \<and> ParentHash h = ParentHash h') \<and> (\<forall>h. HH (Some h) \<noteq> HH None)"

lemma hash_bindsD:
  "hash_binds HH \<Longrightarrow> HH (Some h) = HH (Some h') \<Longrightarrow> Number h = Number h'"
  "hash_binds HH \<Longrightarrow> HH (Some h) = HH (Some h') \<Longrightarrow> ParentHash h = ParentHash h'"
  "hash_binds HH \<Longrightarrow> HH (Some h) = HH None \<Longrightarrow> False"
  unfolding hash_binds_def by blast+

text \<open>
  A concrete hash with this property, for examples: the number in unary with its sign, a
  separator, and the parent's hash.
\<close>

definition toy_hash :: "'x header_hash" where
  "toy_hash p = (case p of None \<Rightarrow> []
     | Some h \<Rightarrow> (if Number h < 0 then 3 else 2) # replicate (nat \<bar>Number h\<bar>) 1 @ 0 # ParentHash h)"

lemma replicate_sep_eq:
  "a \<noteq> z \<Longrightarrow> replicate m a @ z # xs = replicate n a @ z # ys \<longleftrightarrow> m = n \<and> xs = ys"
proof (induction m arbitrary: n)
  case 0
  then show ?case by (cases n) auto
next
  case (Suc m)
  then show ?case by (cases n) auto
qed

lemma toy_hash_binds: "hash_binds toy_hash"
  by (auto simp: hash_binds_def toy_hash_def replicate_sep_eq split: if_splits)

end
