(* ===== verification/Chain.thy ===== *)
theory Chain
  imports Eth_Types
begin

text \<open>
  The in-memory blockchain of \<^verbatim>\<open>blockchain/eth/chain.go\<close> and the block references of
  \<^verbatim>\<open>blockchain/eth/util.go\<close>: four stores keyed by height or hash and the chain state, the list
  of canonical block references from the head down. Locks serialise the operations, so each
  is one function on the state.
\<close>

section \<open>Data\<close>

record block_ref =
  ref_height :: u64
  ref_hash :: hash

definition zero_ref :: block_ref where
  "zero_ref = \<lparr>ref_height = 0, ref_hash = zero_hash\<rparr>"

definition chain_head :: "block_ref list \<Rightarrow> block_ref" where
  "chain_head bc = (case bc of [] \<Rightarrow> zero_ref | b # _ \<Rightarrow> b)"

definition chain_tail :: "block_ref list \<Rightarrow> block_ref option" where
  "chain_tail bc = (case bc of [] \<Rightarrow> None | _ \<Rightarrow> Some (last bc))"

definition maxReorgLength :: int where "maxReorgLength = 20"
definition minValidChainLength :: int where "minValidChainLength = 10"
definition defaultMaxSize :: int where "defaultMaxSize = 500"
definition maxFutureBlockNumber :: u64 where "maxFutureBlockNumber = 100"

record ('t, 'x) block_info =
  bi_Block :: "('t, 'x) eth_block"
  bi_totalDifficulty :: int

definition SetInfoTotalDifficulty :: "('t, 'x) block_info \<Rightarrow> int option \<Rightarrow> ('t, 'x) block_info" where
  "SetInfoTotalDifficulty e td =
     (case td of None \<Rightarrow> e\<lparr>bi_totalDifficulty := 0\<rparr> | Some d \<Rightarrow> e\<lparr>bi_totalDifficulty := d\<rparr>)"

definition NewBlockInfo :: "('t, 'x) eth_block \<Rightarrow> int option \<Rightarrow> ('t, 'x) block_info" where
  "NewBlockInfo block td = SetInfoTotalDifficulty \<lparr>bi_Block = block, bi_totalDifficulty = 0\<rparr> td"

definition TotalDifficulty :: "('t, 'x) block_info \<Rightarrow> int option" where
  "TotalDifficulty e =
     (if big_Int64 (bi_totalDifficulty e) \<le> 0 then None else Some (bi_totalDifficulty e))"

record block_metadata =
  bm_height :: u64
  sentToBDN :: bool
  confirmed :: bool
  confirmedMsgSent :: bool

record 'x header_entry =
  eh_Header :: "'x eth_header option"
  eh_hash :: hash

record ('t, 'x) chain =
  maxReorg :: int
  minValidChain :: int
  heightToBlockHeaders :: "u64 \<rightharpoonup> 'x header_entry list"
  blockHashToMetadata :: "hash \<rightharpoonup> block_metadata"
  blockHashToBody :: "hash \<rightharpoonup> ('t, 'x) eth_body"
  blockHashToDifficulty :: "hash \<rightharpoonup> int"
  chainState :: "block_ref list"

datatype block_source = BSBDN | BSBlockchain

datatype chain_error =
    ErrInvalidRequest
  | ErrBodyNotFound
  | ErrAlreadySeen
  | ErrAncientHeaders
  | ErrFutureHeaders
  | TooFarInFuture u64 u64
  | NoHeaderAtHeight u64
  | NoHeightForBlock hash
  | NoHeaderWith u64 hash
  | InsufficientLength
  | InconsistentMetadata hash
  | InconsistentHeader hash
  | InconsistentBody hash
  | CannotCalculateDifficulty
  | NotEnoughBlocks int
  | NoBodyForBlock hash u64

definition newChain :: "int \<Rightarrow> int \<Rightarrow> ('t, 'x) chain" where
  "newChain maxReorg' minValidChain' =
     \<lparr>maxReorg = maxReorg', minValidChain = minValidChain',
      heightToBlockHeaders = Map.empty, blockHashToMetadata = Map.empty,
      blockHashToBody = Map.empty, blockHashToDifficulty = Map.empty, chainState = []\<rparr>"

definition NewChain :: "('t, 'x) chain" where
  "NewChain = newChain maxReorgLength minValidChainLength"

section \<open>Stores\<close>

definition getHeadersAtHeight :: "('t, 'x) chain \<Rightarrow> u64 \<Rightarrow> 'x eth_header option list option" where
  "getHeadersAtHeight c height = map_option (map eh_Header) (heightToBlockHeaders c height)"

fun find_header :: "'x header_hash \<Rightarrow> hash \<Rightarrow> 'x eth_header option list \<Rightarrow> 'x eth_header option option" where
  "find_header HH hash [] = None"
| "find_header HH hash (header # headers) =
     (if HH header = hash then Some header else find_header HH hash headers)"

definition getBlockHeader :: "'x header_hash \<Rightarrow> ('t, 'x) chain \<Rightarrow> u64 \<Rightarrow> hash \<Rightarrow> 'x eth_header option option" where
  "getBlockHeader HH c height hash =
     (case getHeadersAtHeight c height of
        None \<Rightarrow> None | Some headers \<Rightarrow> find_header HH hash headers)"

definition storeEthHeaderAtHeight :: "('t, 'x) chain \<Rightarrow> u64 \<Rightarrow> 'x header_entry \<Rightarrow> ('t, 'x) chain" where
  "storeEthHeaderAtHeight c height eh =
     (case heightToBlockHeaders c height of
        None \<Rightarrow> c\<lparr>heightToBlockHeaders := (heightToBlockHeaders c)(height \<mapsto> [eh])\<rparr>
      | Some ethHeaders \<Rightarrow>
          c\<lparr>heightToBlockHeaders := (heightToBlockHeaders c)(height \<mapsto> ethHeaders @ [eh])\<rparr>)"

definition storeHeaderAtHeight :: "'x header_hash \<Rightarrow> ('t, 'x) chain \<Rightarrow> u64 \<Rightarrow> 'x eth_header \<Rightarrow> ('t, 'x) chain" where
  "storeHeaderAtHeight HH c height header =
     storeEthHeaderAtHeight c height \<lparr>eh_Header = Some header, eh_hash = HH (Some header)\<rparr>"

definition storeBlockMetadata :: "('t, 'x) chain \<Rightarrow> hash \<Rightarrow> u64 \<Rightarrow> bool \<Rightarrow> bool \<Rightarrow> ('t, 'x) chain" where
  "storeBlockMetadata c hash height conf confMsgSent =
     (case blockHashToMetadata c hash of
        None \<Rightarrow> c\<lparr>blockHashToMetadata := (blockHashToMetadata c)(hash \<mapsto>
          \<lparr>bm_height = height, sentToBDN = False, confirmed = conf, confirmedMsgSent = confMsgSent\<rparr>)\<rparr>
      | Some bm \<Rightarrow> c\<lparr>blockHashToMetadata := (blockHashToMetadata c)(hash \<mapsto>
          bm\<lparr>confirmed := confirmed bm \<or> conf,
             confirmedMsgSent := confirmedMsgSent bm \<or> confMsgSent\<rparr>)\<rparr>)"

definition storeBlockHeader :: "'x header_hash \<Rightarrow> ('t, 'x) chain \<Rightarrow> 'x eth_header \<Rightarrow> block_source \<Rightarrow> ('t, 'x) chain" where
  "storeBlockHeader HH c header source =
     (let blockHash = HH (Some header); height = big_Uint64 (Number header);
          c1 = storeHeaderAtHeight HH c height header
      in storeBlockMetadata c1 blockHash height (source = BSBlockchain) False)"

definition storeBlockBody :: "('t, 'x) chain \<Rightarrow> hash \<Rightarrow> ('t, 'x) eth_body \<Rightarrow> ('t, 'x) chain" where
  "storeBlockBody c hash body = c\<lparr>blockHashToBody := (blockHashToBody c)(hash \<mapsto> body)\<rparr>"

definition storeBlockDifficulty :: "('t, 'x) chain \<Rightarrow> hash \<Rightarrow> int option \<Rightarrow> ('t, 'x) chain" where
  "storeBlockDifficulty c hash difficulty =
     (case difficulty of None \<Rightarrow> c
      | Some d \<Rightarrow> c\<lparr>blockHashToDifficulty := (blockHashToDifficulty c)(hash \<mapsto> d)\<rparr>)"

definition storeBlock ::
  "'x header_hash \<Rightarrow> ('t, 'x) chain \<Rightarrow> ('t, 'x) eth_block \<Rightarrow> int option \<Rightarrow> block_source \<Rightarrow> ('t, 'x) chain" where
  "storeBlock HH c block difficulty source =
     (let c1 = storeBlockHeader HH c (blk_header block) source;
          c2 = storeBlockBody c1 (block_Hash HH block) (blk_body block)
      in storeBlockDifficulty c2 (block_Hash HH block) difficulty)"

definition hasHeader :: "('t, 'x) chain \<Rightarrow> hash \<Rightarrow> bool" where
  "hasHeader c hash \<longleftrightarrow> blockHashToMetadata c hash \<noteq> None"

definition hasBody :: "('t, 'x) chain \<Rightarrow> hash \<Rightarrow> bool" where
  "hasBody c hash \<longleftrightarrow> blockHashToBody c hash \<noteq> None"

definition HasBlock :: "('t, 'x) chain \<Rightarrow> hash \<Rightarrow> bool" where
  "HasBlock c hash \<longleftrightarrow> hasHeader c hash \<and> hasBody c hash"

definition HasSentToBDN :: "('t, 'x) chain \<Rightarrow> hash \<Rightarrow> bool" where
  "HasSentToBDN c hash = (case blockHashToMetadata c hash of None \<Rightarrow> False | Some bm \<Rightarrow> sentToBDN bm)"

definition HasConfirmedBlock :: "('t, 'x) chain \<Rightarrow> hash \<Rightarrow> bool" where
  "HasConfirmedBlock c hash = (case blockHashToMetadata c hash of None \<Rightarrow> False | Some bm \<Rightarrow> confirmed bm)"

definition MarkSentToBDN :: "('t, 'x) chain \<Rightarrow> hash \<Rightarrow> ('t, 'x) chain" where
  "MarkSentToBDN c hash =
     (case blockHashToMetadata c hash of None \<Rightarrow> c
      | Some bm \<Rightarrow> c\<lparr>blockHashToMetadata := (blockHashToMetadata c)(hash \<mapsto> bm\<lparr>sentToBDN := True\<rparr>)\<rparr>)"

definition InitializeDifficulty :: "('t, 'x) chain \<Rightarrow> hash \<Rightarrow> int option \<Rightarrow> ('t, 'x) chain" where
  "InitializeDifficulty c hash td =
     (let c1 = storeBlockDifficulty c hash td;
          c2 = storeEthHeaderAtHeight c1 0 \<lparr>eh_Header = None, eh_hash = hash\<rparr>
      in storeBlockMetadata c2 hash 0 True False)"

definition SetTotalDifficulty ::
  "'x header_hash \<Rightarrow> ('t, 'x) chain \<Rightarrow> ('t, 'x) block_info \<Rightarrow>
     ('t, 'x) chain \<times> ('t, 'x) block_info \<times> chain_error option" where
  "SetTotalDifficulty HH c info =
     (case TotalDifficulty info of
        Some _ \<Rightarrow> (c, info, None)
      | None \<Rightarrow>
          (case blockHashToDifficulty c (ParentHash (blk_header (bi_Block info))) of
             Some parentDifficulty \<Rightarrow>
               (let info' = SetInfoTotalDifficulty info
                      (Some (parentDifficulty + Difficulty (blk_header (bi_Block info))))
                in (storeBlockDifficulty c (block_Hash HH (bi_Block info')) (TotalDifficulty info'), info', None))
           | None \<Rightarrow> (c, info, Some CannotCalculateDifficulty)))"

fun GetBodies_loop :: "('t, 'x) chain \<Rightarrow> hash list \<Rightarrow> ('t, 'x) eth_body list \<Rightarrow> chain_error + ('t, 'x) eth_body list" where
  "GetBodies_loop c [] bodies = Inr bodies"
| "GetBodies_loop c (hash # hashes) bodies =
     (case blockHashToBody c hash of
        None \<Rightarrow> Inl ErrBodyNotFound
      | Some body \<Rightarrow> GetBodies_loop c hashes (bodies @ [body]))"

definition GetBodies :: "('t, 'x) chain \<Rightarrow> hash list \<Rightarrow> chain_error + ('t, 'x) eth_body list" where
  "GetBodies c hashes = GetBodies_loop c hashes []"

definition ValidateBlock :: "('t, 'x) chain \<Rightarrow> hash \<Rightarrow> int \<Rightarrow> chain_error option" where
  "ValidateBlock c hash height =
     (if HasBlock c hash \<and> HasSentToBDN c hash \<and> HasConfirmedBlock c hash
      then Some ErrAlreadySeen
      else (let chainHead = chain_head (chainState c);
                maxBlockNumber = ref_height chainHead + maxFutureBlockNumber
            in if ref_height chainHead \<noteq> 0 \<and> height > sint maxBlockNumber
               then Some (TooFarInFuture (ref_height chainHead) maxBlockNumber)
               else None))"

section \<open>The chain state\<close>

text \<open>
  How one of the two loops of \<open>updateChainState\<close> ends: with \<open>return 0\<close>, with a new chain state
  of new entries on top of kept entries, or at its exit condition.
\<close>

datatype loop_end =
    ReturnZero
  | NewState "block_ref list" "block_ref list"
  | LoopExit u64 hash "block_ref list"

text \<open>First loop: collect the entries from the new block down to the height of the head.\<close>

function fill_missing ::
  "'x header_hash \<Rightarrow> ('t, 'x) chain \<Rightarrow> u64 \<Rightarrow> u64 \<Rightarrow> hash \<Rightarrow> block_ref list \<Rightarrow> loop_end go" where
  "fill_missing HH c bottom headHeight headHash missingEntries =
     (if headHeight > bottom
      then (case getBlockHeader HH c headHeight headHash of
              None \<Rightarrow> Inr ReturnZero
            | Some None \<Rightarrow> Inl NilDereference
            | Some (Some headHeader) \<Rightarrow>
                (let missing' = missingEntries @ [\<lparr>ref_height = headHeight, ref_hash = headHash\<rparr>]
                 in if int (length missing') \<ge> minValidChain c
                    then Inr (NewState missing' [])
                    else fill_missing HH c bottom (headHeight - 1) (ParentHash headHeader) missing'))
      else Inr (LoopExit headHeight headHash missingEntries))"
  by pat_completeness auto
termination
  by (relation "measure (\<lambda>(HH, c, bottom, headHeight, headHash, missing). unat headHeight)")
    (auto intro: unat_minus_one_less)

declare fill_missing.simps [simp del]

text \<open>Second loop: walk down the chain state and the new branch until they meet.\<close>

fun reorg_loop ::
  "'x header_hash \<Rightarrow> ('t, 'x) chain \<Rightarrow> block_ref list \<Rightarrow> int \<Rightarrow> u64 \<Rightarrow> hash \<Rightarrow> block_ref list \<Rightarrow> loop_end go" where
  "reorg_loop HH c [] i headHeight headHash missingEntries = Inr (NewState missingEntries [])"
| "reorg_loop HH c (chainRef # rest) i headHeight headHash missingEntries =
     (if headHash = ref_hash chainRef then Inr (NewState missingEntries (chainRef # rest))
      else (case getBlockHeader HH c headHeight headHash of
              None \<Rightarrow> Inr ReturnZero
            | Some None \<Rightarrow> Inl NilDereference
            | Some (Some headHeader) \<Rightarrow>
                (let missing' = missingEntries @ [\<lparr>ref_height = headHeight, ref_hash = headHash\<rparr>]
                 in if i + 1 \<ge> maxReorg c
                    then Inr (NewState missing' [])
                    else reorg_loop HH c rest (i + 1) (headHeight - 1) (ParentHash headHeader) missing')))"

definition install :: "('t, 'x) chain \<Rightarrow> loop_end \<Rightarrow> ('t, 'x) chain \<times> int" where
  "install c e = (case e of
       NewState missing kept \<Rightarrow> (c\<lparr>chainState := missing @ kept\<rparr>, int (length missing))
     | _ \<Rightarrow> (c, 0))"

text \<open>A reference takes 40 bytes, a pointer 8; slices of both are made with a capacity.\<close>

definition blockRefSize :: int where "blockRefSize = 40"
definition pointerSize :: int where "pointerSize = 8"

definition updateChainState ::
  "'x header_hash \<Rightarrow> ('t, 'x) chain \<Rightarrow> u64 \<Rightarrow> hash \<Rightarrow> hash \<Rightarrow> (('t, 'x) chain \<times> int) go" where
  "updateChainState HH c height hash parentHash =
     (case chainState c of
        [] \<Rightarrow> Inr (c\<lparr>chainState := [\<lparr>ref_height = height, ref_hash = hash\<rparr>]\<rparr>, 1)
      | chainHead # _ \<Rightarrow>
          (let c1 = (if ref_height chainHead + 1 = height \<and> ref_hash chainHead = parentHash
                     then c\<lparr>chainState := \<lparr>ref_height = height, ref_hash = hash\<rparr> # chainState c\<rparr>
                     else c)
           in if height \<le> ref_height chainHead then Inr (c1, 0)
              else if \<not> make_ok blockRefSize (uint (height - ref_height chainHead)) then Inl MakeSlice
              else gbind (fill_missing HH c1 (ref_height chainHead) height hash [])
                (\<lambda>e. case e of
                   LoopExit headHeight headHash missingEntries \<Rightarrow>
                     if headHeight = ref_height chainHead \<and> headHash = ref_hash chainHead
                     then Inr (install c1 (NewState missingEntries (chainState c1)))
                     else gbind (reorg_loop HH c1 (chainState c1) 0 headHeight headHash missingEntries)
                            (\<lambda>e'. Inr (install c1 e'))
                 | _ \<Rightarrow> Inr (install c1 e))))"

definition AddBlock ::
  "'x header_hash \<Rightarrow> ('t, 'x) chain \<Rightarrow> ('t, 'x) block_info \<Rightarrow> block_source \<Rightarrow> (('t, 'x) chain \<times> int) go" where
  "AddBlock HH c b source =
     (let height = NumberU64 (bi_Block b);
          hash = block_Hash HH (bi_Block b);
          parentHash = ParentHash (blk_header (bi_Block b));
          c1 = (if HasBlock c hash
                then storeBlockMetadata c hash height (source = BSBlockchain) False
                else storeBlock HH c (bi_Block b) (TotalDifficulty b) source)
      in if source = BSBDN then Inr (c1, 0)
         else updateChainState HH c1 height hash parentHash)"

definition ConfirmBlock :: "'x header_hash \<Rightarrow> ('t, 'x) chain \<Rightarrow> hash \<Rightarrow> (('t, 'x) chain \<times> int) go" where
  "ConfirmBlock HH c hash =
     (case blockHashToMetadata c hash of
        None \<Rightarrow> Inr (c, 0)
      | Some bm \<Rightarrow>
          (let c1 = c\<lparr>blockHashToMetadata := (blockHashToMetadata c)(hash \<mapsto> bm\<lparr>confirmed := True\<rparr>)\<rparr>
           in case getBlockHeader HH c1 (bm_height bm) hash of
                None \<Rightarrow> Inr (c1, 0)
              | Some None \<Rightarrow> Inl NilDereference
              | Some (Some header) \<Rightarrow> updateChainState HH c1 (bm_height bm) hash (ParentHash header)))"

section \<open>Queries on the chain state\<close>

text \<open>
  The loop of \<open>GetNewHeadsForBDN\<close> from index \<open>i\<close> with \<open>n\<close> iterations left. In case of an error
  the entries found so far are returned with it.
\<close>

fun new_heads_loop ::
  "'x header_hash \<Rightarrow> ('t, 'x) chain \<Rightarrow> nat \<Rightarrow> nat \<Rightarrow> ('t, 'x) block_info list \<Rightarrow>
     (('t, 'x) block_info list \<times> chain_error option) go" where
  "new_heads_loop HH c i 0 heads = Inr (heads, None)"
| "new_heads_loop HH c i (Suc n) heads =
     (if length (chainState c) \<le> i then Inr (heads, Some InsufficientLength)
      else (let hd' = chainState c ! i
            in case blockHashToMetadata c (ref_hash hd') of
                 None \<Rightarrow> Inr (heads, Some (InconsistentMetadata (ref_hash hd')))
               | Some bm \<Rightarrow>
                   if sentToBDN bm then Inr (heads, None)
                   else (case getBlockHeader HH c (ref_height hd') (ref_hash hd') of
                           None \<Rightarrow> Inr (heads, Some (InconsistentHeader (ref_hash hd')))
                         | Some hdr \<Rightarrow>
                             (case blockHashToBody c (ref_hash hd') of
                                None \<Rightarrow> Inr (heads, Some (InconsistentBody (ref_hash hd')))
                              | Some body \<Rightarrow>
                                  (case hdr of
                                     None \<Rightarrow> Inl NilDereference
                                   | Some header \<Rightarrow>
                                       new_heads_loop HH c (Suc i) n
                                         (heads @ [NewBlockInfo \<lparr>blk_header = header, blk_body = body\<rparr>
                                                     (blockHashToDifficulty c (ref_hash hd'))]))))))"

definition GetNewHeadsForBDN ::
  "'x header_hash \<Rightarrow> ('t, 'x) chain \<Rightarrow> int \<Rightarrow> (('t, 'x) block_info list \<times> chain_error option) go" where
  "GetNewHeadsForBDN HH c count' =
     (if \<not> make_ok pointerSize count' then Inl MakeSlice else new_heads_loop HH c 0 (nat count') [])"

definition getHeaderAtHeight ::
  "'x header_hash \<Rightarrow> ('t, 'x) chain \<Rightarrow> u64 \<Rightarrow> chain_error + 'x eth_header option" where
  "getHeaderAtHeight HH c height =
     (case chainState c of
        [] \<Rightarrow> Inl (NoHeaderAtHeight height)
      | hd' # _ \<Rightarrow>
          (let requestedIndex = sint (ref_height hd' - height)
           in if requestedIndex < 0 then Inr None
              else if requestedIndex \<ge> int (length (chainState c)) then Inl (NoHeaderAtHeight height)
              else (case getBlockHeader HH c height (ref_hash (chainState c ! nat requestedIndex)) of
                      None \<Rightarrow> Inl (NoHeaderAtHeight height)
                    | Some header \<Rightarrow> Inr header)))"

record hash_or_number =
  hn_Hash :: hash
  hn_Number :: u64

text \<open>
  The last loop of \<open>GetHeaders\<close>; \<open>n\<close> is the number of headers still missing, which every
  iteration that goes on decreases.
\<close>

fun headers_loop ::
  "'x header_hash \<Rightarrow> ('t, 'x) chain \<Rightarrow> int \<Rightarrow> int \<Rightarrow> nat \<Rightarrow> 'x eth_header option list \<Rightarrow>
     chain_error + 'x eth_header option list" where
  "headers_loop HH c height increment 0 requestedHeaders = Inr requestedHeaders"
| "headers_loop HH c height increment (Suc n) requestedHeaders =
     (case getHeaderAtHeight HH c (word_of_int height) of
        Inl err \<Rightarrow> Inl err
      | Inr None \<Rightarrow> Inr requestedHeaders
      | Inr (Some header) \<Rightarrow>
          headers_loop HH c (wrap64 (height + increment)) increment n (requestedHeaders @ [Some header]))"

text \<open>How the query starts: the height of the origin and its header.\<close>

definition headers_origin ::
  "'x header_hash \<Rightarrow> ('t, 'x) chain \<Rightarrow> hash_or_number \<Rightarrow> chain_error + (u64 \<times> 'x eth_header option list)" where
  "headers_origin HH c start =
     (if hn_Number start > 0
      then (let originHeight = hn_Number start
            in if originHeight > ref_height (chain_head (chainState c)) then Inl ErrFutureHeaders
               else if (case chain_tail (chainState c) of
                          None \<Rightarrow> False | Some tl' \<Rightarrow> originHeight < ref_height tl')
               then Inl ErrAncientHeaders
               else (case getHeaderAtHeight HH c originHeight of
                       Inl err \<Rightarrow> Inl err
                     | Inr None \<Rightarrow> Inr (originHeight, [])
                     | Inr (Some header) \<Rightarrow> Inr (originHeight, [Some header])))
      else if hn_Hash start \<noteq> zero_hash
      then (case blockHashToMetadata c (hn_Hash start) of
              None \<Rightarrow> Inl (NoHeightForBlock (hn_Hash start))
            | Some bm \<Rightarrow>
                (case getBlockHeader HH c (bm_height bm) (hn_Hash start) of
                   None \<Rightarrow> Inl (NoHeaderWith (bm_height bm) (hn_Hash start))
                 | Some originHeader \<Rightarrow> Inr (bm_height bm, [originHeader])))
      else Inl ErrInvalidRequest)"

definition GetHeaders ::
  "'x header_hash \<Rightarrow> ('t, 'x) chain \<Rightarrow> hash_or_number \<Rightarrow> int \<Rightarrow> int \<Rightarrow> bool \<Rightarrow>
     (chain_error + 'x eth_header option list) go" where
  "GetHeaders HH c start count' skip reverse =
     (if \<not> make_ok pointerSize count' then Inl MakeSlice
      else Inr (case headers_origin HH c start of
                  Inl err \<Rightarrow> Inl err
                | Inr (originHeight, requestedHeaders) \<Rightarrow>
                    if count' = 1 then Inr requestedHeaders
                    else (let directionalMultiplier = (if reverse then -1 else 1);
                              increment = wrap64 (wrap64 (skip + 1) * directionalMultiplier);
                              nextHeight = wrap64 (sint originHeight + increment)
                          in headers_loop HH c nextHeight increment
                               (nat count' - length requestedHeaders) requestedHeaders)))"

definition BlockAtDepth ::
  "'x header_hash \<Rightarrow> ('t, 'x) chain \<Rightarrow> int \<Rightarrow> (chain_error + ('t, 'x) eth_block) go" where
  "BlockAtDepth HH c chainDepth =
     (if int (length (chainState c)) \<le> chainDepth then Inr (Inl (NotEnoughBlocks chainDepth))
      else if chainDepth < 0 then Inl IndexOutOfRange
      else (let ref = chainState c ! nat chainDepth
            in case getHeaderAtHeight HH c (ref_height ref) of
                 Inl err \<Rightarrow> Inr (Inl err)
               | Inr header \<Rightarrow>
                   (case blockHashToBody c (ref_hash ref) of
                      None \<Rightarrow> Inr (Inl (NoBodyForBlock (ref_hash ref) (ref_height ref)))
                    | Some body \<Rightarrow>
                        (case header of
                           None \<Rightarrow> Inl NilDereference
                         | Some h \<Rightarrow> Inr (Inr \<lparr>blk_header = h, blk_body = body\<rparr>)))))"

section \<open>Cleaning\<close>

definition pruneHash :: "('t, 'x) chain \<Rightarrow> hash \<Rightarrow> ('t, 'x) chain" where
  "pruneHash c hash = c\<lparr>blockHashToMetadata := (blockHashToMetadata c)(hash := None),
     blockHashToBody := (blockHashToBody c)(hash := None),
     blockHashToDifficulty := (blockHashToDifficulty c)(hash := None)\<rparr>"

text \<open>\<open>strconv.Atoi\<close> on the decimal form of a height fails above the \<open>int64\<close> range.\<close>

definition Atoi_height :: "u64 \<Rightarrow> int option" where
  "Atoi_height h = (if uint h < 2 ^ 63 then Some (uint h) else None)"

type_synonym clean_counts = "int \<times> int \<times> int"

fun prune_headers :: "int \<Rightarrow> 'x header_entry list \<Rightarrow> ('t, 'x) chain \<Rightarrow> clean_counts \<Rightarrow> ('t, 'x) chain \<times> clean_counts" where
  "prune_headers height [] c counts = (c, counts)"
| "prune_headers height (header # headers) c (lowestCleaned, highestCleaned, numCleaned) =
     prune_headers height headers (pruneHash c (eh_hash header))
       (if height < lowestCleaned then height else lowestCleaned,
        if height > highestCleaned then height else highestCleaned,
        numCleaned + 1)"

fun clean_heights ::
  "int \<Rightarrow> (u64 \<times> 'x header_entry list) list \<Rightarrow> ('t, 'x) chain \<Rightarrow> clean_counts \<Rightarrow> ('t, 'x) chain \<times> clean_counts" where
  "clean_heights minHeight [] c counts = (c, counts)"
| "clean_heights minHeight ((heightStr, headers) # items) c counts =
     (case Atoi_height heightStr of
        None \<Rightarrow> clean_heights minHeight items c counts
      | Some height \<Rightarrow>
          if height < minHeight
          then (let c1 = c\<lparr>heightToBlockHeaders := (heightToBlockHeaders c)(heightStr := None)\<rparr>;
                    (c2, counts') = prune_headers height headers c1 counts
                in clean_heights minHeight items c2 counts')
          else clean_heights minHeight items c counts)"

definition chain_clean ::
  "(u64 \<times> 'x header_entry list) list \<Rightarrow> ('t, 'x) chain \<Rightarrow> int \<Rightarrow> (('t, 'x) chain \<times> clean_counts) go" where
  "chain_clean items c maxSize =
     (case chainState c of
        [] \<Rightarrow> Inr (c, (0, 0, 0))
      | hd' # _ \<Rightarrow>
          (let lowestCleaned = sint (ref_height hd');
               minHeight = wrap64 (wrap64 (lowestCleaned - maxSize) + 1);
               numHeadersStored = int (card (dom (heightToBlockHeaders c)))
           in if numHeadersStored \<ge> maxSize
              then (let (c1, counts) = clean_heights minHeight items c (lowestCleaned, 0, 0)
                    in if int (length (chainState c1)) > maxSize
                       then (if maxSize < 0 then Inl SliceBounds
                             else Inr (c1\<lparr>chainState := take (nat maxSize) (chainState c1)\<rparr>, counts))
                       else Inr (c1, counts))
              else Inr (c, (lowestCleaned, 0, 0))))"

section \<open>Stored headers\<close>

text \<open>The non-nil headers stored at a height.\<close>

definition stored :: "('t, 'x) chain \<Rightarrow> u64 \<Rightarrow> 'x eth_header \<Rightarrow> bool" where
  "stored c height hdr \<longleftrightarrow>
     (\<exists>es eh. heightToBlockHeaders c height = Some es \<and> eh \<in> set es \<and> eh_Header eh = Some hdr)"

lemma find_header_Some:
  "find_header HH h hs = Some p \<Longrightarrow> p \<in> set hs \<and> HH p = h"
  by (induction hs) (auto split: if_splits)

lemma find_header_append:
  "find_header HH h (xs @ ys) = (case find_header HH h xs of None \<Rightarrow> find_header HH h ys | Some p \<Rightarrow> Some p)"
  by (induction xs) auto

lemma find_header_None: "find_header HH h hs = None \<longleftrightarrow> (\<forall>p \<in> set hs. HH p \<noteq> h)"
  by (induction hs) auto

lemma getBlockHeader_stored:
  "getBlockHeader HH c height hash = Some (Some hdr) \<Longrightarrow> stored c height hdr \<and> HH (Some hdr) = hash"
  by (force simp: getBlockHeader_def getHeadersAtHeight_def stored_def
      dest: find_header_Some split: option.splits)

lemma stored_getBlockHeader:
  "stored c height hdr \<Longrightarrow> \<exists>p. getBlockHeader HH c height (HH (Some hdr)) = Some p"
proof -
  assume "stored c height hdr"
  then obtain es eh where "heightToBlockHeaders c height = Some es" "eh \<in> set es" "eh_Header eh = Some hdr"
    by (auto simp: stored_def)
  then have "find_header HH (HH (Some hdr)) (map eh_Header es) \<noteq> None"
    unfolding find_header_None by force
  then show ?thesis
    using \<open>heightToBlockHeaders c height = Some es\<close>
    by (simp add: getBlockHeader_def getHeadersAtHeight_def)
qed

text \<open>Field equations of the storing operations.\<close>

lemma storeBlockMetadata_fields [simp, store_simps]:
  "heightToBlockHeaders (storeBlockMetadata c h ht cf cs) = heightToBlockHeaders c"
  "blockHashToBody (storeBlockMetadata c h ht cf cs) = blockHashToBody c"
  "blockHashToDifficulty (storeBlockMetadata c h ht cf cs) = blockHashToDifficulty c"
  "chainState (storeBlockMetadata c h ht cf cs) = chainState c"
  "maxReorg (storeBlockMetadata c h ht cf cs) = maxReorg c"
  "minValidChain (storeBlockMetadata c h ht cf cs) = minValidChain c"
  by (simp_all add: storeBlockMetadata_def split: option.split)

lemma storeBlockMetadata_dom [simp, store_simps]:
  "dom (blockHashToMetadata (storeBlockMetadata c h ht cf cs)) = insert h (dom (blockHashToMetadata c))"
  by (auto simp: storeBlockMetadata_def split: option.split)

lemma storeEthHeaderAtHeight_fields [simp, store_simps]:
  "blockHashToMetadata (storeEthHeaderAtHeight c ht eh) = blockHashToMetadata c"
  "blockHashToBody (storeEthHeaderAtHeight c ht eh) = blockHashToBody c"
  "blockHashToDifficulty (storeEthHeaderAtHeight c ht eh) = blockHashToDifficulty c"
  "chainState (storeEthHeaderAtHeight c ht eh) = chainState c"
  "maxReorg (storeEthHeaderAtHeight c ht eh) = maxReorg c"
  "minValidChain (storeEthHeaderAtHeight c ht eh) = minValidChain c"
  by (simp_all add: storeEthHeaderAtHeight_def split: option.split)

lemma storeEthHeaderAtHeight_headers [store_simps]:
  "heightToBlockHeaders (storeEthHeaderAtHeight c ht eh) =
     (heightToBlockHeaders c)(ht \<mapsto> (case heightToBlockHeaders c ht of None \<Rightarrow> [] | Some es \<Rightarrow> es) @ [eh])"
  by (simp add: storeEthHeaderAtHeight_def split: option.split)

lemma storeBlockDifficulty_fields [simp, store_simps]:
  "heightToBlockHeaders (storeBlockDifficulty c h d) = heightToBlockHeaders c"
  "blockHashToMetadata (storeBlockDifficulty c h d) = blockHashToMetadata c"
  "blockHashToBody (storeBlockDifficulty c h d) = blockHashToBody c"
  "chainState (storeBlockDifficulty c h d) = chainState c"
  "maxReorg (storeBlockDifficulty c h d) = maxReorg c"
  "minValidChain (storeBlockDifficulty c h d) = minValidChain c"
  by (simp_all add: storeBlockDifficulty_def split: option.split)

lemma getBlockHeader_cong:
  "heightToBlockHeaders c' = heightToBlockHeaders c \<Longrightarrow> getBlockHeader HH c' = getBlockHeader HH c"
  by (simp add: getBlockHeader_def getHeadersAtHeight_def fun_eq_iff)

lemma stored_cong:
  "heightToBlockHeaders c' = heightToBlockHeaders c \<Longrightarrow> stored c' = stored c"
  by (simp add: stored_def fun_eq_iff)

text \<open>A stored header is found again whatever is stored later.\<close>

lemma getBlockHeader_storeEth:
  "getBlockHeader HH c ht h = Some p \<Longrightarrow> getBlockHeader HH (storeEthHeaderAtHeight c ht' eh) ht h = Some p"
  by (auto simp: getBlockHeader_def getHeadersAtHeight_def store_simps find_header_append
      split: option.splits)

lemma stored_storeEth:
  "stored (storeEthHeaderAtHeight c ht' eh) ht hdr \<longleftrightarrow>
     stored c ht hdr \<or> (ht = ht' \<and> eh_Header eh = Some hdr)"
proof (cases "ht = ht'")
  case True
  then show ?thesis
    by (cases "heightToBlockHeaders c ht'") (auto simp: stored_def store_simps)
next
  case False
  then show ?thesis by (simp add: stored_def store_simps)
qed

section \<open>The invariant\<close>

text \<open>
  \<open>stores_ok_but K\<close>: a stored header sits at its own height, below the range of a signed integer,
  under its own hash, and has metadata and a body unless its hash is in \<open>K\<close>, and a stored body has a header.
  The set \<open>K\<close> will be that of the hashes of status messages: \<open>InitializeDifficulty\<close> stores each at height 0, and the
  cleaning of height 0 removes the metadata and the body of that hash, wherever its block is.
  \<open>follows\<close>: two neighbours of the chain
  state are equal or linked by the parent hash of the stored header of the upper one, and
  the height drops by at most one.
\<close>

definition stores_ok_but :: "hash set \<Rightarrow> 'x header_hash \<Rightarrow> ('t, 'x) chain \<Rightarrow> bool" where
  "stores_ok_but K HH c \<longleftrightarrow>
     (\<forall>ht hdr. stored c ht hdr \<longrightarrow> ht = big_Uint64 (Number hdr) \<and> unat ht < 2 ^ 63 \<and>
        (HH (Some hdr) \<in> K \<or>
           HH (Some hdr) \<in> dom (blockHashToMetadata c) \<and> HH (Some hdr) \<in> dom (blockHashToBody c))) \<and>
     (\<forall>ht es eh hdr. heightToBlockHeaders c ht = Some es \<longrightarrow> eh \<in> set es \<longrightarrow> eh_Header eh = Some hdr \<longrightarrow>
        eh_hash eh = HH (Some hdr)) \<and>
     (\<forall>h \<in> dom (blockHashToBody c). \<exists>ht hdr. stored c ht hdr \<and> HH (Some hdr) = h)"

definition backed :: "'x header_hash \<Rightarrow> ('t, 'x) chain \<Rightarrow> block_ref \<Rightarrow> bool" where
  "backed HH c r \<longleftrightarrow> (\<exists>hdr. getBlockHeader HH c (ref_height r) (ref_hash r) = Some (Some hdr))"

definition child_of :: "'x header_hash \<Rightarrow> ('t, 'x) chain \<Rightarrow> block_ref \<Rightarrow> hash \<Rightarrow> bool" where
  "child_of HH c r h \<longleftrightarrow>
     (\<exists>hdr. getBlockHeader HH c (ref_height r) (ref_hash r) = Some (Some hdr) \<and> ParentHash hdr = h)"

definition follows :: "'x header_hash \<Rightarrow> ('t, 'x) chain \<Rightarrow> block_ref \<Rightarrow> block_ref \<Rightarrow> bool" where
  "follows HH c a b \<longleftrightarrow> (a = b \<or> child_of HH c a (ref_hash b)) \<and>
     unat (ref_height a) \<le> Suc (unat (ref_height b))"

definition chain_ok_but :: "hash set \<Rightarrow> 'x header_hash \<Rightarrow> ('t, 'x) chain \<Rightarrow> bool" where
  "chain_ok_but K HH c \<longleftrightarrow> stores_ok_but K HH c \<and> (\<forall>r \<in> set (chainState c). backed HH c r) \<and>
     successively (follows HH c) (chainState c)"

abbreviation chain_ok :: "'x header_hash \<Rightarrow> ('t, 'x) chain \<Rightarrow> bool" where
  "chain_ok \<equiv> chain_ok_but {}"

lemma chain_okD:
  "chain_ok_but K HH c \<Longrightarrow> stores_ok_but K HH c"
  "chain_ok_but K HH c \<Longrightarrow> r \<in> set (chainState c) \<Longrightarrow> backed HH c r"
  "chain_ok_but K HH c \<Longrightarrow> successively (follows HH c) (chainState c)"
  by (auto simp: chain_ok_but_def)

lemma chain_ok_but_weaken:
  "stores_ok_but K HH c \<Longrightarrow> K \<subseteq> K' \<Longrightarrow> stores_ok_but K' HH c"
  "chain_ok_but K HH c \<Longrightarrow> K \<subseteq> K' \<Longrightarrow> chain_ok_but K' HH c"
  unfolding chain_ok_but_def stores_ok_but_def by blast+

lemma child_of_backed: "child_of HH c r h \<Longrightarrow> backed HH c r"
  by (auto simp: child_of_def backed_def)

lemma backed_height: "stores_ok_but K HH c \<Longrightarrow> backed HH c r \<Longrightarrow> unat (ref_height r) < 2 ^ 63"
  by (auto simp: backed_def stores_ok_but_def dest!: getBlockHeader_stored)

lemma backed_in_stores:
  "stores_ok_but K HH c \<Longrightarrow> backed HH c r \<Longrightarrow> ref_hash r \<notin> K \<Longrightarrow>
     ref_hash r \<in> dom (blockHashToMetadata c) \<and> ref_hash r \<in> dom (blockHashToBody c)"
  unfolding backed_def stores_ok_but_def by (metis getBlockHeader_stored)

text \<open>The links depend only on what can be found in the header store.\<close>

definition grows :: "'x header_hash \<Rightarrow> ('t, 'x) chain \<Rightarrow> ('t, 'x) chain \<Rightarrow> bool" where
  "grows HH c c' \<longleftrightarrow>
     (\<forall>ht h p. getBlockHeader HH c ht h = Some p \<longrightarrow> getBlockHeader HH c' ht h = Some p)"

lemma grows_same [intro]:
  "heightToBlockHeaders c' = heightToBlockHeaders c \<Longrightarrow> grows HH c c'"
  unfolding grows_def by (drule getBlockHeader_cong [where HH = HH]) simp

lemma grows_storeEth: "grows HH c (storeEthHeaderAtHeight c ht eh)"
  by (simp add: grows_def getBlockHeader_storeEth)

lemma grows_trans [trans]: "grows HH a b \<Longrightarrow> grows HH b c \<Longrightarrow> grows HH a c"
  by (simp add: grows_def)

lemma chain_links_mono:
  assumes "grows HH c c'"
  shows "backed HH c r \<Longrightarrow> backed HH c' r" "follows HH c a b \<Longrightarrow> follows HH c' a b"
    "child_of HH c r h \<Longrightarrow> child_of HH c' r h"
  using assms unfolding backed_def follows_def child_of_def grows_def by blast+

lemma chain_ok_mono:
  assumes "chain_ok_but K HH c" "stores_ok_but K HH c'" "chainState c' = chainState c" "grows HH c c'"
  shows "chain_ok_but K HH c'"
proof -
  have "successively (follows HH c') (chainState c)"
    using chain_okD(3) [OF assms(1)] chain_links_mono(2) [OF assms(4)] by (rule successively_mono)
  moreover have "\<forall>r \<in> set (chainState c). backed HH c' r"
    using chain_okD(2) [OF assms(1)] chain_links_mono(1) [OF assms(4)] by blast
  ultimately show ?thesis using assms by (simp add: chain_ok_but_def)
qed

section \<open>The two loops of the chain update\<close>

text \<open>A branch of new entries: each is found in the store, each follows the next, and the
  parent of the last one is \<open>h\<close>.\<close>

definition branch :: "'x header_hash \<Rightarrow> ('t, 'x) chain \<Rightarrow> block_ref list \<Rightarrow> hash \<Rightarrow> bool" where
  "branch HH c ms h \<longleftrightarrow> (\<forall>r \<in> set ms. backed HH c r) \<and> successively (follows HH c) ms \<and>
     (ms \<noteq> [] \<longrightarrow> child_of HH c (last ms) h)"

lemma branch_Nil [simp]: "branch HH c [] h"
  by (simp add: branch_def)

lemma branch_snoc:
  assumes "branch HH c ms h" "getBlockHeader HH c ht h = Some (Some hdr)"
    and "ms \<noteq> [] \<Longrightarrow> unat (ref_height (last ms)) \<le> Suc (unat ht)"
  shows "branch HH c (ms @ [\<lparr>ref_height = ht, ref_hash = h\<rparr>]) (ParentHash hdr)"
  using assms
  by (auto simp: branch_def backed_def follows_def child_of_def successively_append_iff)

lemma branch_append:
  assumes "branch HH c ms (ref_hash k)" "ms \<noteq> []" "unat (ref_height (last ms)) \<le> Suc (unat (ref_height k))"
    and "\<forall>r \<in> set (k # ks). backed HH c r" "successively (follows HH c) (k # ks)"
  shows "(\<forall>r \<in> set (ms @ k # ks). backed HH c r) \<and> successively (follows HH c) (ms @ k # ks)"
  using assms by (auto simp: branch_def follows_def successively_append_iff)

lemma fill_missing_branch:
  assumes "fill_missing HH c bottom ht h ms = Inr e" "branch HH c ms h" "bottom \<le> ht"
    and "ms \<noteq> [] \<Longrightarrow> unat (ref_height (last ms)) = Suc (unat ht)"
  shows "case e of
      ReturnZero \<Rightarrow> True
    | NewState m k \<Rightarrow> k = [] \<and> (\<exists>h'. branch HH c m h') \<and>
        (\<exists>xs. m = ms @ xs \<and> xs \<noteq> [] \<and> hd xs = \<lparr>ref_height = ht, ref_hash = h\<rparr>)
    | LoopExit ht' h' m \<Rightarrow> ht' = bottom \<and> branch HH c m h' \<and>
        (m \<noteq> [] \<longrightarrow> unat (ref_height (last m)) = Suc (unat bottom)) \<and>
        (\<exists>xs. m = ms @ xs \<and> length xs = unat ht - unat bottom \<and>
           (bottom < ht \<longrightarrow> hd xs = \<lparr>ref_height = ht, ref_hash = h\<rparr>))"
  using assms
proof (induction HH c bottom ht h ms rule: fill_missing.induct)
  case (1 HH c bottom ht h ms)
  show ?case
  proof (cases "bottom < ht")
    case False
    with "1.prems" show ?thesis by (auto simp: fill_missing.simps [of HH c bottom])
  next
    case True
    let ?r = "\<lparr>ref_height = ht, ref_hash = h\<rparr>"
    show ?thesis
    proof (cases "getBlockHeader HH c ht h")
      case None
      with True "1.prems"(1) show ?thesis by (auto simp: fill_missing.simps [of HH c bottom])
    next
      case (Some p)
      with True "1.prems"(1) obtain hdr where hdr: "getBlockHeader HH c ht h = Some (Some hdr)"
        by (cases p) (auto simp: fill_missing.simps [of HH c bottom])
      have sn: "branch HH c (ms @ [?r]) (ParentHash hdr)"
        using "1.prems"(2,4) hdr by (auto intro: branch_snoc)
      have un: "Suc (unat (ht - 1)) = unat ht" using True by (rule unat_minus_one_eq)
      show ?thesis
      proof (cases "int (length (ms @ [?r])) \<ge> minValidChain c")
        case True': True
        with True hdr "1.prems"(1) have "e = NewState (ms @ [?r]) []"
          by (auto simp: fill_missing.simps [of HH c bottom])
        with sn show ?thesis by auto
      next
        case False
        with True hdr "1.prems"(1)
        have rec: "fill_missing HH c bottom (ht - 1) (ParentHash hdr) (ms @ [?r]) = Inr e"
          by (auto simp: fill_missing.simps [of HH c bottom ht])
        have le: "bottom \<le> ht - 1" using True un by (simp add: word_le_nat_alt word_less_nat_alt)
        have "ms @ [?r] \<noteq> [] \<Longrightarrow> unat (ref_height (last (ms @ [?r]))) = Suc (unat (ht - 1))"
          using un by simp
        note IH = "1.IH" [OF True hdr refl refl False rec sn le this]
        show ?thesis
        proof (cases e)
          case ReturnZero
          then show ?thesis by simp
        next
          case (NewState m k)
          with IH show ?thesis by auto
        next
          case (LoopExit ht' h' m)
          with IH True un show ?thesis by (auto simp: word_less_nat_alt)
        qed
      qed
    qed
  qed
qed

end
