(* ===== verification/Chain_Invariant.thy ===== *)
theory Chain_Invariant
  imports Chain
begin

text \<open>
  Correctness of the chain of \<^verbatim>\<open>blockchain/eth/chain.go\<close>: the update of the chain state keeps
  the links between its entries, every operation keeps the invariant \<open>chain_ok\<close>, and what the
  queries return for a chain that satisfies it.
\<close>

section \<open>The reorganisation loop\<close>

text \<open>How far the walk down the new branch is from the entry \<open>r\<close> of the chain state.\<close>

definition walk_at :: "block_ref list \<Rightarrow> u64 \<Rightarrow> block_ref \<Rightarrow> bool" where
  "walk_at ms ht r \<longleftrightarrow> ms \<noteq> [] \<and> unat (ref_height (last ms)) \<le> Suc (unat ht) \<and>
     unat (ref_height (last ms)) \<le> Suc (unat (ref_height r)) \<and>
     (unat ht \<le> unat (ref_height r) \<or> 2 ^ 63 \<le> unat ht)"

lemma walk_at_next:
  assumes "walk_at ms ht r" "unat ht < 2 ^ 63" "follows HH c r r'"
  shows "walk_at (ms @ [\<lparr>ref_height = ht, ref_hash = h\<rparr>]) (ht - 1) r'"
proof -
  have le: "unat ht \<le> unat (ref_height r)" using assms(1,2) by (auto simp: walk_at_def)
  have fo: "unat (ref_height r) \<le> Suc (unat (ref_height r'))" using assms(3) by (simp add: follows_def)
  show ?thesis
  proof (cases "ht = 0")
    case True
    then show ?thesis by (simp add: walk_at_def unsigned_minus_1_eq_mask mask_eq_exp_minus_1)
  next
    case False
    then have "unat (ht - 1) = unat ht - 1" "0 < unat ht" by (simp_all add: unat_minus_one unat_gt_0)
    with le fo show ?thesis by (auto simp: walk_at_def)
  qed
qed

lemma reorg_loop_branch:
  assumes "reorg_loop HH c cs i ht h ms = Inr e" "branch HH c ms h" "stores_ok_but K HH c"
    and "\<forall>r \<in> set cs. backed HH c r" "successively (follows HH c) cs"
    and "cs \<noteq> [] \<Longrightarrow> walk_at ms ht (hd cs)"
  shows "case e of
      ReturnZero \<Rightarrow> True
    | NewState m k \<Rightarrow> (\<forall>r \<in> set (m @ k). backed HH c r) \<and> successively (follows HH c) (m @ k) \<and>
        (\<exists>xs. m = ms @ xs) \<and> (\<exists>ys. cs = ys @ k)
    | LoopExit ht' h' m \<Rightarrow> False"
  using assms
proof (induction HH c cs i ht h ms rule: reorg_loop.induct)
  case (1 HH c i ht h ms)
  then show ?case by (auto simp: branch_def)
next
  case (2 HH c r rest i ht h ms)
  let ?n = "\<lparr>ref_height = ht, ref_hash = h\<rparr>"
  have w: "walk_at ms ht r" using "2.prems"(6) by simp
  show ?case
  proof (cases "h = ref_hash r")
    case True
    with "2.prems" w branch_append [of HH c ms r rest] show ?thesis by (auto simp: walk_at_def)
  next
    case False
    show ?thesis
    proof (cases "getBlockHeader HH c ht h")
      case None
      with False "2.prems"(1) show ?thesis by auto
    next
      case (Some p)
      with False "2.prems"(1) obtain hdr where hdr: "getBlockHeader HH c ht h = Some (Some hdr)"
        by (cases p) auto
      have sn: "branch HH c (ms @ [?n]) (ParentHash hdr)"
        using "2.prems"(2) hdr w by (auto intro: branch_snoc simp: walk_at_def)
      have small: "unat ht < 2 ^ 63"
        using hdr "2.prems"(3) by (auto simp: stores_ok_but_def dest: getBlockHeader_stored)
      show ?thesis
      proof (cases "i + 1 \<ge> maxReorg c")
        case True
        with False hdr "2.prems"(1) have "e = NewState (ms @ [?n]) []" by auto
        with sn show ?thesis by (auto simp: branch_def)
      next
        case nomax: False
        with False hdr "2.prems"(1)
        have rec: "reorg_loop HH c rest (i + 1) (ht - 1) (ParentHash hdr) (ms @ [?n]) = Inr e" by auto
        have tl: "\<forall>r \<in> set rest. backed HH c r" "successively (follows HH c) rest"
          using "2.prems"(4,5) by (cases rest; auto)+
        have "rest \<noteq> [] \<Longrightarrow> walk_at (ms @ [?n]) (ht - 1) (hd rest)"
          using walk_at_next [OF w small] "2.prems"(5) by (cases rest) auto
        note IH = "2.IH" [OF False hdr refl refl nomax rec sn "2.prems"(3) tl this]
        then show ?thesis by (cases e) (auto intro: exI [of _ "r # _"])
      qed
    qed
  qed
qed


section \<open>The update of the chain state\<close>

lemma install_simps [simp]:
  "install c ReturnZero = (c, 0)"
  "install c (NewState m k) = (c\<lparr>chainState := m @ k\<rparr>, int (length m))"
  "install c (LoopExit ht h m) = (c, 0)"
  by (simp_all add: install_def)

lemma links_chainState [simp]:
  "stored (c\<lparr>chainState := cs\<rparr>) = stored c"
  "getBlockHeader HH (c\<lparr>chainState := cs\<rparr>) = getBlockHeader HH c"
  "backed HH (c\<lparr>chainState := cs\<rparr>) = backed HH c"
  "child_of HH (c\<lparr>chainState := cs\<rparr>) = child_of HH c"
  "follows HH (c\<lparr>chainState := cs\<rparr>) = follows HH c"
  "branch HH (c\<lparr>chainState := cs\<rparr>) = branch HH c"
  "stores_ok_but K HH (c\<lparr>chainState := cs\<rparr>) = stores_ok_but K HH c"
  by (simp_all add: fun_eq_iff stored_def getBlockHeader_def getHeadersAtHeight_def backed_def
      child_of_def follows_def branch_def stores_ok_but_def)

text \<open>
  The three ways an update ends: no new canonical entry, or \<open>m\<close> new ones on top of a part of
  the old chain state, which after a canonical append has the new block on top already.
\<close>

definition extends :: "('t, 'x) chain \<Rightarrow> ('t, 'x) chain \<Rightarrow> int \<Rightarrow> block_ref \<Rightarrow> bool" where
  "extends c c' n r \<longleftrightarrow> (\<exists>m k ys. chainState c' = m @ k \<and> n = int (length m) \<and> m \<noteq> [] \<and> hd m = r \<and>
     (chainState c = ys @ k \<or> k = r # chainState c))"

lemma extendsI:
  "chainState c' = m @ k \<Longrightarrow> m \<noteq> [] \<Longrightarrow> hd m = r \<Longrightarrow> (chainState c = ys @ k \<or> k = r # chainState c) \<Longrightarrow>
     n = int (length m) \<Longrightarrow> extends c c' n r"
  unfolding extends_def by blast

lemma make_ok_next: "top + 1 = height \<Longrightarrow> make_ok blockRefSize (uint (height - top))" for top height :: u64
  by (auto simp: make_ok_def blockRefSize_def maxAlloc_def)

lemma updateChainState_make:
  assumes "updateChainState HH c height hash parentHash = Inr (c', n)" "chainState c = hd' # tl'" "ref_height hd' < height"
  shows "make_ok blockRefSize (uint (height - ref_height hd'))"
  using assms by (auto simp: updateChainState_def Let_def not_le [symmetric] split: if_splits)

lemma updateChainState_canonical:
  assumes "chainState c = hd' # tl'" "ref_height hd' + 1 = height" "ref_hash hd' = parentHash"
    and "unat (ref_height hd') < 2 ^ 63"
    and "getBlockHeader HH c height hash = Some (Some hdr)" "ParentHash hdr = parentHash"
  shows "updateChainState HH c height hash parentHash =
    (let r = \<lparr>ref_height = height, ref_hash = hash\<rparr>
     in Inr (c\<lparr>chainState := (if minValidChain c \<le> 1 then [r] else r # r # chainState c)\<rparr>, 1))"
proof -
  have un: "unat height = Suc (unat (ref_height hd'))"
    using assms(2,4) unat_plus_one_u64 by auto
  then have lt: "ref_height hd' < height" "\<not> height \<le> ref_height hd'"
    by (simp_all add: word_less_nat_alt word_le_nat_alt)
  have m1: "height - 1 = ref_height hd'" using assms(2) by auto
  show ?thesis
    using assms lt m1 make_ok_next [OF assms(2)]
    by (simp add: updateChainState_def Let_def fill_missing.simps [of HH _ "ref_height hd'" height]
        fill_missing.simps [of HH _ "ref_height hd'" "ref_height hd'"])
qed

definition updated :: "'x header_hash \<Rightarrow> ('t, 'x) chain \<Rightarrow> ('t, 'x) chain \<Rightarrow> int \<Rightarrow> block_ref \<Rightarrow> bool" where
  "updated HH c c' n r \<longleftrightarrow> c' = c\<lparr>chainState := chainState c'\<rparr> \<and>
     (\<forall>r \<in> set (chainState c'). backed HH c r) \<and> successively (follows HH c) (chainState c') \<and>
     (c' = c \<and> n = 0 \<or>
      extends c c' n r \<and> (chainState c = [] \<or> ref_height (hd (chainState c)) < ref_height r))"

lemma updated_skip: "chain_ok_but K HH c \<Longrightarrow> updated HH c c 0 r"
  by (simp add: updated_def chain_ok_but_def)

lemma updated_install:
  assumes "\<forall>r \<in> set (m @ k). backed HH c r" "successively (follows HH c) (m @ k)" "m \<noteq> []" "hd m = r"
    and "chainState c = ys @ k \<or> k = r # chainState c"
    and "chainState c = [] \<or> ref_height (hd (chainState c)) < ref_height r"
  shows "updated HH c (c\<lparr>chainState := m @ k\<rparr>) (int (length m)) r"
  using assms extendsI [of "c\<lparr>chainState := m @ k\<rparr>" m k r c ys] by (auto simp: updated_def)

text \<open>A block above the head that is not its child: both loops are needed.\<close>

lemma updateChainState_above:
  assumes ok: "chain_ok_but K HH c" and cs: "chainState c = hd' # tl'"
    and nc: "\<not> (ref_height hd' + 1 = height \<and> ref_hash hd' = parentHash)"
    and lt: "ref_height hd' < height"
    and upd: "updateChainState HH c height hash parentHash = Inr (c', n)"
  shows "updated HH c c' n \<lparr>ref_height = height, ref_hash = hash\<rparr>" (is "updated HH c c' n ?r")
proof -
  have le: "\<not> height \<le> ref_height hd'" "ref_height hd' \<le> height" using lt by auto
  have u: "updateChainState HH c height hash parentHash =
     gbind (fill_missing HH c (ref_height hd') height hash [])
       (\<lambda>e. case e of
          LoopExit headHeight headHash missingEntries \<Rightarrow>
            if headHeight = ref_height hd' \<and> headHash = ref_hash hd'
            then Inr (install c (NewState missingEntries (chainState c)))
            else gbind (reorg_loop HH c (chainState c) 0 headHeight headHash missingEntries)
                   (\<lambda>e'. Inr (install c e'))
        | _ \<Rightarrow> Inr (install c e))"
    using cs nc le updateChainState_make [OF upd cs lt]
    by (simp only: updateChainState_def list.case Let_def if_False not_True_eq_False)
  with upd obtain e where fm: "fill_missing HH c (ref_height hd') height hash [] = Inr e"
    by (auto simp: gbind_Inr_iff)
  note fb = fill_missing_branch [OF fm branch_Nil le(2)]
  note old = chain_okD [OF ok]
  show ?thesis
  proof (cases e)
    case ReturnZero
    with fm upd u updated_skip [OF ok] show ?thesis by simp
  next
    case (NewState m k)
    with fb have m: "k = []" "\<exists>h. branch HH c m h" "m \<noteq> []" "hd m = ?r" by auto
    with fm upd u NewState updated_install [of m "[]" HH c ?r "chainState c"] cs lt show ?thesis
      by (auto simp: branch_def)
  next
    case (LoopExit ht h m)
    with fb lt have m: "ht = ref_height hd'" "branch HH c m h" "m \<noteq> []" "hd m = ?r"
        "unat (ref_height (last m)) = Suc (unat (ref_height hd'))"
      by (auto simp: word_less_nat_alt)
    show ?thesis
    proof (cases "h = ref_hash hd'")
      case True
      with fm upd u LoopExit m
      have c': "c' = c\<lparr>chainState := m @ chainState c\<rparr>" "n = int (length m)" by simp_all
      have "\<forall>r \<in> set (m @ chainState c). backed HH c r" "successively (follows HH c) (m @ chainState c)"
        using branch_append [of HH c m hd' tl'] m True old(2,3) cs by auto
      with c' m cs lt updated_install [of m "chainState c" HH c ?r "[]"] show ?thesis by simp
    next
      case False
      with fm upd u LoopExit m obtain e' where
        ro: "reorg_loop HH c (chainState c) 0 ht h m = Inr e'" and ins: "install c e' = (c', n)"
        by (auto simp: gbind_Inr_iff)
      have "walk_at m ht (hd (chainState c))" using m cs by (simp add: walk_at_def)
      with reorg_loop_branch [OF ro m(2) old(1)] old(2,3)
      have R: "case e' of ReturnZero \<Rightarrow> True
        | NewState m' k \<Rightarrow> (\<forall>r \<in> set (m' @ k). backed HH c r) \<and> successively (follows HH c) (m' @ k) \<and>
            (\<exists>xs. m' = m @ xs) \<and> (\<exists>ys. chainState c = ys @ k)
        | LoopExit ht' h' m \<Rightarrow> False" by blast
      show ?thesis
      proof (cases e')
        case ReturnZero
        with ins updated_skip [OF ok] show ?thesis by simp
      next
        case (NewState m' k)
        with R m obtain ys where "m' \<noteq> []" "hd m' = ?r" "chainState c = ys @ k" by auto
        with NewState R ins cs lt updated_install [of m' k HH c ?r ys] show ?thesis by auto
      next
        case (LoopExit ht' h' m')
        with R show ?thesis by simp
      qed
    qed
  qed
qed

lemma updateChainState_updated:
  assumes ok: "chain_ok_but K HH c"
    and hdr: "getBlockHeader HH c height hash = Some (Some hdr)" "ParentHash hdr = parentHash"
    and upd: "updateChainState HH c height hash parentHash = Inr (c', n)"
  shows "updated HH c c' n \<lparr>ref_height = height, ref_hash = hash\<rparr>" (is "updated HH c c' n ?r")
proof (cases "chainState c")
  case Nil
  with upd hdr updated_install [of "[?r]" "[]" HH c ?r "[]"] show ?thesis
    by (auto simp: updateChainState_def backed_def)
next
  case (Cons hd' tl')
  have hs: "unat (ref_height hd') < 2 ^ 63"
    using backed_height [OF chain_okD(1,2) [OF ok]] ok Cons by (simp add: chain_ok_but_def)
  note old = chain_okD(2,3) [OF ok]
  show ?thesis
  proof (cases "ref_height hd' + 1 = height \<and> ref_hash hd' = parentHash")
    case True
    let ?k = "if minValidChain c \<le> 1 then [] else ?r # chainState c"
    have "unat height = Suc (unat (ref_height hd'))" using True hs unat_plus_one_u64 by auto
    then have lt: "ref_height hd' < height" and fo: "follows HH c ?r hd'"
      using True hdr by (auto simp: word_less_nat_alt follows_def child_of_def)
    from True updateChainState_canonical [OF Cons _ _ hs hdr] upd
    have "c' = c\<lparr>chainState := [?r] @ ?k\<rparr>" "n = int (length [?r])" by (simp_all add: Let_def)
    moreover have "successively (follows HH c) ([?r] @ ?k)"
      using fo old(2) Cons by (auto simp: follows_def)
    moreover have "\<forall>r \<in> set ([?r] @ ?k). backed HH c r"
      using hdr old(1) by (auto simp: backed_def)
    ultimately show ?thesis
      using updated_install [of "[?r]" ?k HH c ?r "if minValidChain c \<le> 1 then chainState c else []"] lt Cons
      by simp
  next
    case False
    show ?thesis
    proof (cases "height \<le> ref_height hd'")
      case True
      with False Cons upd updated_skip [OF ok] show ?thesis
        by (simp add: updateChainState_def Let_def split: if_splits)
    next
      case gt: False
      then show ?thesis using updateChainState_above [OF ok Cons False _ upd] by simp
    qed
  qed
qed

section \<open>The operations keep the invariant\<close>

lemma stores_okI:
  assumes "\<And>ht hdr. stored c ht hdr \<Longrightarrow> ht = big_Uint64 (Number hdr) \<and> unat ht < 2 ^ 63 \<and> (HH (Some hdr) \<in> K \<or>
        HH (Some hdr) \<in> dom (blockHashToMetadata c) \<and> HH (Some hdr) \<in> dom (blockHashToBody c))"
    and "\<And>ht es eh hdr. heightToBlockHeaders c ht = Some es \<Longrightarrow> eh \<in> set es \<Longrightarrow> eh_Header eh = Some hdr \<Longrightarrow>
        eh_hash eh = HH (Some hdr)"
    and "\<And>h. h \<in> dom (blockHashToBody c) \<Longrightarrow> \<exists>ht hdr. stored c ht hdr \<and> HH (Some hdr) = h"
  shows "stores_ok_but K HH c"
  using assms unfolding stores_ok_but_def by blast

lemma stores_okD:
  assumes "stores_ok_but K HH c"
  shows "stored c ht hdr \<Longrightarrow> ht = big_Uint64 (Number hdr)"
    "stored c ht hdr \<Longrightarrow> unat ht < 2 ^ 63"
    "stored c ht hdr \<Longrightarrow> HH (Some hdr) \<in> K \<or> HH (Some hdr) \<in> dom (blockHashToMetadata c)"
    "stored c ht hdr \<Longrightarrow> HH (Some hdr) \<in> K \<or> HH (Some hdr) \<in> dom (blockHashToBody c)"
    "heightToBlockHeaders c ht = Some es \<Longrightarrow> eh \<in> set es \<Longrightarrow> eh_Header eh = Some hdr \<Longrightarrow>
        eh_hash eh = HH (Some hdr)"
    "h \<in> dom (blockHashToBody c) \<Longrightarrow> \<exists>ht hdr. stored c ht hdr \<and> HH (Some hdr) = h"
  using assms unfolding stores_ok_but_def by blast+

text \<open>Operations that touch only metadata and difficulties.\<close>

lemma stores_ok_same_headers:
  assumes "stores_ok_but K HH c" "heightToBlockHeaders c' = heightToBlockHeaders c"
    and "blockHashToBody c' = blockHashToBody c"
    and "dom (blockHashToMetadata c) \<subseteq> dom (blockHashToMetadata c')"
  shows "stores_ok_but K HH c'"
proof -
  have st: "stored c' = stored c" using assms(2) by (rule stored_cong)
  show ?thesis
    using stores_okD [OF assms(1)] assms(2-4) unfolding stores_ok_but_def st by (simp add: subset_iff) blast
qed

lemma chain_ok_same_headers:
  assumes "chain_ok_but K HH c" "heightToBlockHeaders c' = heightToBlockHeaders c"
    and "blockHashToBody c' = blockHashToBody c" "chainState c' = chainState c"
    and "dom (blockHashToMetadata c) \<subseteq> dom (blockHashToMetadata c')"
  shows "chain_ok_but K HH c'"
  using assms chain_ok_mono [OF assms(1) stores_ok_same_headers [OF chain_okD(1) [OF assms(1)]]]
  by blast

lemma MarkSentToBDN_fields [simp, store_simps]:
  "heightToBlockHeaders (MarkSentToBDN c h) = heightToBlockHeaders c"
  "blockHashToBody (MarkSentToBDN c h) = blockHashToBody c"
  "blockHashToDifficulty (MarkSentToBDN c h) = blockHashToDifficulty c"
  "chainState (MarkSentToBDN c h) = chainState c"
  "dom (blockHashToMetadata (MarkSentToBDN c h)) = dom (blockHashToMetadata c)"
  by (auto simp: MarkSentToBDN_def split: option.splits)

lemma chain_ok_MarkSentToBDN: "chain_ok_but K HH c \<Longrightarrow> chain_ok_but K HH (MarkSentToBDN c h)"
  by (erule chain_ok_same_headers) auto

lemma chain_ok_storeBlockMetadata: "chain_ok_but K HH c \<Longrightarrow> chain_ok_but K HH (storeBlockMetadata c h ht cf cs)"
  by (erule chain_ok_same_headers) auto

lemma chain_ok_storeBlockDifficulty: "chain_ok_but K HH c \<Longrightarrow> chain_ok_but K HH (storeBlockDifficulty c h d)"
  by (erule chain_ok_same_headers) auto

lemma chain_ok_SetTotalDifficulty:
  "chain_ok_but K HH c \<Longrightarrow> SetTotalDifficulty HH c info = (c', info', err) \<Longrightarrow> chain_ok_but K HH c'"
  by (auto simp: SetTotalDifficulty_def Let_def chain_ok_storeBlockDifficulty split: option.splits)

lemma stores_ok_nil_entry:
  "stores_ok_but K HH c \<Longrightarrow> stores_ok_but K HH (storeEthHeaderAtHeight c ht \<lparr>eh_Header = None, eh_hash = h\<rparr>)"
  apply (rule stores_okI)
  subgoal for ht' hdr using stores_okD(1-4) [of K HH c ht' hdr] by (auto simp: stored_storeEth)
  subgoal using stores_okD(5) [of K HH c]
    by (fastforce simp: storeEthHeaderAtHeight_headers split: if_splits option.splits)
  subgoal using stores_okD(6) [of K HH c] by (simp add: stored_storeEth)
  done

lemma chain_ok_InitializeDifficulty: "chain_ok_but K HH c \<Longrightarrow> chain_ok_but K HH (InitializeDifficulty c h td)"
  unfolding InitializeDifficulty_def Let_def
  by (intro chain_ok_storeBlockMetadata
      chain_ok_mono [OF chain_ok_storeBlockDifficulty stores_ok_nil_entry])
    (auto intro: chain_okD(1) chain_ok_storeBlockDifficulty grows_storeEth)

lemma storeBlock_fields [simp, store_simps]:
  "chainState (storeBlock HH c b d s) = chainState c"
  "heightToBlockHeaders (storeBlock HH c b d s) = heightToBlockHeaders (storeEthHeaderAtHeight c (NumberU64 b)
     \<lparr>eh_Header = Some (blk_header b), eh_hash = block_Hash HH b\<rparr>)"
  "blockHashToBody (storeBlock HH c b d s) = (blockHashToBody c)(block_Hash HH b \<mapsto> blk_body b)"
  "dom (blockHashToMetadata (storeBlock HH c b d s)) = insert (block_Hash HH b) (dom (blockHashToMetadata c))"
  by (simp_all add: storeBlock_def storeBlockHeader_def storeBlockBody_def storeHeaderAtHeight_def
      Let_def NumberU64_def block_Hash_def)

lemma stored_storeBlock:
  "stored (storeBlock HH c b d s) ht hdr \<longleftrightarrow> stored c ht hdr \<or> (ht = NumberU64 b \<and> hdr = blk_header b)"
proof -
  have "stored (storeBlock HH c b d s) = stored (storeEthHeaderAtHeight c (NumberU64 b)
     \<lparr>eh_Header = Some (blk_header b), eh_hash = block_Hash HH b\<rparr>)"
    by (rule stored_cong) simp
  then show ?thesis by (auto simp: stored_storeEth)
qed

lemma grows_storeBlock: "grows HH c (storeBlock HH c b d s)"
  by (rule grows_trans [OF grows_storeEth grows_same]) (rule storeBlock_fields)

lemma stores_ok_storeBlock:
  assumes "stores_ok_but K HH c" "unat (NumberU64 b) < 2 ^ 63"
  shows "stores_ok_but K HH (storeBlock HH c b d s)"
  apply (rule stores_okI)
  subgoal using stores_okD(1-4) [OF assms(1)] assms(2)
    by (simp add: stored_storeBlock block_Hash_def NumberU64_def) blast
  subgoal using stores_okD(5) [OF assms(1)]
    by (fastforce simp: storeEthHeaderAtHeight_headers block_Hash_def split: if_splits option.splits)
  subgoal using stores_okD(6) [OF assms(1)] by (simp add: stored_storeBlock block_Hash_def) blast
  done

lemma chain_ok_storeBlock:
  "chain_ok_but K HH c \<Longrightarrow> unat (NumberU64 b) < 2 ^ 63 \<Longrightarrow> chain_ok_but K HH (storeBlock HH c b d s)"
  by (rule chain_ok_mono [of K HH c]) (simp_all add: stores_ok_storeBlock chain_okD(1) grows_storeBlock)

text \<open>A block that passed through \<open>AddBlock\<close> can be looked up under its height and hash.\<close>

lemma stored_lookup:
  assumes "hash_binds HH" "stored c (NumberU64 b) hdr" "HH (Some hdr) = block_Hash HH b"
  shows "\<exists>hdr'. getBlockHeader HH c (NumberU64 b) (block_Hash HH b) = Some (Some hdr') \<and>
     ParentHash hdr' = ParentHash (blk_header b)"
proof -
  from stored_getBlockHeader [OF assms(2), of HH] assms(3)
  obtain p where p: "getBlockHeader HH c (NumberU64 b) (block_Hash HH b) = Some p" by auto
  then have "HH p = block_Hash HH b"
    by (auto simp: getBlockHeader_def dest: find_header_Some split: option.splits)
  with hash_bindsD(3) [OF assms(1), of "blk_header b"] obtain hdr' where
    hdr': "p = Some hdr'" "HH (Some hdr') = HH (Some (blk_header b))"
    by (cases p) (auto simp: block_Hash_def)
  from hash_bindsD(2) [OF assms(1) hdr'(2)] p hdr'(1) show ?thesis by blast
qed

definition AddBlock_store :: "'x header_hash \<Rightarrow> ('t, 'x) chain \<Rightarrow> ('t, 'x) block_info \<Rightarrow> block_source \<Rightarrow> ('t, 'x) chain" where
  "AddBlock_store HH c b source =
     (if HasBlock c (block_Hash HH (bi_Block b))
      then storeBlockMetadata c (block_Hash HH (bi_Block b)) (NumberU64 (bi_Block b)) (source = BSBlockchain) False
      else storeBlock HH c (bi_Block b) (TotalDifficulty b) source)"

lemma AddBlock_split:
  "AddBlock HH c b source =
     (if source = BSBDN then Inr (AddBlock_store HH c b source, 0)
      else updateChainState HH (AddBlock_store HH c b source) (NumberU64 (bi_Block b))
             (block_Hash HH (bi_Block b)) (ParentHash (blk_header (bi_Block b))))"
  by (simp add: AddBlock_def AddBlock_store_def Let_def)

lemma chain_ok_AddBlock_store:
  "chain_ok_but K HH c \<Longrightarrow> unat (NumberU64 (bi_Block b)) < 2 ^ 63 \<Longrightarrow> chain_ok_but K HH (AddBlock_store HH c b source)"
  by (simp add: AddBlock_store_def chain_ok_storeBlockMetadata chain_ok_storeBlock)

lemma chainState_AddBlock_store [simp]: "chainState (AddBlock_store HH c b source) = chainState c"
  by (simp add: AddBlock_store_def)

lemma AddBlock_store_lookup:
  assumes "hash_binds HH" "stores_ok_but K HH c"
  shows "\<exists>hdr. getBlockHeader HH (AddBlock_store HH c b source) (NumberU64 (bi_Block b)) (block_Hash HH (bi_Block b))
       = Some (Some hdr) \<and> ParentHash hdr = ParentHash (blk_header (bi_Block b))"
proof (cases "HasBlock c (block_Hash HH (bi_Block b))")
  case True
  then have "block_Hash HH (bi_Block b) \<in> dom (blockHashToBody c)" by (auto simp: HasBlock_def hasBody_def)
  then obtain ht hdr where st: "stored c ht hdr" "HH (Some hdr) = block_Hash HH (bi_Block b)"
    using stores_okD(6) [OF assms(2)] by blast
  have "ht = NumberU64 (bi_Block b)"
    using stores_okD(1) [OF assms(2) st(1)] hash_bindsD(1) [OF assms(1) st(2) [unfolded block_Hash_def]]
    by (simp add: NumberU64_def)
  moreover have "stored (AddBlock_store HH c b source) = stored c"
    using True by (intro stored_cong) (simp add: AddBlock_store_def)
  ultimately show ?thesis using st by (intro stored_lookup [OF assms(1)]) auto
next
  case False
  then show ?thesis
    by (intro stored_lookup [OF assms(1)]) (auto simp: AddBlock_store_def stored_storeBlock block_Hash_def)
qed

lemma AddBlock_updated:
  assumes "hash_binds HH" "chain_ok_but K HH c" "unat (NumberU64 (bi_Block b)) < 2 ^ 63"
    and "AddBlock HH c b BSBlockchain = Inr (c', n)"
  shows "updated HH (AddBlock_store HH c b BSBlockchain) c' n
     \<lparr>ref_height = NumberU64 (bi_Block b), ref_hash = block_Hash HH (bi_Block b)\<rparr>"
proof -
  from AddBlock_store_lookup [OF assms(1) chain_okD(1) [OF assms(2)]] obtain hdr where
    "getBlockHeader HH (AddBlock_store HH c b BSBlockchain) (NumberU64 (bi_Block b)) (block_Hash HH (bi_Block b))
       = Some (Some hdr)" "ParentHash hdr = ParentHash (blk_header (bi_Block b))" by blast
  with assms show ?thesis
    by (intro updateChainState_updated [OF chain_ok_AddBlock_store, where hdr = hdr])
      (simp_all add: AddBlock_split)
qed

lemma updated_chain_ok:
  assumes "updated HH c c' n r" "chain_ok_but K HH c"
  shows "chain_ok_but K HH c'"
proof -
  from assms(1) have "c' = c\<lparr>chainState := chainState c'\<rparr>"
    and link: "\<forall>r \<in> set (chainState c'). backed HH c r" "successively (follows HH c) (chainState c')"
    by (simp_all add: updated_def)
  then obtain cs where "c' = c\<lparr>chainState := cs\<rparr>" by blast
  with link assms(2) show ?thesis by (simp add: chain_ok_but_def)
qed

lemma chain_ok_AddBlock:
  assumes "hash_binds HH" "chain_ok_but K HH c" "unat (NumberU64 (bi_Block b)) < 2 ^ 63"
    and "AddBlock HH c b source = Inr (c', n)"
  shows "chain_ok_but K HH c'"
proof (cases source)
  case BSBDN
  with assms show ?thesis by (auto simp: AddBlock_split chain_ok_AddBlock_store)
next
  case BSBlockchain
  with assms show ?thesis
    using updated_chain_ok [OF AddBlock_updated chain_ok_AddBlock_store] by blast
qed

lemma ConfirmBlock_cases:
  assumes "ConfirmBlock HH c h = Inr (c', n)" "chain_ok_but K HH c"
  obtains "c' = c" "n = 0" | "c' = storeBlockMetadata c h 0 True False" "n = 0"
  | ht where "chain_ok_but K HH (storeBlockMetadata c h 0 True False)"
      "updated HH (storeBlockMetadata c h 0 True False) c' n \<lparr>ref_height = ht, ref_hash = h\<rparr>"
proof (cases "blockHashToMetadata c h")
  case None
  with assms that show ?thesis by (simp add: ConfirmBlock_def)
next
  case (Some bm)
  let ?c1 = "storeBlockMetadata c h 0 True False"
  have ok: "chain_ok_but K HH ?c1" using assms(2) by (rule chain_ok_storeBlockMetadata)
  from Some have eq: "c\<lparr>blockHashToMetadata := (blockHashToMetadata c)(h \<mapsto> bm\<lparr>confirmed := True\<rparr>)\<rparr> = ?c1"
    by (simp add: storeBlockMetadata_def)
  from Some assms(1) have "(case getBlockHeader HH ?c1 (bm_height bm) h of
      None \<Rightarrow> Inr (?c1, 0) | Some None \<Rightarrow> Inl NilDereference
    | Some (Some header) \<Rightarrow> updateChainState HH ?c1 (bm_height bm) h (ParentHash header)) = Inr (c', n)"
    by (simp add: ConfirmBlock_def Let_def eq)
  then consider "c' = ?c1" "n = 0" | hdr where "getBlockHeader HH ?c1 (bm_height bm) h = Some (Some hdr)"
      "updateChainState HH ?c1 (bm_height bm) h (ParentHash hdr) = Inr (c', n)"
    by (auto split: option.splits)
  then show ?thesis
    using that(2,3) updateChainState_updated [OF ok _ refl] ok by cases blast+
qed

lemma chain_ok_ConfirmBlock: "chain_ok_but K HH c \<Longrightarrow> ConfirmBlock HH c h = Inr (c', n) \<Longrightarrow> chain_ok_but K HH c'"
  by (erule ConfirmBlock_cases) (auto intro: chain_ok_storeBlockMetadata updated_chain_ok)

section \<open>Cleaning\<close>

definition without :: "('k \<rightharpoonup> 'v) \<Rightarrow> 'k set \<Rightarrow> ('k \<rightharpoonup> 'v)" where
  "without m S = (\<lambda>k. if k \<in> S then None else m k)"

lemma without_simps [simp]:
  "without m S k = (if k \<in> S then None else m k)"
  "dom (without m S) = dom m - S"
  "without (without m S) T = without m (S \<union> T)"
  "without m {} = m"
  by (auto simp: without_def fun_eq_iff split: if_splits)

definition pruned :: "('t, 'x) chain \<Rightarrow> u64 set \<Rightarrow> hash set \<Rightarrow> ('t, 'x) chain" where
  "pruned c K P = c\<lparr>heightToBlockHeaders := without (heightToBlockHeaders c) K,
     blockHashToMetadata := without (blockHashToMetadata c) P,
     blockHashToBody := without (blockHashToBody c) P,
     blockHashToDifficulty := without (blockHashToDifficulty c) P\<rparr>"

lemma pruned_simps [simp]:
  "heightToBlockHeaders (pruned c K P) = without (heightToBlockHeaders c) K"
  "blockHashToMetadata (pruned c K P) = without (blockHashToMetadata c) P"
  "blockHashToBody (pruned c K P) = without (blockHashToBody c) P"
  "blockHashToDifficulty (pruned c K P) = without (blockHashToDifficulty c) P"
  "chainState (pruned c K P) = chainState c"
  "pruned (pruned c K P) K' P' = pruned c (K \<union> K') (P \<union> P')"
  "pruned c {} {} = c"
  by (simp_all add: pruned_def)

lemma pruneHash_pruned: "pruneHash c h = pruned c {} {h}"
  by (auto simp: pruneHash_def pruned_def without_def fun_eq_iff)

lemma prune_headers_pruned:
  "prune_headers ht es c cnt = (c', cnt') \<Longrightarrow>
     c' = pruned c {} (eh_hash ` set es) \<and> snd (snd cnt') = snd (snd cnt) + int (length es)"
  by (induction ht es c cnt rule: prune_headers.induct) (auto simp: pruneHash_pruned)

text \<open>The entries the cleaning removes.\<close>

definition below :: "int \<Rightarrow> u64 \<Rightarrow> bool" where
  "below minHeight k \<longleftrightarrow> uint k < 2 ^ 63 \<and> uint k < minHeight"

definition below_hashes :: "int \<Rightarrow> (u64 \<times> 'x header_entry list) list \<Rightarrow> hash set" where
  "below_hashes minHeight items = (\<Union>(k, es) \<in> set items. if below minHeight k then eh_hash ` set es else {})"

lemma clean_heights_pruned:
  "clean_heights minHeight items c cnt = (c', cnt') \<Longrightarrow>
     c' = pruned c {k \<in> fst ` set items. below minHeight k} (below_hashes minHeight items) \<and>
     snd (snd cnt') = snd (snd cnt) +
       int (length (concat (map snd (filter (\<lambda>(k, es). below minHeight k) items))))"
proof (induction minHeight items c cnt rule: clean_heights.induct)
  case (1 minHeight c cnt)
  then show ?case by (simp add: below_hashes_def)
next
  case (2 minHeight k es items c cnt)
  have b: "below minHeight k \<longleftrightarrow> (\<exists>h. Atoi_height k = Some h \<and> h < minHeight)"
    by (simp add: below_def Atoi_height_def)
  show ?case
  proof (cases "below minHeight k")
    case False
    then have "{k' \<in> fst ` set ((k, es) # items). below minHeight k'} =
      {k \<in> fst ` set items. below minHeight k}" by auto
    moreover have "below_hashes minHeight ((k, es) # items) = below_hashes minHeight items"
      using False by (simp add: below_hashes_def)
    ultimately show ?thesis using False 2 b by (auto split: option.splits if_splits)
  next
    case True
    with b obtain ht where ht: "Atoi_height k = Some ht" "ht < minHeight" by blast
    let ?c1 = "c\<lparr>heightToBlockHeaders := (heightToBlockHeaders c)(k := None)\<rparr>"
    obtain c2 cnt2 where p: "prune_headers ht es ?c1 cnt = (c2, cnt2)" by (rule prod.exhaust)
    have c1: "?c1 = pruned c {k} {}" by (auto simp: pruned_def without_def fun_eq_iff)
    have ch: "clean_heights minHeight items c2 cnt2 = (c', cnt')"
      using 2(4) ht p by (simp add: Let_def)
    have "c' = pruned c2 {k \<in> fst ` set items. below minHeight k} (below_hashes minHeight items) \<and>
      snd (snd cnt') = snd (snd cnt2) +
        int (length (concat (map snd (filter (\<lambda>(k, es). below minHeight k) items))))"
      using "2.IH"(2) [OF ht(1,2) refl p [symmetric] refl ch] .
    moreover have "c2 = pruned c {k} (eh_hash ` set es)" "snd (snd cnt2) = snd (snd cnt) + int (length es)"
      using prune_headers_pruned [OF p] c1 by simp_all
    moreover have "{k} \<union> {k \<in> fst ` set items. below minHeight k} =
        {k' \<in> fst ` set ((k, es) # items). below minHeight k'}" using True by auto
    ultimately show ?thesis using True by (simp add: below_hashes_def)
  qed
qed

text \<open>Heights drop by at most one from entry to entry.\<close>

lemma chain_heights:
  "successively (follows HH c) cs \<Longrightarrow> i < length cs \<Longrightarrow> unat (ref_height (hd cs)) \<le> unat (ref_height (cs ! i)) + i"
proof (induction cs arbitrary: i)
  case Nil
  then show ?case by simp
next
  case (Cons r cs)
  show ?case
  proof (cases i)
    case (Suc j)
    with Cons.prems have j: "j < length cs" "cs \<noteq> []" "successively (follows HH c) cs" "follows HH c r (hd cs)"
      by (auto simp: successively_Cons)
    with Cons.IH [of j] Suc show ?thesis by (auto simp: follows_def)
  qed simp
qed

text \<open>
  The hashes of the entries without header, which \<open>InitializeDifficulty\<close> stores. An entry with a header that is removed
  takes along only its own block; these entries can take along a block that stays.
\<close>

definition entries_at :: "('t, 'x) chain \<Rightarrow> u64 \<Rightarrow> 'x header_entry list" where
  "entries_at c k = (case heightToBlockHeaders c k of None \<Rightarrow> [] | Some es \<Rightarrow> es)"

definition nil_hashes :: "('t, 'x) chain \<Rightarrow> hash set" where
  "nil_hashes c = {h. \<exists>k. \<exists>eh \<in> set (entries_at c k). eh_Header eh = None \<and> eh_hash eh = h}"

text \<open>Those of them at the heights that are removed: the blocks that are lost, whatever their height.\<close>

definition lost_hashes :: "('t, 'x) chain \<Rightarrow> int \<Rightarrow> hash set" where
  "lost_hashes c minHeight =
     {h. \<exists>k. below minHeight k \<and> (\<exists>eh \<in> set (entries_at c k). eh_Header eh = None \<and> eh_hash eh = h)}"

lemma lost_hashes_nil: "lost_hashes c mh \<subseteq> nil_hashes c"
  by (auto simp: lost_hashes_def nil_hashes_def)

definition min_height :: "('t, 'x) chain \<Rightarrow> int \<Rightarrow> int" where
  "min_height c maxSize = uint (ref_height (chain_head (chainState c))) - maxSize + 1"

lemma stored_pruned: "stored (pruned c K P) ht hdr \<longleftrightarrow> stored c ht hdr \<and> ht \<notin> K"
  by (auto simp: stored_def split: if_splits)

lemma kept_hash_not_pruned:
  assumes "hash_binds HH" "stores_ok_but K HH c" "enumerates items (heightToBlockHeaders c)"
    and "lost_hashes c mh \<subseteq> K" "stored c ht hdr" "\<not> below mh ht" "HH (Some hdr) \<notin> K"
  shows "HH (Some hdr) \<notin> below_hashes mh items"
proof
  assume "HH (Some hdr) \<in> below_hashes mh items"
  then obtain k es eh where e: "(k, es) \<in> set items" "below mh k" "eh \<in> set es" "eh_hash eh = HH (Some hdr)"
    by (auto simp: below_hashes_def split: if_splits)
  have hk: "heightToBlockHeaders c k = Some es" using enumerates_lookup [OF assms(3) e(1)] .
  show False
  proof (cases "eh_Header eh")
    case None
    then have "HH (Some hdr) \<in> lost_hashes c mh" using hk e(2-4)
      by (auto simp: lost_hashes_def entries_at_def intro!: exI [of _ k] bexI [of _ eh])
    with assms(4,7) show False by blast
  next
    case (Some hdr0)
    then have st: "stored c k hdr0" using hk e(3) by (auto simp: stored_def)
    have "HH (Some hdr0) = HH (Some hdr)" using stores_okD(5) [OF assms(2) hk e(3) Some] e(4) by simp
    then have "Number hdr0 = Number hdr" by (rule hash_bindsD(1) [OF assms(1)])
    then have "k = ht" using stores_okD(1) [OF assms(2)] st assms(5) by metis
    with e(2) assms(6) show False by simp
  qed
qed

lemma stores_ok_pruned:
  assumes "hash_binds HH" "stores_ok_but K HH c" "enumerates items (heightToBlockHeaders c)" "lost_hashes c mh \<subseteq> K"
  shows "stores_ok_but K HH (pruned c {k \<in> fst ` set items. below mh k} (below_hashes mh items))"
    (is "stores_ok_but K HH (pruned c ?K ?P)")
proof (rule stores_okI)
  fix ht hdr assume "stored (pruned c ?K ?P) ht hdr"
  then have st: "stored c ht hdr" and "ht \<notin> ?K" by (simp_all add: stored_pruned)
  moreover have "ht \<in> fst ` set items"
    using st enumerates_keys [OF assms(3)] by (auto simp: stored_def)
  ultimately have "\<not> below mh ht" by simp
  then have "HH (Some hdr) \<in> K \<or> HH (Some hdr) \<notin> ?P" using kept_hash_not_pruned [OF assms] st by blast
  with stores_okD(1-4) [OF assms(2) st]
  show "ht = big_Uint64 (Number hdr) \<and> unat ht < 2 ^ 63 \<and> (HH (Some hdr) \<in> K \<or>
    HH (Some hdr) \<in> dom (blockHashToMetadata (pruned c ?K ?P)) \<and> HH (Some hdr) \<in> dom (blockHashToBody (pruned c ?K ?P)))"
    by auto
next
  fix ht es eh hdr assume "heightToBlockHeaders (pruned c ?K ?P) ht = Some es" "eh \<in> set es" "eh_Header eh = Some hdr"
  then show "eh_hash eh = HH (Some hdr)" using stores_okD(5) [OF assms(2)] by (auto split: if_splits)
next
  fix h assume "h \<in> dom (blockHashToBody (pruned c ?K ?P))"
  then have h: "h \<in> dom (blockHashToBody c)" "h \<notin> ?P" by simp_all
  then obtain ht hdr where st: "stored c ht hdr" "HH (Some hdr) = h" using stores_okD(6) [OF assms(2)] by blast
  have "ht \<notin> ?K"
  proof
    assume "ht \<in> ?K"
    then obtain es where it: "(ht, es) \<in> set items" "below mh ht" by auto
    obtain eh where eh: "eh \<in> set es" "eh_Header eh = Some hdr"
      using st(1) enumerates_lookup [OF assms(3) it(1)] by (auto simp: stored_def)
    then have "eh_hash eh = h"
      using stores_okD(5) [OF assms(2) enumerates_lookup [OF assms(3) it(1)] eh] st(2) by simp
    with eh it h(2) show False by (force simp: below_hashes_def)
  qed
  with st show "\<exists>ht hdr. stored (pruned c ?K ?P) ht hdr \<and> HH (Some hdr) = h" by (auto simp: stored_pruned)
qed

lemma clean_min_height:
  assumes "chainState c = hd' # tl'" "unat (ref_height hd') < 2 ^ 63" "1 \<le> maxSize" "maxSize < 2 ^ 63"
  shows "wrap64 (wrap64 (sint (ref_height hd') - maxSize) + 1) = min_height c maxSize"
proof -
  define x where "x = uint (ref_height hd')"
  have "0 \<le> x" "x < 2 ^ 63" using uint_small_u64 [OF assms(2)] by (simp_all add: x_def)
  then have "int64_range (x - maxSize)" "int64_range (x - maxSize + 1)"
    using assms(3,4) by (simp_all add: int64_range_def)
  moreover have "sint (ref_height hd') = x" using sint_small_u64 [OF assms(2)] by (simp add: x_def)
  ultimately show ?thesis using assms(1) by (simp add: wrap64_id min_height_def chain_head_def x_def)
qed

lemma chain_clean_pruned:
  assumes "chain_ok_but K HH c" "1 \<le> maxSize" "maxSize < 2 ^ 63" "chain_clean items c maxSize = Inr (c', cnt)"
  shows "c' = c \<or> c' = pruned c {k \<in> fst ` set items. below (min_height c maxSize) k}
      (below_hashes (min_height c maxSize) items)\<lparr>chainState := take (nat maxSize) (chainState c)\<rparr>"
proof (cases "chainState c")
  case Nil
  with assms(4) show ?thesis by (simp add: chain_clean_def)
next
  case (Cons hd' tl')
  have small: "unat (ref_height hd') < 2 ^ 63"
    using backed_height [OF chain_okD(1,2) [OF assms(1)]] assms(1) Cons by (simp add: chain_ok_but_def)
  note mh = clean_min_height [OF Cons small assms(2,3)]
  obtain c1 cnt1 where ch: "clean_heights (min_height c maxSize) items c (sint (ref_height hd'), 0, 0) = (c1, cnt1)"
    by (rule prod.exhaust)
  note p = conjunct1 [OF clean_heights_pruned [OF ch]]
  have "take (nat maxSize) (chainState c) = chainState c" if "int (length (chainState c)) \<le> maxSize"
    using that by (simp add: nat_le_iff)
  with assms(2,4) Cons ch p mh show ?thesis
    by (auto simp: chain_clean_def Let_def pruned_def split: if_splits)
qed

lemma getBlockHeader_pruned:
  "ht \<notin> K \<Longrightarrow> getBlockHeader HH (pruned c K P) ht h = getBlockHeader HH c ht h"
  by (simp add: getBlockHeader_def getHeadersAtHeight_def)

lemma kept_entry_above:
  assumes "chain_ok_but K HH c" "r \<in> set (take (nat maxSize) (chainState c))" "1 \<le> maxSize"
  shows "\<not> below (min_height c maxSize) (ref_height r)"
proof -
  from assms(2) obtain i where i: "i < length (chainState c)" "int i < maxSize" "chainState c ! i = r"
    by (auto simp: in_set_conv_nth)
  with chain_heights [OF chain_okD(3) [OF assms(1)] i(1)]
  have "unat (ref_height (chain_head (chainState c))) \<le> unat (ref_height r) + i"
    by (cases "chainState c") (auto simp: chain_head_def)
  then have "uint (ref_height (chain_head (chainState c))) \<le> uint (ref_height r) + int i"
    unfolding uint_nat by (metis of_nat_add of_nat_le_iff)
  with i(2) show ?thesis by (simp add: below_def min_height_def)
qed

lemma follows_cong:
  "getBlockHeader HH c' (ref_height a) (ref_hash a) = getBlockHeader HH c (ref_height a) (ref_hash a) \<Longrightarrow>
     follows HH c' a b \<longleftrightarrow> follows HH c a b"
  "getBlockHeader HH c' (ref_height a) (ref_hash a) = getBlockHeader HH c (ref_height a) (ref_hash a) \<Longrightarrow>
     backed HH c' a \<longleftrightarrow> backed HH c a"
  by (simp_all add: follows_def child_of_def backed_def)

lemma chain_ok_clean:
  assumes "hash_binds HH" "chain_ok_but K HH c" "enumerates items (heightToBlockHeaders c)"
    and "1 \<le> maxSize" "maxSize < 2 ^ 63" "lost_hashes c (min_height c maxSize) \<subseteq> K"
    and "chain_clean items c maxSize = Inr (c', cnt)"
  shows "chain_ok_but K HH c'"
proof -
  let ?K = "{k \<in> fst ` set items. below (min_height c maxSize) k}"
  let ?p = "pruned c ?K (below_hashes (min_height c maxSize) items)"
  let ?cs = "take (nat maxSize) (chainState c)"
  have "chain_ok_but K HH (?p\<lparr>chainState := ?cs\<rparr>)"
  proof -
    have same: "getBlockHeader HH ?p (ref_height r) (ref_hash r) = getBlockHeader HH c (ref_height r) (ref_hash r)"
      if "r \<in> set ?cs" for r
      using kept_entry_above [OF assms(2) that assms(4)] by (simp add: getBlockHeader_pruned)
    have "successively (follows HH c) ?cs"
      using chain_okD(3) [OF assms(2)] append_take_drop_id [of "nat maxSize" "chainState c"]
      by (metis successively_append_iff)
    then have "successively (follows HH ?p) ?cs"
      by (rule successively_mono) (use follows_cong(1) [OF same] in blast)
    moreover have "\<forall>r \<in> set ?cs. backed HH ?p r"
      using follows_cong(2) [OF same] chain_okD(2) [OF assms(2)] by (meson in_set_takeD)
    ultimately show ?thesis
      using stores_ok_pruned [OF assms(1) chain_okD(1) [OF assms(2)] assms(3,6)] by (simp add: chain_ok_but_def)
  qed
  moreover from chain_clean_pruned [OF assms(2,4,5,7)]
  have "c' = c \<or> c' = ?p\<lparr>chainState := ?cs\<rparr>" .
  ultimately show ?thesis using assms(2) by (elim disjE) (simp_all only:)
qed

text \<open>Which hashes of entries without header there are.\<close>

lemma nil_hashes_cong: "heightToBlockHeaders c' = heightToBlockHeaders c \<Longrightarrow> nil_hashes c' = nil_hashes c"
  by (simp add: nil_hashes_def entries_at_def)

lemma entries_at_storeEth:
  "entries_at (storeEthHeaderAtHeight c ht eh) k = (if k = ht then entries_at c k @ [eh] else entries_at c k)"
  by (simp add: entries_at_def storeEthHeaderAtHeight_headers split: option.split)

lemma nil_hashes_storeEth:
  "nil_hashes (storeEthHeaderAtHeight c ht eh) = (if eh_Header eh = None then {eh_hash eh} else {}) \<union> nil_hashes c"
  by (auto simp: nil_hashes_def entries_at_storeEth split: if_splits)

lemma nil_hashes_pruned: "nil_hashes (pruned c H P) \<subseteq> nil_hashes c"
  by (auto simp: nil_hashes_def entries_at_def)

lemma nil_hashes_fields [simp]:
  "nil_hashes (c\<lparr>chainState := cs\<rparr>) = nil_hashes c"
  "nil_hashes (storeBlockMetadata c h ht' cf cm) = nil_hashes c"
  "nil_hashes (storeBlockDifficulty c h d) = nil_hashes c"
  "nil_hashes (MarkSentToBDN c h) = nil_hashes c"
  by (rule nil_hashes_cong, simp)+

lemma nil_hashes_InitializeDifficulty [simp]: "nil_hashes (InitializeDifficulty c h d) = insert h (nil_hashes c)"
  by (simp add: InitializeDifficulty_def Let_def nil_hashes_storeEth)

lemma nil_hashes_storeBlock [simp]: "nil_hashes (storeBlock HH c b d s) = nil_hashes c"
  using nil_hashes_cong [OF storeBlock_fields(2), of HH c b d s] by (simp add: nil_hashes_storeEth)

lemma nil_hashes_AddBlock_store [simp]: "nil_hashes (AddBlock_store HH c i s) = nil_hashes c"
  by (simp add: AddBlock_store_def)

end
