(* ===== verification/Chain_Queries.thy ===== *)
theory Chain_Queries
  imports Chain_Invariant
begin

text \<open>
  The chain as a machine over the calls the gateway makes on it, the queries it answers, and
  the properties of both.
\<close>

section \<open>Runs of the chain\<close>

datatype ('t, 'x) chain_event =
    EvAddBlock "('t, 'x) block_info" block_source
  | EvConfirmBlock hash
  | EvMarkSentToBDN hash
  | EvInitializeDifficulty hash "int option"
  | EvSetTotalDifficulty "('t, 'x) block_info"
  | EvClean "(u64 \<times> 'x header_entry list) list" int

fun chain_step :: "'x header_hash \<Rightarrow> ('t, 'x) chain \<Rightarrow> ('t, 'x) chain_event \<Rightarrow> ('t, 'x) chain go" where
  "chain_step HH c (EvAddBlock b source) = map_sum id fst (AddBlock HH c b source)"
| "chain_step HH c (EvConfirmBlock h) = map_sum id fst (ConfirmBlock HH c h)"
| "chain_step HH c (EvMarkSentToBDN h) = Inr (MarkSentToBDN c h)"
| "chain_step HH c (EvInitializeDifficulty h td) = Inr (InitializeDifficulty c h td)"
| "chain_step HH c (EvSetTotalDifficulty info) = Inr (fst (SetTotalDifficulty HH c info))"
| "chain_step HH c (EvClean items maxSize) = map_sum id fst (chain_clean items c maxSize)"

text \<open>
  What the environment grants: the header hash does not collide, block numbers fit a signed
  integer, and the iterator of a map lists its entries.
\<close>

fun chain_admits :: "'x header_hash \<Rightarrow> ('t, 'x) chain \<Rightarrow> ('t, 'x) chain_event \<Rightarrow> bool" where
  "chain_admits HH c (EvAddBlock b source) = (hash_binds HH \<and> unat (NumberU64 (bi_Block b)) < 2 ^ 63)"
| "chain_admits HH c (EvClean items maxSize) =
     (hash_binds HH \<and> enumerates items (heightToBlockHeaders c) \<and> 1 \<le> maxSize \<and> maxSize < 2 ^ 63)"
| "chain_admits HH c e = True"

text \<open>The hashes of the status messages, which \<open>InitializeDifficulty\<close> gets.\<close>

fun status_hash :: "('t, 'x) chain_event \<Rightarrow> hash set" where
  "status_hash (EvInitializeDifficulty h td) = {h}"
| "status_hash _ = {}"

definition status_hashes :: "('t, 'x) chain_event list \<Rightarrow> hash set" where
  "status_hashes es = (\<Union>e \<in> set es. status_hash e)"

text \<open>The invariant of a run: complete but for the hashes of status messages, which are in \<open>K\<close>.\<close>

definition chain_inv :: "hash set \<Rightarrow> 'x header_hash \<Rightarrow> ('t, 'x) chain \<Rightarrow> bool" where
  "chain_inv K HH c \<longleftrightarrow> chain_ok_but K HH c \<and> nil_hashes c \<subseteq> K"

lemma map_sum_Inr_iff: "map_sum id f x = Inr y \<longleftrightarrow> (\<exists>a. x = Inr a \<and> f a = y)"
  by (cases x) auto

lemma chain_ok_newChain: "chain_ok_but K HH (newChain mr mv)"
  by (simp add: chain_ok_but_def stores_ok_but_def newChain_def stored_def)

lemma chain_inv_newChain: "chain_inv K HH (newChain mr mv)"
  by (simp add: chain_inv_def chain_ok_newChain) (simp add: nil_hashes_def entries_at_def newChain_def)

lemma chain_ok_SetTotalDifficulty_fst:
  "chain_ok_but K HH c \<Longrightarrow> chain_ok_but K HH (fst (SetTotalDifficulty HH c info))"
  by (cases "SetTotalDifficulty HH c info") (auto intro: chain_ok_SetTotalDifficulty)

lemma chain_ok_step:
  assumes "chain_inv K HH c" "chain_admits HH c e" "chain_step HH c e = Inr c'"
  shows "chain_ok_but K HH c'"
proof (cases e)
  case (EvClean items maxSize)
  with assms obtain cnt where c': "chain_clean items c maxSize = Inr (c', cnt)" by (auto simp: map_sum_Inr_iff)
  have lost: "lost_hashes c (min_height c maxSize) \<subseteq> K"
    using lost_hashes_nil [of c] assms(1) unfolding chain_inv_def by blast
  from EvClean assms(1,2) show ?thesis
    by (auto simp: chain_inv_def intro: chain_ok_clean [OF _ _ _ _ _ lost c'])
qed (use assms in \<open>auto simp: chain_inv_def map_sum_Inr_iff intro: chain_ok_AddBlock chain_ok_ConfirmBlock
    chain_ok_MarkSentToBDN chain_ok_InitializeDifficulty chain_ok_SetTotalDifficulty_fst\<close>)

text \<open>The update changes the chain state only.\<close>

lemma install_frame: "install (c\<lparr>chainState := cs\<rparr>) e = (c', n) \<Longrightarrow> \<exists>cs'. c' = c\<lparr>chainState := cs'\<rparr>"
  by (cases e) auto

lemma updateChainState_frame:
  assumes "updateChainState HH c ht h p = Inr (c', n)"
  shows "\<exists>cs. c' = c\<lparr>chainState := cs\<rparr>"
proof (cases "chainState c")
  case Nil
  with assms show ?thesis by (auto simp: updateChainState_def)
next
  case (Cons hd' tl')
  define c1 where "c1 = (if ref_height hd' + 1 = ht \<and> ref_hash hd' = p
    then c\<lparr>chainState := \<lparr>ref_height = ht, ref_hash = h\<rparr> # chainState c\<rparr> else c)"
  have "\<exists>cs. c1 = c\<lparr>chainState := cs\<rparr>" by (auto simp: c1_def intro: exI [of _ "chainState c"])
  then obtain cs where cs: "c1 = c\<lparr>chainState := cs\<rparr>" ..
  have "c' = c1 \<or> (\<exists>e. install c1 e = (c', n))"
  proof (cases "ht \<le> ref_height hd'")
    case True
    with assms Cons show ?thesis
      unfolding updateChainState_def Let_def list.case Cons c1_def [symmetric, unfolded Cons] by simp
  next
    case False
    with assms Cons obtain e where "(case e of
        LoopExit headHeight headHash missingEntries \<Rightarrow>
          if headHeight = ref_height hd' \<and> headHash = ref_hash hd'
          then Inr (install c1 (NewState missingEntries (chainState c1)))
          else gbind (reorg_loop HH c1 (chainState c1) 0 headHeight headHash missingEntries)
                 (\<lambda>e'. Inr (install c1 e'))
      | _ \<Rightarrow> Inr (install c1 e)) = Inr (c', n)"
      unfolding updateChainState_def Let_def list.case Cons c1_def [symmetric, unfolded Cons]
      by (simp only: gbind_Inr_iff if_False split: if_split_asm) auto
    then show ?thesis
      by (cases e) (auto simp: gbind_Inr_iff simp del: install_simps split: if_splits)
  qed
  with cs show ?thesis using install_frame by blast
qed

lemma AddBlock_frame:
  "AddBlock HH c b source = Inr (c', n) \<Longrightarrow> \<exists>cs. c' = AddBlock_store HH c b source\<lparr>chainState := cs\<rparr>"
  by (auto simp: AddBlock_split dest: updateChainState_frame split: if_splits
      intro: exI [of _ "chainState c"])

lemma nil_hashes_update:
  "updateChainState HH c ht h p = Inr (c', n) \<Longrightarrow> nil_hashes c' = nil_hashes c"
  by (auto dest!: updateChainState_frame)

lemma nil_hashes_ConfirmBlock: "ConfirmBlock HH c h = Inr (c', n) \<Longrightarrow> nil_hashes c' = nil_hashes c"
proof -
  have "nil_hashes (c\<lparr>blockHashToMetadata := m\<rparr>) = nil_hashes c" for m by (rule nil_hashes_cong) simp
  then show "ConfirmBlock HH c h = Inr (c', n) \<Longrightarrow> nil_hashes c' = nil_hashes c"
    by (auto simp: ConfirmBlock_def Let_def dest!: nil_hashes_update split: option.splits)
qed

lemma nil_hashes_SetTotalDifficulty [simp]: "nil_hashes (fst (SetTotalDifficulty HH c info)) = nil_hashes c"
  by (simp add: SetTotalDifficulty_def Let_def split: option.split)

lemma nil_hashes_step:
  assumes "chain_inv K HH c" "chain_admits HH c e" "chain_step HH c e = Inr c'"
  shows "nil_hashes c' \<subseteq> nil_hashes c \<union> status_hash e"
proof (cases e)
  case (EvClean items maxSize)
  with assms obtain cnt where "chain_clean items c maxSize = Inr (c', cnt)" by (auto simp: map_sum_Inr_iff)
  then show ?thesis using chain_clean_pruned [of K HH c maxSize items c' cnt] assms(1,2) EvClean
    by (auto simp: chain_inv_def dest!: nil_hashes_pruned [THEN subsetD])
qed (use assms in \<open>auto simp: map_sum_Inr_iff nil_hashes_ConfirmBlock dest!: AddBlock_frame\<close>)

lemma chain_inv_step:
  assumes "chain_inv K HH c" "chain_admits HH c e" "status_hash e \<subseteq> K" "chain_step HH c e = Inr c'"
  shows "chain_inv K HH c'"
  using chain_ok_step [OF assms(1,2,4)] nil_hashes_step [OF assms(1,2,4)] assms(1,3) by (auto simp: chain_inv_def)

interpretation chain: step_machine "newChain mr mv" "chain_step HH" "\<lambda>c e. chain_admits HH c e \<and> status_hash e \<subseteq> K"
    "chain_inv K HH"
  for mr mv K and HH :: "'x header_hash"
  by unfold_locales (simp add: chain_inv_newChain, blast intro: chain_inv_step)

section \<open>Queries\<close>

text \<open>In a chain that satisfies the invariant, the heads of the chain state can be assembled.\<close>

lemma new_heads_loop_ok:
  assumes "chain_ok HH c" "i + n \<le> length (chainState c)"
  shows "\<exists>bs. new_heads_loop HH c i n heads = Inr (heads @ bs, None) \<and> length bs \<le> n \<and>
     map (\<lambda>b. HH (Some (blk_header (bi_Block b)))) bs = map ref_hash (take (length bs) (drop i (chainState c))) \<and>
     (\<forall>j < length bs. \<not> HasSentToBDN c (ref_hash (chainState c ! (i + j)))) \<and>
     (length bs < n \<longrightarrow> HasSentToBDN c (ref_hash (chainState c ! (i + length bs))))"
  using assms(2)
proof (induction n arbitrary: i heads)
  case 0
  then show ?case by simp
next
  case (Suc n)
  let ?r = "chainState c ! i"
  have i: "i < length (chainState c)" using Suc.prems by simp
  then have bk: "backed HH c ?r" using chain_okD(2) [OF assms(1)] by simp
  then obtain hdr where hdr: "getBlockHeader HH c (ref_height ?r) (ref_hash ?r) = Some (Some hdr)"
    by (auto simp: backed_def)
  obtain bm body where st: "blockHashToMetadata c (ref_hash ?r) = Some bm" "blockHashToBody c (ref_hash ?r) = Some body"
    using backed_in_stores [OF chain_okD(1) [OF assms(1)] bk] by auto
  show ?case
  proof (cases "sentToBDN bm")
    case True
    with i st show ?thesis by (intro exI [of _ "[]"]) (simp add: HasSentToBDN_def)
  next
    case False
    let ?b = "NewBlockInfo \<lparr>blk_header = hdr, blk_body = body\<rparr> (blockHashToDifficulty c (ref_hash ?r))"
    have bb: "bi_Block ?b = \<lparr>blk_header = hdr, blk_body = body\<rparr>"
      by (simp add: NewBlockInfo_def SetInfoTotalDifficulty_def split: option.split)
    have hh: "HH (Some hdr) = ref_hash ?r" using getBlockHeader_stored [OF hdr] by simp
    from Suc.IH [of "Suc i" "heads @ [?b]"] Suc.prems obtain bs where
      bs: "new_heads_loop HH c (Suc i) n (heads @ [?b]) = Inr ((heads @ [?b]) @ bs, None)" "length bs \<le> n"
      "map (\<lambda>b. HH (Some (blk_header (bi_Block b)))) bs = map ref_hash (take (length bs) (drop (Suc i) (chainState c)))"
      "\<forall>j < length bs. \<not> HasSentToBDN c (ref_hash (chainState c ! (Suc i + j)))"
      "length bs < n \<longrightarrow> HasSentToBDN c (ref_hash (chainState c ! (Suc i + length bs)))"
      by auto
    have "new_heads_loop HH c i (Suc n) heads = Inr (heads @ ?b # bs, None)"
      using i st hdr False bs(1) by simp
    moreover have "map (\<lambda>b. HH (Some (blk_header (bi_Block b)))) (?b # bs) =
        map ref_hash (take (length (?b # bs)) (drop i (chainState c)))"
      using bs(3) bb hh i by (simp add: Cons_nth_drop_Suc [symmetric])
    moreover have "\<not> HasSentToBDN c (ref_hash (chainState c ! (i + j)))" if "j < length (?b # bs)" for j
      using that bs(4) False st by (cases j) (auto simp: HasSentToBDN_def)
    ultimately show ?thesis using bs(2,5) by (intro exI [of _ "?b # bs"]) simp
  qed
qed

lemma updated_count: "updated HH c c' n r \<Longrightarrow> 0 \<le> n \<and> n \<le> int (length (chainState c'))"
  by (auto simp: updated_def extends_def)

lemma updated_head:
  "updated HH c c' n r \<Longrightarrow> 0 < n \<Longrightarrow> chainState c' \<noteq> [] \<and> hd (chainState c') = r"
  by (auto simp: updated_def extends_def)

lemma HasBlock_AddBlock_store: "HasBlock (AddBlock_store HH c b source) (block_Hash HH (bi_Block b))"
proof (cases "HasBlock c (block_Hash HH (bi_Block b))")
  case True
  then show ?thesis
    by (auto simp: AddBlock_store_def HasBlock_def hasHeader_def hasBody_def storeBlockMetadata_def split: option.split)
next
  case False
  have "block_Hash HH (bi_Block b) \<in> dom (blockHashToMetadata (storeBlock HH c (bi_Block b) td source))" for td
    by simp
  with False show ?thesis
    by (auto simp: AddBlock_store_def HasBlock_def hasHeader_def hasBody_def simp del: storeBlock_fields(4))
qed

lemma HasConfirmedBlock_storeBlockMetadata:
  "HasConfirmedBlock (storeBlockMetadata c h ht cf cs) h' \<longleftrightarrow> HasConfirmedBlock c h' \<or> (h' = h \<and> cf)"
  by (auto simp: HasConfirmedBlock_def storeBlockMetadata_def split: option.split)

lemma HasConfirmedBlock_cong:
  "blockHashToMetadata c' = blockHashToMetadata c \<Longrightarrow> HasConfirmedBlock c' = HasConfirmedBlock c"
  by (simp add: HasConfirmedBlock_def fun_eq_iff)

lemma HasConfirmedBlock_AddBlock_store:
  "HasConfirmedBlock (AddBlock_store HH c b source) h \<longleftrightarrow>
     HasConfirmedBlock c h \<or> (h = block_Hash HH (bi_Block b) \<and> source = BSBlockchain)"
proof -
  have "HasConfirmedBlock (storeBlock HH c (bi_Block b) td source) h \<longleftrightarrow>
      HasConfirmedBlock c h \<or> (h = block_Hash HH (bi_Block b) \<and> source = BSBlockchain)" for td
  proof -
    let ?d = "storeHeaderAtHeight HH c (NumberU64 (bi_Block b)) (blk_header (bi_Block b))"
    have "HasConfirmedBlock (storeBlock HH c (bi_Block b) td source) = HasConfirmedBlock
        (storeBlockMetadata ?d (block_Hash HH (bi_Block b)) (NumberU64 (bi_Block b)) (source = BSBlockchain) False)"
      by (rule HasConfirmedBlock_cong)
        (simp add: storeBlock_def storeBlockHeader_def storeBlockBody_def Let_def NumberU64_def block_Hash_def)
    moreover have "HasConfirmedBlock ?d = HasConfirmedBlock c"
      by (rule HasConfirmedBlock_cong) (simp add: storeHeaderAtHeight_def)
    ultimately show ?thesis by (simp add: HasConfirmedBlock_storeBlockMetadata)
  qed
  then show ?thesis by (simp add: AddBlock_store_def HasConfirmedBlock_storeBlockMetadata)
qed

text \<open>The lookup by height.\<close>

definition indexed :: "('t, 'x) chain \<Rightarrow> bool" where
  "indexed c \<longleftrightarrow> (\<forall>i < length (chainState c).
     unat (ref_height (chainState c ! i)) + i = unat (ref_height (hd (chainState c))))"

lemma getHeaderAtHeight_entry:
  assumes "chain_ok HH c" "indexed c" "i < length (chainState c)"
  shows "\<exists>hdr. getHeaderAtHeight HH c (ref_height (chainState c ! i)) = Inr (Some hdr) \<and>
     HH (Some hdr) = ref_hash (chainState c ! i) \<and> stored c (ref_height (chainState c ! i)) hdr"
proof -
  from assms(3) obtain hd' tl' where cs: "chainState c = hd' # tl'" by (cases "chainState c") auto
  let ?r = "chainState c ! i"
  have bk: "backed HH c ?r" "backed HH c hd'"
    using chain_okD(2) [OF assms(1)] nth_mem [OF assms(3)] cs by simp_all
  then obtain hdr where hdr: "getBlockHeader HH c (ref_height ?r) (ref_hash ?r) = Some (Some hdr)"
    by (auto simp: backed_def)
  have idx: "unat (ref_height ?r) + i = unat (ref_height hd')"
    using assms(2,3) cs by (simp add: indexed_def)
  have small: "unat (ref_height hd') < 2 ^ 63" using backed_height [OF chain_okD(1) [OF assms(1)] bk(2)] .
  have "unat (ref_height hd' - ref_height ?r) = i"
    using idx by (simp add: unat_sub word_le_nat_alt)
  then have "sint (ref_height hd' - ref_height ?r) = int i"
    using sint_small_u64 [of "ref_height hd' - ref_height ?r"] small idx by (simp add: uint_nat del: of_nat_unat)
  with assms(3) cs hdr getBlockHeader_stored [OF hdr] show ?thesis
    by (simp add: getHeaderAtHeight_def Let_def)
qed

section \<open>Properties\<close>

text \<open>Blocks for the examples: number, parent and an empty body.\<close>

definition ex_block :: "int \<Rightarrow> hash \<Rightarrow> (unit, unit) block_info" where
  "ex_block n p = NewBlockInfo
     \<lparr>blk_header = \<lparr>ParentHash = p, Number = n, Difficulty = 1, Time = 0, hdr_rest = ()\<rparr>,
      blk_body = \<lparr>Transactions = [], Uncles = []\<rparr>\<rparr> None"

definition ex_hash :: "int \<Rightarrow> hash \<Rightarrow> hash" where
  "ex_hash n p = toy_hash (Some (blk_header (bi_Block (ex_block n p))))"

definition ex_run :: "(unit, unit) chain_event list" where
  "ex_run = [EvAddBlock (ex_block 1 []) BSBlockchain, EvAddBlock (ex_block 2 (ex_hash 1 [])) BSBlockchain]"

lemma ex_run_admitted:
  "go_admitted (chain_step toy_hash) (chain_admits toy_hash) c ex_run"
  by (simp add: ex_run_def toy_hash_binds ex_block_def NewBlockInfo_def SetInfoTotalDifficulty_def
      NumberU64_def big_Uint64_def split: sum.split)

lemma ex_run_result:
  "\<exists>c. go_run (chain_step toy_hash) (newChain 20 10) ex_run = Inr c \<and>
     map ref_height (chainState c) = [2, 2, 1]"
proof -
  have "(case go_run (chain_step toy_hash) (newChain 20 10) ex_run of
      Inl p \<Rightarrow> False | Inr c \<Rightarrow> map ref_height (chainState c) = [2, 2, 1])" by code_simp
  then show ?thesis by (auto split: sum.splits)
qed

text \<open>
  C1. Whatever sequence of calls built the chain, clean-ups included, every entry of the chain state has its
  header in the store, the header has the hash of the entry, and the next entry is the same block or the parent the
  header names. The metadata and the body of the entry are stored as well, unless its hash was that of a status
  message: a clean-up of height 0, where \<open>InitializeDifficulty\<close> puts those hashes, removes them. The conditions are
  that header hashes do not collide, that the numbers of added blocks fit a signed integer, and that a clean-up iterates
  over the stored heights, with a limit from 1 to \<open>2 ^ 63 - 1\<close>.
\<close>

theorem chain_state_linked:
  assumes "go_admitted (chain_step HH) (chain_admits HH) (newChain mr mv) es"
    and "go_run (chain_step HH) (newChain mr mv) es = Inr c" "i < length (chainState c)"
  shows "\<exists>hdr. getBlockHeader HH c (ref_height (chainState c ! i)) (ref_hash (chainState c ! i)) = Some (Some hdr) \<and>
     HH (Some hdr) = ref_hash (chainState c ! i) \<and>
     (HasBlock c (ref_hash (chainState c ! i)) \<or> ref_hash (chainState c ! i) \<in> status_hashes es) \<and>
     (Suc i < length (chainState c) \<longrightarrow>
        chainState c ! i = chainState c ! Suc i \<or> ParentHash hdr = ref_hash (chainState c ! Suc i))"
proof -
  have "\<forall>e \<in> set es. status_hash e \<subseteq> status_hashes es" by (auto simp: status_hashes_def)
  from chain.inv_reachable [OF go_admitted_and [OF assms(1) this] assms(2)]
  have ok: "chain_ok_but (status_hashes es) HH c" by (simp add: chain_inv_def)
  have bk: "backed HH c (chainState c ! i)" using chain_okD(2) [OF ok] assms(3) by simp
  then obtain hdr where hdr:
    "getBlockHeader HH c (ref_height (chainState c ! i)) (ref_hash (chainState c ! i)) = Some (Some hdr)"
    by (auto simp: backed_def)
  have "HasBlock c (ref_hash (chainState c ! i)) \<or> ref_hash (chainState c ! i) \<in> status_hashes es"
    using backed_in_stores [OF chain_okD(1) [OF ok] bk] by (auto simp: HasBlock_def hasHeader_def hasBody_def)
  moreover have "follows HH c (chainState c ! i) (chainState c ! Suc i)" if "Suc i < length (chainState c)"
    using chain_okD(3) [OF ok] that by (simp add: successively_conv_nth)
  ultimately show ?thesis
    using hdr getBlockHeader_stored [OF hdr] by (auto simp: follows_def child_of_def)
qed

theorem chain_state_linked_witness:
  "\<exists>c hdr. go_run (chain_step toy_hash) (newChain 20 10) ex_run = Inr c \<and> length (chainState c) = 3 \<and>
     getBlockHeader toy_hash c (ref_height (chainState c ! 1)) (ref_hash (chainState c ! 1)) = Some (Some hdr) \<and>
     ParentHash hdr = ref_hash (chainState c ! 2)"
proof -
  obtain c where c: "go_run (chain_step toy_hash) (newChain 20 10) ex_run = Inr c"
    "map ref_height (chainState c) = [2, 2, 1]" using ex_run_result by (elim exE conjE)
  from c(2) obtain x y z where cs: "chainState c = [x, y, z]" "ref_height y = 2" "ref_height z = 1"
    by (auto simp: map_eq_Cons_conv)
  then have "y \<noteq> z" by auto
  with chain_state_linked [OF ex_run_admitted c(1), of 1] cs obtain hdr where
    "getBlockHeader toy_hash c (ref_height y) (ref_hash y) = Some (Some hdr)" "ParentHash hdr = ref_hash z"
    by auto
  with c(1) cs show ?thesis by (intro exI [of _ c] exI [of _ hdr]) (simp add: numeral_2_eq_2)
qed

lemma ex_block_small: "unat (NumberU64 (bi_Block (ex_block 1 p))) < 2 ^ 63"
  by (simp add: ex_block_def NewBlockInfo_def SetInfoTotalDifficulty_def NumberU64_def big_Uint64_def)

text \<open>
  After a block from the local node was added and \<open>AddBlock\<close> returned \<open>n\<close>, the query for the
  newest \<open>n\<close> heads succeeds without an error, every head it returns is an entry from the top of
  the chain state that was not sent before, and the block itself comes first unless it was sent.
\<close>

lemma new_heads_of_AddBlock:
  assumes "hash_binds HH" "chain_ok HH c" "unat (NumberU64 (bi_Block b)) < 2 ^ 63"
    and "AddBlock HH c b BSBlockchain = Inr (c', n)"
    and "make_ok pointerSize n"
  shows "\<exists>bs. GetNewHeadsForBDN HH c' n = Inr (bs, None) \<and> int (length bs) \<le> n \<and>
     map (\<lambda>b. HH (Some (blk_header (bi_Block b)))) bs = map ref_hash (take (length bs) (chainState c')) \<and>
     (\<forall>j < length bs. \<not> HasSentToBDN c' (ref_hash (chainState c' ! j))) \<and>
     (int (length bs) < n \<longrightarrow> length bs < length (chainState c') \<and> HasSentToBDN c' (ref_hash (chainState c' ! length bs))) \<and>
     (0 < n \<and> \<not> HasSentToBDN c' (block_Hash HH (bi_Block b)) \<longrightarrow>
        bs \<noteq> [] \<and> HH (Some (blk_header (bi_Block (hd bs)))) = block_Hash HH (bi_Block b))"
proof -
  let ?r = "\<lparr>ref_height = NumberU64 (bi_Block b), ref_hash = block_Hash HH (bi_Block b)\<rparr>"
  note up = AddBlock_updated [OF assms(1-4)]
  note ok = chain_ok_AddBlock [OF assms(1-4)]
  from updated_count [OF up] have n: "0 \<le> n" "0 + nat n \<le> length (chainState c')" by auto
  from new_heads_loop_ok [OF ok n(2), of "[]"] obtain bs where
    bs: "new_heads_loop HH c' 0 (nat n) [] = Inr (bs, None)" "length bs \<le> nat n"
      "map (\<lambda>b. HH (Some (blk_header (bi_Block b)))) bs = map ref_hash (take (length bs) (chainState c'))"
      "\<forall>j < length bs. \<not> HasSentToBDN c' (ref_hash (chainState c' ! j))"
      "length bs < nat n \<longrightarrow> HasSentToBDN c' (ref_hash (chainState c' ! length bs))" by auto
  have "bs \<noteq> [] \<and> HH (Some (blk_header (bi_Block (hd bs)))) = block_Hash HH (bi_Block b)"
    if "0 < n" "\<not> HasSentToBDN c' (block_Hash HH (bi_Block b))"
  proof -
    from updated_head [OF up that(1)] obtain tl' where cs: "chainState c' = ?r # tl'"
      by (cases "chainState c'") auto
    with bs(5) that have "bs \<noteq> []" by auto
    with bs(3) cs show ?thesis by (cases bs) auto
  qed
  with n bs assms(5) show ?thesis by (auto simp: GetNewHeadsForBDN_def)
qed

lemma new_heads_of_AddBlock_example:
  "\<exists>c bs. AddBlock toy_hash (newChain 20 10) (ex_block 1 []) BSBlockchain = Inr (c, 1) \<and>
     GetNewHeadsForBDN toy_hash c 1 = Inr (bs, None) \<and> length bs \<le> 1"
proof -
  have "(case AddBlock toy_hash (newChain 20 10) (ex_block 1 []) BSBlockchain of
      Inl p \<Rightarrow> False | Inr (c, n) \<Rightarrow> n = 1)" by code_simp
  then obtain c where c: "AddBlock toy_hash (newChain 20 10) (ex_block 1 []) BSBlockchain = Inr (c, 1)"
    by (auto split: sum.splits)
  have "unat (NumberU64 (bi_Block (ex_block 1 []))) < 2 ^ 63" by (rule ex_block_small)
  from new_heads_of_AddBlock [OF toy_hash_binds chain_ok_newChain this c] c show ?thesis
    by (auto simp: make_ok_def pointerSize_def maxAlloc_def)
qed

lemma updated_head_mono:
  "updated HH c c' n r \<Longrightarrow> ref_height (chain_head (chainState c)) \<le> ref_height (chain_head (chainState c'))"
proof -
  assume up: "updated HH c c' n r"
  show ?thesis
  proof (cases "c' = c")
    case True
    then show ?thesis by simp
  next
    case False
    with up have ex: "extends c c' n r" "chainState c = [] \<or> ref_height (hd (chainState c)) < ref_height r"
      by (auto simp: updated_def)
    then obtain m k where "chainState c' = m @ k" "m \<noteq> []" "hd m = r" by (auto simp: extends_def)
    then have "chain_head (chainState c') = r" by (cases m) (auto simp: chain_head_def)
    with ex(2) show ?thesis by (cases "chainState c") (auto simp: chain_head_def zero_ref_def)
  qed
qed

lemma chain_head_take: "1 \<le> maxSize \<Longrightarrow> chain_head (take (nat maxSize) cs) = chain_head cs"
  by (cases cs; cases "nat maxSize") (auto simp: chain_head_def)

text \<open>
  No call lowers the height of the head.
\<close>

lemma head_height_monotone:
  assumes "chain_ok_but K HH c" "chain_admits HH c e" "chain_step HH c e = Inr c'"
  shows "ref_height (chain_head (chainState c)) \<le> ref_height (chain_head (chainState c'))"
proof (cases e)
  case (EvAddBlock b source)
  with assms(3) obtain n where add: "AddBlock HH c b source = Inr (c', n)" by (auto simp: map_sum_Inr_iff)
  show ?thesis
  proof (cases source)
    case BSBDN
    with add show ?thesis by (auto simp: AddBlock_split)
  next
    case BSBlockchain
    with add assms(1,2) EvAddBlock have "updated HH (AddBlock_store HH c b source) c' n
        \<lparr>ref_height = NumberU64 (bi_Block b), ref_hash = block_Hash HH (bi_Block b)\<rparr>"
      by (simp add: AddBlock_updated)
    from updated_head_mono [OF this] show ?thesis by simp
  qed
next
  case (EvConfirmBlock h)
  with assms(3) obtain n where "ConfirmBlock HH c h = Inr (c', n)" by (auto simp: map_sum_Inr_iff)
  then show ?thesis
    using assms(1) by (rule ConfirmBlock_cases) (auto dest: updated_head_mono)
next
  case (EvClean items maxSize)
  with assms(3) obtain cnt where "chain_clean items c maxSize = Inr (c', cnt)" by (auto simp: map_sum_Inr_iff)
  with chain_clean_pruned [OF assms(1), of maxSize items c' cnt] assms(2) EvClean show ?thesis
    by (auto simp: chain_head_take)
qed (use assms in \<open>auto simp: InitializeDifficulty_def SetTotalDifficulty_def Let_def split: option.splits\<close>)

lemma head_height_monotone_example:
  "\<exists>c. chain_step toy_hash (newChain 20 10) (EvAddBlock (ex_block 1 []) BSBlockchain) = Inr c \<and>
     ref_height (chain_head (chainState (newChain 20 10 :: (unit, unit) chain))) \<le> ref_height (chain_head (chainState c))"
proof -
  have "(case chain_step toy_hash (newChain 20 10) (EvAddBlock (ex_block 1 []) BSBlockchain) of
      Inl p \<Rightarrow> False | Inr c \<Rightarrow> True)" by code_simp
  then obtain c where c: "chain_step toy_hash (newChain 20 10) (EvAddBlock (ex_block 1 []) BSBlockchain) = Inr c"
    by (auto split: sum.splits)
  have "unat (NumberU64 (bi_Block (ex_block 1 []))) < 2 ^ 63" by (rule ex_block_small)
  then have "chain_admits toy_hash (newChain 20 10) (EvAddBlock (ex_block 1 []) BSBlockchain)"
    by (simp add: toy_hash_binds)
  from head_height_monotone [OF chain_ok_newChain this c] c show ?thesis by (intro exI conjI)
qed

text \<open>
  A block from the BDN is stored but has no authority: the call cannot fail, it returns no
  new heads, and it changes neither the chain state nor which blocks are confirmed.
\<close>

lemma bdn_block_no_authority:
  "\<exists>c'. AddBlock HH c b BSBDN = Inr (c', 0) \<and> chainState c' = chainState c \<and>
     HasBlock c' (block_Hash HH (bi_Block b)) \<and> (\<forall>h. HasConfirmedBlock c' h = HasConfirmedBlock c h)"
  by (simp add: AddBlock_split HasBlock_AddBlock_store HasConfirmedBlock_AddBlock_store)

lemma MarkSent_flags:
  "HasBlock (MarkSentToBDN c h) h' = HasBlock c h'"
  "HasConfirmedBlock (MarkSentToBDN c h) h' = HasConfirmedBlock c h'"
  "hasHeader c h \<Longrightarrow> HasSentToBDN (MarkSentToBDN c h) h"
  by (auto simp: MarkSentToBDN_def HasBlock_def hasHeader_def hasBody_def HasConfirmedBlock_def
      HasSentToBDN_def split: option.splits)

text \<open>
  A block the local node delivered and that was sent to the BDN is rejected as already seen
  when it is offered again.
\<close>

lemma sent_block_rejected:
  assumes "AddBlock HH c b BSBlockchain = Inr (c', n)"
  shows "ValidateBlock (MarkSentToBDN c' (block_Hash HH (bi_Block b))) (block_Hash HH (bi_Block b)) height =
    Some ErrAlreadySeen"
proof -
  let ?h = "block_Hash HH (bi_Block b)"
  obtain cs where "c' = AddBlock_store HH c b BSBlockchain\<lparr>chainState := cs\<rparr>"
    using AddBlock_frame [OF assms] by blast
  then have "HasBlock c' ?h = HasBlock (AddBlock_store HH c b BSBlockchain) ?h"
    "HasConfirmedBlock c' ?h = HasConfirmedBlock (AddBlock_store HH c b BSBlockchain) ?h"
    by (simp_all add: HasBlock_def hasHeader_def hasBody_def HasConfirmedBlock_def)
  then have "HasBlock c' ?h" "HasConfirmedBlock c' ?h"
    by (simp_all add: HasBlock_AddBlock_store HasConfirmedBlock_AddBlock_store)
  moreover from this have "hasHeader c' ?h" by (simp add: HasBlock_def)
  ultimately show ?thesis by (simp add: ValidateBlock_def MarkSent_flags)
qed

lemma sent_block_rejected_example:
  "\<exists>c. AddBlock toy_hash (newChain 20 10) (ex_block 1 []) BSBlockchain = Inr (c, 1) \<and>
     ValidateBlock (MarkSentToBDN c (ex_hash 1 [])) (ex_hash 1 []) 1 = Some ErrAlreadySeen"
proof -
  have "(case AddBlock toy_hash (newChain 20 10) (ex_block 1 []) BSBlockchain of
      Inl p \<Rightarrow> False | Inr (c, n) \<Rightarrow> n = 1)" by code_simp
  then obtain c where c: "AddBlock toy_hash (newChain 20 10) (ex_block 1 []) BSBlockchain = Inr (c, 1)"
    by (auto split: sum.splits)
  from sent_block_rejected [OF c, of 1] c show ?thesis by (auto simp: ex_hash_def block_Hash_def)
qed

text \<open>
  The total difficulty of a block whose parent's is known is the parent's plus the block's own,
  and it is stored for the block's children, as long as the sum is positive and below \<open>2 ^ 63\<close>.
\<close>

lemma total_difficulty_is_sum:
  assumes "TotalDifficulty info = None"
    and "blockHashToDifficulty c (ParentHash (blk_header (bi_Block info))) = Some d"
    and "0 < d + Difficulty (blk_header (bi_Block info))" "d + Difficulty (blk_header (bi_Block info)) < 2 ^ 63"
  shows "\<exists>c' info'. SetTotalDifficulty HH c info = (c', info', None) \<and> bi_Block info' = bi_Block info \<and>
     TotalDifficulty info' = Some (d + Difficulty (blk_header (bi_Block info))) \<and>
     blockHashToDifficulty c' (block_Hash HH (bi_Block info)) = Some (d + Difficulty (blk_header (bi_Block info))) \<and>
     (\<forall>h. h \<noteq> block_Hash HH (bi_Block info) \<longrightarrow> blockHashToDifficulty c' h = blockHashToDifficulty c h)"
proof -
  let ?t = "d + Difficulty (blk_header (bi_Block info))"
  have "wrap64 ?t = ?t" using assms(3,4) by (intro wrap64_id) (simp add: int64_range_def)
  with assms show ?thesis
    by (simp add: SetTotalDifficulty_def SetInfoTotalDifficulty_def TotalDifficulty_def big_Int64_def
        storeBlockDifficulty_def Let_def)
qed

lemma total_difficulty_is_sum_example:
  "\<exists>c' info'. SetTotalDifficulty toy_hash (InitializeDifficulty (newChain 20 10) [7] (Some 5)) (ex_block 1 [7]) =
     (c', info', None) \<and> TotalDifficulty info' = Some 6"
proof -
  have "TotalDifficulty (ex_block 1 [7]) = None"
    "blockHashToDifficulty (InitializeDifficulty (newChain 20 10) [7] (Some 5))
       (ParentHash (blk_header (bi_Block (ex_block 1 [7])))) = Some 5"
    "0 < 5 + Difficulty (blk_header (bi_Block (ex_block 1 [7])))"
    "5 + Difficulty (blk_header (bi_Block (ex_block 1 [7]))) < 2 ^ 63"
    by code_simp+
  note total_difficulty_is_sum [OF this, of toy_hash]
  moreover have "5 + Difficulty (blk_header (bi_Block (ex_block 1 [7]))) = 6" by code_simp
  ultimately show ?thesis by auto
qed

text \<open>
  Above the signed range the test on the low 64 bits decides: a total difficulty from
  \<open>2 ^ 63\<close> to \<open>2 ^ 64 - 1\<close>, or any multiple of \<open>2 ^ 64\<close>, counts as unknown.
\<close>

lemma large_difficulty_unknown:
  assumes "2 ^ 63 \<le> bi_totalDifficulty e mod 2 ^ 64 \<or> bi_totalDifficulty e mod 2 ^ 64 = 0"
  shows "TotalDifficulty e = None"
proof -
  let ?x = "bi_totalDifficulty e"
  have "(?x + 2 ^ 63) mod 2 ^ 64 = (?x mod 2 ^ 64 + 2 ^ 63) mod 2 ^ 64" by (simp add: mod_simps)
  moreover have "(?x mod 2 ^ 64 + 2 ^ 63) mod 2 ^ 64 \<le> (2 ^ 63 :: int)"
  proof (cases "?x mod 2 ^ 64 = 0")
    case True
    then show ?thesis by simp
  next
    case False
    define y where "y = ?x mod 2 ^ 64"
    have y: "2 ^ 63 \<le> y" "y < 2 ^ 64" using assms False by (simp_all add: y_def)
    have "(y + 2 ^ 63) mod 2 ^ 64 = (y + 2 ^ 63 - 2 ^ 64) mod (2 ^ 64 :: int)"
      by (simp only: minus_mod_self2)
    also have "\<dots> = y - 2 ^ 63" using y by (subst mod_pos_pos_trivial) simp_all
    finally show ?thesis using y by (simp add: y_def)
  qed
  ultimately show ?thesis by (simp add: TotalDifficulty_def big_Int64_def wrap64_def)
qed

lemma large_difficulty_unknown_example:
  "TotalDifficulty (SetInfoTotalDifficulty (ex_block 1 []) (Some (2 ^ 63 + 1))) = None"
  by (rule large_difficulty_unknown)
    (simp add: SetInfoTotalDifficulty_def)

lemma GetBodies_loop_spec:
  "GetBodies_loop c hs acc =
     (if set hs \<subseteq> dom (blockHashToBody c) then Inr (acc @ map (the \<circ> blockHashToBody c) hs) else Inl ErrBodyNotFound)"
  by (induction hs arbitrary: acc) (auto split: option.split)

text \<open>
  A query for bodies returns the stored bodies in the order of the request, or the error if
  one is missing.
\<close>

lemma GetBodies_spec:
  "GetBodies c hs = (if \<forall>h \<in> set hs. hasBody c h then Inr (map (the \<circ> blockHashToBody c) hs) else Inl ErrBodyNotFound)"
  by (auto simp: GetBodies_def GetBodies_loop_spec hasBody_def subset_iff domIff)

lemma GetBodies_spec_example:
  "GetBodies (storeBlockBody (newChain 20 10) [7] \<lparr>Transactions = [()], Uncles = []\<rparr> :: (unit, unit) chain) [[7], [7]] =
     Inr [\<lparr>Transactions = [()], Uncles = []\<rparr>, \<lparr>Transactions = [()], Uncles = []\<rparr>]"
  unfolding GetBodies_spec by (simp add: hasBody_def storeBlockBody_def newChain_def)

text \<open>
  In a chain state that lists every height once, the lookup by height finds the header of the
  entry with that height.
\<close>

lemma header_at_height_found:
  assumes "chain_ok HH c" "indexed c" "i < length (chainState c)"
  shows "\<exists>hdr. getHeaderAtHeight HH c (ref_height (chainState c ! i)) = Inr (Some hdr) \<and>
     HH (Some hdr) = ref_hash (chainState c ! i) \<and> big_Uint64 (Number hdr) = ref_height (chainState c ! i)"
  using getHeaderAtHeight_entry [OF assms] stores_okD(1) [OF chain_okD(1) [OF assms(1)]] by metis

lemma header_at_height_found_example:
  "\<exists>c hdr. AddBlock toy_hash (newChain 20 10) (ex_block 1 []) BSBlockchain = Inr (c, 1) \<and>
     getHeaderAtHeight toy_hash c (ref_height (chainState c ! 0)) = Inr (Some hdr)"
proof -
  have "(case AddBlock toy_hash (newChain 20 10) (ex_block 1 []) BSBlockchain of
      Inl p \<Rightarrow> False | Inr (c, n) \<Rightarrow> n = 1 \<and> length (chainState c) = 1)" by code_simp
  then obtain c where c: "AddBlock toy_hash (newChain 20 10) (ex_block 1 []) BSBlockchain = Inr (c, 1)"
    "length (chainState c) = 1" by (auto split: sum.splits)
  have "indexed c" "0 < length (chainState c)" using c(2) by (cases "chainState c"; auto simp: indexed_def)+
  from header_at_height_found [OF chain_ok_AddBlock [OF toy_hash_binds chain_ok_newChain ex_block_small c(1)] this] c
  show ?thesis by blast
qed

lemma minValidChain_AddBlock_store [simp]: "minValidChain (AddBlock_store HH c b s) = minValidChain c"
  by (simp add: AddBlock_store_def storeBlock_def storeBlockHeader_def storeBlockBody_def
      storeHeaderAtHeight_def Let_def)

lemma getBlockHeader_other_height:
  assumes "hash_binds HH" "stores_ok_but K HH c" "NumberU64 b \<noteq> ht"
  shows "getBlockHeader HH c ht (block_Hash HH b) = None"
proof (rule ccontr)
  assume "getBlockHeader HH c ht (block_Hash HH b) \<noteq> None"
  then obtain p where p: "getBlockHeader HH c ht (block_Hash HH b) = Some p" by blast
  have hp: "HH p = HH (Some (blk_header b))"
    using p by (auto simp: getBlockHeader_def block_Hash_def dest: find_header_Some split: option.splits)
  with hash_bindsD(3) [OF assms(1)] obtain hdr where hdr: "p = Some hdr" by (cases p) force+
  with getBlockHeader_stored p have "stored c ht hdr" by blast
  with hash_bindsD(1) [OF assms(1)] hp hdr stores_okD(1) [OF assms(2)] assms(3) show False
    by (metis NumberU64_def)
qed

text \<open>
  C39. A child of the head is put on the chain state twice, and \<open>AddBlock\<close> reports one new head.
  Afterwards the position of an entry no longer gives its height: the lookup of the former
  head by its height fails although its header is stored.
\<close>

theorem canonical_block_twice:
  assumes "hash_binds HH" "chain_ok HH c" "chainState c = hd' # tl'" "1 < minValidChain c"
    and "NumberU64 (bi_Block b) = ref_height hd' + 1" "ParentHash (blk_header (bi_Block b)) = ref_hash hd'"
    and "unat (NumberU64 (bi_Block b)) < 2 ^ 63"
  shows "\<exists>c'. AddBlock HH c b BSBlockchain = Inr (c', 1) \<and>
     chainState c' = [\<lparr>ref_height = ref_height hd' + 1, ref_hash = block_Hash HH (bi_Block b)\<rparr>,
        \<lparr>ref_height = ref_height hd' + 1, ref_hash = block_Hash HH (bi_Block b)\<rparr>] @ chainState c \<and>
     getHeaderAtHeight HH c' (ref_height hd') = Inl (NoHeaderAtHeight (ref_height hd'))"
proof -
  let ?s = "AddBlock_store HH c b BSBlockchain"
  let ?r = "\<lparr>ref_height = ref_height hd' + 1, ref_hash = block_Hash HH (bi_Block b)\<rparr>"
  have hs: "unat (ref_height hd') < 2 ^ 63"
    using backed_height [OF chain_okD(1,2) [OF assms(2)]] assms(2,3) by (simp add: chain_ok_but_def)
  from AddBlock_store_lookup [OF assms(1) chain_okD(1) [OF assms(2)], of b BSBlockchain] obtain hdr where
    hdr: "getBlockHeader HH ?s (ref_height hd' + 1) (block_Hash HH (bi_Block b)) = Some (Some hdr)"
      "ParentHash hdr = ref_hash hd'" using assms(5,6) by auto
  have cs: "chainState ?s = hd' # tl'" using assms(3) by simp
  have add: "AddBlock HH c b BSBlockchain = Inr (?s\<lparr>chainState := ?r # ?r # chainState c\<rparr>, 1)"
    using updateChainState_canonical [OF cs refl refl hs hdr] assms(4-6) by (simp add: AddBlock_split Let_def)
  note ok = chain_ok_AddBlock [OF assms(1,2,7) add]
  have "getBlockHeader HH (?s\<lparr>chainState := ?r # ?r # chainState c\<rparr>) (ref_height hd') (block_Hash HH (bi_Block b)) = None"
    using assms(5) by (intro getBlockHeader_other_height [OF assms(1) chain_okD(1) [OF ok]]) simp
  then have "getHeaderAtHeight HH (?s\<lparr>chainState := ?r # ?r # chainState c\<rparr>) (ref_height hd') =
      Inl (NoHeaderAtHeight (ref_height hd'))"
    by (simp add: getHeaderAtHeight_def Let_def)
  with add show ?thesis by simp
qed

theorem canonical_block_twice_witness:
  "\<exists>c c' :: (unit, unit) chain. AddBlock toy_hash (newChain 20 10) (ex_block 1 []) BSBlockchain = Inr (c, 1) \<and>
     AddBlock toy_hash c (ex_block 2 (ex_hash 1 [])) BSBlockchain = Inr (c', 1) \<and>
     getHeaderAtHeight toy_hash c' 1 = Inl (NoHeaderAtHeight 1)"
proof -
  have "(case AddBlock toy_hash (newChain 20 10) (ex_block 1 []) BSBlockchain of
      Inl p \<Rightarrow> False | Inr (c, n) \<Rightarrow> n = 1 \<and> minValidChain c = 10 \<and>
        chainState c = [\<lparr>ref_height = 1, ref_hash = ex_hash 1 []\<rparr>])" by code_simp
  then obtain c where c: "AddBlock toy_hash (newChain 20 10) (ex_block 1 []) BSBlockchain = Inr (c, 1)"
    "minValidChain c = 10" "chainState c = [\<lparr>ref_height = 1, ref_hash = ex_hash 1 []\<rparr>]"
    by (auto split: sum.splits)
  have b: "1 < minValidChain c" "NumberU64 (bi_Block (ex_block 2 p)) = 1 + 1"
    "ParentHash (blk_header (bi_Block (ex_block 2 p))) = p" "unat (NumberU64 (bi_Block (ex_block 2 p))) < 2 ^ 63" for p
    using c(2) by (simp_all add: ex_block_def NewBlockInfo_def SetInfoTotalDifficulty_def NumberU64_def big_Uint64_def)
  note ok = chain_ok_AddBlock [OF toy_hash_binds chain_ok_newChain ex_block_small c(1)]
  have "NumberU64 (bi_Block (ex_block 2 (ex_hash 1 []))) = ref_height \<lparr>ref_height = 1, ref_hash = ex_hash 1 []\<rparr> + 1"
    "ParentHash (blk_header (bi_Block (ex_block 2 (ex_hash 1 [])))) = ref_hash \<lparr>ref_height = 1, ref_hash = ex_hash 1 []\<rparr>"
    using b by simp_all
  from canonical_block_twice [OF toy_hash_binds ok c(3) b(1) this b(4)] c(1) show ?thesis by auto
qed

text \<open>What a lookup of the header store can return.\<close>

definition held :: "'x header_hash \<Rightarrow> ('t, 'x) chain \<Rightarrow> 'x eth_header option \<Rightarrow> bool" where
  "held HH c p \<longleftrightarrow> (\<exists>ht h. getBlockHeader HH c ht h = Some p)"

lemma heldI: "getBlockHeader HH c ht h = Some p \<Longrightarrow> held HH c p"
  by (auto simp: held_def)

lemma getHeaderAtHeight_held: "getHeaderAtHeight HH c ht = Inr (Some hdr) \<Longrightarrow> held HH c (Some hdr)"
  by (auto simp: getHeaderAtHeight_def Let_def intro: heldI split: list.splits if_splits option.splits)

lemma headers_loop_bounds:
  "headers_loop HH c ht inc n acc = Inr hs \<Longrightarrow> length hs \<le> length acc + n \<and>
     (\<forall>p \<in> set hs. p \<in> set acc \<or> held HH c p)"
proof (induction n arbitrary: ht acc)
  case 0
  then show ?case by simp
next
  case (Suc n)
  from Suc.prems consider "hs = acc"
    | hdr ht' where "getHeaderAtHeight HH c (word_of_int ht) = Inr (Some hdr)"
        "headers_loop HH c ht' inc n (acc @ [Some hdr]) = Inr hs"
    by (auto split: sum.splits option.splits)
  then show ?case
  proof cases
    case 2
    with getHeaderAtHeight_held [OF 2(1)] Suc.IH [OF 2(2)] show ?thesis by auto
  qed simp
qed

lemma headers_origin_bounds:
  "headers_origin HH c start = Inr (ht, hs) \<Longrightarrow>
     length hs \<le> 1 \<and> (\<forall>p \<in> set hs. held HH c p)"
  by (auto simp: headers_origin_def Let_def intro: heldI getHeaderAtHeight_held
      split: if_splits option.splits sum.splits list.splits)

text \<open>
  A header query whose count is in the range of \<open>make\<close> returns; when it succeeds, it returns at
  most the requested number of headers (one for a count of zero), all of them stored. Any other
  count panics.
\<close>

lemma get_headers_bounded:
  "(\<not> make_ok pointerSize count' \<longrightarrow> GetHeaders HH c start count' skip reverse = Inl MakeSlice) \<and>
   (make_ok pointerSize count' \<longrightarrow> (\<exists>r. GetHeaders HH c start count' skip reverse = Inr r \<and>
      (\<forall>hs. r = Inr hs \<longrightarrow> int (length hs) \<le> max 1 count' \<and>
         (\<forall>p \<in> set hs. held HH c p))))"
proof -
  { fix hs assume ok: "make_ok pointerSize count'" and "GetHeaders HH c start count' skip reverse = Inr (Inr hs)"
    then obtain ht os where o: "headers_origin HH c start = Inr (ht, os)"
      and hs: "hs = os \<or> (\<exists>nh inc. headers_loop HH c nh inc (nat count' - length os) os = Inr hs)"
      by (auto simp: GetHeaders_def Let_def split: sum.splits if_split_asm) blast+
    note ob = headers_origin_bounds [OF o]
    from hs have "int (length hs) \<le> max 1 count' \<and> (\<forall>p \<in> set hs. held HH c p)"
    proof
      assume "hs = os" with ob show ?thesis by auto
    next
      assume "\<exists>nh inc. headers_loop HH c nh inc (nat count' - length os) os = Inr hs"
      with headers_loop_bounds have "length hs \<le> length os + (nat count' - length os) \<and>
        (\<forall>p \<in> set hs. p \<in> set os \<or> held HH c p)" by blast
      with ob ok show ?thesis by (auto simp: make_ok_def)
    qed }
  then show ?thesis by (auto simp: GetHeaders_def)
qed

lemma get_headers_bounded_example:
  "GetHeaders toy_hash (newChain 20 10 :: (unit, unit) chain) \<lparr>hn_Hash = zero_hash, hn_Number = 1\<rparr> (-1) 0 False = Inl MakeSlice"
  using get_headers_bounded by (rule conjunct1 [THEN mp]) (simp add: make_ok_def)


lemma lost_hashes_pruned:
  assumes "enumerates items (heightToBlockHeaders c)" "h \<in> lost_hashes c mh"
  shows "h \<in> below_hashes mh items"
proof -
  from assms(2) obtain k eh where e: "below mh k" "eh \<in> set (entries_at c k)" "eh_hash eh = h"
    by (auto simp: lost_hashes_def)
  then obtain es where es: "heightToBlockHeaders c k = Some es" "eh \<in> set es"
    by (cases "heightToBlockHeaders c k") (auto simp: entries_at_def)
  then have "k \<in> fst ` set items" using enumerates_keys [OF assms(1)] by auto
  then have "(k, es) \<in> set items" using enumerates_lookup [OF assms(1)] es(1) by fastforce
  then show ?thesis using e(1,3) es(2) by (auto simp: below_hashes_def intro!: bexI [of _ "(k, es)"])
qed

lemma chain_clean_full:
  assumes "chain_ok_but K HH c" "chainState c \<noteq> []" "1 \<le> maxSize" "maxSize < 2 ^ 63"
    and "maxSize \<le> int (card (dom (heightToBlockHeaders c)))"
  shows "\<exists>cnt. chain_clean items c maxSize =
      Inr (pruned c {k \<in> fst ` set items. below (min_height c maxSize) k}
             (below_hashes (min_height c maxSize) items)\<lparr>chainState := take (nat maxSize) (chainState c)\<rparr>, cnt) \<and>
    snd (snd cnt) = int (length (concat (map snd (filter (\<lambda>(k, es). below (min_height c maxSize) k) items))))"
proof -
  from assms(2) obtain hd' tl' where cs: "chainState c = hd' # tl'" by (cases "chainState c") auto
  have small: "unat (ref_height hd') < 2 ^ 63"
    using backed_height [OF chain_okD(1,2) [OF assms(1)]] assms(1) cs by (simp add: chain_ok_but_def)
  obtain c1 lo hi nc where
    ch: "clean_heights (min_height c maxSize) items c (sint (ref_height hd'), 0, 0) = (c1, lo, hi, nc)"
    by (rule prod_cases4)
  note p = clean_heights_pruned [OF ch]
  have "take (nat maxSize) (chainState c) = chainState c" if "int (length (chainState c)) \<le> maxSize"
    using that by (simp add: nat_le_iff)
  with assms(3,5) cs ch p clean_min_height [OF cs small assms(3,4)] show ?thesis
    by (auto simp: chain_clean_def Let_def pruned_def)
qed

text \<open>
  C27. When as many heights are stored as the limit allows, cleaning succeeds: exactly the headers
  below the window of the limit under the head are removed, the head stays, the chain state is
  cut to the limit, the count tells the removed entries, and the chain is linked as before. It is complete but for
  the blocks whose hash stands at a removed height in an entry without header, where \<open>InitializeDifficulty\<close> puts the
  hashes of status messages: their metadata and bodies are gone, however recent they are. (The chain was
  linked and complete, header hashes do not collide, the limit is from 1 to \<open>2 ^ 63 - 1\<close>, and the clean-up iterates
  over the stored heights.)
\<close>

theorem clean_keeps_window:
  assumes "hash_binds HH" "chain_ok HH c" "enumerates items (heightToBlockHeaders c)"
    and "chainState c \<noteq> []" "1 \<le> maxSize" "maxSize < 2 ^ 63"
    and "maxSize \<le> int (card (dom (heightToBlockHeaders c)))"
  shows "\<exists>c' cnt. chain_clean items c maxSize = Inr (c', cnt) \<and>
     chain_ok_but (lost_hashes c (min_height c maxSize)) HH c' \<and>
     (\<forall>h \<in> lost_hashes c (min_height c maxSize). \<not> hasHeader c' h \<and> \<not> hasBody c' h) \<and>
     chain_head (chainState c') = chain_head (chainState c) \<and> int (length (chainState c')) \<le> maxSize \<and>
     (\<forall>ht hdr. stored c' ht hdr \<longleftrightarrow> stored c ht hdr \<and> min_height c maxSize \<le> uint ht) \<and>
     snd (snd cnt) = int (length (concat (map snd (filter (\<lambda>(k, es). below (min_height c maxSize) k) items))))"
proof -
  from chain_clean_full [OF assms(2,4,5,6,7)] obtain cnt where
    c': "chain_clean items c maxSize =
      Inr (pruned c {k \<in> fst ` set items. below (min_height c maxSize) k}
             (below_hashes (min_height c maxSize) items)\<lparr>chainState := take (nat maxSize) (chainState c)\<rparr>, cnt)"
      (is "_ = Inr (?c', cnt)")
    "snd (snd cnt) = int (length (concat (map snd (filter (\<lambda>(k, es). below (min_height c maxSize) k) items))))"
    by blast
  have "stored ?c' ht hdr \<longleftrightarrow> stored c ht hdr \<and> min_height c maxSize \<le> uint ht" for ht hdr
  proof (cases "stored c ht hdr")
    case True
    have "uint ht < 2 ^ 63" using stores_okD(2) [OF chain_okD(1) [OF assms(2)] True] by (rule uint_small_u64)
    moreover have "ht \<in> fst ` set items" using True enumerates_keys [OF assms(3)] by (auto simp: stored_def)
    ultimately show ?thesis using True by (auto simp: stored_pruned below_def)
  qed (simp add: stored_pruned)
  moreover have "chain_ok_but (lost_hashes c (min_height c maxSize)) HH ?c'"
    using chain_ok_clean [OF assms(1) chain_ok_but_weaken(2) [OF assms(2)] assms(3,5,6) subset_refl c'(1)] by simp
  moreover have "\<not> hasHeader ?c' h \<and> \<not> hasBody ?c' h" if "h \<in> lost_hashes c (min_height c maxSize)" for h
    using lost_hashes_pruned [OF assms(3) that] by (simp add: hasHeader_def hasBody_def)
  moreover have "chain_head (chainState ?c') = chain_head (chainState c)" "int (length (chainState ?c')) \<le> maxSize"
    using assms(5) by (simp_all add: chain_head_take)
  ultimately show ?thesis using c' by blast
qed

text \<open>A chain with a header of the BDN at height 3 and the head at height 7.\<close>

definition ex_two :: "(unit, unit) chain" where
  "ex_two = storeBlock toy_hash (storeBlock toy_hash (newChain 20 10) (bi_Block (ex_block 3 [])) None BSBDN)
     (bi_Block (ex_block 7 [])) None BSBlockchain\<lparr>chainState := [\<lparr>ref_height = 7, ref_hash = ex_hash 7 []\<rparr>]\<rparr>"

definition ex_items :: "(u64 \<times> unit header_entry list) list" where
  "ex_items = [(3, [\<lparr>eh_Header = Some (blk_header (bi_Block (ex_block 3 []))), eh_hash = ex_hash 3 []\<rparr>]),
     (7, [\<lparr>eh_Header = Some (blk_header (bi_Block (ex_block 7 []))), eh_hash = ex_hash 7 []\<rparr>])]"

lemma ex_block_fields:
  "NumberU64 (bi_Block (ex_block n p)) = word_of_int n" "TotalDifficulty (ex_block n p) = None"
  "block_Hash toy_hash (bi_Block (ex_block n p)) = ex_hash n p"
  "ParentHash (blk_header (bi_Block (ex_block n p))) = p"
  by (simp_all add: ex_block_def NewBlockInfo_def SetInfoTotalDifficulty_def NumberU64_def big_Uint64_def
      TotalDifficulty_def big_Int64_def wrap64_def ex_hash_def block_Hash_def)

lemma ex_two_heights: "heightToBlockHeaders ex_two = map_of ex_items"
  by (simp add: ex_two_def ex_items_def storeEthHeaderAtHeight_headers ex_block_fields newChain_def fun_eq_iff)

lemma ex_two_ok: "chain_ok toy_hash ex_two"
proof -
  let ?c = "storeBlock toy_hash (newChain 20 10) (bi_Block (ex_block 3 [])) None BSBDN"
  have nb: "\<not> HasBlock ?c (ex_hash 7 [])"
    by (simp add: HasBlock_def hasBody_def ex_block_fields newChain_def) (simp add: ex_hash_def ex_block_def
        NewBlockInfo_def SetInfoTotalDifficulty_def toy_hash_def numeral_eq_Suc)
  have "unat (NumberU64 (bi_Block (ex_block n []))) < 2 ^ 63" if "n \<in> {3, 7}" for n
    using that by (auto simp: ex_block_fields)
  then have s: "unat (NumberU64 (bi_Block (ex_block 3 []))) < 2 ^ 63" "unat (NumberU64 (bi_Block (ex_block 7 []))) < 2 ^ 63"
    by blast+
  have ok: "chain_ok toy_hash ?c" using chain_ok_newChain s(1) by (rule chain_ok_storeBlock)
  have "AddBlock toy_hash ?c (ex_block 7 []) BSBlockchain = Inr (ex_two, 1)"
    using nb by (simp add: AddBlock_split AddBlock_store_def ex_block_fields updateChainState_def ex_two_def newChain_def)
  from chain_ok_AddBlock [OF toy_hash_binds ok s(2) this] show ?thesis .
qed

text \<open>The status message of a peer whose head is the block at height 7, and a clean-up.\<close>

definition ex_three :: "(unit, unit) chain" where
  "ex_three = InitializeDifficulty ex_two (ex_hash 7 []) (Some 5)"

definition ex_three_items :: "(u64 \<times> unit header_entry list) list" where
  "ex_three_items = (0, [\<lparr>eh_Header = None, eh_hash = ex_hash 7 []\<rparr>]) # ex_items"

theorem clean_keeps_window_witness:
  "\<exists>c' cnt. chain_clean ex_three_items ex_three 1 = Inr (c', cnt) \<and> snd (snd cnt) = 2 \<and>
     (\<forall>ht hdr. stored c' ht hdr \<longleftrightarrow> stored ex_three ht hdr \<and> 7 \<le> uint ht) \<and>
     HasBlock ex_three (ex_hash 7 []) \<and> \<not> hasBody c' (ex_hash 7 []) \<and>
     chain_head (chainState c') = \<lparr>ref_height = 7, ref_hash = ex_hash 7 []\<rparr>"
proof -
  have heights: "heightToBlockHeaders ex_three = map_of ex_three_items"
    by (simp add: ex_three_def ex_three_items_def InitializeDifficulty_def storeEthHeaderAtHeight_headers ex_two_heights)
      (simp add: ex_items_def fun_eq_iff)
  have en: "enumerates ex_three_items (heightToBlockHeaders ex_three)"
    unfolding heights by (rule map_of_enumerates) (simp add: ex_three_items_def ex_items_def)
  have ok: "chain_ok toy_hash ex_three" unfolding ex_three_def by (rule chain_ok_InitializeDifficulty [OF ex_two_ok])
  have cs: "chainState ex_three = [\<lparr>ref_height = 7, ref_hash = ex_hash 7 []\<rparr>]"
    by (simp add: ex_three_def InitializeDifficulty_def ex_two_def)
  have mh: "min_height ex_three 1 = 7" by (simp add: min_height_def cs chain_head_def)
  have cd: "1 \<le> int (card (dom (heightToBlockHeaders ex_three)))"
    using enumerates_card [OF en] by (simp add: ex_three_items_def ex_items_def)
  have lost: "ex_hash 7 [] \<in> lost_hashes ex_three 7"
    by (auto simp: lost_hashes_def entries_at_def heights ex_three_items_def below_def intro!: exI [of _ 0])
  have has: "HasBlock ex_three (ex_hash 7 [])"
    using backed_in_stores [OF chain_okD(1) [OF ok] chain_okD(2) [OF ok]] cs
    by (auto simp: HasBlock_def hasHeader_def hasBody_def)
  have "snd (snd cnt) = 2" if "snd (snd (cnt :: clean_counts)) =
      int (length (concat (map snd (filter (\<lambda>(k, es). below 7 k) ex_three_items))))" for cnt
    using that by (simp add: ex_three_items_def ex_items_def below_def)
  with clean_keeps_window [OF toy_hash_binds ok en _ _ _ cd] mh cs lost has show ?thesis
    by (auto simp: chain_head_def)
qed

text \<open>
  C16. What \<open>AddBlock\<close> does to the chain state when the local node delivers a block: either nothing,
  returning 0; or the block is higher than the head, and the \<open>n\<close> entries it returns are the new
  ones on top, the block first, above a tail of the old chain state (the whole old chain state
  under a second copy of the block when the block is a child of the head).
\<close>

theorem add_block_extends:
  assumes "hash_binds HH" "chain_ok HH c" "unat (NumberU64 (bi_Block b)) < 2 ^ 63"
    and "AddBlock HH c b BSBlockchain = Inr (c', n)"
    and "r = \<lparr>ref_height = NumberU64 (bi_Block b), ref_hash = block_Hash HH (bi_Block b)\<rparr>"
  shows "(n = 0 \<and> chainState c' = chainState c) \<or>
     (chainState c = [] \<or> ref_height (hd (chainState c)) < ref_height r) \<and>
     (\<exists>m k ys. chainState c' = m @ k \<and> n = int (length m) \<and> m \<noteq> [] \<and> hd m = r \<and>
        (chainState c = ys @ k \<or> k = r # chainState c))"
  using AddBlock_updated [OF assms(1-4)] assms(5)
  by (auto simp: updated_def extends_def chainState_AddBlock_store)

theorem add_block_extends_witness:
  "\<exists>c. AddBlock toy_hash (newChain 20 10) (ex_block 1 []) BSBlockchain = Inr (c, 1) \<and>
     (\<exists>m k. chainState c = m @ k \<and> length m = 1 \<and> ref_height (hd m) = 1)"
proof -
  have "(case AddBlock toy_hash (newChain 20 10) (ex_block 1 []) BSBlockchain of
      Inl p \<Rightarrow> False | Inr (c, n) \<Rightarrow> n = 1)" by code_simp
  then obtain c where c: "AddBlock toy_hash (newChain 20 10) (ex_block 1 []) BSBlockchain = Inr (c, 1)"
    by (auto split: sum.splits)
  from add_block_extends [OF toy_hash_binds chain_ok_newChain ex_block_small c refl]
  obtain m k where m: "chainState c = m @ k" "1 = int (length m)"
    "hd m = \<lparr>ref_height = NumberU64 (bi_Block (ex_block 1 [])), ref_hash = block_Hash toy_hash (bi_Block (ex_block 1 []))\<rparr>"
    by auto
  then have "length m = 1" "ref_height (hd m) = 1" by (simp_all add: ex_block_fields)
  with c m(1) show ?thesis by (intro exI conjI)
qed

text \<open>The loops end without a panic when no parent hash is the hash of the nil header.\<close>

lemma getBlockHeader_not_nil:
  "h \<noteq> HH None \<Longrightarrow> getBlockHeader HH c ht h = None \<or> (\<exists>hdr. getBlockHeader HH c ht h = Some (Some hdr))"
proof (cases "getBlockHeader HH c ht h")
  case (Some p)
  assume "h \<noteq> HH None"
  moreover have "HH p = h"
    using Some by (auto simp: getBlockHeader_def dest: find_header_Some split: option.splits)
  ultimately show ?thesis using Some by (cases p) auto
qed simp

lemma fill_missing_returns:
  assumes "\<forall>ht hdr. stored c ht hdr \<longrightarrow> ParentHash hdr \<noteq> HH None" "h \<noteq> HH None"
  shows "\<exists>e. fill_missing HH c bottom ht h ms = Inr e \<and> (\<forall>ht' h' m. e = LoopExit ht' h' m \<longrightarrow> h' \<noteq> HH None)"
  using assms
proof (induction HH c bottom ht h ms rule: fill_missing.induct)
  case (1 HH c bottom ht h ms)
  show ?case
  proof (cases "bottom < ht")
    case False
    with "1.prems" show ?thesis by (simp add: fill_missing.simps [of HH c bottom])
  next
    case True
    show ?thesis
    proof (cases "getBlockHeader HH c ht h")
      case None
      with True show ?thesis by (simp add: fill_missing.simps [of HH c bottom])
    next
      case (Some p)
      with getBlockHeader_not_nil [of h HH c ht] "1.prems"(2) obtain hdr where
        hdr: "getBlockHeader HH c ht h = Some (Some hdr)" by auto
      then have "ParentHash hdr \<noteq> HH None" using "1.prems"(1) getBlockHeader_stored [OF hdr] by blast
      note IH = "1.IH" [OF True hdr refl refl _ "1.prems"(1) this]
      show ?thesis using True hdr IH
        by (cases "minValidChain c \<le> int (length (ms @ [\<lparr>ref_height = ht, ref_hash = h\<rparr>]))")
          (auto simp: fill_missing.simps [of HH c bottom ht])
    qed
  qed
qed

lemma reorg_loop_returns:
  assumes "\<forall>ht hdr. stored c ht hdr \<longrightarrow> ParentHash hdr \<noteq> HH None" "h \<noteq> HH None"
  shows "\<exists>e. reorg_loop HH c cs i ht h ms = Inr e"
  using assms
proof (induction HH c cs i ht h ms rule: reorg_loop.induct)
  case (2 HH c r rest i ht h ms)
  show ?case
  proof (cases "getBlockHeader HH c ht h")
    case (Some p)
    with getBlockHeader_not_nil [of h HH c ht] "2.prems"(2) obtain hdr where
      hdr: "getBlockHeader HH c ht h = Some (Some hdr)" by auto
    then have "ParentHash hdr \<noteq> HH None" using "2.prems"(1) getBlockHeader_stored [OF hdr] by blast
    with "2.IH" [OF _ hdr refl refl _ "2.prems"(1) this] hdr show ?thesis by (auto simp: Let_def)
  qed simp
qed simp

text \<open>The gap above the head fits into a slice when the new height does.\<close>

definition height_fits :: "u64 \<Rightarrow> bool" where
  "height_fits ht \<longleftrightarrow> make_ok blockRefSize (uint ht)"

lemma height_fits_gap: "height_fits ht \<Longrightarrow> low < ht \<Longrightarrow> make_ok blockRefSize (uint (ht - low))"
proof -
  assume a: "height_fits ht" "low < ht"
  have "uint (ht - low) = uint ht - uint low"
    by (rule uint_minus_simple_alt [THEN iffD1]) (use a(2) in \<open>rule order_less_imp_le\<close>)
  moreover have "0 \<le> uint low" "uint low \<le> uint ht" using a(2) by (simp_all add: word_less_def)
  ultimately show ?thesis using a(1) unfolding height_fits_def make_ok_def blockRefSize_def by linarith
qed

lemma updateChainState_returns:
  assumes "\<forall>ht hdr. stored c ht hdr \<longrightarrow> ParentHash hdr \<noteq> HH None" "h \<noteq> HH None" "height_fits ht"
  shows "\<exists>c' n. updateChainState HH c ht h p = Inr (c', n)"
proof (cases "chainState c")
  case Nil
  then show ?thesis by (simp add: updateChainState_def)
next
  case (Cons hd' tl')
  define c1 where "c1 = (if ref_height hd' + 1 = ht \<and> ref_hash hd' = p
    then c\<lparr>chainState := \<lparr>ref_height = ht, ref_hash = h\<rparr> # chainState c\<rparr> else c)"
  have st: "\<forall>ht hdr. stored c1 ht hdr \<longrightarrow> ParentHash hdr \<noteq> HH None"
    using assms(1) by (simp add: c1_def)
  obtain e where e: "fill_missing HH c1 (ref_height hd') ht h [] = Inr e"
    "\<forall>ht' h' m. e = LoopExit ht' h' m \<longrightarrow> h' \<noteq> HH None"
    using fill_missing_returns [where HH = HH, OF st assms(2)] by blast
  have "\<exists>e'. reorg_loop HH c1 (chainState c1) 0 x y z = Inr e'" if "e = LoopExit x y z" for x y z
    using reorg_loop_returns [where HH = HH, OF st] e(2) that by blast
  moreover have "make_ok blockRefSize (uint (ht - ref_height hd'))" if "\<not> ht \<le> ref_height hd'"
    using that by (intro height_fits_gap [OF assms(3)]) (simp add: not_le)
  ultimately show ?thesis using e(1) Cons
    unfolding updateChainState_def Let_def list.case Cons c1_def [symmetric, unfolded Cons]
    by (cases e) (auto simp: install_def split: loop_end.split)
qed

lemma stored_AddBlock_store:
  "stored (AddBlock_store HH c b source) ht hdr \<Longrightarrow> stored c ht hdr \<or> hdr = blk_header (bi_Block b)"
  by (auto simp: AddBlock_store_def stored_storeBlock stored_cong [of "storeBlockMetadata c _ _ _ _" c] split: if_splits)

text \<open>
  Adding a block never panics, as long as neither a stored header nor the block names the hash
  of the nil header as its parent and a slice of references up to its height is not too large.
\<close>

lemma add_block_returns:
  assumes "hash_binds HH" "\<forall>ht hdr. stored c ht hdr \<longrightarrow> ParentHash hdr \<noteq> HH None"
    and "ParentHash (blk_header (bi_Block b)) \<noteq> HH None" "height_fits (NumberU64 (bi_Block b))"
  shows "\<exists>c' n. AddBlock HH c b source = Inr (c', n)"
proof -
  have "\<forall>ht hdr. stored (AddBlock_store HH c b source) ht hdr \<longrightarrow> ParentHash hdr \<noteq> HH None"
    using assms(2,3) stored_AddBlock_store [of HH c b source] by blast
  moreover have "block_Hash HH (bi_Block b) \<noteq> HH None"
    using hash_bindsD(3) [OF assms(1)] unfolding block_Hash_def by blast
  ultimately show ?thesis
    using updateChainState_returns [of "AddBlock_store HH c b source" HH] assms(4) unfolding AddBlock_split by auto
qed

lemma add_block_returns_example:
  "\<exists>c' n. AddBlock toy_hash (storeBlock toy_hash (newChain 20 10) (bi_Block (ex_block 3 [7])) None BSBDN)
     (ex_block 8 [9]) BSBlockchain = Inr (c', n)"
  by (rule add_block_returns [OF toy_hash_binds])
    (auto simp: storeEthHeaderAtHeight_headers ex_block_fields toy_hash_def stored_def newChain_def height_fits_def make_ok_def
      blockRefSize_def maxAlloc_def split: if_splits)

text \<open>The bound is needed: above a head at height 0 a block with a huge number panics.\<close>

lemma far_block_panics:
  assumes "chainState c = r # rs" "ref_height r < ht" "\<not> make_ok blockRefSize (uint (ht - ref_height r))"
  shows "updateChainState HH c ht h p = Inl MakeSlice"
proof -
  have "\<not> ht \<le> ref_height r" using assms(2) by simp
  with assms(1,3) show ?thesis by (simp add: updateChainState_def)
qed

lemma far_block_panics_example:
  "updateChainState toy_hash ((newChain 20 10 :: (unit, unit) chain)\<lparr>chainState := [\<lparr>ref_height = 0, ref_hash = [5]\<rparr>]\<rparr>)
     (2 ^ 62) [7] [6] = Inl MakeSlice"
  by (rule far_block_panics [where r = "\<lparr>ref_height = 0, ref_hash = [5]\<rparr>" and rs = "[]"]) (simp_all add: make_ok_def blockRefSize_def maxAlloc_def)

end
