(* ===== verification/Hash_History.thy ===== *)
theory Hash_History
  imports Prelude
begin

text \<open>
  The expiring set of hashes of \<^verbatim>\<open>services/hash_history.go\<close>: a concurrent map from hashes to
  expiration times, its clean-up pass, and the contract (locale \<open>expiring_set\<close>) its two
  clients, the transaction store and the block processor, rely on. Every call of the
  clock is an argument: \<open>now\<close> is the reading that call returns.
\<close>

section \<open>The model\<close>

record 'k hash_history =
  hh_name :: string
  hh_cleanupFreq :: duration
  hh_data :: "'k \<rightharpoonup> int"

definition newHashHistory :: "string \<Rightarrow> duration \<Rightarrow> 'k hash_history" where
  "newHashHistory name cleanupFreq =
     \<lparr>hh_name = name, hh_cleanupFreq = cleanupFreq, hh_data = Map.empty\<rparr>"

definition hh_Add :: "'k hash_history \<Rightarrow> instant \<Rightarrow> 'k \<Rightarrow> duration \<Rightarrow> 'k hash_history" where
  "hh_Add hh now hash expiration =
     hh\<lparr>hh_data := (hh_data hh)(hash \<mapsto> UnixNano (now + expiration))\<rparr>"

definition hh_Remove :: "'k hash_history \<Rightarrow> 'k \<Rightarrow> 'k hash_history" where
  "hh_Remove hh hash = hh\<lparr>hh_data := (hh_data hh)(hash := None)\<rparr>"

definition hh_SetIfAbsent ::
  "'k hash_history \<Rightarrow> instant \<Rightarrow> 'k \<Rightarrow> duration \<Rightarrow> 'k hash_history \<times> bool" where
  "hh_SetIfAbsent hh now hash expiration =
     (case hh_data hh hash of
        None \<Rightarrow> (hh\<lparr>hh_data := (hh_data hh)(hash \<mapsto> UnixNano (now + expiration))\<rparr>, True)
      | Some _ \<Rightarrow> (hh, False))"

definition hh_Exists :: "'k hash_history \<Rightarrow> instant \<Rightarrow> 'k \<Rightarrow> bool" where
  "hh_Exists hh now hash =
     (case hh_data hh hash of None \<Rightarrow> False | Some expiration \<Rightarrow> UnixNano now < expiration)"

definition hh_Count :: "'k hash_history \<Rightarrow> nat" where
  "hh_Count hh = card (dom (hh_data hh))"

text \<open>
  \<open>clean\<close>: one reading of the clock, then the loop over the snapshot \<open>items\<close> of the map's
  iterator; the second component counts the removed entries.
\<close>

fun hh_clean_loop :: "('k \<times> int) list \<Rightarrow> int \<Rightarrow> 'k hash_history \<Rightarrow> int \<Rightarrow> 'k hash_history \<times> int" where
  "hh_clean_loop [] timeNow hh historyCleaned = (hh, historyCleaned)"
| "hh_clean_loop ((key, expiration) # items) timeNow hh historyCleaned =
     (if timeNow > expiration
      then hh_clean_loop items timeNow (hh_Remove hh key) (historyCleaned + 1)
      else hh_clean_loop items timeNow hh historyCleaned)"

definition hh_clean :: "('k \<times> int) list \<Rightarrow> 'k hash_history \<Rightarrow> instant \<Rightarrow> 'k hash_history \<times> int" where
  "hh_clean items hh now = hh_clean_loop items (UnixNano now) hh 0"

text \<open>
  The clean-up goroutine: one \<open>clean\<close> per tick. A tick carries the snapshot the iterator
  lists at that moment and the clock reading.
\<close>

fun hh_cleanup :: "'k hash_history \<Rightarrow> (('k \<times> int) list \<times> instant) list \<Rightarrow> 'k hash_history" where
  "hh_cleanup hh [] = hh"
| "hh_cleanup hh ((items, now) # ticks) = hh_cleanup (fst (hh_clean items hh now)) ticks"

section \<open>Functional lemmas\<close>

lemma hh_data_ops [simp, store_simps]:
  "hh_data (newHashHistory name cf) = Map.empty"
  "hh_data (hh_Add hh now hash d) = (hh_data hh)(hash \<mapsto> UnixNano (now + d))"
  "hh_data (hh_Remove hh hash) = (hh_data hh)(hash := None)"
  by (simp_all add: newHashHistory_def hh_Add_def hh_Remove_def)

lemma hh_Exists_Add:
  assumes "int64_range now'" "int64_range (now + d)"
  shows "hh_Exists (hh_Add hh now hash d) now' h =
    (if h = hash then now' < now + d else hh_Exists hh now' h)"
  using assms by (simp add: hh_Exists_def UnixNano_id)

lemma hh_Exists_Remove:
  "hh_Exists (hh_Remove hh hash) now' h = (h \<noteq> hash \<and> hh_Exists hh now' h)"
  by (simp add: hh_Exists_def)

lemma hh_Exists_new: "\<not> hh_Exists (newHashHistory name cf) now h"
  by (simp add: hh_Exists_def)

lemma hh_Exists_SetIfAbsent_absent:
  "hh_data hh hash = None \<Longrightarrow> hh_SetIfAbsent hh now hash d = (hh_Add hh now hash d, True)"
  by (simp add: hh_SetIfAbsent_def hh_Add_def)

lemma hh_clean_loop_data:
  "hh_data (fst (hh_clean_loop items t hh n)) =
     (\<lambda>k. if \<exists>e. (k, e) \<in> set items \<and> e < t then None else hh_data hh k)"
proof (induction items t hh n rule: hh_clean_loop.induct)
  case (1 t hh n)
  then show ?case by simp
next
  case (2 key expiration items t hh n)
  then show ?case by (auto simp: fun_eq_iff)
qed

lemma hh_clean_loop_count:
  "snd (hh_clean_loop items t hh n) = n + int (length (filter (\<lambda>(k, e). e < t) items))"
  by (induction items t hh n rule: hh_clean_loop.induct) auto

lemma hh_clean_data:
  assumes "enumerates items (hh_data hh)"
  shows "hh_data (fst (hh_clean items hh now)) =
    (\<lambda>k. case hh_data hh k of None \<Rightarrow> None
       | Some e \<Rightarrow> if e < UnixNano now then None else Some e)"
  using assms by (auto simp: hh_clean_def hh_clean_loop_data enumerates_def fun_eq_iff split: option.splits)

lemma hh_Exists_clean:
  assumes "enumerates items (hh_data hh)" "now \<le> now'" "int64_range now" "int64_range now'"
  shows "hh_Exists (fst (hh_clean items hh now)) now' h = hh_Exists hh now' h"
  using assms by (auto simp: hh_Exists_def hh_clean_data UnixNano_id split: option.splits)

section \<open>The contract of an expiring set\<close>

text \<open>
  What the clients use: \<open>add\<close> makes a key present until the given duration has passed and
  leaves the others alone, \<open>remove\<close> makes it absent, \<open>purge\<close> (the clean-up pass at a given
  time) is invisible from that time on.
\<close>

locale expiring_set =
  fixes empty :: "'h"
    and add :: "'h \<Rightarrow> instant \<Rightarrow> 'k \<Rightarrow> duration \<Rightarrow> 'h"
    and remove :: "'h \<Rightarrow> 'k \<Rightarrow> 'h"
    and purge :: "'h \<Rightarrow> 'i \<Rightarrow> instant \<Rightarrow> 'h"
    and snapshot :: "'h \<Rightarrow> 'i \<Rightarrow> bool"
    and exists_at :: "'h \<Rightarrow> instant \<Rightarrow> 'k \<Rightarrow> bool"
  assumes exists_empty: "\<not> exists_at empty t k"
    and exists_add: "int64_range t \<Longrightarrow> int64_range (now + d) \<Longrightarrow>
      exists_at (add h now k d) t k' = (if k' = k then t < now + d else exists_at h t k')"
    and exists_remove: "exists_at (remove h k) t k' = (k' \<noteq> k \<and> exists_at h t k')"
    and exists_purge: "snapshot h i \<Longrightarrow> int64_range now \<Longrightarrow> int64_range t \<Longrightarrow> now \<le> t \<Longrightarrow>
      exists_at (purge h i now) t k = exists_at h t k"
begin

lemma check_after_mark:
  assumes "int64_range t" "int64_range (now + d)" "t < now + d"
  shows "exists_at (add h now k d) t k"
  using assms by (simp add: exists_add)

lemma mark_expires:
  assumes "int64_range t" "int64_range (now + d)" "now + d \<le> t"
  shows "\<not> exists_at (add h now k d) t k"
  using assms by (simp add: exists_add)

text \<open>A re-marked key is visible until the later deadline and no longer after it.\<close>

lemma remark_extends:
  assumes "int64_range t" "int64_range (now + d)" "int64_range (now' + d')"
  shows "exists_at (add (add h now k d) now' k d') t k = (t < now' + d')"
  using assms by (simp add: exists_add)

text \<open>A purge between a marking and a check is invisible if it ran no later than the check.\<close>

lemma marked_survives_purge:
  assumes "snapshot (add h now k d) i" "int64_range p" "int64_range t" "p \<le> t"
    and "int64_range (now + d)" "t < now + d"
  shows "exists_at (purge (add h now k d) i p) t k"
  using assms by (simp add: exists_purge exists_add)

end

text \<open>The history implements the contract: a purge is the clean-up pass over any enumeration.\<close>

interpretation hh: expiring_set "newHashHistory name cleanupFreq" hh_Add hh_Remove
    "\<lambda>hh items now. fst (hh_clean items hh now)" "\<lambda>hh items. enumerates items (hh_data hh)" hh_Exists
  by unfold_locales
    (simp_all add: hh_Exists_new hh_Exists_Add hh_Exists_Remove hh_Exists_clean)

section \<open>Histories of operations\<close>

text \<open>The operations other code may interleave with a marked hash.\<close>

datatype 'k hh_event = HAdd instant 'k duration | HRemove 'k | HClean "('k \<times> int) list" instant

fun hh_step :: "'k hash_history \<Rightarrow> 'k hh_event \<Rightarrow> 'k hash_history" where
  "hh_step hh (HAdd now k d) = hh_Add hh now k d"
| "hh_step hh (HRemove k) = hh_Remove hh k"
| "hh_step hh (HClean items now) = fst (hh_clean items hh now)"

text \<open>An event that leaves \<open>k\<close> alone and runs no later than \<open>t\<close>.\<close>

fun hh_quiet :: "'k \<Rightarrow> instant \<Rightarrow> 'k hash_history \<Rightarrow> 'k hh_event \<Rightarrow> bool" where
  "hh_quiet k t hh (HAdd now k' d) = (k' \<noteq> k \<and> int64_range (now + d))"
| "hh_quiet k t hh (HRemove k') = (k' \<noteq> k)"
| "hh_quiet k t hh (HClean items now) =
     (enumerates items (hh_data hh) \<and> int64_range now \<and> now \<le> t)"

fun hh_quiet_run :: "'k \<Rightarrow> instant \<Rightarrow> 'k hash_history \<Rightarrow> 'k hh_event list \<Rightarrow> bool" where
  "hh_quiet_run k t hh [] = True"
| "hh_quiet_run k t hh (e # es) = (hh_quiet k t hh e \<and> hh_quiet_run k t (hh_step hh e) es)"

lemma hh_quiet_step:
  assumes "int64_range t" "hh_quiet k t hh e"
  shows "hh_Exists (hh_step hh e) t k = hh_Exists hh t k"
  using assms
  by (cases e) (auto simp: hh.exists_add hh.exists_remove hh.exists_purge)

lemma hh_quiet_run_exists:
  "int64_range t \<Longrightarrow> hh_quiet_run k t hh es \<Longrightarrow>
     hh_Exists (fold (\<lambda>e hh. hh_step hh e) es hh) t k = hh_Exists hh t k"
  by (induction es arbitrary: hh) (simp_all add: hh_quiet_step)

end
