(* ===== verification/Tb_Transaction.thy ===== *)
theory Tb_Transaction
  imports Prelude
begin

text \<open>
  The transaction object of \<^verbatim>\<open>types/tbtransaction.go\<close>: a hash, a content that is set at most
  once, the short IDs assigned to the transaction, the time it was added and its network.
  The mutex of the Go struct only serialises the mutations, each of which is one function
  here.
\<close>

type_synonym tx_id = u32
type_synonym network_num = u32

definition TxIDEmpty :: tx_id where
  "TxIDEmpty = 0"

definition AllNetworkNum :: network_num where
  "AllNetworkNum = 0"

record tb_transaction =
  tx_hash :: hash
  tx_content :: "byte slice"
  tx_txIDs :: "tx_id list"
  tx_addTime :: instant
  tx_networkNum :: network_num

definition NewTbTransaction :: "hash \<Rightarrow> network_num \<Rightarrow> instant \<Rightarrow> tb_transaction" where
  "NewTbTransaction hash networkNum timestamp =
     \<lparr>tx_hash = hash, tx_content = None, tx_txIDs = [], tx_addTime = timestamp,
      tx_networkNum = networkNum\<rparr>"

text \<open>The zero value of a \<open>time.Time\<close> is 1 January of year 1.\<close>

definition zero_time :: instant where
  "zero_time = - 62135596800 * Second"

definition NewRawTbTransaction :: "hash \<Rightarrow> byte slice \<Rightarrow> tb_transaction" where
  "NewRawTbTransaction hash content =
     \<lparr>tx_hash = hash, tx_content = content, tx_txIDs = [], tx_addTime = zero_time,
      tx_networkNum = 0\<rparr>"

definition tx_HasContent :: "tb_transaction \<Rightarrow> bool" where
  "tx_HasContent bt \<longleftrightarrow> length (slice_elems (tx_content bt)) > 0"

definition SetAddTime :: "tb_transaction \<Rightarrow> instant \<Rightarrow> tb_transaction" where
  "SetAddTime bt t = bt\<lparr>tx_addTime := t\<rparr>"

text \<open>The scan over the IDs already assigned.\<close>

fun AddTxID_known :: "tx_id \<Rightarrow> tx_id list \<Rightarrow> bool" where
  "AddTxID_known txID [] = False"
| "AddTxID_known txID (existingShortID # rest) =
     (if txID = existingShortID then True else AddTxID_known txID rest)"

definition AddTxID :: "tb_transaction \<Rightarrow> tx_id \<Rightarrow> tb_transaction \<times> bool" where
  "AddTxID bt txID =
     (if txID = TxIDEmpty then (bt, False)
      else if AddTxID_known txID (tx_txIDs bt) then (bt, False)
      else (bt\<lparr>tx_txIDs := tx_txIDs bt @ [txID]\<rparr>, True))"

definition SetContent :: "tb_transaction \<Rightarrow> byte slice \<Rightarrow> tb_transaction \<times> bool" where
  "SetContent bt content =
     (if length (slice_elems (tx_content bt)) = 0 \<and> length (slice_elems content) > 0
      then (bt\<lparr>tx_content := Some (slice_elems content)\<rparr>, True)
      else (bt, False))"

section \<open>Well-formed transactions\<close>

text \<open>
  IDs are distinct and never the empty ID, and the content is nil exactly when it is empty.
\<close>

definition tx_ok :: "tb_transaction \<Rightarrow> bool" where
  "tx_ok bt \<longleftrightarrow> distinct (tx_txIDs bt) \<and> TxIDEmpty \<notin> set (tx_txIDs bt) \<and> tx_content bt \<noteq> Some []"

lemma AddTxID_known_iff [simp]: "AddTxID_known txID ids \<longleftrightarrow> txID \<in> set ids"
  by (induction ids) auto

lemma NewTbTransaction_simps [simp, store_simps]:
  "tx_hash (NewTbTransaction h n t) = h"
  "tx_content (NewTbTransaction h n t) = None"
  "tx_txIDs (NewTbTransaction h n t) = []"
  "tx_addTime (NewTbTransaction h n t) = t"
  "tx_networkNum (NewTbTransaction h n t) = n"
  by (simp_all add: NewTbTransaction_def)

lemma tx_ok_New [simp, intro]: "tx_ok (NewTbTransaction h n t)"
  by (simp add: tx_ok_def)

lemma AddTxID_fields [simp, store_simps]:
  "tx_hash (fst (AddTxID bt i)) = tx_hash bt"
  "tx_content (fst (AddTxID bt i)) = tx_content bt"
  "tx_addTime (fst (AddTxID bt i)) = tx_addTime bt"
  "tx_networkNum (fst (AddTxID bt i)) = tx_networkNum bt"
  "tx_txIDs (fst (AddTxID bt i)) =
     (if i = TxIDEmpty \<or> i \<in> set (tx_txIDs bt) then tx_txIDs bt else tx_txIDs bt @ [i])"
  "snd (AddTxID bt i) = (i \<noteq> TxIDEmpty \<and> i \<notin> set (tx_txIDs bt))"
  by (simp_all add: AddTxID_def)

lemma SetContent_fields [simp, store_simps]:
  "tx_hash (fst (SetContent bt c)) = tx_hash bt"
  "tx_txIDs (fst (SetContent bt c)) = tx_txIDs bt"
  "tx_addTime (fst (SetContent bt c)) = tx_addTime bt"
  "tx_networkNum (fst (SetContent bt c)) = tx_networkNum bt"
  "snd (SetContent bt c) = (slice_elems (tx_content bt) = [] \<and> slice_elems c \<noteq> [])"
  by (simp_all add: SetContent_def)

lemma SetContent_content:
  "tx_content (fst (SetContent bt c)) =
     (if slice_elems (tx_content bt) = [] \<and> slice_elems c \<noteq> [] then Some (slice_elems c)
      else tx_content bt)"
  by (simp add: SetContent_def)

lemma tx_ok_AddTxID [intro]: "tx_ok bt \<Longrightarrow> tx_ok (fst (AddTxID bt i))"
  by (auto simp: tx_ok_def)

lemma tx_ok_SetContent [intro]: "tx_ok bt \<Longrightarrow> tx_ok (fst (SetContent bt c))"
  by (simp add: tx_ok_def SetContent_content)

text \<open>A content, once set, is never changed again.\<close>

lemma SetContent_once:
  "tx_HasContent bt \<Longrightarrow> SetContent bt c = (bt, False)"
  by (simp add: tx_HasContent_def SetContent_def)

end
