(* ===== verification/Tx_Store.thy ===== *)
theory Tx_Store
  imports Hash_History Tb_Transaction "HOL-Library.AList"
begin

text \<open>
  The transaction store of \<^verbatim>\<open>services/tbtxstore.go\<close> and \<^verbatim>\<open>services/txstore.go\<close>: a map from hashes
  to transactions, a map from short IDs to hashes, and the history of removed hashes that
  protects against re-entry. Every operation of the Go type is one definition; a call of
  the clock is an argument in the order of the calls, and a snapshot of a map's iterator is
  a list of its entries.
\<close>

section \<open>Data\<close>

definition NoReEntryProtection :: byte where "NoReEntryProtection = 0"
definition ShortReEntryProtection :: byte where "ShortReEntryProtection = 1"
definition FullReEntryProtection :: byte where "FullReEntryProtection = 2"

lemmas reentry_flags =
  NoReEntryProtection_def ShortReEntryProtection_def FullReEntryProtection_def

definition ShortReEntryProtectionDuration :: duration where
  "ShortReEntryProtectionDuration = 30 * Minute"

definition TxStoreMaxSize :: nat where
  "TxStoreMaxSize = 200000"

text \<open>The assigner is an object behind an interface, kept in its own state \<^typ>\<open>'a\<close>.\<close>

record 'a tb_tx_store =
  hashToContent :: "hash \<rightharpoonup> tb_transaction"
  txIDToHash :: "tx_id \<rightharpoonup> hash"
  seenTxs :: "hash hash_history"
  timeToAvoidReEntry :: duration
  cleanupFreq :: duration
  maxTxAge :: duration
  noTxIDAge :: duration
  assigner :: 'a
  hasCleanedChannel :: bool

datatype debug_data = NoDebugData | TooOld instant | SeenAndDeleted | DeletedByOther

record transaction_result =
  NewTx :: bool
  NewContent :: bool
  NewTxID :: bool
  Reprocess :: bool
  FailedValidation :: bool
  Transaction :: "tb_transaction option"
  AssignedTxID :: tx_id
  DebugData :: debug_data
  AlreadySeen :: bool
  Sender :: "byte list"

definition zero_result :: transaction_result where
  "zero_result = \<lparr>NewTx = False, NewContent = False, NewTxID = False, Reprocess = False,
     FailedValidation = False, Transaction = None, AssignedTxID = 0, DebugData = NoDebugData,
     AlreadySeen = False, Sender = replicate 20 0\<rparr>"

section \<open>Operations\<close>

definition NewTbTxStore ::
  "duration \<Rightarrow> duration \<Rightarrow> duration \<Rightarrow> 'a \<Rightarrow> hash hash_history \<Rightarrow> bool \<Rightarrow> duration \<Rightarrow> 'a tb_tx_store" where
  "NewTbTxStore cf maxAge noIDAge asg seen chan avoid =
     \<lparr>hashToContent = Map.empty, txIDToHash = Map.empty, seenTxs = seen,
      timeToAvoidReEntry = avoid, cleanupFreq = cf, maxTxAge = maxAge, noTxIDAge = noIDAge,
      assigner = asg, hasCleanedChannel = chan\<rparr>"

text \<open>The assigner of a node that never assigns short IDs.\<close>

definition emptyTxIDAssigner_Next :: "unit \<Rightarrow> tx_id \<times> unit" where
  "emptyTxIDAssigner_Next self = (TxIDEmpty, self)"

definition Clear :: "'a tb_tx_store \<Rightarrow> 'a tb_tx_store" where
  "Clear t = t\<lparr>hashToContent := Map.empty, txIDToHash := Map.empty\<rparr>"

definition Count :: "'a tb_tx_store \<Rightarrow> nat" where
  "Count t = card (dom (hashToContent t))"

text \<open>
  \<open>remove\<close>: pop the transaction, drop its short IDs, and remember the hash as the flag asks.
  An unknown flag is only logged.
\<close>

fun remove_txIDs :: "tx_id list \<Rightarrow> (tx_id \<rightharpoonup> hash) \<Rightarrow> (tx_id \<rightharpoonup> hash)" where
  "remove_txIDs [] m = m"
| "remove_txIDs (txID # ids) m = remove_txIDs ids (m(txID := None))"

definition txstore_remove :: "'a tb_tx_store \<Rightarrow> instant \<Rightarrow> hash \<Rightarrow> byte \<Rightarrow> 'a tb_tx_store" where
  "txstore_remove t now hash reEntryProtection =
     (case hashToContent t hash of
        None \<Rightarrow> t
      | Some tbTransaction \<Rightarrow>
          (let t1 = t\<lparr>hashToContent := (hashToContent t)(hash := None)\<rparr>;
               t2 = t1\<lparr>txIDToHash := remove_txIDs (tx_txIDs tbTransaction) (txIDToHash t1)\<rparr>
           in if reEntryProtection = NoReEntryProtection then t2
              else if reEntryProtection = ShortReEntryProtection
              then t2\<lparr>seenTxs := hh_Add (seenTxs t2) now hash ShortReEntryProtectionDuration\<rparr>
              else if reEntryProtection = FullReEntryProtection
              then t2\<lparr>seenTxs := hh_Add (seenTxs t2) now hash (timeToAvoidReEntry t2)\<rparr>
              else t2))"

fun RemoveHashes :: "'a tb_tx_store \<Rightarrow> (hash \<Rightarrow> instant) \<Rightarrow> hash list \<Rightarrow> byte \<Rightarrow> 'a tb_tx_store" where
  "RemoveHashes t clk [] reEntryProtection = t"
| "RemoveHashes t clk (hash # hashes) reEntryProtection =
     RemoveHashes (txstore_remove t (clk hash) hash reEntryProtection) clk hashes reEntryProtection"

fun hashesToRemove :: "'a tb_tx_store \<Rightarrow> tx_id list \<Rightarrow> hash list" where
  "hashesToRemove t [] = []"
| "hashesToRemove t (txID # txIDs) =
     (case txIDToHash t txID of
        Some hash \<Rightarrow> hash # hashesToRemove t txIDs
      | None \<Rightarrow> hashesToRemove t txIDs)"

definition RemoveTxIDs :: "'a tb_tx_store \<Rightarrow> (hash \<Rightarrow> instant) \<Rightarrow> tx_id list \<Rightarrow> byte \<Rightarrow> 'a tb_tx_store" where
  "RemoveTxIDs t clk txIDs reEntryProtection =
     RemoveHashes t clk (hashesToRemove t txIDs) reEntryProtection"

datatype get_tx_error = ContentDoesNotExist tx_id hash | TxIDDoesNotExist tx_id

definition GetTxByID :: "'a tb_tx_store \<Rightarrow> tx_id \<Rightarrow> get_tx_error + tb_transaction" where
  "GetTxByID t txID =
     (case txIDToHash t txID of
        Some hash \<Rightarrow>
          (case hashToContent t hash of
             Some tx \<Rightarrow> Inr tx
           | None \<Rightarrow> Inl (ContentDoesNotExist txID hash))
      | None \<Rightarrow> Inl (TxIDDoesNotExist txID))"

text \<open>\<open>Iter\<close>: the transactions of the snapshot that are young enough, each at its own reading.\<close>

fun txstore_Iter :: "'a tb_tx_store \<Rightarrow> (hash \<Rightarrow> instant) \<Rightarrow> (hash \<times> tb_transaction) list \<Rightarrow> tb_transaction list" where
  "txstore_Iter t clk [] = []"
| "txstore_Iter t clk ((key, tx) # items) =
     (if time_Sub (clk key) (tx_addTime tx) < maxTxAge t
      then tx # txstore_Iter t clk items else txstore_Iter t clk items)"

definition refreshSeenTx ::
  "'a tb_tx_store \<Rightarrow> instant \<Rightarrow> instant \<Rightarrow> hash \<Rightarrow> 'a tb_tx_store \<times> bool" where
  "refreshSeenTx t nowExists nowAdd hash =
     (if hh_Exists (seenTxs t) nowExists hash
      then (t\<lparr>seenTxs := hh_Add (seenTxs t) nowAdd hash (timeToAvoidReEntry t)\<rparr>, True)
      else (t, False))"

text \<open>
  \<open>Add\<close>. The tail, from the lookup of the transaction object on, is \<open>Add_insert\<close>: it is
  reached when the transaction is neither too old nor already seen.
\<close>

definition Add_insert ::
  "('a \<Rightarrow> tx_id \<times> 'a) \<Rightarrow> 'a tb_tx_store \<Rightarrow> hash \<Rightarrow> byte slice \<Rightarrow> tx_id \<Rightarrow> network_num \<Rightarrow> instant \<Rightarrow>
     'a tb_tx_store \<times> transaction_result" where
  "Add_insert Next t hash content txID networkNum timestamp =
     (let fresh = NewTbTransaction hash networkNum timestamp;
          isNew = (hashToContent t hash = None);
          t1 = (if isNew then t\<lparr>hashToContent := (hashToContent t)(hash \<mapsto> fresh)\<rparr> else t);
          result = zero_result\<lparr>NewTx := isNew\<rparr>
      in case (if isNew then Some fresh else hashToContent t1 hash) of
           None \<Rightarrow> (t1, result\<lparr>Transaction := Some fresh, DebugData := DeletedByOther\<rparr>)
         | Some tbTransaction \<Rightarrow>
             (let (txID', asg, result1) =
                    (if isNew \<and> txID = TxIDEmpty
                     then (let (next, asg') = Next (assigner t1)
                           in (next, asg', result\<lparr>AssignedTxID := next\<rparr>))
                     else (txID, assigner t1, result));
                  (bt1, newID) = AddTxID tbTransaction txID';
                  (bt2, newContent) = SetContent bt1 content;
                  t2 = t1\<lparr>assigner := asg, hashToContent := (hashToContent t1)(hash \<mapsto> bt2)\<rparr>;
                  t3 = (if newID
                        then t2\<lparr>txIDToHash := (txIDToHash t2)(txID' \<mapsto> tx_hash bt2)\<rparr> else t2)
              in (t3, result1\<lparr>NewTxID := newID, NewContent := newContent, Transaction := Some bt2\<rparr>)))"

definition Add ::
  "('a \<Rightarrow> tx_id \<times> 'a) \<Rightarrow> 'a tb_tx_store \<Rightarrow> instant \<Rightarrow> instant \<Rightarrow> instant \<Rightarrow>
     hash \<Rightarrow> byte slice \<Rightarrow> tx_id \<Rightarrow> network_num \<Rightarrow> instant \<Rightarrow>
     ('a tb_tx_store \<times> transaction_result) go" where
  "Add Next t now nowExists nowAdd hash content txID networkNum timestamp =
     (if txID = TxIDEmpty \<and> length (slice_elems content) = 0
      then Inl (ExplicitPanic ''content and txID can't be both missing'')
      else if time_Sub now timestamp > maxTxAge t
      then Inr (t, zero_result\<lparr>Transaction := Some (NewTbTransaction hash networkNum timestamp),
                               DebugData := TooOld timestamp\<rparr>)
      else (let (t1, seen) = refreshSeenTx t nowExists nowAdd hash
            in if seen \<and> txID = TxIDEmpty
               then Inr (t1, zero_result\<lparr>Transaction := Some (NewTbTransaction hash networkNum timestamp),
                                         DebugData := SeenAndDeleted, AlreadySeen := True\<rparr>)
               else (let t2 = (if seen then t1\<lparr>seenTxs := hh_Remove (seenTxs t1) hash\<rparr> else t1)
                     in Inr (Add_insert Next t2 hash content txID networkNum timestamp))))"

definition txstore_Get ::
  "'a tb_tx_store \<Rightarrow> instant \<Rightarrow> instant \<Rightarrow> hash \<Rightarrow> 'a tb_tx_store \<times> tb_transaction option" where
  "txstore_Get t nowExists nowAdd hash =
     (let (t1, seen) = refreshSeenTx t nowExists nowAdd hash
      in if seen then (t1, None) else (t1, hashToContent t1 hash))"

definition Known :: "'a tb_tx_store \<Rightarrow> instant \<Rightarrow> instant \<Rightarrow> hash \<Rightarrow> 'a tb_tx_store \<times> bool" where
  "Known t nowExists nowAdd hash = refreshSeenTx t nowExists nowAdd hash"

definition txstore_HasContent :: "'a tb_tx_store \<Rightarrow> instant \<Rightarrow> instant \<Rightarrow> hash \<Rightarrow> 'a tb_tx_store \<times> bool" where
  "txstore_HasContent t nowExists nowAdd hash =
     (case txstore_Get t nowExists nowAdd hash of
        (t1, None) \<Rightarrow> (t1, False)
      | (t1, Some tx) \<Rightarrow> (t1, tx_content tx \<noteq> None))"

section \<open>Clean-up\<close>

record network_data =
  nd_maxAge :: duration
  nd_ages :: "int list"
  nd_cleanAge :: int
  nd_cleanNoTxID :: int

definition zero_network_data :: network_data where
  "zero_network_data = \<lparr>nd_maxAge = 0, nd_ages = [], nd_cleanAge = 0, nd_cleanNoTxID = 0\<rparr>"

text \<open>The two Go maps of the pass, in the order in which their keys are first written.\<close>

type_synonym networks = "(network_num \<times> network_data) list"
type_synonym cleaned_ids = "(network_num \<times> tx_id list) list"

text \<open>First loop: the ages in seconds of every network's transactions.\<close>

fun clean_ages :: "instant \<Rightarrow> (hash \<times> tb_transaction) list \<Rightarrow> networks \<Rightarrow> networks" where
  "clean_ages currTime [] networks = networks"
| "clean_ages currTime ((key, tx) # items) networks =
     (let netData = (case map_of networks (tx_networkNum tx) of
                       None \<Rightarrow> zero_network_data | Some nd \<Rightarrow> nd);
          txAge = quot64 (time_Sub currTime (tx_addTime tx)) Second
      in clean_ages currTime items
           (AList.update (tx_networkNum tx) (netData\<lparr>nd_ages := nd_ages netData @ [txAge]\<rparr>) networks))"

text \<open>Second loop: the age limit of a network; a network over the size limit keeps 90 per cent.\<close>

definition TxStoreCleanIndex :: nat where
  "TxStoreCleanIndex = TxStoreMaxSize * 9 div 10 - 1"

definition clean_maxAge :: "duration \<Rightarrow> network_data \<Rightarrow> network_data" where
  "clean_maxAge maxTxAge' netData =
     (if length (nd_ages netData) \<le> TxStoreMaxSize
      then netData\<lparr>nd_maxAge := maxTxAge'\<rparr>
      else (let ages = sort (nd_ages netData);
                maxAge = wrap64 (ages ! TxStoreCleanIndex * Second)
            in netData\<lparr>nd_ages := ages, nd_maxAge := (if maxAge > maxTxAge' then maxTxAge' else maxAge)\<rparr>))"

text \<open>
  Third loop, over a second snapshot of the map: remove what is too old, or old and without
  a short ID. The network record is a nil pointer when the network did not occur in the
  first snapshot.
\<close>

fun clean_remove ::
  "instant \<Rightarrow> (hash \<Rightarrow> instant) \<Rightarrow> (hash \<times> tb_transaction) list \<Rightarrow> networks \<Rightarrow>
     cleaned_ids \<Rightarrow> 'a tb_tx_store \<Rightarrow>
     ('a tb_tx_store \<times> networks \<times> cleaned_ids) go" where
  "clean_remove currTime clk [] networks cleanedTxIDs t = Inr (t, networks, cleanedTxIDs)"
| "clean_remove currTime clk ((key, tx) # items) networks cleanedTxIDs t =
     (let networkNum = tx_networkNum tx;
          txAge = time_Sub currTime (tx_addTime tx);
          removed = txstore_remove t (clk key) key FullReEntryProtection;
          cleaned = AList.update networkNum
            ((case map_of cleanedTxIDs networkNum of None \<Rightarrow> [] | Some ids \<Rightarrow> ids) @ tx_txIDs tx)
            cleanedTxIDs
      in case map_of networks networkNum of
           Some netData \<Rightarrow>
             (if txAge > nd_maxAge netData
              then clean_remove currTime clk items
                     (AList.update networkNum (netData\<lparr>nd_cleanAge := nd_cleanAge netData + 1\<rparr>) networks)
                     cleaned removed
              else if txAge > noTxIDAge t \<and> length (tx_txIDs tx) = 0
              then clean_remove currTime clk items
                     (AList.update networkNum (netData\<lparr>nd_cleanNoTxID := nd_cleanNoTxID netData + 1\<rparr>) networks)
                     cleaned removed
              else clean_remove currTime clk items networks cleanedTxIDs t)
         | None \<Rightarrow>
             (if txAge > noTxIDAge t \<and> length (tx_txIDs tx) = 0
              then Inl NilDereference
              else clean_remove currTime clk items networks cleanedTxIDs t))"

definition txstore_clean ::
  "instant \<Rightarrow> (hash \<Rightarrow> instant) \<Rightarrow> (hash \<times> tb_transaction) list \<Rightarrow> (hash \<times> tb_transaction) list \<Rightarrow>
     'a tb_tx_store \<Rightarrow> ('a tb_tx_store \<times> int \<times> cleaned_ids) go" where
  "txstore_clean currTime clk items1 items2 t =
     (let networks = map (map_prod id (clean_maxAge (maxTxAge t))) (clean_ages currTime items1 [])
      in gbind (clean_remove currTime clk items2 networks [] t)
           (\<lambda>(t', networks', cleanedTxIDs).
              Inr (t', sum_list (map (\<lambda>(net, nd). nd_cleanNoTxID nd + nd_cleanAge nd) networks'), cleanedTxIDs)))"

text \<open>\<open>CleanNow\<close>: the message it pushes on the channel of cleaned IDs, if there is one.\<close>

definition CleanNow ::
  "instant \<Rightarrow> (hash \<Rightarrow> instant) \<Rightarrow> (hash \<times> tb_transaction) list \<Rightarrow> (hash \<times> tb_transaction) list \<Rightarrow>
     'a tb_tx_store \<Rightarrow> ('a tb_tx_store \<times> cleaned_ids option) go" where
  "CleanNow currTime clk items1 items2 t =
     gbind (txstore_clean currTime clk items1 items2 t)
       (\<lambda>(t', cleaned, cleanedTxIDs).
          Inr (t', if hasCleanedChannel t' \<and> cleanedTxIDs \<noteq> [] then Some cleanedTxIDs else None))"

text \<open>The clean-up goroutine: a clean-up per tick of the ticker until it is told to quit.\<close>

datatype cleanup_event =
    Tick instant "hash \<Rightarrow> instant" "(hash \<times> tb_transaction) list" "(hash \<times> tb_transaction) list"
  | Quit

fun txstore_cleanup :: "'a tb_tx_store \<Rightarrow> cleanup_event list \<Rightarrow> 'a tb_tx_store go" where
  "txstore_cleanup t [] = Inr t"
| "txstore_cleanup t (Tick now clk items1 items2 # es) =
     gbind (CleanNow now clk items1 items2 t) (\<lambda>(t', sent). txstore_cleanup t' es)"
| "txstore_cleanup t (Quit # es) = Inr t"

section \<open>Effects of the operations\<close>

lemma remove_txIDs_eq: "remove_txIDs ids m = (\<lambda>i. if i \<in> set ids then None else m i)"
  by (induction ids arbitrary: m) (auto simp: fun_eq_iff)

lemma txstore_remove_hashToContent [store_simps]:
  "hashToContent (txstore_remove t now hash fl) = (hashToContent t)(hash := None)"
  by (auto simp: txstore_remove_def Let_def fun_eq_iff split: option.split)

lemma txstore_remove_txIDToHash [store_simps]:
  "txIDToHash (txstore_remove t now hash fl) =
     (\<lambda>i. case hashToContent t hash of None \<Rightarrow> txIDToHash t i
        | Some tx \<Rightarrow> if i \<in> set (tx_txIDs tx) then None else txIDToHash t i)"
  by (auto simp: txstore_remove_def Let_def remove_txIDs_eq fun_eq_iff split: option.split)

lemma txstore_remove_config [simp, store_simps]:
  "timeToAvoidReEntry (txstore_remove t now hash fl) = timeToAvoidReEntry t"
  "maxTxAge (txstore_remove t now hash fl) = maxTxAge t"
  "noTxIDAge (txstore_remove t now hash fl) = noTxIDAge t"
  "hasCleanedChannel (txstore_remove t now hash fl) = hasCleanedChannel t"
  "assigner (txstore_remove t now hash fl) = assigner t"
  by (auto simp: txstore_remove_def Let_def split: option.split)

lemma txstore_remove_seen_full:
  "hashToContent t hash = Some tx \<Longrightarrow>
     seenTxs (txstore_remove t now hash FullReEntryProtection) =
       hh_Add (seenTxs t) now hash (timeToAvoidReEntry t)"
  by (simp add: txstore_remove_def Let_def reentry_flags)

lemma txstore_remove_absent: "hashToContent t hash = None \<Longrightarrow> txstore_remove t now hash fl = t"
  by (simp add: txstore_remove_def)

lemma refreshSeenTx_fields [simp, store_simps]:
  "hashToContent (fst (refreshSeenTx t ne na h)) = hashToContent t"
  "txIDToHash (fst (refreshSeenTx t ne na h)) = txIDToHash t"
  "timeToAvoidReEntry (fst (refreshSeenTx t ne na h)) = timeToAvoidReEntry t"
  "maxTxAge (fst (refreshSeenTx t ne na h)) = maxTxAge t"
  "assigner (fst (refreshSeenTx t ne na h)) = assigner t"
  "snd (refreshSeenTx t ne na h) = hh_Exists (seenTxs t) ne h"
  by (simp_all add: refreshSeenTx_def)

text \<open>
  The transaction object \<open>Add\<close> works on, the short ID it adds and the object it leaves
  in the store.
\<close>

definition add_base :: "'a tb_tx_store \<Rightarrow> hash \<Rightarrow> network_num \<Rightarrow> instant \<Rightarrow> tb_transaction" where
  "add_base t hash networkNum timestamp =
     (case hashToContent t hash of
        None \<Rightarrow> NewTbTransaction hash networkNum timestamp | Some tx \<Rightarrow> tx)"

definition add_id :: "('a \<Rightarrow> tx_id \<times> 'a) \<Rightarrow> 'a tb_tx_store \<Rightarrow> hash \<Rightarrow> tx_id \<Rightarrow> tx_id" where
  "add_id Next t hash txID =
     (if hashToContent t hash = None \<and> txID = TxIDEmpty then fst (Next (assigner t)) else txID)"

definition add_final ::
  "('a \<Rightarrow> tx_id \<times> 'a) \<Rightarrow> 'a tb_tx_store \<Rightarrow> hash \<Rightarrow> byte slice \<Rightarrow> tx_id \<Rightarrow> network_num \<Rightarrow> instant \<Rightarrow>
     tb_transaction" where
  "add_final Next t hash content txID networkNum timestamp =
     fst (SetContent (fst (AddTxID (add_base t hash networkNum timestamp) (add_id Next t hash txID))) content)"

lemma Add_insert_hashToContent [store_simps]:
  "hashToContent (fst (Add_insert Next t hash content txID n ts)) =
     (hashToContent t)(hash \<mapsto> add_final Next t hash content txID n ts)"
  by (auto simp: Add_insert_def add_final_def add_base_def add_id_def Let_def
      split: option.splits prod.splits)

lemma Add_insert_txIDToHash [store_simps]:
  "txIDToHash (fst (Add_insert Next t hash content txID n ts)) =
     (if snd (AddTxID (add_base t hash n ts) (add_id Next t hash txID))
      then (txIDToHash t)(add_id Next t hash txID \<mapsto> tx_hash (add_base t hash n ts))
      else txIDToHash t)"
  by (auto simp: Add_insert_def add_final_def add_base_def add_id_def Let_def AddTxID_def SetContent_def
      split: option.splits prod.splits if_splits)

lemma Add_insert_result [store_simps]:
  "snd (Add_insert Next t hash content txID n ts) =
     zero_result\<lparr>NewTx := hashToContent t hash = None,
       AssignedTxID := (if hashToContent t hash = None \<and> txID = TxIDEmpty then fst (Next (assigner t)) else 0),
       NewTxID := snd (AddTxID (add_base t hash n ts) (add_id Next t hash txID)),
       NewContent := slice_elems (tx_content (add_base t hash n ts)) = [] \<and> slice_elems content \<noteq> [],
       Transaction := Some (add_final Next t hash content txID n ts)\<rparr>"
  by (auto simp: Add_insert_def add_final_def add_base_def add_id_def Let_def zero_result_def
      AddTxID_def SetContent_def split: option.splits prod.splits if_splits)

lemma Add_insert_config [simp, store_simps]:
  "seenTxs (fst (Add_insert Next t hash content txID n ts)) = seenTxs t"
  "timeToAvoidReEntry (fst (Add_insert Next t hash content txID n ts)) = timeToAvoidReEntry t"
  "maxTxAge (fst (Add_insert Next t hash content txID n ts)) = maxTxAge t"
  by (auto simp: Add_insert_def Let_def split: option.splits prod.splits)

lemma add_base_New [simp]:
  "hashToContent t hash = None \<Longrightarrow> add_base t hash n ts = NewTbTransaction hash n ts"
  "hashToContent t hash = Some tx \<Longrightarrow> add_base t hash n ts = tx"
  by (simp_all add: add_base_def)

section \<open>The invariant of the store\<close>

text \<open>
  Every stored transaction sits under its own hash, is well formed and has a content or a
  short ID; every short ID leads to a stored transaction that carries it.
\<close>

definition entry_ok :: "hash \<Rightarrow> tb_transaction \<Rightarrow> bool" where
  "entry_ok h tx \<longleftrightarrow> tx_hash tx = h \<and> tx_ok tx \<and> (tx_content tx \<noteq> None \<or> tx_txIDs tx \<noteq> [])"

definition store_ok :: "'a tb_tx_store \<Rightarrow> bool" where
  "store_ok t \<longleftrightarrow>
     (\<forall>h tx. hashToContent t h = Some tx \<longrightarrow> entry_ok h tx) \<and>
     (\<forall>i h. txIDToHash t i = Some h \<longrightarrow> (\<exists>tx. hashToContent t h = Some tx \<and> i \<in> set (tx_txIDs tx)))"

lemma store_okD:
  "store_ok t \<Longrightarrow> hashToContent t h = Some tx \<Longrightarrow> entry_ok h tx"
  "store_ok t \<Longrightarrow> txIDToHash t i = Some h \<Longrightarrow> \<exists>tx. hashToContent t h = Some tx \<and> i \<in> set (tx_txIDs tx)"
  by (auto simp: store_ok_def)

lemma store_ok_cong:
  "hashToContent t' = hashToContent t \<Longrightarrow> txIDToHash t' = txIDToHash t \<Longrightarrow> store_ok t' = store_ok t"
  by (simp add: store_ok_def)

lemma store_ok_New: "store_ok (NewTbTxStore cf ma na asg seen ch av)"
  by (simp add: store_ok_def NewTbTxStore_def)

lemma store_ok_Clear: "store_ok (Clear t)"
  by (simp add: store_ok_def Clear_def)

lemma store_ok_remove: "store_ok t \<Longrightarrow> store_ok (txstore_remove t now h fl)"
  unfolding store_ok_def txstore_remove_hashToContent txstore_remove_txIDToHash
  by (auto split: option.splits if_splits) fastforce+

lemma store_ok_RemoveHashes: "store_ok t \<Longrightarrow> store_ok (RemoveHashes t clk hs fl)"
  by (induction t clk hs fl rule: RemoveHashes.induct) (simp_all add: store_ok_remove)

lemma store_ok_refresh: "store_ok t \<Longrightarrow> store_ok (fst (refreshSeenTx t ne na h))"
  by (subst store_ok_cong [of _ t]) simp_all

lemma entry_ok_add_base:
  "store_ok t \<Longrightarrow> tx_hash (add_base t h n ts) = h \<and> tx_ok (add_base t h n ts)"
  by (auto simp: add_base_def entry_ok_def dest: store_okD split: option.split)

lemma entry_ok_add_final:
  assumes "store_ok t" "\<not> (txID = TxIDEmpty \<and> slice_elems content = [])"
  shows "entry_ok h (add_final Next t h content txID n ts)"
proof -
  let ?b = "add_base t h n ts" and ?f = "add_final Next t h content txID n ts"
  have b: "tx_hash ?b = h" "tx_ok ?b" using entry_ok_add_base [OF assms(1)] by auto
  have ok: "tx_ok ?f" using b(2) unfolding add_final_def by blast
  have "tx_content ?f \<noteq> None \<or> tx_txIDs ?f \<noteq> []"
  proof (cases "slice_elems content = []")
    case True
    with assms(2) have "add_id Next t h txID \<noteq> TxIDEmpty"
      by (simp add: add_id_def)
    then show ?thesis by (auto simp: add_final_def)
  next
    case False
    have "slice_elems (tx_content ?b) = [] \<or> tx_content ?b \<noteq> None" by (cases "tx_content ?b") auto
    with False show ?thesis by (auto simp: add_final_def SetContent_content)
  qed
  with ok b(1) show ?thesis by (simp add: entry_ok_def) (simp add: add_final_def)
qed

lemma store_ok_Add_insert:
  assumes "store_ok t" "\<not> (txID = TxIDEmpty \<and> slice_elems content = [])"
  shows "store_ok (fst (Add_insert Next t h content txID n ts))"
proof -
  let ?t' = "fst (Add_insert Next t h content txID n ts)" and ?f = "add_final Next t h content txID n ts"
  have keep: "i \<in> set (tx_txIDs tx) \<Longrightarrow> hashToContent t h = Some tx \<Longrightarrow> i \<in> set (tx_txIDs ?f)" for i tx
    by (simp add: add_final_def)
  have "entry_ok h' tx" if "hashToContent ?t' h' = Some tx" for h' tx
    using that assms entry_ok_add_final [OF assms] store_okD(1) [OF assms(1)]
    by (auto simp: store_simps split: if_splits)
  moreover have "\<exists>tx. hashToContent ?t' h' = Some tx \<and> i \<in> set (tx_txIDs tx)"
    if "txIDToHash ?t' i = Some h'" for i h'
  proof (cases "txIDToHash t i = Some h'")
    case True
    with store_okD(2) [OF assms(1)] keep show ?thesis
      by (fastforce simp: store_simps)
  next
    case False
    with that entry_ok_add_base [OF assms(1), of h n ts]
    have "i = add_id Next t h txID" "h' = h" "snd (AddTxID (add_base t h n ts) i)"
      by (auto simp: store_simps split: if_splits)
    then show ?thesis by (auto simp: store_simps add_final_def)
  qed
  ultimately show ?thesis unfolding store_ok_def by blast
qed

lemma Add_cases:
  assumes "Add Next t now ne na h content txID n ts = Inr (t', r)"
  obtains (old) "\<not> (txID = TxIDEmpty \<and> slice_elems content = [])" "time_Sub now ts > maxTxAge t" "t' = t"
      "r = zero_result\<lparr>Transaction := Some (NewTbTransaction h n ts), DebugData := TooOld ts\<rparr>"
    | (seen) "slice_elems content \<noteq> []" "time_Sub now ts \<le> maxTxAge t" "hh_Exists (seenTxs t) ne h" "txID = TxIDEmpty"
      "t' = fst (refreshSeenTx t ne na h)"
      "r = zero_result\<lparr>Transaction := Some (NewTbTransaction h n ts), DebugData := SeenAndDeleted, AlreadySeen := True\<rparr>"
    | (inserted) t0 where "\<not> (txID = TxIDEmpty \<and> slice_elems content = [])" "time_Sub now ts \<le> maxTxAge t"
      "txID \<noteq> TxIDEmpty \<or> \<not> hh_Exists (seenTxs t) ne h"
      "hashToContent t0 = hashToContent t" "txIDToHash t0 = txIDToHash t" "assigner t0 = assigner t"
      "seenTxs t0 = (if hh_Exists (seenTxs t) ne h
         then hh_Remove (seenTxs (fst (refreshSeenTx t ne na h))) h else seenTxs t)"
      "t' = fst (Add_insert Next t0 h content txID n ts)"
      "r = snd (Add_insert Next t0 h content txID n ts)"
proof -
  consider "txID = TxIDEmpty \<and> slice_elems content = []"
    | "\<not> (txID = TxIDEmpty \<and> slice_elems content = [])" "time_Sub now ts > maxTxAge t"
    | "\<not> (txID = TxIDEmpty \<and> slice_elems content = [])" "time_Sub now ts \<le> maxTxAge t"
      "hh_Exists (seenTxs t) ne h" "txID = TxIDEmpty"
    | "\<not> (txID = TxIDEmpty \<and> slice_elems content = [])" "time_Sub now ts \<le> maxTxAge t"
      "txID \<noteq> TxIDEmpty \<or> \<not> hh_Exists (seenTxs t) ne h"
    by linarith
  then show ?thesis
  proof cases
    case 1
    with assms show ?thesis by (simp add: Add_def)
  next
    case 2
    with assms show ?thesis by (intro old) (auto simp: Add_def)
  next
    case 3
    with assms show ?thesis by (intro seen) (auto simp: Add_def Let_def refreshSeenTx_def split: prod.splits)
  next
    case 4
    with assms show ?thesis
      by (intro inserted [of "(if hh_Exists (seenTxs t) ne h
           then (fst (refreshSeenTx t ne na h))\<lparr>seenTxs := hh_Remove (seenTxs (fst (refreshSeenTx t ne na h))) h\<rparr>
           else t)"]) (auto simp: Add_def Let_def refreshSeenTx_def split: prod.splits if_splits)
  qed
qed

lemma store_ok_Add:
  assumes "store_ok t" "Add Next t now ne na h content txID n ts = Inr (t', r)"
  shows "store_ok t'"
  using assms(2)
proof (cases rule: Add_cases)
  case (inserted t0)
  then have "store_ok t0" using assms(1) store_ok_cong by blast
  with inserted show ?thesis using store_ok_Add_insert by blast
qed (use assms store_ok_refresh in auto)

lemma store_ok_clean_remove:
  "store_ok t \<Longrightarrow> clean_remove now clk items nets ids t = Inr (t', nets', ids') \<Longrightarrow> store_ok t'"
proof (induction now clk items nets ids t rule: clean_remove.induct)
  case (1 now clk nets ids t)
  then show ?case by simp
next
  case (2 now clk key tx items nets ids t)
  have "store_ok (txstore_remove t (clk key) key FullReEntryProtection)"
    using "2.prems"(1) by (rule store_ok_remove)
  with 2 show ?case by (auto simp: Let_def split: option.splits if_splits)
qed

lemma store_ok_CleanNow:
  "store_ok t \<Longrightarrow> CleanNow now clk i1 i2 t = Inr (t', sent) \<Longrightarrow> store_ok t'"
  by (auto simp: CleanNow_def txstore_clean_def Let_def gbind_Inr_iff dest: store_ok_clean_remove)

section \<open>The store as a machine\<close>

text \<open>The calls the rest of the gateway makes on the store.\<close>

datatype txstore_event =
    EAdd instant instant instant hash "byte slice" tx_id network_num instant
  | EGet instant instant hash
  | EKnown instant instant hash
  | ERemoveHashes "hash \<Rightarrow> instant" "hash list" byte
  | ERemoveTxIDs "hash \<Rightarrow> instant" "tx_id list" byte
  | ECleanNow instant "hash \<Rightarrow> instant" "(hash \<times> tb_transaction) list" "(hash \<times> tb_transaction) list"
  | EClear

fun txstore_step :: "('a \<Rightarrow> tx_id \<times> 'a) \<Rightarrow> 'a tb_tx_store \<Rightarrow> txstore_event \<Rightarrow> 'a tb_tx_store go" where
  "txstore_step Next t (EAdd now ne na h content txID n ts) =
     gbind (Add Next t now ne na h content txID n ts) (\<lambda>(t', r). Inr t')"
| "txstore_step Next t (EGet ne na h) = Inr (fst (txstore_Get t ne na h))"
| "txstore_step Next t (EKnown ne na h) = Inr (fst (Known t ne na h))"
| "txstore_step Next t (ERemoveHashes clk hs fl) = Inr (RemoveHashes t clk hs fl)"
| "txstore_step Next t (ERemoveTxIDs clk ids fl) = Inr (RemoveTxIDs t clk ids fl)"
| "txstore_step Next t (ECleanNow now clk i1 i2) = gbind (CleanNow now clk i1 i2 t) (\<lambda>(t', sent). Inr t')"
| "txstore_step Next t EClear = Inr (Clear t)"

lemma fst_txstore_Get [simp]: "fst (txstore_Get t ne na h) = fst (refreshSeenTx t ne na h)"
  by (simp add: txstore_Get_def split: prod.split)

lemma store_ok_step: "store_ok t \<Longrightarrow> txstore_step Next t e = Inr t' \<Longrightarrow> store_ok t'"
  by (cases e)
    (auto simp: gbind_Inr_iff Known_def RemoveTxIDs_def store_ok_Clear
      dest: store_ok_Add store_ok_CleanNow intro: store_ok_RemoveHashes store_ok_refresh)

interpretation txs: step_machine "NewTbTxStore cf ma na asg seen ch av" "txstore_step Next"
    "\<lambda>t e. True" store_ok
  by unfold_locales (auto intro: store_ok_New store_ok_step)

lemma go_admitted_True [simp]: "go_admitted step (\<lambda>s e. True) s es"
  by (induction es arbitrary: s) (simp_all split: sum.split)

section \<open>Clean-up\<close>

text \<open>What the third loop removes, for given age limits of the networks.\<close>

definition stale :: "(network_num \<Rightarrow> duration) \<Rightarrow> duration \<Rightarrow> instant \<Rightarrow> tb_transaction \<Rightarrow> bool" where
  "stale lim noAge cur tx \<longleftrightarrow>
     time_Sub cur (tx_addTime tx) > lim (tx_networkNum tx) \<or>
     (time_Sub cur (tx_addTime tx) > noAge \<and> tx_txIDs tx = [])"

definition limits :: "networks \<Rightarrow> network_num \<Rightarrow> duration" where
  "limits nets n = (case map_of nets n of None \<Rightarrow> 0 | Some nd \<Rightarrow> nd_maxAge nd)"

definition counters :: "networks \<Rightarrow> int" where
  "counters nets = sum_list (map (\<lambda>(net, nd). nd_cleanNoTxID nd + nd_cleanAge nd) nets)"

lemma limits_update:
  "map_of nets n = Some nd \<Longrightarrow> nd_maxAge nd' = nd_maxAge nd \<Longrightarrow> limits (AList.update n nd' nets) = limits nets"
  by (auto simp: limits_def update_conv' fun_eq_iff split: option.split)

lemma counters_update:
  "distinct (map fst nets) \<Longrightarrow> map_of nets n = Some nd \<Longrightarrow>
     counters (AList.update n nd' nets) =
       counters nets - (nd_cleanNoTxID nd + nd_cleanAge nd) + (nd_cleanNoTxID nd' + nd_cleanAge nd')"
proof (induction nets)
  case Nil
  then show ?case by simp
next
  case (Cons p nets)
  then show ?case by (cases p) (auto simp: counters_def)
qed

lemma clean_remove_spec:
  assumes "\<forall>(k, tx) \<in> set items. map_of nets (tx_networkNum tx) \<noteq> None" "distinct (map fst nets)"
  shows "\<exists>t' nets' ids'. clean_remove cur clk items nets ids t = Inr (t', nets', ids') \<and>
    hashToContent t' = (\<lambda>h. if \<exists>tx. (h, tx) \<in> set items \<and> stale (limits nets) (noTxIDAge t) cur tx
       then None else hashToContent t h) \<and>
    counters nets' = counters nets + int (length (filter (stale (limits nets) (noTxIDAge t) cur \<circ> snd) items))"
  using assms
proof (induction items arbitrary: nets ids t)
  case Nil
  then show ?case by simp
next
  case (Cons it items)
  obtain key tx where it: "it = (key, tx)" by (cases it)
  let ?n = "tx_networkNum tx" and ?r = "txstore_remove t (clk key) key FullReEntryProtection"
  from Cons.prems it obtain nd where nd: "map_of nets ?n = Some nd" by auto
  have lim: "limits nets ?n = nd_maxAge nd" using nd by (simp add: limits_def)
  define nd' where "nd' = (if time_Sub cur (tx_addTime tx) > nd_maxAge nd
    then nd\<lparr>nd_cleanAge := nd_cleanAge nd + 1\<rparr> else nd\<lparr>nd_cleanNoTxID := nd_cleanNoTxID nd + 1\<rparr>)"
  let ?nets = "AList.update ?n nd' nets"
  have upd: "limits ?nets = limits nets" "counters ?nets = counters nets + 1"
    "\<forall>(k, tx) \<in> set items. map_of ?nets (tx_networkNum tx) \<noteq> None" "distinct (map fst ?nets)"
    "\<forall>(k, tx) \<in> set items. map_of nets (tx_networkNum tx) \<noteq> None"
    using Cons.prems it nd
    by (auto simp: nd'_def limits_update counters_update update_conv' distinct_update)
  show ?case
  proof (cases "stale (limits nets) (noTxIDAge t) cur tx")
    case False
    with Cons.IH [OF upd(5) Cons.prems(2), of ids t] nd lim it show ?thesis
      by (auto simp: stale_def Let_def fun_eq_iff)
  next
    case True
    define ids' where "ids' = AList.update ?n
      ((case map_of ids ?n of None \<Rightarrow> [] | Some ids \<Rightarrow> ids) @ tx_txIDs tx) ids"
    have step: "clean_remove cur clk (it # items) nets ids t = clean_remove cur clk items ?nets ids' ?r"
      using True nd lim it by (auto simp: stale_def Let_def nd'_def ids'_def)
    show ?thesis
      unfolding step using Cons.IH [OF upd(3,4), of ids' ?r] True it
      by (auto simp: upd(1,2) fun_eq_iff store_simps)
  qed
qed

text \<open>What the first loop collects.\<close>

definition ages_of :: "instant \<Rightarrow> network_num \<Rightarrow> (hash \<times> tb_transaction) list \<Rightarrow> int list" where
  "ages_of cur n items =
     map (\<lambda>(k, tx). quot64 (time_Sub cur (tx_addTime tx)) Second)
       (filter (\<lambda>(k, tx). tx_networkNum tx = n) items)"

definition tx_count :: "(hash \<times> tb_transaction) list \<Rightarrow> network_num \<Rightarrow> nat" where
  "tx_count items n = length (filter (\<lambda>(k, tx). tx_networkNum tx = n) items)"

lemma clean_ages_lookup:
  "map_of (clean_ages cur items nets) n =
     (if ages_of cur n items = [] then map_of nets n
      else (let nd = (case map_of nets n of None \<Rightarrow> zero_network_data | Some nd \<Rightarrow> nd)
            in Some (nd\<lparr>nd_ages := nd_ages nd @ ages_of cur n items\<rparr>)))"
proof (induction cur items nets rule: clean_ages.induct)
  case (1 cur nets)
  then show ?case by (simp add: ages_of_def)
next
  case (2 cur key tx items nets)
  then show ?case by (auto simp: Let_def update_conv' ages_of_def split: option.splits)
qed

lemma distinct_clean_ages: "distinct (map fst nets) \<Longrightarrow> distinct (map fst (clean_ages cur items nets))"
  by (induction cur items nets rule: clean_ages.induct) (simp_all add: Let_def distinct_update)

lemma counters_update_new:
  "map_of nets n = None \<Longrightarrow>
     counters (AList.update n nd nets) = counters nets + (nd_cleanNoTxID nd + nd_cleanAge nd)"
proof (induction nets)
  case Nil
  then show ?case by (simp add: counters_def)
next
  case (Cons p nets)
  then show ?case by (cases p) (auto simp: counters_def split: if_splits)
qed

lemma counters_clean_ages:
  "distinct (map fst nets) \<Longrightarrow> counters (clean_ages cur items nets) = counters nets"
  by (induction cur items nets rule: clean_ages.induct)
    (auto simp: Let_def distinct_update counters_update counters_update_new zero_network_data_def
      split: option.split)

lemma clean_maxAge_fields [simp]:
  "nd_cleanAge (clean_maxAge m nd) = nd_cleanAge nd"
  "nd_cleanNoTxID (clean_maxAge m nd) = nd_cleanNoTxID nd"
  by (simp_all add: clean_maxAge_def Let_def)

lemma counters_clean_maxAge: "counters (map (map_prod id (clean_maxAge m)) nets) = counters nets"
  by (induction nets) (auto simp: counters_def)

lemma clean_maxAge_le: "nd_maxAge (clean_maxAge m nd) \<le> m"
  by (simp add: clean_maxAge_def Let_def)

text \<open>The age limit of a network, from its ages.\<close>

definition age_limit :: "duration \<Rightarrow> instant \<Rightarrow> (hash \<times> tb_transaction) list \<Rightarrow> network_num \<Rightarrow> duration" where
  "age_limit m cur items n = nd_maxAge (clean_maxAge m (zero_network_data\<lparr>nd_ages := ages_of cur n items\<rparr>))"

lemma age_limit_small:
  "tx_count items n \<le> TxStoreMaxSize \<Longrightarrow> age_limit m cur items n = m"
  by (simp add: age_limit_def clean_maxAge_def ages_of_def tx_count_def zero_network_data_def)

lemma age_limit_le: "age_limit m cur items n \<le> m"
  by (simp add: age_limit_def clean_maxAge_le)

lemma txstore_clean_spec:
  assumes "enumerates items (hashToContent t)"
  shows "\<exists>t' ids. txstore_clean cur clk items items t =
      Inr (t', int (length (filter (stale (age_limit (maxTxAge t) cur items) (noTxIDAge t) cur \<circ> snd) items)), ids) \<and>
    hashToContent t' = (\<lambda>h. case hashToContent t h of None \<Rightarrow> None
      | Some tx \<Rightarrow> if stale (age_limit (maxTxAge t) cur items) (noTxIDAge t) cur tx then None else Some tx)"
proof -
  let ?f = "map_prod id (clean_maxAge (maxTxAge t))"
  let ?nets = "map ?f (clean_ages cur items [])"
  have look: "map_of ?nets n = map_option (clean_maxAge (maxTxAge t)) (map_of (clean_ages cur items []) n)" for n
    by (simp add: map_prod_def id_def split_def map_of_map [unfolded split_def])
  have ne: "ages_of cur (tx_networkNum tx) items \<noteq> []" if "(k, tx) \<in> set items" for k tx
    using that by (auto simp: ages_of_def filter_empty_conv)
  have lim: "limits ?nets (tx_networkNum tx) = age_limit (maxTxAge t) cur items (tx_networkNum tx)"
    if "(k, tx) \<in> set items" for k tx
    using ne [OF that] by (simp add: limits_def look clean_ages_lookup age_limit_def zero_network_data_def)
  have st: "stale (limits ?nets) a cur tx = stale (age_limit (maxTxAge t) cur items) a cur tx"
    if "(k, tx) \<in> set items" for k tx a
    using lim [OF that] by (simp add: stale_def)
  have fil: "filter (stale (limits ?nets) a cur \<circ> snd) items =
      filter (stale (age_limit (maxTxAge t) cur items) a cur \<circ> snd) items" for a
    using st by (intro filter_cong) auto
  have dist: "distinct (map fst ?nets)"
    using distinct_clean_ages [of "[]" cur items] by (simp add: o_def split_def)
  have zero: "counters ?nets = 0"
    by (simp add: counters_clean_maxAge counters_clean_ages) (simp add: counters_def)
  have all: "\<forall>(k, tx) \<in> set items. map_of ?nets (tx_networkNum tx) \<noteq> None"
    using ne by (auto simp: look clean_ages_lookup Let_def)
  obtain t' nets' ids' where res: "clean_remove cur clk items ?nets [] t = Inr (t', nets', ids')"
    and content: "hashToContent t' = (\<lambda>h. if \<exists>tx. (h, tx) \<in> set items \<and> stale (limits ?nets) (noTxIDAge t) cur tx
       then None else hashToContent t h)"
    and cnt: "counters nets' = counters ?nets + int (length (filter (stale (limits ?nets) (noTxIDAge t) cur \<circ> snd) items))"
    using clean_remove_spec [OF all dist, of cur clk "[]" t] by blast
  have "hashToContent t' = (\<lambda>h. case hashToContent t h of None \<Rightarrow> None
      | Some tx \<Rightarrow> if stale (age_limit (maxTxAge t) cur items) (noTxIDAge t) cur tx then None else Some tx)"
    using assms st unfolding content by (auto simp: enumerates_def fun_eq_iff split: option.splits)
  moreover have "txstore_clean cur clk items items t = Inr (t', counters nets', ids')"
    using res by (simp add: txstore_clean_def counters_def)
  ultimately show ?thesis using cnt zero fil by simp
qed

section \<open>Properties\<close>

lemmas add_eval = Add_def Add_insert_def refreshSeenTx_def NewTbTxStore_def emptyTxIDAssigner_Next_def
  AddTxID_def SetContent_def TxIDEmpty_def hh_Exists_def zero_result_def

text \<open>
  C14. Whatever sequence of additions, lookups, removals, clean-ups and clears has run on a
  new store, a short ID never leads nowhere: a lookup by ID either reports the ID as
  unassigned or returns the stored transaction that carries this ID.
\<close>

theorem short_ids_never_dangle:
  assumes "go_run (txstore_step Next) (NewTbTxStore cf ma na asg seen ch av) es = Inr t"
  shows "GetTxByID t i = Inl (TxIDDoesNotExist i) \<or>
    (\<exists>tx. GetTxByID t i = Inr tx \<and> i \<in> set (tx_txIDs tx) \<and> hashToContent t (tx_hash tx) = Some tx)"
proof (cases "txIDToHash t i")
  case None
  then show ?thesis by (simp add: GetTxByID_def)
next
  case (Some h)
  have ok: "store_ok t" using txs.inv_reachable assms go_admitted_True by metis
  from store_okD(2) [OF ok Some] obtain tx where tx: "hashToContent t h = Some tx" "i \<in> set (tx_txIDs tx)"
    by blast
  with store_okD(1) [OF ok tx(1)] Some show ?thesis
    by (auto simp: GetTxByID_def entry_ok_def)
qed

theorem short_ids_never_dangle_witness:
  "\<exists>t. go_run (txstore_step emptyTxIDAssigner_Next)
      (NewTbTxStore 0 10 5 () (newHashHistory [] 0) False 6)
      [EAdd 0 0 0 [1] (Some [7]) 3 1 0, EAdd 0 0 0 [2] None 4 1 0, ERemoveHashes (\<lambda>_. 1) [[2]] 2] = Inr t \<and>
    (GetTxByID t 3 = Inl (TxIDDoesNotExist 3) \<or>
     (\<exists>tx. GetTxByID t 3 = Inr tx \<and> 3 \<in> set (tx_txIDs tx) \<and> hashToContent t (tx_hash tx) = Some tx))"
proof -
  let ?es = "[EAdd 0 0 0 [1] (Some [7]) 3 1 0, EAdd 0 0 0 [2] None 4 1 0, ERemoveHashes (\<lambda>_. 1) [[2]] 2]"
  let ?s = "NewTbTxStore 0 10 5 () (newHashHistory [] 0) False 6"
  have "\<exists>t. go_run (txstore_step emptyTxIDAssigner_Next) ?s ?es = Inr t" by (simp add: add_eval Let_def)
  then obtain t where t: "go_run (txstore_step emptyTxIDAssigner_Next) ?s ?es = Inr t" ..
  show ?thesis
    using t short_ids_never_dangle [OF t, of 3] by (intro exI [of _ t] conjI)
qed

text \<open>
  A hash that is not stored stays as it is, in the store and in the history, under every operation that does not
  name it: removals and clean-ups included.
\<close>

definition same_for :: "hash \<Rightarrow> 'a tb_tx_store \<Rightarrow> 'a tb_tx_store \<Rightarrow> bool" where
  "same_for h t t' \<longleftrightarrow> hashToContent t' h = hashToContent t h \<and> hh_data (seenTxs t') h = hh_data (seenTxs t) h \<and>
     maxTxAge t' = maxTxAge t \<and> timeToAvoidReEntry t' = timeToAvoidReEntry t"

fun names_hash :: "hash \<Rightarrow> txstore_event \<Rightarrow> bool" where
  "names_hash h (EAdd now ne na h' content txID n ts) = (h' = h)"
| "names_hash h (EGet ne na h') = (h' = h)"
| "names_hash h (EKnown ne na h') = (h' = h)"
| "names_hash h _ = False"

lemma same_for_trans: "same_for h t t1 \<Longrightarrow> same_for h t1 t2 \<Longrightarrow> same_for h t t2"
  by (simp add: same_for_def)

lemma same_for_remove:
  "hashToContent t h = None \<Longrightarrow> same_for h t (txstore_remove t now k fl)"
  by (auto simp: same_for_def txstore_remove_def Let_def split: option.split)

lemma same_for_RemoveHashes: "hashToContent t h = None \<Longrightarrow> same_for h t (RemoveHashes t clk ks fl)"
proof (induction t clk ks fl rule: RemoveHashes.induct)
  case (1 t clk fl)
  then show ?case by (simp add: same_for_def)
next
  case (2 t clk k ks fl)
  note r = same_for_remove [OF "2.prems", of "clk k" k fl]
  with 2 show ?case by (auto intro: same_for_trans [OF r] simp: same_for_def)
qed

lemma same_for_clean_remove:
  "clean_remove cur clk items nets ids t = Inr (t', nets', ids') \<Longrightarrow> hashToContent t h = None \<Longrightarrow> same_for h t t'"
proof (induction cur clk items nets ids t rule: clean_remove.induct)
  case (1 cur clk nets ids t)
  then show ?case by (simp add: same_for_def)
next
  case (2 cur clk key tx items nets ids t)
  note r = same_for_remove [OF "2.prems"(2), of "clk key" key FullReEntryProtection]
  then have "hashToContent (txstore_remove t (clk key) key FullReEntryProtection) h = None" using "2.prems"(2) by (simp add: same_for_def)
  with 2 show ?case by (auto simp: Let_def split: option.splits if_splits intro: same_for_trans [OF r])
qed

lemma same_for_refresh: "k \<noteq> h \<Longrightarrow> same_for h t (fst (refreshSeenTx t ne na k))"
  by (simp add: same_for_def refreshSeenTx_def)

lemma same_for_Add:
  assumes "Add Next t now ne na k content txID n ts = Inr (t', r)" "k \<noteq> h"
  shows "same_for h t t'"
  using assms(1)
proof (cases rule: Add_cases)
  case old
  then show ?thesis by (simp add: same_for_def)
next
  case seen
  then show ?thesis using same_for_refresh [OF assms(2)] by simp
next
  case (inserted t0)
  from assms have "maxTxAge t' = maxTxAge t \<and> timeToAvoidReEntry t' = timeToAvoidReEntry t"
    by (auto simp: Add_def Let_def refreshSeenTx_def split: if_splits dest!: arg_cong [where f = fst])
  with inserted assms(2) show ?thesis
    by (simp add: same_for_def store_simps) (simp add: refreshSeenTx_def)
qed

lemma same_for_Clear: "hashToContent t h = None \<Longrightarrow> same_for h t (Clear t)"
  by (simp add: same_for_def Clear_def)

lemma same_for_step:
  "hashToContent t h = None \<Longrightarrow> \<not> names_hash h e \<Longrightarrow> txstore_step Next t e = Inr t' \<Longrightarrow> same_for h t t'"
  by (cases e)
    (auto simp: gbind_Inr_iff Known_def RemoveTxIDs_def CleanNow_def txstore_clean_def Let_def
      intro: same_for_Add same_for_refresh same_for_RemoveHashes same_for_clean_remove same_for_Clear)

text \<open>The life of a store: its own operations, and the history that expires its entries beside it.\<close>

datatype store_life = SOp txstore_event | SHist "hash hh_event"

fun life_step :: "('a \<Rightarrow> tx_id \<times> 'a) \<Rightarrow> 'a tb_tx_store \<Rightarrow> store_life \<Rightarrow> 'a tb_tx_store go" where
  "life_step Next t (SOp e) = txstore_step Next t e"
| "life_step Next t (SHist e) = Inr (t\<lparr>seenTxs := hh_step (seenTxs t) e\<rparr>)"

text \<open>Nothing names the hash, and the history is cleaned no later than \<open>ne\<close>.\<close>

fun quiet_for :: "hash \<Rightarrow> instant \<Rightarrow> 'a tb_tx_store \<Rightarrow> store_life \<Rightarrow> bool" where
  "quiet_for h ne t (SOp e) = (\<not> names_hash h e)"
| "quiet_for h ne t (SHist e) = hh_quiet h ne (seenTxs t) e"

lemma quiet_life:
  assumes "int64_range ne" "go_admitted (life_step Next) (quiet_for h ne) t es" "go_run (life_step Next) t es = Inr t'"
    and "hashToContent t h = None" "hh_Exists (seenTxs t) ne h"
  shows "hashToContent t' h = None \<and> hh_Exists (seenTxs t') ne h \<and> maxTxAge t' = maxTxAge t \<and>
    timeToAvoidReEntry t' = timeToAvoidReEntry t"
  using assms(2-)
proof (induction es arbitrary: t)
  case Nil
  then show ?case by simp
next
  case (Cons e es)
  then obtain t1 where t1: "life_step Next t e = Inr t1" "go_run (life_step Next) t1 es = Inr t'" "quiet_for h ne t e"
    "go_admitted (life_step Next) (quiet_for h ne) t1 es"
    by (auto simp: gbind_Inr_iff split: sum.splits)
  have "hashToContent t1 h = None \<and> hh_Exists (seenTxs t1) ne h \<and> maxTxAge t1 = maxTxAge t \<and>
      timeToAvoidReEntry t1 = timeToAvoidReEntry t"
  proof (cases e)
    case (SOp op)
    with t1 Cons.prems(3) have "same_for h t t1" by (auto intro: same_for_step)
    with Cons.prems(3,4) show ?thesis by (simp add: same_for_def hh_Exists_def)
  next
    case (SHist he)
    with t1 hh_quiet_step [OF assms(1), of h "seenTxs t" he] Cons.prems(3,4) show ?thesis by auto
  qed
  with Cons.IH [OF t1(4,2)] show ?case by simp
qed

text \<open>
  C25. Re-entry protection. A transaction removed with full protection stays out: an addition
  of the same hash with content, without a short ID and not older than the store allows, at a time before the protection
  ends, reports \<open>AlreadySeen\<close>, neither new transaction nor new content, leaves the contents and the short IDs as they
  were, and renews the protection. In between may run any operations of the store that do not name this hash
  (additions, lookups, removals, clean-ups, also a \<open>Clear\<close>) and additions, removals and clean-ups of the history for
  other hashes. An addition that is older than the store allows comes back earlier, as too old, and renews nothing.
\<close>

theorem removed_tx_stays_out:
  assumes "hashToContent t h = Some tx" "t1 = txstore_remove t now h FullReEntryProtection"
    and "go_admitted (life_step Next) (quiet_for h ne) t1 es" "go_run (life_step Next) t1 es = Inr t2"
    and "int64_range ne" "int64_range (now + timeToAvoidReEntry t)" "ne < now + timeToAvoidReEntry t"
    and "slice_elems content \<noteq> []"
  shows "\<exists>t3 r. Add Next t2 nowA ne na h content TxIDEmpty n ts = Inr (t3, r) \<and>
    \<not> NewTx r \<and> \<not> NewContent r \<and> hashToContent t3 = hashToContent t2 \<and> hashToContent t3 h = None \<and>
    txIDToHash t3 = txIDToHash t2 \<and>
    (if time_Sub nowA ts \<le> maxTxAge t
     then AlreadySeen r \<and> seenTxs t3 = hh_Add (seenTxs t2) na h (timeToAvoidReEntry t)
     else \<not> AlreadySeen r \<and> seenTxs t3 = seenTxs t2)"
proof -
  have "hh_Exists (seenTxs t1) ne h"
    using assms(1,5-7) by (simp add: assms(2) txstore_remove_seen_full hh.check_after_mark)
  moreover have "hashToContent t1 h = None" "maxTxAge t1 = maxTxAge t" "timeToAvoidReEntry t1 = timeToAvoidReEntry t"
    by (simp_all add: assms(2) store_simps)
  ultimately have "hashToContent t2 h = None" "hh_Exists (seenTxs t2) ne h" "maxTxAge t2 = maxTxAge t"
    "timeToAvoidReEntry t2 = timeToAvoidReEntry t"
    using quiet_life [OF assms(5,3,4)] by simp_all
  then show ?thesis
    using assms(8) by (simp add: Add_def refreshSeenTx_def zero_result_def)
qed

theorem removed_tx_stays_out_witness:
  "\<exists>t2 t3 r. go_run (life_step emptyTxIDAssigner_Next)
      (txstore_remove ((NewTbTxStore 0 10 5 () (newHashHistory [] 0) False 6)
         \<lparr>hashToContent := [[1] \<mapsto> NewTbTransaction [1] 1 0]\<rparr>) 3 [1] FullReEntryProtection)
      [SOp (EAdd 3 3 3 [2] (Some [8]) 0 1 3), SOp EClear, SHist (HAdd 3 [4] 1)] = Inr t2 \<and>
    Add emptyTxIDAssigner_Next t2 4 5 5 [1] (Some [7]) TxIDEmpty 1 2 = Inr (t3, r) \<and> AlreadySeen r \<and> \<not> NewContent r"
proof -
  let ?t = "(NewTbTxStore 0 10 5 () (newHashHistory [] 0) False 6)\<lparr>hashToContent := [[1] \<mapsto> NewTbTransaction [1] 1 0]\<rparr>"
  let ?t1 = "txstore_remove ?t 3 [1] FullReEntryProtection"
  let ?es = "[SOp (EAdd 3 3 3 [2] (Some [8]) 0 1 3), SOp EClear, SHist (HAdd 3 [4] 1)]"
  have ran: "\<exists>t2. go_run (life_step emptyTxIDAssigner_Next) ?t1 ?es = Inr t2"
    by (auto simp: gbind_Inr_iff Add_def Let_def TxIDEmpty_def split: prod.split)
  then obtain t2 where t2: "go_run (life_step emptyTxIDAssigner_Next) ?t1 ?es = Inr t2" ..
  have adm: "go_admitted (life_step emptyTxIDAssigner_Next) (quiet_for [1] 5) ?t1 ?es"
    by (simp add: int64_range_def split: sum.split)
  have t: "hashToContent ?t [1] = Some (NewTbTransaction [1] 1 0)" "timeToAvoidReEntry ?t = 6" "maxTxAge ?t = 10"
    by (simp_all add: NewTbTxStore_def)
  from removed_tx_stays_out [OF t(1) refl adm t2, of "Some [7]" 4 5 1 2] t(2,3) t2
  show ?thesis by (auto simp: int64_range_def time_Sub_def)
qed

lemma Add_no_panic:
  "\<not> (txID = TxIDEmpty \<and> slice_elems content = []) \<Longrightarrow>
     \<exists>t' r. Add Next t now ne na h content txID n ts = Inr (t', r)"
  by (auto simp: Add_def Let_def split: prod.split)

lemma hh_Exists_antimono:
  "\<not> hh_Exists hh t k \<Longrightarrow> t \<le> t' \<Longrightarrow> int64_range t \<Longrightarrow> int64_range t' \<Longrightarrow> \<not> hh_Exists hh t' k"
  by (auto simp: hh_Exists_def UnixNano_id split: option.splits)

text \<open>
  Round trip. When an addition reports new content, a later lookup of the hash returns
  the transaction the addition returned, with exactly that content.
\<close>

lemma add_then_get:
  assumes add: "Add Next t now ne na h content txID n ts = Inr (t', r)" and new: "NewContent r"
    and time: "int64_range ne" "int64_range ne'" "ne \<le> ne'"
  shows "\<exists>tx. txstore_Get t' ne' na' h = (t', Some tx) \<and> Transaction r = Some tx \<and>
    tx_content tx = Some (slice_elems content)"
  using add
proof (cases rule: Add_cases)
  case (inserted t0)
  have seen: "seenTxs t' = seenTxs t0" using inserted(8) by simp
  have "\<not> hh_Exists (seenTxs t0) ne h"
    using inserted(7) by (auto simp: hh.exists_remove)
  then have "\<not> hh_Exists (seenTxs t') ne' h"
    unfolding seen by (rule hh_Exists_antimono) (fact time)+
  then have get: "txstore_Get t' ne' na' h = (t', hashToContent t' h)"
    by (simp add: txstore_Get_def refreshSeenTx_def)
  note r = inserted(9,8)
  with new have "slice_elems (tx_content (add_base t0 h n ts)) = [] \<and> slice_elems content \<noteq> []"
    by (simp add: store_simps zero_result_def)
  then have "tx_content (add_final Next t0 h content txID n ts) = Some (slice_elems content)"
    by (simp add: add_final_def SetContent_content)
  then show ?thesis using get r by (simp add: store_simps)
qed (use new in \<open>simp_all add: zero_result_def\<close>)

lemma add_then_get_example:
  "\<exists>t' r tx. Add emptyTxIDAssigner_Next (NewTbTxStore 0 10 5 () (newHashHistory [] 0) False 6)
      0 0 0 [1] (Some [7, 8]) 0 1 0 = Inr (t', r) \<and>
    txstore_Get t' 3 3 [1] = (t', Some tx) \<and> Transaction r = Some tx \<and> tx_content tx = Some [7, 8]"
proof -
  let ?s = "NewTbTxStore 0 10 5 () (newHashHistory [] 0) False 6"
  have "\<exists>t' r. Add emptyTxIDAssigner_Next ?s 0 0 0 [1] (Some [7, 8]) 0 1 0 = Inr (t', r) \<and> NewContent r"
    by (simp add: add_eval Let_def)
  then obtain t' r where a: "Add emptyTxIDAssigner_Next ?s 0 0 0 [1] (Some [7, 8]) 0 1 0 = Inr (t', r)"
    and n: "NewContent r" by blast
  show ?thesis using a add_then_get [OF a n, of 3 3] by (auto simp: int64_range_def)
qed

text \<open>
  Contents are immutable and reported once. While a transaction with content is stored,
  no addition, of this or any other hash, changes its content, removes one of its short IDs
  or reports new content for it; no entry disappears through an addition.
\<close>

lemma content_reported_once:
  assumes add: "Add Next t now ne na h' content txID n ts = Inr (t', r)"
    and tx: "hashToContent t h = Some tx" "tx_HasContent tx"
  shows "\<exists>tx'. hashToContent t' h = Some tx' \<and> tx_content tx' = tx_content tx \<and>
      set (tx_txIDs tx) \<subseteq> set (tx_txIDs tx') \<and> (h' = h \<longrightarrow> \<not> NewContent r \<and> \<not> NewTx r)"
  using add
proof (cases rule: Add_cases)
  case (inserted t0)
  note r = inserted(9,8)
  have h: "hashToContent t0 h = Some tx" using inserted(4) tx by simp
  show ?thesis
  proof (cases "h' = h")
    case False
    then show ?thesis using h by (simp add: r store_simps)
  next
    case True
    then show ?thesis using h tx(2)
      by (auto simp: r store_simps zero_result_def add_final_def SetContent_content tx_HasContent_def)
  qed
qed (use tx in \<open>auto simp: zero_result_def\<close>)

lemma content_reported_once_example:
  "\<exists>t' r tx'. Add emptyTxIDAssigner_Next
      ((NewTbTxStore 0 10 5 () (newHashHistory [] 0) False 6)
         \<lparr>hashToContent := [[1] \<mapsto> (NewTbTransaction [1] 1 0)\<lparr>tx_content := Some [7]\<rparr>]\<rparr>)
      0 0 0 [1] (Some [9]) 4 1 0 = Inr (t', r) \<and>
    hashToContent t' [1] = Some tx' \<and> tx_content tx' = Some [7] \<and> \<not> NewContent r"
proof -
  let ?tx = "(NewTbTransaction [1] 1 0)\<lparr>tx_content := Some [7]\<rparr>"
  let ?s = "(NewTbTxStore 0 10 5 () (newHashHistory [] 0) False 6)\<lparr>hashToContent := [[1] \<mapsto> ?tx]\<rparr>"
  obtain t' r where a: "Add emptyTxIDAssigner_Next ?s 0 0 0 [1] (Some [9]) 4 1 0 = Inr (t', r)"
    using Add_no_panic [of 4 "Some [9]"] by fastforce
  show ?thesis
    using a content_reported_once [OF a, of "[1]" ?tx] by (auto simp: tx_HasContent_def)
qed

text \<open>
  C30. A clean-up that runs alone never panics and removes exactly the stale transactions:
  those older than the age limit of their network and those older than \<open>noTxIDAge\<close> that have
  no short ID; it reports their number. No limit exceeds \<open>maxTxAge\<close>, and a network that has
  at most \<open>TxStoreMaxSize\<close> transactions has exactly this limit.
\<close>

theorem clean_removes_exactly_stale:
  assumes "enumerates items (hashToContent t)"
  shows "\<exists>t' ids lim. txstore_clean cur clk items items t =
      Inr (t', int (length (filter (\<lambda>(k, tx). stale lim (noTxIDAge t) cur tx) items)), ids) \<and>
    hashToContent t' = (\<lambda>h. case hashToContent t h of None \<Rightarrow> None
      | Some tx \<Rightarrow> if stale lim (noTxIDAge t) cur tx then None else Some tx) \<and>
    (\<forall>n. lim n \<le> maxTxAge t) \<and>
    (\<forall>n. tx_count items n \<le> TxStoreMaxSize \<longrightarrow> lim n = maxTxAge t)"
proof -
  let ?lim = "age_limit (maxTxAge t) cur items"
  have eq: "(\<lambda>(k, tx). stale ?lim a cur tx) = stale ?lim a cur \<circ> snd" for a
    by (auto simp: fun_eq_iff)
  obtain t' ids where "txstore_clean cur clk items items t =
      Inr (t', int (length (filter (stale ?lim (noTxIDAge t) cur \<circ> snd) items)), ids)"
    "hashToContent t' = (\<lambda>h. case hashToContent t h of None \<Rightarrow> None
      | Some tx \<Rightarrow> if stale ?lim (noTxIDAge t) cur tx then None else Some tx)"
    using txstore_clean_spec [OF assms, of cur clk] by blast
  then show ?thesis
    by (intro exI [of _ t'] exI [of _ ids] exI [of _ ?lim]) (simp add: eq age_limit_le age_limit_small)
qed

theorem clean_removes_exactly_stale_witness:
  "\<exists>t' ids. txstore_clean 100 (\<lambda>_. 100) [([1], NewTbTransaction [1] 1 0), ([2], NewTbTransaction [2] 1 99)]
      [([1], NewTbTransaction [1] 1 0), ([2], NewTbTransaction [2] 1 99)]
      ((NewTbTxStore 0 50 20 () (newHashHistory [] 0) False 6)
         \<lparr>hashToContent := map_of [([1], NewTbTransaction [1] 1 0), ([2], NewTbTransaction [2] 1 99)]\<rparr>) =
      Inr (t', 1, ids) \<and> hashToContent t' [1] = None \<and> hashToContent t' [2] = Some (NewTbTransaction [2] 1 99)"
proof -
  let ?i = "[([1] :: hash, NewTbTransaction [1] 1 0), ([2], NewTbTransaction [2] 1 99)]"
  let ?t = "(NewTbTxStore 0 50 20 () (newHashHistory [] 0) False 6)\<lparr>hashToContent := map_of ?i\<rparr>"
  have "enumerates ?i (hashToContent ?t)" using map_of_enumerates [of ?i] by simp
  from clean_removes_exactly_stale [OF this, of 100 "\<lambda>_. 100"]
  obtain t' ids lim where c: "txstore_clean 100 (\<lambda>_. 100) ?i ?i ?t =
      Inr (t', int (length (filter (\<lambda>(k, tx). stale lim (noTxIDAge ?t) 100 tx) ?i)), ids)"
    and h: "hashToContent t' = (\<lambda>h. case hashToContent ?t h of None \<Rightarrow> None
      | Some tx \<Rightarrow> if stale lim (noTxIDAge ?t) 100 tx then None else Some tx)"
    and l: "\<forall>n. tx_count ?i n \<le> TxStoreMaxSize \<longrightarrow> lim n = maxTxAge ?t"
    by blast
  have cfg: "noTxIDAge ?t = 20" "maxTxAge ?t = 50" by (simp_all add: NewTbTxStore_def)
  have "lim 1 = 50" using l cfg(2) by (simp add: tx_count_def TxStoreMaxSize_def)
  then have "stale lim 20 100 (NewTbTransaction [1] 1 0)" "\<not> stale lim 20 100 (NewTbTransaction [2] 1 99)"
    by (simp_all add: stale_def time_Sub_def)
  with c h cfg \<open>lim 1 = 50\<close> show ?thesis
    by (intro exI [of _ t'] exI [of _ ids]) simp
qed

end
