(* ===== verification/Store_Refinement.thy ===== *)
theory Store_Refinement
  imports Tx_Store
begin

text \<open>
  The transaction store refines its specification, a table of contents by hash. The interface between the
  two is the locale of simulations.
\<close>

section \<open>Simulation\<close>

text \<open>
  A component refines a specification when each of its steps is, through the abstraction, a step the
  specification allows for the same event. The client lemma is that every run is then allowed.
\<close>

fun spec_run :: "('e \<Rightarrow> 'a \<Rightarrow> 'a \<Rightarrow> bool) \<Rightarrow> 'e list \<Rightarrow> 'a \<Rightarrow> 'a \<Rightarrow> bool" where
  "spec_run allowed [] a b = (b = a)"
| "spec_run allowed (e # es) a b = (\<exists>c. allowed e a c \<and> spec_run allowed es c b)"

locale simulation =
  fixes step :: "'s \<Rightarrow> 'e \<Rightarrow> 's go"
    and allowed :: "'e \<Rightarrow> 'a \<Rightarrow> 'a \<Rightarrow> bool"
    and abs :: "'s \<Rightarrow> 'a"
  assumes step_allowed: "step s e = Inr s' \<Longrightarrow> allowed e (abs s) (abs s')"
begin

lemma run_allowed: "go_run step s es = Inr s' \<Longrightarrow> spec_run allowed es (abs s) (abs s')"
proof (induction es arbitrary: s)
  case Nil
  then show ?case by simp
next
  case (Cons e es)
  then obtain t where "step s e = Inr t" "go_run step t es = Inr s'" by (auto simp: gbind_Inr_iff)
  with Cons.IH step_allowed show ?case by (auto intro!: exI [of _ "abs t"])
qed

end

section \<open>The specification of the store\<close>

text \<open>
  The store as its clients think of it: a table of contents by hash. An addition may enter its own
  content under its own hash if there is none, and does nothing else; a removal forgets hashes, the
  clean-up may forget any; lookups change nothing.
\<close>

type_synonym content_table = "hash \<rightharpoonup> byte list"

inductive table_allows :: "txstore_event \<Rightarrow> content_table \<Rightarrow> content_table \<Rightarrow> bool" where
  learn: "A h = None \<Longrightarrow> slice_elems content \<noteq> [] \<Longrightarrow>
     table_allows (EAdd now ne na h content txID n ts) A (A(h \<mapsto> slice_elems content))"
| pass: "table_allows (EAdd now ne na h content txID n ts) A A"
| get: "table_allows (EGet ne na h) A A"
| known: "table_allows (EKnown ne na h) A A"
| remove: "table_allows (ERemoveHashes clk hs fl) A (A |` (- set hs))"
| remove_ids: "table_allows (ERemoveTxIDs clk ids fl) A (A |` (- forgotten))"
| clean: "table_allows (ECleanNow now clk i1 i2) A (A |` (- forgotten))"
| clear: "table_allows EClear A Map.empty"

inductive_cases table_addE: "table_allows (EAdd now ne na h content txID n ts) A B"
inductive_cases table_removeE: "table_allows (ERemoveHashes clk hs fl) A B"

definition contents :: "'a tb_tx_store \<Rightarrow> content_table" where
  "contents t h = (case hashToContent t h of None \<Rightarrow> None
     | Some tx \<Rightarrow> (if tx_HasContent tx then Some (slice_elems (tx_content tx)) else None))"

section \<open>The store refines it\<close>

lemma contents_cong: "hashToContent t' = hashToContent t \<Longrightarrow> contents t' = contents t"
  by (simp add: contents_def fun_eq_iff)

lemma contents_restrict: "hashToContent t' = hashToContent t |` S \<Longrightarrow> contents t' = contents t |` S"
  by (auto simp: contents_def fun_eq_iff restrict_map_def)

lemma remove_restrict: "hashToContent (txstore_remove t now h fl) = hashToContent t |` (- {h})"
  by (auto simp: store_simps restrict_map_def fun_eq_iff)

lemma RemoveHashes_restrict: "hashToContent (RemoveHashes t clk hs fl) = hashToContent t |` (- set hs)"
  by (induction hs arbitrary: t) (auto simp: remove_restrict restrict_map_def fun_eq_iff)

lemma clean_remove_restrict:
  "clean_remove cur clk items nets ids t = Inr (t', nets', ids') \<Longrightarrow> \<exists>S. hashToContent t' = hashToContent t |` (- S)"
proof (induction items arbitrary: nets ids t)
  case Nil
  then show ?case by (intro exI [of _ "{}"]) (simp add: restrict_map_def)
next
  case (Cons it items)
  obtain key tx where it: "it = (key, tx)" by (cases it)
  from Cons.prems obtain nets2 ids2 t2 where n: "clean_remove cur clk items nets2 ids2 t2 = Inr (t', nets', ids')"
    "t2 = t \<or> t2 = txstore_remove t (clk key) key FullReEntryProtection"
    by (auto simp: it Let_def split: option.splits if_splits)
  from Cons.IH [OF n(1)] obtain S where S: "hashToContent t' = hashToContent t2 |` (- S)" by blast
  from n(2) show ?case
  proof
    assume "t2 = t" with S show ?thesis by blast
  next
    assume "t2 = txstore_remove t (clk key) key FullReEntryProtection"
    with S remove_restrict [of t "clk key" key FullReEntryProtection] have "hashToContent t' = hashToContent t |` (- (insert key S))"
      by (simp add: restrict_restrict) (metis Compl_insert Diff_eq inf_commute)
    then show ?thesis by blast
  qed
qed

lemma Add_contents:
  assumes "Add Next t now ne na h content txID n ts = Inr (t', r)"
  shows "contents t' = contents t \<or> contents t h = None \<and> slice_elems content \<noteq> [] \<and> contents t' = (contents t)(h \<mapsto> slice_elems content)"
  using assms
proof (cases rule: Add_cases)
  case (inserted t0)
  have c: "contents t0 = contents t" using inserted(4) by (rule contents_cong)
  let ?e = "add_final Next t0 h content txID n ts"
  have t': "hashToContent t' = (hashToContent t0)(h \<mapsto> ?e)" using inserted(8) by (simp add: store_simps)
  have e: "slice_elems (tx_content ?e) = (if slice_elems (tx_content (add_base t0 h n ts)) = [] then slice_elems content
      else slice_elems (tx_content (add_base t0 h n ts)))"
    by (auto simp: add_final_def SetContent_content)
  have b: "slice_elems (tx_content (add_base t0 h n ts)) = (case contents t0 h of None \<Rightarrow> [] | Some c \<Rightarrow> c)"
    by (auto simp: add_base_def contents_def NewTbTransaction_def tx_HasContent_def split: option.split)
  have at: "contents t' = (contents t0)(h := (if slice_elems (tx_content ?e) = [] then None else Some (slice_elems (tx_content ?e))))"
    by (auto simp: contents_def t' tx_HasContent_def fun_eq_iff)
  have ne: "contents t0 h = Some cc \<Longrightarrow> cc \<noteq> []" for cc by (auto simp: contents_def tx_HasContent_def split: option.splits if_splits)
  show ?thesis
  proof (cases "contents t0 h")
    case None
    then show ?thesis using at e b c by (auto simp: fun_eq_iff)
  next
    case (Some cc)
    with ne [OF Some] at e b c show ?thesis by (auto simp: fun_eq_iff)
  qed
qed (auto intro: contents_cong)

lemma txstore_step_allowed:
  assumes "txstore_step Next t e = Inr t'"
  shows "table_allows e (contents t) (contents t')"
proof (cases e)
  case (EAdd now ne na h content txID n ts)
  with assms obtain r where "Add Next t now ne na h content txID n ts = Inr (t', r)" by (auto simp: gbind_Inr_iff)
  from Add_contents [OF this] EAdd show ?thesis by (auto intro: table_allows.intros)
next
  case (ECleanNow now clk i1 i2)
  with assms obtain S where "hashToContent t' = hashToContent t |` (- S)"
    by (auto simp: gbind_Inr_iff CleanNow_def txstore_clean_def Let_def dest!: clean_remove_restrict)
  from contents_restrict [OF this] ECleanNow show ?thesis by (auto intro: table_allows.intros)
next
  case (ERemoveHashes clk hs fl)
  with assms contents_restrict [OF RemoveHashes_restrict, of t clk hs fl] show ?thesis by (auto intro: table_allows.intros)
next
  case (ERemoveTxIDs clk ids fl)
  with assms contents_restrict [OF RemoveHashes_restrict, of t clk "hashesToRemove t ids" fl] show ?thesis
    by (auto simp: RemoveTxIDs_def intro: table_allows.intros)
next
  case EClear
  with assms have "contents t' = Map.empty" by (auto simp: Clear_def contents_def fun_eq_iff)
  with EClear show ?thesis by (auto intro: table_allows.intros)
next
  case (EGet ne na h)
  with assms have "contents t' = contents t" by (auto intro!: contents_cong)
  with EGet show ?thesis by (auto intro: table_allows.intros)
next
  case (EKnown ne na h)
  with assms have "contents t' = contents t" by (auto simp: Known_def intro!: contents_cong)
  with EKnown show ?thesis by (auto intro: table_allows.intros)
qed

interpretation store_table: simulation "txstore_step Next" table_allows contents
  by unfold_locales (rule txstore_step_allowed)

text \<open>
  C9. Refinement. The transaction store implements a table of contents: every sequence of its
  operations that does not panic is one the table allows. So a content enters only under the hash
  it was added with, is never changed while it is there, and leaves only by removal or clean-up;
  re-entry protection, short IDs and ages only decide which of the allowed steps is taken.
\<close>

theorem store_refines_table:
  assumes "go_run (txstore_step Next) t es = Inr t'"
  shows "spec_run table_allows es (contents t) (contents t')"
  using assms by (rule store_table.run_allowed)

theorem store_refines_table_witness:
  "\<exists>t' :: unit tb_tx_store. go_run (txstore_step emptyTxIDAssigner_Next) (NewTbTxStore 0 10 5 () (newHashHistory [] 0) False 6)
      [EAdd 0 0 0 [1] (Some [7]) 0 1 0, EAdd 0 0 0 [1] (Some [8]) 0 1 0] = Inr t' \<and>
    spec_run table_allows [EAdd 0 0 0 [1] (Some [7]) 0 1 0, EAdd 0 0 0 [1] (Some [8]) 0 1 0] Map.empty (contents t') \<and>
    contents t' [1] = Some [7]"
proof -
  let ?t = "NewTbTxStore 0 10 5 () (newHashHistory [] 0) False 6 :: unit tb_tx_store"
  let ?es = "[EAdd 0 0 0 [1] (Some [7]) 0 1 0, EAdd 0 0 0 [1] (Some [8]) 0 1 0]"
  have "\<exists>t'. go_run (txstore_step emptyTxIDAssigner_Next) ?t ?es = Inr t' \<and> contents t' [1] = Some [7]"
    by (simp add: add_eval Let_def contents_def tx_HasContent_def)
  then obtain t' where t': "go_run (txstore_step emptyTxIDAssigner_Next) ?t ?es = Inr t'" "contents t' [1] = Some [7]" by blast
  have "contents ?t = Map.empty" by (simp add: contents_def NewTbTxStore_def fun_eq_iff)
  with store_refines_table [OF t'(1)] t' show ?thesis by auto
qed

end
