(* ===== verification/Wire.thy ===== *)
theory Wire
  imports Prelude
begin

text \<open>
  Buffers of bytes as the message codecs use them: \<open>make\<close>, \<open>copy\<close> into a slice of a buffer,
  slicing, and the fixed-width integers of \<^verbatim>\<open>encoding/binary\<close>. A buffer is a list of bytes
  whose capacity is its length, so a slice beyond its end panics.
\<close>

section \<open>Integers in little-endian order\<close>

primrec le_bytes :: "nat \<Rightarrow> nat \<Rightarrow> byte list" where
  "le_bytes 0 x = []"
| "le_bytes (Suc n) x = word_of_nat x # le_bytes n (x div 256)"

primrec le_val :: "byte list \<Rightarrow> nat" where
  "le_val [] = 0"
| "le_val (b # bs) = unat b + 256 * le_val bs"

lemma length_le_bytes [simp, wire_simps]: "length (le_bytes n x) = n"
  by (induction n arbitrary: x) auto

lemma unat_byte_of_nat: "unat (word_of_nat x :: byte) = x mod 256"
  by (simp add: unat_of_nat)

lemma le_val_le_bytes: "x < 256 ^ n \<Longrightarrow> le_val (le_bytes n x) = x"
proof (induction n arbitrary: x)
  case 0
  then show ?case by simp
next
  case (Suc n)
  then have "x div 256 < 256 ^ n" by (simp add: less_mult_imp_div_less mult.commute)
  with Suc.IH show ?case by (simp add: unat_byte_of_nat)
qed

lemma le_val_bound: "le_val bs < 256 ^ length bs"
proof (induction bs)
  case Nil
  then show ?case by simp
next
  case (Cons b bs)
  have "unat b < 2 ^ LENGTH(8)" by (rule unsigned_less)
  with Cons show ?case by simp
qed

lemma le_val_u32 [wire_simps]: "le_val (le_bytes 4 (unat (w :: u32))) = unat w"
proof -
  have "unat w < 2 ^ LENGTH(32)" by (rule unsigned_less)
  then have "unat w < 256 ^ 4" by simp
  then show ?thesis by (rule le_val_le_bytes)
qed

lemma le_val_u64 [wire_simps]: "le_val (le_bytes 8 (unat (w :: u64))) = unat w"
proof -
  have "unat w < 2 ^ LENGTH(64)" by (rule unsigned_less)
  then have "unat w < 256 ^ 8" by simp
  then show ?thesis by (rule le_val_le_bytes)
qed

section \<open>Buffers\<close>

text \<open>\<open>copy(buf[off:], src)\<close>: as many bytes as fit are copied.\<close>

definition copy_at :: "byte list \<Rightarrow> nat \<Rightarrow> byte list \<Rightarrow> byte list go" where
  "copy_at buf off src =
     (if length buf < off then Inl SliceBounds
      else Inr (take off buf @ take (length buf - off) src @ drop (off + length src) buf))"

text \<open>\<open>PutUint32(buf[off:], v)\<close> and \<open>PutUint64\<close> on the bytes of the value: all of them have to fit.\<close>

definition put_at :: "byte list \<Rightarrow> nat \<Rightarrow> byte list \<Rightarrow> byte list go" where
  "put_at buf off bs =
     (if length buf < off then Inl SliceBounds
      else if length buf < off + length bs then Inl IndexOutOfRange
      else Inr (take off buf @ bs @ drop (off + length bs) buf))"

text \<open>\<open>Uint32(buf[off:])\<close> and \<open>Uint64(buf[off:])\<close>.\<close>

definition read_le :: "nat \<Rightarrow> byte list \<Rightarrow> nat \<Rightarrow> nat go" where
  "read_le n buf off =
     (if length buf < off then Inl SliceBounds
      else if length buf < off + n then Inl IndexOutOfRange
      else Inr (le_val (take n (drop off buf))))"

text \<open>\<open>buf[lo:hi]\<close> with bounds of type \<open>int\<close>.\<close>

definition slice_of :: "byte list \<Rightarrow> int \<Rightarrow> int \<Rightarrow> byte list go" where
  "slice_of buf lo hi =
     (if 0 \<le> lo \<and> lo \<le> hi \<and> hi \<le> int (length buf)
      then Inr (take (nat hi - nat lo) (drop (nat lo) buf)) else Inl SliceBounds)"

text \<open>\<open>bytes.Trim\<close> with the null byte as cut set.\<close>

definition trim_null :: "byte list \<Rightarrow> byte list" where
  "trim_null bs = rev (dropWhile (\<lambda>b. b = 0) (rev (dropWhile (\<lambda>b. b = 0) bs)))"

text \<open>The bytes of a string constant.\<close>

definition bytes_of :: "string \<Rightarrow> byte list" where
  "bytes_of s = map (\<lambda>c. word_of_nat (of_char c)) s"

lemma length_bytes_of [simp, wire_simps]: "length (bytes_of s) = length s"
  by (simp add: bytes_of_def)

text \<open>Writing into a buffer that is split at the place that is written.\<close>

lemma copy_at_split:
  "length a = off \<Longrightarrow> length b = length src \<Longrightarrow> copy_at (a @ b @ c) off src = Inr (a @ src @ c)"
  by (simp add: copy_at_def)

lemma put_at_split:
  "length a = off \<Longrightarrow> length b = length bs \<Longrightarrow> put_at (a @ b @ c) off bs = Inr (a @ bs @ c)"
  by (simp add: put_at_def)

lemma read_le_split:
  "length a = off \<Longrightarrow> length b = n \<Longrightarrow> read_le n (a @ b @ c) off = Inr (le_val b)"
  by (simp add: read_le_def)

lemma slice_of_split:
  "int (length a) = lo \<Longrightarrow> int (length a + length b) = hi \<Longrightarrow> slice_of (a @ b @ c) lo hi = Inr b"
  by (auto simp: slice_of_def)

lemma take_at_split: "length a = off \<Longrightarrow> length b = n \<Longrightarrow> take n (drop off (a @ b @ c)) = b"
  by simp

lemma length_copy_at: "copy_at buf off src = Inr buf' \<Longrightarrow> length buf' = length buf"
  by (auto simp: copy_at_def split: if_splits)

lemma length_put_at: "put_at buf off bs = Inr buf' \<Longrightarrow> length buf' = length buf"
  by (auto simp: put_at_def split: if_splits)

lemma trim_null_pad:
  assumes "bs \<noteq> []" "hd bs \<noteq> 0" "last bs \<noteq> 0"
  shows "trim_null (bs @ replicate n 0) = bs"
proof -
  have "dropWhile (\<lambda>b. b = 0) (replicate n 0 @ xs) = dropWhile (\<lambda>b. b = 0) xs" for xs :: "byte list"
    by (induction n) auto
  moreover have "dropWhile (\<lambda>b. b = 0) (bs @ replicate n 0) = bs @ replicate n 0"
    using assms by (cases bs) auto
  moreover have "dropWhile (\<lambda>b. b = 0) (rev bs) = rev bs"
    using assms by (cases bs rule: rev_cases) auto
  ultimately show ?thesis by (simp add: trim_null_def)
qed

end
