(* ===== verification/Messages.thy ===== *)
theory Messages
  imports Wire
begin

text \<open>
  The messages on the wire between gateways and relays (\<^verbatim>\<open>tbmessage/\<close>): the common header, the
  broadcast header, the broadcast message with a block, and the transaction message. The Go
  structs embed each other, so the records extend each other. An \<open>Unpack\<close> changes its receiver
  also when it returns an error, so it returns both.
\<close>

section \<open>Data\<close>

definition ControlByteLen :: nat where "ControlByteLen = 1"
definition ValidControlByte :: byte where "ValidControlByte = 1"
definition HeaderLen :: nat where "HeaderLen = 20"
definition BroadcastHeaderLen :: nat where "BroadcastHeaderLen = 72"
definition PayloadSizeOffset :: nat where "PayloadSizeOffset = 16"
definition TypeOffset :: nat where "TypeOffset = 4"
definition TypeLength :: nat where "TypeLength = 12"
definition EncryptedTypeLen :: nat where "EncryptedTypeLen = 1"
definition BroadcastTypeLen :: nat where "BroadcastTypeLen = 4"
definition TxType :: "byte list" where "TxType = bytes_of ''tx''"
definition BroadcastType :: "byte list" where "BroadcastType = bytes_of ''broadcast''"
definition SenderLen :: nat where "SenderLen = 20"
definition ShortTimestampLen :: nat where "ShortTimestampLen = 4"
definition SourceIDLen :: nat where "SourceIDLen = 16"
definition UInt32Len :: nat where "UInt32Len = 4"
definition UInt64Len :: nat where "UInt64Len = 8"
definition SHA256HashLen :: nat where "SHA256HashLen = 32"
definition NetworkNumLen :: nat where "NetworkNumLen = 4"
definition TxIDLen :: nat where "TxIDLen = 4"

lemmas layout_defs [wire_simps] =
  ControlByteLen_def ValidControlByte_def HeaderLen_def BroadcastHeaderLen_def PayloadSizeOffset_def
  TypeOffset_def TypeLength_def EncryptedTypeLen_def BroadcastTypeLen_def SenderLen_def
  ShortTimestampLen_def SourceIDLen_def UInt32Len_def UInt64Len_def SHA256HashLen_def
  NetworkNumLen_def TxIDLen_def

record message_header =
  msgType :: "byte list"

record broadcast_header = message_header +
  bh_hash :: hash
  bh_networkNum :: u32
  bh_sourceID :: "byte list"

record broadcast = broadcast_header +
  broadcastType :: "byte list"
  encrypted :: bool
  bc_block :: "byte list"
  bc_txIDs :: "u32 list"

record tx_message = broadcast_header +
  tm_txID :: u32
  tm_timestamp :: instant
  tm_content :: "byte list"
  tm_sender :: "byte list"

datatype msg_error = InvalidFormat int int

section \<open>Headers\<close>

definition checkBufSize :: "byte list \<Rightarrow> int \<Rightarrow> int \<Rightarrow> msg_error option" where
  "checkBufSize buf offset size' =
     (if int (length buf) < wrap64 (offset + size') then Some (InvalidFormat size' offset) else None)"

definition Header_Size :: u32 where
  "Header_Size = word_of_nat HeaderLen + word_of_nat ControlByteLen"

definition Header_Pack :: "byte list \<Rightarrow> byte list \<Rightarrow> byte list go" where
  "Header_Pack buf mtype =
     gbind (put_at buf 0 [0xff, 0xfe, 0xfd, 0xfc]) (\<lambda>buf.
     gbind (copy_at buf TypeOffset mtype) (\<lambda>buf.
     gbind (put_at buf PayloadSizeOffset
              (le_bytes 4 (unat ((word_of_nat (length buf) :: u32) - word_of_nat HeaderLen)))) (\<lambda>buf.
     if length buf < ControlByteLen then Inl IndexOutOfRange
     else Inr (buf[length buf - ControlByteLen := ValidControlByte]))))"

definition TbType :: "byte list \<Rightarrow> byte list go" where
  "TbType mb = gbind (slice_of mb (int TypeOffset) (int (TypeOffset + TypeLength))) (\<lambda>t. Inr (trim_null t))"

definition Header_Unpack :: "'z message_header_scheme \<Rightarrow> byte list \<Rightarrow> 'z message_header_scheme go" where
  "Header_Unpack h buf =
     gbind (slice_of buf (int TypeOffset) (int (TypeOffset + TypeLength)))
       (\<lambda>t. Inr (h\<lparr>msgType := trim_null t\<rparr>))"

definition BroadcastHeader_Size :: u32 where
  "BroadcastHeader_Size = Header_Size + word_of_nat (SHA256HashLen + NetworkNumLen + SourceIDLen)"

text \<open>\<open>copy\<close> into an array keeps the length of the array.\<close>

definition copy_array :: "byte list \<Rightarrow> byte list \<Rightarrow> byte list" where
  "copy_array arr src = take (length arr) src @ drop (length src) arr"

definition BroadcastHeader_Pack ::
  "'z broadcast_header_scheme \<Rightarrow> byte list \<Rightarrow> byte list \<Rightarrow> ('z broadcast_header_scheme \<times> byte list) go" where
  "BroadcastHeader_Pack b buf mtype =
     gbind (copy_at buf HeaderLen (bh_hash b)) (\<lambda>buf.
     gbind (put_at buf (HeaderLen + SHA256HashLen) (le_bytes 4 (unat (bh_networkNum b)))) (\<lambda>buf.
     gbind (copy_at buf (HeaderLen + SHA256HashLen + NetworkNumLen) (bh_sourceID b)) (\<lambda>buf.
     gbind (Header_Pack buf mtype) (\<lambda>buf.
     Inr (b\<lparr>msgType := mtype\<rparr>, buf)))))"

definition BroadcastHeader_Unpack ::
  "'z broadcast_header_scheme \<Rightarrow> byte list \<Rightarrow> ('z broadcast_header_scheme \<times> msg_error option) go" where
  "BroadcastHeader_Unpack b buf =
     gbind (Header_Unpack b buf) (\<lambda>b.
     case checkBufSize buf 0 (int (unat BroadcastHeader_Size)) of
       Some err \<Rightarrow> Inr (b, Some err)
     | None \<Rightarrow>
         gbind (slice_of buf (int HeaderLen) (int (length buf))) (\<lambda>src.
         let b = b\<lparr>bh_hash := copy_array (bh_hash b) src\<rparr> in
         gbind (read_le 4 buf (HeaderLen + SHA256HashLen)) (\<lambda>n.
         let b = b\<lparr>bh_networkNum := word_of_nat n\<rparr> in
         gbind (slice_of buf (int (HeaderLen + SHA256HashLen + NetworkNumLen)) (int (length buf))) (\<lambda>src.
         Inr (b\<lparr>bh_sourceID := copy_array (bh_sourceID b) src\<rparr>, None)))))"

text \<open>The source ID is set from a textual UUID, parsed by a library.\<close>

definition SetSourceID ::
  "(string \<Rightarrow> byte list option) \<Rightarrow> 'z broadcast_header_scheme \<Rightarrow> string \<Rightarrow> 'z broadcast_header_scheme \<times> bool" where
  "SetSourceID FromString b sourceID' =
     (case FromString sourceID' of
        None \<Rightarrow> (b, False)
      | Some bytes \<Rightarrow> (b\<lparr>bh_sourceID := copy_array (bh_sourceID b) bytes\<rparr>, True))"

section \<open>Broadcast messages\<close>

definition NewBlockBroadcast :: "hash \<Rightarrow> byte list \<Rightarrow> u32 list \<Rightarrow> u32 \<Rightarrow> broadcast" where
  "NewBlockBroadcast hash' block txIDs networkNum =
     \<lparr>msgType = [], bh_hash = hash', bh_networkNum = networkNum, bh_sourceID = replicate SourceIDLen 0,
      broadcastType = bytes_of ''blok'', encrypted = False, bc_block = block, bc_txIDs = txIDs\<rparr>"

definition fixedSize :: u32 where
  "fixedSize = BroadcastHeader_Size + word_of_nat BroadcastTypeLen + word_of_nat EncryptedTypeLen"

definition Broadcast_Size :: "broadcast \<Rightarrow> u32" where
  "Broadcast_Size b = fixedSize + word_of_nat UInt64Len + word_of_nat (length (bc_block b)) +
     word_of_nat UInt32Len + word_of_nat (length (bc_txIDs b)) * word_of_nat UInt32Len"

fun put_ids :: "byte list \<Rightarrow> nat \<Rightarrow> u32 list \<Rightarrow> byte list go" where
  "put_ids buf offset [] = Inr buf"
| "put_ids buf offset (sid # sids) =
     gbind (put_at buf offset (le_bytes 4 (unat sid))) (\<lambda>buf. put_ids buf (offset + UInt32Len) sids)"

definition Broadcast_Pack :: "broadcast \<Rightarrow> (broadcast \<times> byte list) go" where
  "Broadcast_Pack b =
     gbind (BroadcastHeader_Pack b (replicate (unat (Broadcast_Size b)) 0) BroadcastType) (\<lambda>(b, buf).
     let offset = BroadcastHeaderLen in
     gbind (copy_at buf offset (broadcastType b)) (\<lambda>buf.
     let offset = offset + BroadcastTypeLen in
     gbind (copy_at buf offset (if encrypted b then [1] else [0])) (\<lambda>buf.
     let offset = offset + EncryptedTypeLen in
     gbind (put_at buf offset (le_bytes 8 (unat (word_of_nat (length (bc_block b) + UInt64Len) :: u64)))) (\<lambda>buf.
     let offset = offset + UInt64Len in
     gbind (copy_at buf offset (bc_block b)) (\<lambda>buf.
     let offset = offset + length (bc_block b) in
     gbind (put_at buf offset (le_bytes 4 (unat (word_of_nat (length (bc_txIDs b)) :: u32)))) (\<lambda>buf.
     gbind (put_ids buf (offset + UInt32Len) (bc_txIDs b)) (\<lambda>buf.
     Inr (b, buf))))))))"

fun read_ids :: "byte list \<Rightarrow> nat \<Rightarrow> nat \<Rightarrow> u32 list \<Rightarrow> u32 list go" where
  "read_ids buf offset 0 txIDs = Inr txIDs"
| "read_ids buf offset (Suc n) txIDs =
     gbind (read_le 4 buf offset) (\<lambda>v. read_ids buf (offset + UInt32Len) n (txIDs @ [word_of_nat v]))"

definition Broadcast_Unpack :: "broadcast \<Rightarrow> byte list \<Rightarrow> (broadcast \<times> msg_error option) go" where
  "Broadcast_Unpack b buf =
     gbind (BroadcastHeader_Unpack b buf) (\<lambda>(b, err).
     case err of Some e \<Rightarrow> Inr (b, Some e)
     | None \<Rightarrow>
     let offset = int BroadcastHeaderLen in
     gbind (slice_of buf offset (int (length buf))) (\<lambda>src.
     let b = b\<lparr>broadcastType := copy_array (broadcastType b) src\<rparr>;
         offset = offset + int BroadcastTypeLen in
     gbind (slice_of buf offset (offset + int EncryptedTypeLen)) (\<lambda>e.
     let b = b\<lparr>encrypted := e ! 0 \<noteq> 0\<rparr>; offset = offset + int EncryptedTypeLen in
     case checkBufSize buf offset (int UInt64Len) of Some err \<Rightarrow> Inr (b, Some err)
     | None \<Rightarrow>
     gbind (read_le 8 buf (nat offset)) (\<lambda>v.
     let sidsOffset = sint (word_of_nat v :: u64) in
     case checkBufSize buf offset sidsOffset of Some err \<Rightarrow> Inr (b, Some err)
     | None \<Rightarrow>
     gbind (slice_of buf (offset + int UInt64Len) (wrap64 (offset + sidsOffset))) (\<lambda>block.
     let b = b\<lparr>bc_block := block\<rparr>; offset = wrap64 (offset + sidsOffset) in
     case checkBufSize buf offset (int UInt32Len) of Some err \<Rightarrow> Inr (b, Some err)
     | None \<Rightarrow>
     gbind (read_le 4 buf (nat offset)) (\<lambda>sidsLen.
     let offset = offset + int UInt32Len in
     case checkBufSize buf offset (int (UInt32Len * sidsLen)) of Some err \<Rightarrow> Inr (b, Some err)
     | None \<Rightarrow>
     gbind (read_ids buf (nat offset) sidsLen (bc_txIDs b)) (\<lambda>txIDs.
     Inr (b\<lparr>bc_txIDs := txIDs\<rparr>, None))))))))"

section \<open>Transaction messages\<close>

definition NewTx :: "hash \<Rightarrow> byte list \<Rightarrow> u32 \<Rightarrow> instant \<Rightarrow> tx_message" where
  "NewTx hash' content networkNum now =
     \<lparr>msgType = [], bh_hash = hash', bh_networkNum = networkNum, bh_sourceID = replicate SourceIDLen 0,
      tm_txID = 0, tm_timestamp = now, tm_content = content, tm_sender = replicate SenderLen 0\<rparr>"

definition SetSender :: "tx_message \<Rightarrow> byte list \<Rightarrow> tx_message" where
  "SetSender m sender = m\<lparr>tm_sender := copy_array (tm_sender m) sender\<rparr>"

definition tx_size :: "tx_message \<Rightarrow> u32" where
  "tx_size m =
     (let contentSize = (word_of_nat (length (tm_content m)) :: u32);
          contentSize = (if contentSize > 0 then contentSize + word_of_nat SenderLen else contentSize)
      in BroadcastHeader_Size + contentSize)"

text \<open>The 32 bits of the time that are sent: nanoseconds divided by 1024, low bits only.\<close>

definition short_timestamp :: "instant \<Rightarrow> u32" where
  "short_timestamp t = word_of_int (drop_bit 10 (UnixNano t))"

definition Tx_Pack :: "tx_message \<Rightarrow> byte list go" where
  "Tx_Pack m =
     gbind (BroadcastHeader_Pack m (replicate (unat (tx_size m)) 0) TxType) (\<lambda>(m, buf).
     let offset = BroadcastHeaderLen in
     gbind (put_at buf offset (le_bytes 4 (unat (tm_txID m)))) (\<lambda>buf.
     let offset = offset + TxIDLen in
     gbind (put_at buf offset (le_bytes 4 (unat (short_timestamp (tm_timestamp m))))) (\<lambda>buf.
     let offset = offset + ShortTimestampLen in
     if length (tm_content m) > 0
     then gbind (copy_at buf offset (tm_content m)) (\<lambda>buf.
            copy_at buf (offset + length (tm_content m)) (tm_sender m))
     else Inr buf)))"

text \<open>The receiver completes the 32 bits with the high bits of its own clock.\<close>

definition merge_timestamp :: "u32 \<Rightarrow> int \<Rightarrow> int" where
  "merge_timestamp timestamp now =
     (let toMerge = push_bit 10 (ucast timestamp :: u64);
          nanoseconds = toMerge OR ((word_of_int now :: u64) AND 0xFFFFFC0000000000);
          result = sint nanoseconds;
          result = (if wrap64 (result - now) \<ge> Hour then wrap64 (result - 0x40000000000) else result)
      in if wrap64 (now - result) \<ge> Hour then wrap64 (result + 0x40000000000) else result)"

definition Tx_Unpack :: "instant \<Rightarrow> tx_message \<Rightarrow> byte list \<Rightarrow> (tx_message \<times> msg_error option) go" where
  "Tx_Unpack clock_now m buf =
     gbind (BroadcastHeader_Unpack m buf) (\<lambda>(m, err).
     case err of Some e \<Rightarrow> Inr (m, Some e)
     | None \<Rightarrow>
     let offset = BroadcastHeaderLen in
     gbind (read_le 4 buf offset) (\<lambda>i.
     let m = m\<lparr>tm_txID := word_of_nat i\<rparr>; offset = offset + TxIDLen in
     gbind (read_le 4 buf offset) (\<lambda>ts.
     let offset = offset + ShortTimestampLen;
         m = m\<lparr>tm_timestamp := merge_timestamp (word_of_nat ts) (UnixNano clock_now)\<rparr> in
     gbind (slice_of buf (int offset) (int (length buf) - int SenderLen - int ControlByteLen)) (\<lambda>content.
     let m = m\<lparr>tm_content := content\<rparr>; offset = offset + length content in
     gbind (slice_of buf (int offset) (int (length buf))) (\<lambda>src.
     Inr (m\<lparr>tm_sender := copy_array (tm_sender m) src\<rparr>, None))))))"

lemma wire_sizes [wire_simps]:
  "Header_Size = 21" "BroadcastHeader_Size = 73" "fixedSize = 78"
  by (simp_all add: Header_Size_def BroadcastHeader_Size_def fixedSize_def layout_defs)

lemma unat_of_nat_u32: "n < 2 ^ 32 \<Longrightarrow> unat (word_of_nat n :: u32) = n"
  by (simp add: unat_of_nat)

lemma unat_of_nat_u64: "n < 2 ^ 64 \<Longrightarrow> unat (word_of_nat n :: u64) = n"
  by (simp add: unat_of_nat)

text \<open>A header that is well formed: the arrays have their lengths.\<close>

definition bh_ok :: "'z broadcast_header_scheme \<Rightarrow> bool" where
  "bh_ok b \<longleftrightarrow> length (bh_hash b) = 32 \<and> length (bh_sourceID b) = 16"

text \<open>The layout of a packed message: the header for a payload of \<open>n\<close> bytes after the first 20.\<close>

definition header_bytes :: "byte list \<Rightarrow> nat \<Rightarrow> byte list" where
  "header_bytes mtype n = [0xff, 0xfe, 0xfd, 0xfc] @ mtype @ replicate (12 - length mtype) 0 @ le_bytes 4 n"

definition broadcast_header_bytes :: "'z broadcast_header_scheme \<Rightarrow> byte list" where
  "broadcast_header_bytes b = bh_hash b @ le_bytes 4 (unat (bh_networkNum b)) @ bh_sourceID b"

lemma length_header_bytes [simp]: "length mtype \<le> 12 \<Longrightarrow> length (header_bytes mtype n) = 20"
  by (simp add: header_bytes_def)

lemma length_broadcast_header_bytes [simp]: "bh_ok b \<Longrightarrow> length (broadcast_header_bytes b) = 52"
  by (simp add: broadcast_header_bytes_def bh_ok_def)

lemma Header_Pack_layout:
  assumes "length mtype \<le> 12" "20 + length body + 1 < 2 ^ 32"
  shows "Header_Pack (replicate 20 0 @ body @ [x]) mtype =
    Inr (header_bytes mtype (length body + 1) @ body @ [ValidControlByte])"
proof -
  let ?z = "replicate (12 - length mtype) (0 :: byte)"
  have r: "replicate 20 (0 :: byte) = [] @ replicate 4 0 @ replicate 16 0"
    "replicate 16 (0 :: byte) = replicate (length mtype) 0 @ ?z @ replicate 4 0"
    using assms(1) by (simp_all add: replicate_add [symmetric])
  have 1: "put_at (replicate 20 0 @ body @ [x]) 0 [0xff, 0xfe, 0xfd, 0xfc] =
      Inr ([0xff, 0xfe, 0xfd, 0xfc] @ replicate 16 0 @ body @ [x])"
    using put_at_split [of "[]" 0 "replicate 4 0" "[0xff, 0xfe, 0xfd, 0xfc]" "replicate 16 0 @ body @ [x]"]
    unfolding r(1) by simp
  have 2: "copy_at ([0xff, 0xfe, 0xfd, 0xfc] @ replicate 16 0 @ body @ [x]) 4 mtype =
      Inr ([0xff, 0xfe, 0xfd, 0xfc] @ mtype @ ?z @ replicate 4 0 @ body @ [x])"
    using copy_at_split [of "[0xff, 0xfe, 0xfd, 0xfc]" 4 "replicate (length mtype) 0" mtype
        "?z @ replicate 4 0 @ body @ [x]"] unfolding r(2) by simp
  have len: "length ([0xff, 0xfe, 0xfd, 0xfc] @ mtype @ ?z @ replicate 4 0 @ body @ [x]) = 21 + length body"
    using assms(1) by simp
  have un: "unat ((word_of_nat (21 + length body) :: u32) - word_of_nat 20) = length body + 1"
  proof -
    have "(word_of_nat (21 + length body) :: u32) - word_of_nat 20 = word_of_nat (length body + 1)"
      by simp
    moreover have "unat (word_of_nat (length body + 1) :: u32) = length body + 1"
      using assms(2) by (intro unat_of_nat_u32) simp
    ultimately show ?thesis by (simp only:)
  qed
  have 3: "put_at ([0xff, 0xfe, 0xfd, 0xfc] @ mtype @ ?z @ replicate 4 0 @ body @ [x]) 16 (le_bytes 4 n) =
      Inr ([0xff, 0xfe, 0xfd, 0xfc] @ mtype @ ?z @ le_bytes 4 n @ body @ [x])" for n
    using put_at_split [of "[0xff, 0xfe, 0xfd, 0xfc] @ mtype @ ?z" 16 "replicate 4 0" "le_bytes 4 n" "body @ [x]"]
      assms(1) by simp
  have "Header_Pack (replicate 20 0 @ body @ [x]) mtype =
    (let buf = [0xff, 0xfe, 0xfd, 0xfc] @ mtype @ ?z @ le_bytes 4 (length body + 1) @ body @ [x]
     in Inr (buf[length buf - 1 := ValidControlByte]))"
    unfolding Header_Pack_def layout_defs 1 gbind_simps 2 len un 3 by (simp add: Let_def)
  also have "\<dots> = Inr (header_bytes mtype (length body + 1) @ body @ [ValidControlByte])"
    by (simp add: Let_def header_bytes_def list_update_append)
  finally show ?thesis .
qed

lemma BroadcastHeader_Pack_layout:
  assumes "bh_ok b" "length mtype \<le> 12" "20 + 52 + length body + 1 < 2 ^ 32"
  shows "BroadcastHeader_Pack b (replicate 72 0 @ body @ [x]) mtype =
    Inr (b\<lparr>msgType := mtype\<rparr>,
      header_bytes mtype (52 + length body + 1) @ broadcast_header_bytes b @ body @ [ValidControlByte])"
proof -
  let ?n = "le_bytes 4 (unat (bh_networkNum b))"
  have l: "length (bh_hash b) = 32" "length (bh_sourceID b) = 16" using assms(1) by (simp_all add: bh_ok_def)
  have r: "replicate 72 (0 :: byte) = replicate 20 0 @ replicate 32 0 @ replicate 4 0 @ replicate 16 0"
    by (simp add: replicate_add [symmetric])
  have 1: "copy_at (replicate 72 0 @ body @ [x]) 20 (bh_hash b) =
      Inr (replicate 20 0 @ bh_hash b @ replicate 4 0 @ replicate 16 0 @ body @ [x])"
    using copy_at_split [of "replicate 20 0" 20 "replicate 32 0" "bh_hash b" "replicate 4 0 @ replicate 16 0 @ body @ [x]"] l
    unfolding r by simp
  have 2: "put_at (replicate 20 0 @ bh_hash b @ replicate 4 0 @ replicate 16 0 @ body @ [x]) 52 ?n =
      Inr (replicate 20 0 @ bh_hash b @ ?n @ replicate 16 0 @ body @ [x])"
    using put_at_split [of "replicate 20 0 @ bh_hash b" 52 "replicate 4 0" ?n "replicate 16 0 @ body @ [x]"] l by simp
  have 3: "copy_at (replicate 20 0 @ bh_hash b @ ?n @ replicate 16 0 @ body @ [x]) 56 (bh_sourceID b) =
      Inr (replicate 20 0 @ (broadcast_header_bytes b @ body) @ [x])"
    using copy_at_split [of "replicate 20 0 @ bh_hash b @ ?n" 56 "replicate 16 0" "bh_sourceID b" "body @ [x]"] l
    by (simp add: broadcast_header_bytes_def)
  have 4: "Header_Pack (replicate 20 0 @ (broadcast_header_bytes b @ body) @ [x]) mtype =
      Inr (header_bytes mtype (52 + length body + 1) @ (broadcast_header_bytes b @ body) @ [ValidControlByte])"
    using Header_Pack_layout [of mtype "broadcast_header_bytes b @ body" x] assms by simp
  have off: "HeaderLen + SHA256HashLen = 52" "52 + NetworkNumLen = 56"
    by (simp_all add: layout_defs)
  show ?thesis
    unfolding BroadcastHeader_Pack_def off unfolding HeaderLen_def 1 gbind_simps 2 3 4 by simp
qed

lemma put_ids_layout:
  "length a = off \<Longrightarrow> length z = 4 * length ids \<Longrightarrow>
     put_ids (a @ z @ c) off ids = Inr (a @ concat (map (\<lambda>i. le_bytes 4 (unat i)) ids) @ c)"
proof (induction ids arbitrary: a off z)
  case Nil
  then show ?case by simp
next
  case (Cons i ids)
  let ?z = "take 4 z" and ?z' = "drop 4 z"
  have z: "z = ?z @ ?z'" "length ?z = 4" "length ?z' = 4 * length ids" using Cons.prems(2) by auto
  have "put_at (a @ ?z @ (?z' @ c)) off (le_bytes 4 (unat i)) = Inr (a @ le_bytes 4 (unat i) @ (?z' @ c))"
    using Cons.prems(1) z by (intro put_at_split) auto
  moreover have "a @ z @ c = a @ ?z @ (?z' @ c)" by simp
  moreover have "put_ids ((a @ le_bytes 4 (unat i)) @ ?z' @ c) (off + 4) ids =
      Inr ((a @ le_bytes 4 (unat i)) @ concat (map (\<lambda>i. le_bytes 4 (unat i)) ids) @ c)"
    using Cons.prems(1) z by (intro Cons.IH) auto
  ultimately have "gbind (put_at (a @ z @ c) off (le_bytes 4 (unat i))) (\<lambda>buf. put_ids buf (off + 4) ids) =
      Inr (a @ le_bytes 4 (unat i) @ concat (map (\<lambda>i. le_bytes 4 (unat i)) ids) @ c)"
    by (simp only: gbind_simps append_assoc)
  then show ?case by (simp add: layout_defs)
qed


definition broadcast_bytes :: "broadcast \<Rightarrow> byte list" where
  "broadcast_bytes b = broadcastType b @ [if encrypted b then 1 else 0] @
     le_bytes 8 (length (bc_block b) + 8) @ bc_block b @
     le_bytes 4 (length (bc_txIDs b)) @ concat (map (\<lambda>i. le_bytes 4 (unat i)) (bc_txIDs b))"

definition broadcast_len :: "broadcast \<Rightarrow> nat" where
  "broadcast_len b = 90 + length (bc_block b) + 4 * length (bc_txIDs b)"

lemma length_ids_bytes [simp]: "length (concat (map (\<lambda>i :: u32. le_bytes 4 (unat i)) ids)) = 4 * length ids"
  by (induction ids) auto

lemma length_broadcast_bytes:
  "length (broadcastType b) = 4 \<Longrightarrow> length (broadcast_bytes b) = broadcast_len b - 73"
  by (simp add: broadcast_bytes_def broadcast_len_def)

lemma Broadcast_Size_len:
  assumes "broadcast_len b < 2 ^ 32"
  shows "unat (Broadcast_Size b) = broadcast_len b"
proof -
  have "Broadcast_Size b = word_of_nat (broadcast_len b)"
    by (simp add: Broadcast_Size_def broadcast_len_def wire_sizes layout_defs)
  then show ?thesis using unat_of_nat_u32 [OF assms] by (simp only:)
qed

text \<open>The layout of a packed broadcast message.\<close>

definition packed_broadcast :: "broadcast \<Rightarrow> byte list" where
  "packed_broadcast b = header_bytes BroadcastType (broadcast_len b - 20) @ broadcast_header_bytes b @
     broadcast_bytes b @ [ValidControlByte]"

lemma Broadcast_Pack_layout:
  assumes ok: "bh_ok b" "length (broadcastType b) = 4" and len: "broadcast_len b < 2 ^ 32"
  shows "Broadcast_Pack b = Inr (b\<lparr>msgType := BroadcastType\<rparr>, packed_broadcast b)"
proof -
  let ?k = "length (bc_block b)" and ?m = "length (bc_txIDs b)"
  let ?e = "[if encrypted b then 1 else 0] :: byte list"
  define H where "H = header_bytes BroadcastType (broadcast_len b - 20) @ broadcast_header_bytes b"
  define c where "c = [ValidControlByte]"
  have H: "length H = 72" using ok(1) by (simp add: H_def BroadcastType_def)
  have "72 + (broadcast_len b - 73 + 1) = broadcast_len b" by (simp add: broadcast_len_def)
  moreover have "replicate (72 + (broadcast_len b - 73 + 1)) (0 :: byte) =
      replicate 72 0 @ replicate (broadcast_len b - 73) 0 @ [0]"
    by (simp only: replicate_add One_nat_def replicate.simps)
  ultimately have z: "replicate (broadcast_len b) (0 :: byte) =
      replicate 72 0 @ replicate (broadcast_len b - 73) 0 @ [0]" by (simp only:)
  have z': "replicate (broadcast_len b - 73) (0 :: byte) = replicate 4 0 @ replicate 1 0 @ replicate 8 0 @
      replicate ?k 0 @ replicate 4 0 @ replicate (4 * ?m) 0"
    by (simp only: replicate_add [symmetric] broadcast_len_def) simp
  have 0: "BroadcastHeader_Pack b (replicate (unat (Broadcast_Size b)) 0) BroadcastType =
      Inr (b\<lparr>msgType := BroadcastType\<rparr>, H @ replicate 4 0 @ replicate 1 0 @ replicate 8 0 @
        replicate ?k 0 @ replicate 4 0 @ replicate (4 * ?m) 0 @ c)"
  proof -
    have "52 + length (replicate (broadcast_len b - 73) (0 :: byte)) + 1 = broadcast_len b - 20"
      "20 + 52 + length (replicate (broadcast_len b - 73) (0 :: byte)) + 1 < 2 ^ 32" "length BroadcastType \<le> 12"
      using len by (simp_all add: broadcast_len_def BroadcastType_def)
    with BroadcastHeader_Pack_layout [OF ok(1), of BroadcastType "replicate (broadcast_len b - 73) 0" 0]
    show ?thesis unfolding Broadcast_Size_len [OF len] z by (simp only: z' append_assoc H_def c_def)
  qed
  have 1: "copy_at (H @ replicate 4 0 @ Z) 72 (broadcastType b) = Inr (H @ broadcastType b @ Z)" for Z
    using H ok(2) by (intro copy_at_split) simp_all
  have 2: "copy_at (H @ broadcastType b @ replicate 1 0 @ Z) 76 (if encrypted b then [1] else [0]) =
      Inr (H @ broadcastType b @ ?e @ Z)" for Z
    using copy_at_split [of "H @ broadcastType b" 76 "replicate 1 0" ?e Z] H ok(2)
    by (cases "encrypted b") simp_all
  have n8: "unat (word_of_nat (?k + 8) :: u64) = ?k + 8"
    using len by (intro unat_of_nat_u64) (simp add: broadcast_len_def)
  have 3: "put_at (H @ broadcastType b @ ?e @ replicate 8 0 @ Z) 77 (le_bytes 8 (?k + 8)) =
      Inr (H @ broadcastType b @ ?e @ le_bytes 8 (?k + 8) @ Z)" for Z
    using put_at_split [of "H @ broadcastType b @ ?e" 77 "replicate 8 0" "le_bytes 8 (?k + 8)" Z] H ok(2) by simp
  have 4: "copy_at (H @ broadcastType b @ ?e @ le_bytes 8 (?k + 8) @ replicate ?k 0 @ Z) 85 (bc_block b) =
      Inr (H @ broadcastType b @ ?e @ le_bytes 8 (?k + 8) @ bc_block b @ Z)" for Z
    using copy_at_split [of "H @ broadcastType b @ ?e @ le_bytes 8 (?k + 8)" 85 "replicate ?k 0" "bc_block b" Z] H ok(2)
    by simp
  have n4: "unat (word_of_nat ?m :: u32) = ?m"
    using len by (intro unat_of_nat_u32) (simp add: broadcast_len_def)
  have 5: "put_at (H @ broadcastType b @ ?e @ le_bytes 8 (?k + 8) @ bc_block b @ replicate 4 0 @ Z) (85 + ?k) (le_bytes 4 ?m) =
      Inr (H @ broadcastType b @ ?e @ le_bytes 8 (?k + 8) @ bc_block b @ le_bytes 4 ?m @ Z)" for Z
    using put_at_split [of "H @ broadcastType b @ ?e @ le_bytes 8 (?k + 8) @ bc_block b" "85 + ?k" "replicate 4 0" "le_bytes 4 ?m" Z] H ok(2)
    by simp
  have 6: "put_ids (H @ broadcastType b @ ?e @ le_bytes 8 (?k + 8) @ bc_block b @ le_bytes 4 ?m @ replicate (4 * ?m) 0 @ c)
        (89 + ?k) (bc_txIDs b) = Inr (packed_broadcast b)"
    using put_ids_layout [of "H @ broadcastType b @ ?e @ le_bytes 8 (?k + 8) @ bc_block b @ le_bytes 4 ?m" "89 + ?k"
        "replicate (4 * ?m) 0" "bc_txIDs b" c] H ok(2)
    by (simp add: packed_broadcast_def broadcast_bytes_def H_def c_def)
  have off: "BroadcastHeaderLen = 72" "72 + BroadcastTypeLen = 76" "76 + EncryptedTypeLen = 77" "77 + UInt64Len = 85"
    "85 + ?k + UInt32Len = 89 + ?k" "?k + UInt64Len = ?k + 8" by (simp_all add: layout_defs)
  have sel: "broadcastType (b\<lparr>msgType := t\<rparr>) = broadcastType b" "encrypted (b\<lparr>msgType := t\<rparr>) = encrypted b"
    "bc_block (b\<lparr>msgType := t\<rparr>) = bc_block b" "bc_txIDs (b\<lparr>msgType := t\<rparr>) = bc_txIDs b" for t by simp_all
  show ?thesis
    unfolding Broadcast_Pack_def 0 gbind_simps prod.case Let_def sel
    by (simp only: off 1 2 3 4 5 6 gbind_simps n8 n4)
qed


section \<open>Reading back\<close>

lemma trim_type: "mtype = TxType \<or> mtype = BroadcastType \<Longrightarrow> trim_null (mtype @ replicate n 0) = mtype"
  by (intro trim_null_pad) (auto simp: TxType_def BroadcastType_def bytes_of_def)

lemma slice_type:
  "length mtype \<le> 12 \<Longrightarrow> slice_of (header_bytes mtype n @ rest) 4 16 = Inr (mtype @ replicate (12 - length mtype) 0)"
  using slice_of_split [of "[0xff, 0xfe, 0xfd, 0xfc]" 4 "mtype @ replicate (12 - length mtype) 0" 16 "le_bytes 4 n @ rest"]
  by (simp add: header_bytes_def)

lemma Header_Unpack_layout:
  "mtype = TxType \<or> mtype = BroadcastType \<Longrightarrow>
     Header_Unpack h (header_bytes mtype n @ rest) = Inr (h\<lparr>msgType := mtype\<rparr>)"
  using slice_type [of mtype n rest] trim_type
  by (auto simp: Header_Unpack_def layout_defs TxType_def BroadcastType_def)

text \<open>The type is read from a packed message without unpacking it, and the payload length too.\<close>

lemma TbType_layout:
  "mtype = TxType \<or> mtype = BroadcastType \<Longrightarrow> TbType (header_bytes mtype n @ rest) = Inr mtype"
  using slice_type [of mtype n rest] trim_type
  by (auto simp: TbType_def layout_defs TxType_def BroadcastType_def)

lemma payload_len_layout:
  "length mtype \<le> 12 \<Longrightarrow> n < 2 ^ 32 \<Longrightarrow> read_le 4 (header_bytes mtype n @ rest) PayloadSizeOffset = Inr n"
  using read_le_split [of "[0xff, 0xfe, 0xfd, 0xfc] @ mtype @ replicate (12 - length mtype) 0" 16 "le_bytes 4 n" 4 rest]
    le_val_le_bytes [of n 4]
  by (simp add: header_bytes_def layout_defs)

lemma slice_tail: "length a = n \<Longrightarrow> lo = int n \<Longrightarrow> hi = int (length (a @ b)) \<Longrightarrow> slice_of (a @ b) lo hi = Inr b"
  by (simp add: slice_of_def)

lemma copy_array_prefix: "length a = length arr \<Longrightarrow> copy_array arr (a @ b) = a"
  by (simp add: copy_array_def)

lemma wrap64_nat: "n < 2 ^ 63 \<Longrightarrow> wrap64 (int n) = int n"
proof -
  assume "n < 2 ^ 63"
  then have "int n < int (2 ^ 63)" by (simp only: of_nat_less_iff)
  then show ?thesis by (intro wrap64_id) (simp add: int64_range_def)
qed

lemma checkBufSize_ok:
  "length buf < 2 ^ 63 \<Longrightarrow> off + n \<le> length buf \<Longrightarrow> checkBufSize buf (int off) (int n) = None"
  using wrap64_nat [of "off + n"] by (simp add: checkBufSize_def)

lemma BroadcastHeader_Unpack_layout:
  assumes "bh_ok b" "bh_ok d" "mtype = TxType \<or> mtype = BroadcastType" "rest \<noteq> []"
    and "72 + length rest < 2 ^ 63"
  shows "BroadcastHeader_Unpack d (header_bytes mtype n @ broadcast_header_bytes b @ rest) =
    Inr (d\<lparr>msgType := mtype, bh_hash := bh_hash b, bh_networkNum := bh_networkNum b, bh_sourceID := bh_sourceID b\<rparr>, None)"
proof -
  let ?n = "le_bytes 4 (unat (bh_networkNum b))"
  define h where "h = header_bytes mtype n"
  define buf where "buf = h @ broadcast_header_bytes b @ rest"
  have l: "length h = 20" "length (bh_hash b) = 32" "length (bh_sourceID b) = 16"
    using assms(1,3) by (auto simp: h_def bh_ok_def TxType_def BroadcastType_def)
  have len: "length buf = 72 + length rest" using l by (simp add: buf_def broadcast_header_bytes_def)
  have 1: "Header_Unpack d buf = Inr (d\<lparr>msgType := mtype\<rparr>)"
    unfolding buf_def h_def using assms(3) by (rule Header_Unpack_layout)
  have 2: "checkBufSize buf 0 73 = None"
    using checkBufSize_ok [of buf 0 73] len assms(4,5) by (cases rest) simp_all
  have 3: "slice_of buf 20 (int (length buf)) = Inr (bh_hash b @ ?n @ bh_sourceID b @ rest)"
    using slice_tail [of h 20 20 "int (length buf)" "bh_hash b @ ?n @ bh_sourceID b @ rest"] l len
    by (simp add: buf_def broadcast_header_bytes_def)
  have 4: "read_le 4 buf 52 = Inr (unat (bh_networkNum b))"
    using read_le_split [of "h @ bh_hash b" 52 ?n 4 "bh_sourceID b @ rest"] l
    by (simp add: buf_def broadcast_header_bytes_def wire_simps)
  have 5: "slice_of buf 56 (int (length buf)) = Inr (bh_sourceID b @ rest)"
    using slice_tail [of "h @ bh_hash b @ ?n" 56 56 "int (length buf)" "bh_sourceID b @ rest"] l len
    by (simp add: buf_def broadcast_header_bytes_def)
  have 6: "copy_array (bh_hash d) (bh_hash b @ X) = bh_hash b" "copy_array (bh_sourceID d) (bh_sourceID b @ X) = bh_sourceID b" for X
    using assms(1,2) by (simp_all add: copy_array_prefix bh_ok_def)
  have "BroadcastHeader_Unpack d buf =
      Inr (d\<lparr>msgType := mtype, bh_hash := bh_hash b, bh_networkNum := bh_networkNum b, bh_sourceID := bh_sourceID b\<rparr>, None)"
    using 1 2 3 4 5 6 by (simp add: BroadcastHeader_Unpack_def wire_sizes layout_defs Let_def)
  then show ?thesis by (simp add: buf_def h_def)
qed

lemma read_ids_layout:
  "length a = off \<Longrightarrow> read_ids (a @ concat (map (\<lambda>i. le_bytes 4 (unat i)) ids) @ c) off (length ids) acc = Inr (acc @ ids)"
proof (induction ids arbitrary: a off acc)
  case Nil
  then show ?case by simp
next
  case (Cons i ids)
  let ?r = "concat (map (\<lambda>i. le_bytes 4 (unat i)) ids) @ c"
  have "read_le 4 (a @ le_bytes 4 (unat i) @ ?r) off = Inr (unat i)"
    using read_le_split [of a off "le_bytes 4 (unat i)" 4 ?r] Cons.prems by (simp add: wire_simps)
  moreover have "read_ids ((a @ le_bytes 4 (unat i)) @ ?r) (off + 4) (length ids) (acc @ [i]) = Inr ((acc @ [i]) @ ids)"
    using Cons.prems by (intro Cons.IH) simp
  ultimately show ?case by (simp add: layout_defs)
qed


lemma Broadcast_Unpack_layout:
  assumes ok: "bh_ok b" "length (broadcastType b) = 4" "broadcast_len b < 2 ^ 32"
    and d: "bh_ok d" "length (broadcastType d) = 4"
  shows "Broadcast_Unpack d (packed_broadcast b) =
    Inr (b\<lparr>msgType := BroadcastType, bc_txIDs := bc_txIDs d @ bc_txIDs b\<rparr>, None)"
proof -
  let ?k = "length (bc_block b)" and ?m = "length (bc_txIDs b)"
  let ?e = "[if encrypted b then 1 else 0] :: byte list"
  let ?ids = "concat (map (\<lambda>i. le_bytes 4 (unat i)) (bc_txIDs b))"
  define H where "H = header_bytes BroadcastType (broadcast_len b - 20) @ broadcast_header_bytes b"
  define buf where "buf = packed_broadcast b"
  have H: "length H = 72" using ok(1) by (simp add: H_def BroadcastType_def)
  have buf: "buf = H @ broadcastType b @ ?e @ le_bytes 8 (?k + 8) @ bc_block b @ le_bytes 4 ?m @ ?ids @ [ValidControlByte]"
    by (simp add: buf_def packed_broadcast_def H_def broadcast_bytes_def)
  have len: "length buf = broadcast_len b" using H ok(2) by (simp add: buf broadcast_len_def)
  then have small: "length buf < 2 ^ 63" using ok(3) by simp
  have 0: "BroadcastHeader_Unpack d buf = Inr (d\<lparr>msgType := BroadcastType, bh_hash := bh_hash b,
      bh_networkNum := bh_networkNum b, bh_sourceID := bh_sourceID b\<rparr>, None)"
    unfolding buf_def packed_broadcast_def
    using ok d(1) by (intro BroadcastHeader_Unpack_layout) (simp_all add: length_broadcast_bytes broadcast_len_def)
  have 1: "slice_of buf 72 (int (length buf)) = Inr (broadcastType b @ drop 76 buf)"
    using slice_tail [of H 72 72 "int (length buf)" "broadcastType b @ drop 76 buf"] H ok(2) by (simp add: buf)
  have ct: "copy_array (broadcastType d) (broadcastType b @ drop 76 buf) = broadcastType b"
    using d(2) ok(2) by (simp add: copy_array_prefix)
  have 2: "slice_of buf 76 77 = Inr ?e"
    using slice_of_split [of "H @ broadcastType b" 76 ?e 77] H ok(2) by (simp add: buf)
  have 3: "read_le 8 buf 77 = Inr (?k + 8)"
    using read_le_split [of "H @ broadcastType b @ ?e" 77 "le_bytes 8 (?k + 8)" 8] H ok(2,3)
    by (simp add: buf le_val_le_bytes broadcast_len_def)
  have si: "sint (word_of_nat (?k + 8) :: u64) = int (?k + 8)"
  proof -
    have "unat (word_of_nat (?k + 8) :: u64) = ?k + 8" using ok(3) by (intro unat_of_nat_u64) (simp add: broadcast_len_def)
    moreover have "?k + 8 < 2 ^ 63" using ok(3) by (simp add: broadcast_len_def)
    ultimately show ?thesis by (metis sint_small_u64 uint_nat)
  qed
  have w: "wrap64 (77 + int (?k + 8)) = 85 + int ?k"
    using wrap64_nat [of "85 + ?k"] ok(3) by (simp add: broadcast_len_def add.commute)
  have 4: "slice_of buf 85 (85 + int ?k) = Inr (bc_block b)"
    using slice_of_split [of "H @ broadcastType b @ ?e @ le_bytes 8 (?k + 8)" 85 "bc_block b"] H ok(2) by (simp add: buf)
  have 5: "read_le 4 buf (85 + ?k) = Inr ?m"
    using read_le_split [of "H @ broadcastType b @ ?e @ le_bytes 8 (?k + 8) @ bc_block b" "85 + ?k" "le_bytes 4 ?m" 4] H ok(2,3)
    by (simp add: buf le_val_le_bytes broadcast_len_def)
  have 6: "read_ids buf (89 + ?k) ?m (bc_txIDs d) = Inr (bc_txIDs d @ bc_txIDs b)"
    using read_ids_layout [of "H @ broadcastType b @ ?e @ le_bytes 8 (?k + 8) @ bc_block b @ le_bytes 4 ?m" "89 + ?k"] H ok(2)
    by (simp add: buf)
  have ck: "checkBufSize buf 77 8 = None" "checkBufSize buf 77 (int (?k + 8)) = None"
    "checkBufSize buf (85 + int ?k) 4 = None" "checkBufSize buf (89 + int ?k) (4 * int ?m) = None"
    using checkBufSize_ok [OF small, of 77 8] checkBufSize_ok [OF small, of 77 "?k + 8"]
      checkBufSize_ok [OF small, of "85 + ?k" 4] checkBufSize_ok [OF small, of "89 + ?k" "4 * ?m"]
    by (simp_all add: len broadcast_len_def)
  have nt: "nat (85 + int ?k) = 85 + ?k" "nat (89 + int ?k) = 89 + ?k" by auto
  have "Broadcast_Unpack d buf =
      Inr (b\<lparr>msgType := BroadcastType, bc_txIDs := bc_txIDs d @ bc_txIDs b\<rparr>, None)"
    using 0 1 ct 2 3 si w 4 5 6 ck nt
    by (simp add: Broadcast_Unpack_def layout_defs Let_def)
  then show ?thesis by (simp add: buf_def)
qed

section \<open>Timestamps\<close>

text \<open>
  On the nanoseconds of the epoch the merge is arithmetic: the high bits are those of the
  receiver's clock, the low 42 bits those that were sent, and a distance of an hour or more
  to the clock is corrected by one period.
\<close>

definition period :: int where "period = 2 ^ 42"

lemma merge_bits:
  assumes "0 \<le> now" "now < 2 ^ 63"
  shows "sint (push_bit 10 (ucast (ts :: u32) :: u64) OR ((word_of_int now :: u64) AND 0xFFFFFC0000000000)) =
    uint ts * 1024 + (now - now mod period)"
proof -
  have m: "(0xFFFFFC0000000000 :: u64) = NOT (mask 42)"
    by (simp add: mask_eq_exp_minus_1 not_eq_complement)
  have hi: "(word_of_int now :: u64) AND NOT (mask 42) = word_of_int (now - now mod period)"
  proof -
    have "(word_of_int now :: u64) AND NOT (mask 42) = word_of_int (now AND NOT (mask 42))"
      by (rule bit_word_eqI) (auto simp: bit_simps)
    moreover have "now AND NOT (mask 42) = now - now mod period"
    proof -
      have "now - take_bit 42 now = now AND NOT (mask 42)"
        by (subst disjunctive_diff_eq_and_not) (auto simp: bit_eq_iff bit_simps)
      then show ?thesis by (simp add: take_bit_eq_mod period_def)
    qed
    ultimately show ?thesis by (simp only:)
  qed
  let ?lo = "push_bit 10 (ucast ts :: u64)"
  have "?lo AND ((word_of_int now :: u64) AND NOT (mask 42)) = 0"
  proof (rule bit_word_eqI)
    fix n
    have "\<not> bit ts (n - 10)" if "\<not> n < 42" using bit_imp_le_length [of ts "n - 10"] that by auto
    then show "bit (?lo AND ((word_of_int now :: u64) AND NOT (mask 42))) n = bit (0 :: u64) n"
      unfolding bit_and_iff bit_not_iff bit_mask_iff bit_push_bit_iff bit_unsigned_iff bit_0_eq by auto
  qed
  then have or: "?lo OR ((word_of_int now :: u64) AND NOT (mask 42)) = ?lo + word_of_int (now - now mod period)"
    using hi by (subst disjunctive_add_eq_or [symmetric]) (simp_all only:)
  have lo: "?lo = word_of_int (uint ts * 1024)"
  proof -
    have "(ucast ts :: u64) = word_of_int (uint ts)" by (rule ucast_eq)
    moreover have "?lo = ucast ts * word_of_int 1024" by (simp add: push_bit_eq_mult)
    ultimately show ?thesis by (simp only: of_int_mult)
  qed
  define x where "x = uint ts * 1024 + (now - now mod period)"
  have "0 \<le> uint ts" "uint ts < 2 ^ 32" using unsigned_less [of ts, where 'a = int] by simp_all
  moreover have "now - now mod period = period * (now div period)" by (simp add: minus_mod_eq_mult_div)
  moreover have "0 \<le> now div period" "now div period < 2 ^ 21"
    using assms by (simp_all add: period_def pos_imp_zdiv_nonneg_iff div_less_iff_less_mult)
  ultimately have x: "0 \<le> x" "x < 2 ^ 63" by (auto simp: x_def period_def)
  have "- (2 ^ 63) \<le> x" using x(1) by simp
  then have "sint (word_of_int x :: u64) = x"
    unfolding sint_sbintrunc' using x(2) by (intro signed_take_bit_int_eq_self) simp_all
  moreover have "?lo OR ((word_of_int now :: u64) AND NOT (mask 42)) = word_of_int x"
    unfolding or unfolding lo x_def by (simp only: of_int_add)
  ultimately show ?thesis unfolding m x_def by (simp only:)
qed


lemma short_timestamp_uint:
  assumes "0 \<le> t" "t < 2 ^ 63"
  shows "uint (short_timestamp t) = t div 1024 mod 2 ^ 32"
proof -
  have "UnixNano t = t" using assms by (intro UnixNano_id) (simp add: int64_range_def)
  then show ?thesis by (simp add: short_timestamp_def drop_bit_eq_div uint_word_of_int)
qed

text \<open>The time that was sent, with the low bits cut off, lies in the period of the clock or a neighbour.\<close>

lemma merge_timestamp_exact:
  assumes t: "0 \<le> t" "t < 2 ^ 63 - 2 ^ 43" and now: "0 \<le> now" "now < 2 ^ 63 - 2 ^ 43"
    and close: "\<bar>now - t div 1024 * 1024\<bar> \<le> period - Hour"
  shows "merge_timestamp (short_timestamp t) now = t div 1024 * 1024"
proof -
  define t' where "t' = t div 1024 * 1024"
  have hour: "Hour = 3600000000000" by (simp add: duration_defs)
  have p: "period = 4398046511104" by (simp add: period_def)
  have "t div 1024 mod 2 ^ 32 * 1024 = t' mod period"
    using mod_mult_mult2 [of "t div 1024" 1024 "2 ^ 32"] unfolding t'_def p by simp
  moreover have "now < 2 ^ 63" "t < 2 ^ 63" using t now by simp_all
  ultimately have s: "sint (push_bit 10 (ucast (short_timestamp t) :: u64) OR
      ((word_of_int now :: u64) AND 0xFFFFFC0000000000)) = t' mod period + (now - now mod period)"
    using merge_bits [OF now(1), of "short_timestamp t"] short_timestamp_uint [OF t(1)] by simp
  define r where "r = t' mod period + (now - now mod period)"
  have t'b: "0 \<le> t'" "t' \<le> t" using t(1) by (simp_all add: t'_def)
  have dn: "now = period * (now div period) + now mod period" "0 \<le> now mod period" "now mod period < period"
    and dt: "t' = period * (t' div period) + t' mod period" "0 \<le> t' mod period" "t' mod period < period"
    by (simp_all add: p)
  have r: "r = t' + period * (now div period - t' div period)"
    using dn(1) dt(1) by (simp add: r_def algebra_simps)
  have cl: "now - t' \<le> period - Hour" "t' - now \<le> period - Hour" using close by (simp_all add: t'_def)
  define k where "k = now div period - t' div period"
  have "k < 2" "- 2 < k"
    using cl dn dt unfolding k_def hour p by linarith+
  then have k: "k = 0 \<or> k = 1 \<or> k = -1" by linarith
  have w: "wrap64 x = x" if "- 4611686018427387904 \<le> x" "x < 9223372036854775808" for x
    using that by (intro wrap64_id) (simp add: int64_range_def)
  have big: "t < 9223363240761753600" "now < 9223363240761753600" using t now by simp_all
  have rb: "r - now \<le> 2 * period" "now - r \<le> 2 * period" using dn dt unfolding r_def p by linarith+
  have wr: "wrap64 (r - now) = r - now" "wrap64 (now - t') = now - t'" "wrap64 t' = t'" "wrap64 (now - r) = now - r"
    by (rule w; use rb cl t'b big now in \<open>simp add: p hour\<close>)+
  have res: "merge_timestamp (short_timestamp t) now =
      (let r1 = (if wrap64 (r - now) \<ge> Hour then wrap64 (r - period) else r)
       in if wrap64 (now - r1) \<ge> Hour then wrap64 (r1 + period) else r1)"
    unfolding merge_timestamp_def Let_def s r_def [symmetric] by (simp add: p)
  consider "r = t'" | "r = t' + period" | "r = t' - period" using k r by (auto simp: k_def)
  then show ?thesis
  proof cases
    case 1
    with cl have "\<not> Hour \<le> r - now" "\<not> Hour \<le> now - r" by (simp_all add: p hour)
    with 1 wr show ?thesis by (simp add: res Let_def t'_def)
  next
    case 2
    with cl have "Hour \<le> r - now" "\<not> Hour \<le> now - t'" "r - period = t'" by (simp_all add: p hour)
    with wr show ?thesis by (simp add: res Let_def t'_def)
  next
    case 3
    with cl have "\<not> Hour \<le> r - now" "Hour \<le> now - r" "r + period = t'" by (simp_all add: p hour)
    with wr show ?thesis by (simp add: res Let_def t'_def)
  qed
qed

section \<open>Transaction messages\<close>

text \<open>
  The layout of a packed transaction. The buffer is 8 bytes too short: the sender is cut to 13
  bytes, the last of which replaces the control byte.
\<close>

definition tx_fields :: "tx_message \<Rightarrow> byte list" where
  "tx_fields m = le_bytes 4 (unat (tm_txID m)) @ le_bytes 4 (unat (short_timestamp (tm_timestamp m)))"

definition packed_tx :: "tx_message \<Rightarrow> byte list" where
  "packed_tx m = header_bytes TxType (73 + length (tm_content m)) @ broadcast_header_bytes m @ tx_fields m @
     tm_content m @ take 13 (tm_sender m)"

lemma length_tx_fields [simp]: "length (tx_fields m) = 8"
  by (simp add: tx_fields_def)

lemma tx_size_content:
  assumes "tm_content m \<noteq> []" "length (tm_content m) < 2 ^ 32 - 93"
  shows "unat (tx_size m) = 93 + length (tm_content m)"
proof -
  have n: "unat (word_of_nat (length (tm_content m)) :: u32) = length (tm_content m)"
    using assms(2) by (intro unat_of_nat_u32) simp
  have "0 < (word_of_nat (length (tm_content m)) :: u32)"
    unfolding word_less_nat_alt n using assms(1) by simp
  then have "tx_size m = word_of_nat (93 + length (tm_content m))"
    by (simp add: tx_size_def Let_def wire_sizes layout_defs)
  moreover have "unat (word_of_nat (93 + length (tm_content m)) :: u32) = 93 + length (tm_content m)"
    using assms(2) by (intro unat_of_nat_u32) simp
  ultimately show ?thesis by (simp only:)
qed

lemma tx_size_empty: "tm_content m = [] \<Longrightarrow> unat (tx_size m) = 73"
  by (simp add: tx_size_def Let_def wire_sizes layout_defs)

lemma Tx_Pack_layout:
  assumes ok: "bh_ok m" "length (tm_sender m) = 20" and c: "tm_content m \<noteq> []" "length (tm_content m) < 2 ^ 32 - 93"
  shows "Tx_Pack m = Inr (packed_tx m)"
proof -
  let ?n = "length (tm_content m)"
  let ?i = "le_bytes 4 (unat (tm_txID m))" and ?t = "le_bytes 4 (unat (short_timestamp (tm_timestamp m)))"
  define H where "H = header_bytes TxType (73 + ?n) @ broadcast_header_bytes m"
  have H: "length H = 72" using ok(1) by (simp add: H_def TxType_def)
  have "replicate (72 + (20 + ?n + 1)) (0 :: byte) = replicate 72 0 @ replicate (20 + ?n) 0 @ [0]"
    by (simp only: replicate_add One_nat_def replicate.simps append_assoc)
  moreover have "93 + ?n = 72 + (20 + ?n + 1)" by simp
  ultimately have z: "replicate (93 + ?n) (0 :: byte) = replicate 72 0 @ replicate (20 + ?n) 0 @ [0]" by (simp only:)
  have z': "replicate (20 + ?n) (0 :: byte) = replicate 4 0 @ replicate 4 0 @ replicate ?n 0 @ replicate 12 0"
    by (simp only: replicate_add [symmetric]) simp
  have 0: "BroadcastHeader_Pack m (replicate (unat (tx_size m)) 0) TxType =
      Inr (m\<lparr>msgType := TxType\<rparr>, H @ replicate 4 0 @ replicate 4 0 @ replicate ?n 0 @ replicate 12 0 @ [ValidControlByte])"
  proof -
    have "52 + length (replicate (20 + ?n) (0 :: byte)) + 1 = 73 + ?n"
      "20 + 52 + length (replicate (20 + ?n) (0 :: byte)) + 1 < 2 ^ 32" "length TxType \<le> 12"
      using c(2) by (simp_all add: TxType_def)
    with BroadcastHeader_Pack_layout [OF ok(1), of TxType "replicate (20 + ?n) 0" 0]
    show ?thesis unfolding tx_size_content [OF c] z by (simp only: z' append_assoc H_def)
  qed
  have 1: "put_at (H @ replicate 4 0 @ Z) 72 ?i = Inr (H @ ?i @ Z)" for Z
    using H by (intro put_at_split) simp_all
  have 2: "put_at (H @ ?i @ replicate 4 0 @ Z) 76 ?t = Inr (H @ ?i @ ?t @ Z)" for Z
    using put_at_split [of "H @ ?i" 76 "replicate 4 0" ?t Z] H by simp
  have 3: "copy_at (H @ ?i @ ?t @ replicate ?n 0 @ Z) 80 (tm_content m) = Inr (H @ ?i @ ?t @ tm_content m @ Z)" for Z
    using copy_at_split [of "H @ ?i @ ?t" 80 "replicate ?n 0" "tm_content m" Z] H by simp
  have 4: "copy_at (H @ ?i @ ?t @ tm_content m @ replicate 12 0 @ [ValidControlByte]) (80 + ?n) (tm_sender m) = Inr (packed_tx m)"
    using H ok(2) by (simp add: copy_at_def packed_tx_def tx_fields_def H_def)
  have sel: "tm_txID (m\<lparr>msgType := t\<rparr>) = tm_txID m" "tm_timestamp (m\<lparr>msgType := t\<rparr>) = tm_timestamp m"
    "tm_content (m\<lparr>msgType := t\<rparr>) = tm_content m" "tm_sender (m\<lparr>msgType := t\<rparr>) = tm_sender m" for t by simp_all
  have off: "BroadcastHeaderLen = 72" "72 + TxIDLen = 76" "76 + ShortTimestampLen = 80" by (simp_all add: layout_defs)
  show ?thesis
    unfolding Tx_Pack_def 0 gbind_simps prod.case Let_def sel
    using c(1) by (simp only: off 1 2 3 4 gbind_simps length_greater_0_conv not_False_eq_True if_True)
qed

lemma Tx_Unpack_layout:
  assumes ok: "bh_ok m" "length (tm_sender m) = 20" and c: "8 \<le> length (tm_content m)" "length (tm_content m) < 2 ^ 32 - 93"
    and d: "bh_ok d" "length (tm_sender d) = 20"
  shows "Tx_Unpack now d (packed_tx m) =
    Inr (m\<lparr>msgType := TxType, tm_timestamp := merge_timestamp (short_timestamp (tm_timestamp m)) (UnixNano now),
        tm_content := take (length (tm_content m) - 8) (tm_content m),
        tm_sender := drop (length (tm_content m) - 8) (tm_content m) @ take 12 (tm_sender m)\<rparr>, None)"
proof -
  let ?n = "length (tm_content m)"
  let ?i = "le_bytes 4 (unat (tm_txID m))" and ?t = "le_bytes 4 (unat (short_timestamp (tm_timestamp m)))"
  define H where "H = header_bytes TxType (73 + ?n) @ broadcast_header_bytes m"
  define buf where "buf = packed_tx m"
  have H: "length H = 72" using ok(1) by (simp add: H_def TxType_def)
  have buf: "buf = H @ ?i @ ?t @ tm_content m @ take 13 (tm_sender m)"
    by (simp add: buf_def packed_tx_def tx_fields_def H_def)
  have len: "length buf = 93 + ?n" using H ok(2) by (simp add: buf)
  have 0: "BroadcastHeader_Unpack d buf = Inr (d\<lparr>msgType := TxType, bh_hash := bh_hash m,
      bh_networkNum := bh_networkNum m, bh_sourceID := bh_sourceID m\<rparr>, None)"
    unfolding buf_def packed_tx_def
    using ok d(1) c(2) by (intro BroadcastHeader_Unpack_layout) (auto simp: tx_fields_def)
  have 1: "read_le 4 buf 72 = Inr (unat (tm_txID m))"
    using read_le_split [of H 72 ?i 4] H by (simp add: buf wire_simps)
  have 2: "read_le 4 buf 76 = Inr (unat (short_timestamp (tm_timestamp m)))"
    using read_le_split [of "H @ ?i" 76 ?t 4] H by (simp add: buf wire_simps)
  let ?c = "take (?n - 8) (tm_content m)" and ?s = "drop (?n - 8) (tm_content m) @ take 13 (tm_sender m)"
  have split: "buf = (H @ ?i @ ?t) @ ?c @ ?s" by (simp add: buf)
  have 3: "slice_of buf 80 (int (length buf) - 20 - 1) = Inr ?c"
    unfolding split using H c(1) ok(2) by (intro slice_of_split) (simp_all add: of_nat_diff)
  have 4: "slice_of buf (80 + int (?n - 8)) (int (length buf)) = Inr ?s"
  proof -
    have "buf = ((H @ ?i @ ?t) @ ?c) @ ?s" by (simp only: split append_assoc)
    with slice_tail [of "(H @ ?i @ ?t) @ ?c" "72 + ?n" "80 + int (?n - 8)" "int (length buf)" ?s] H c(1)
    show ?thesis by (simp only:) (simp add: of_nat_diff)
  qed
  have 5: "copy_array (tm_sender d) ?s = drop (?n - 8) (tm_content m) @ take 12 (tm_sender m)"
    using d(2) c(1) ok(2) by (simp add: copy_array_def)
  have "Tx_Unpack now d buf =
    Inr (m\<lparr>msgType := TxType, tm_timestamp := merge_timestamp (short_timestamp (tm_timestamp m)) (UnixNano now),
        tm_content := ?c, tm_sender := drop (?n - 8) (tm_content m) @ take 12 (tm_sender m)\<rparr>, None)"
  proof -
    have "min ?n (?n - 8) = ?n - 8" by simp
    with 0 1 2 3 4 5 show ?thesis by (simp add: Tx_Unpack_def layout_defs Let_def len)
  qed
  then show ?thesis by (simp add: buf_def)
qed

section \<open>Properties\<close>

text \<open>
  C15. A broadcast message with arrays of their fixed lengths and a total size that fits 32 bits is
  packed without panic into a buffer of its size, and unpacking the buffer into a fresh message
  gives the message back; the type and the payload length can be read from the header alone.
\<close>

theorem broadcast_roundtrip:
  assumes "length (bh_hash b) = 32" "length (bh_sourceID b) = 16" "length (broadcastType b) = 4"
    and "90 + length (bc_block b) + 4 * length (bc_txIDs b) < 2 ^ 32"
    and "length (bh_hash d) = 32" "length (bh_sourceID d) = 16" "length (broadcastType d) = 4" "bc_txIDs d = []"
  shows "\<exists>buf. Broadcast_Pack b = Inr (b\<lparr>msgType := BroadcastType\<rparr>, buf) \<and>
     length buf = unat (Broadcast_Size b) \<and> TbType buf = Inr BroadcastType \<and>
     read_le 4 buf PayloadSizeOffset = Inr (length buf - HeaderLen) \<and> last buf = ValidControlByte \<and>
     Broadcast_Unpack d buf = Inr (b\<lparr>msgType := BroadcastType\<rparr>, None)"
proof -
  have ok: "bh_ok b" "broadcast_len b < 2 ^ 32" "bh_ok d" using assms by (simp_all add: bh_ok_def broadcast_len_def)
  have len: "length (packed_broadcast b) = broadcast_len b"
    using ok(1) assms(3) by (simp add: packed_broadcast_def length_broadcast_bytes BroadcastType_def broadcast_len_def)
  have "read_le 4 (packed_broadcast b) PayloadSizeOffset = Inr (broadcast_len b - 20)"
    unfolding packed_broadcast_def using ok(2) by (intro payload_len_layout) (auto simp: BroadcastType_def)
  moreover have "TbType (packed_broadcast b) = Inr BroadcastType"
    unfolding packed_broadcast_def by (rule TbType_layout) simp
  moreover have "last (packed_broadcast b) = ValidControlByte" by (simp add: packed_broadcast_def)
  ultimately show ?thesis
    using Broadcast_Pack_layout [OF ok(1) assms(3) ok(2)]
      Broadcast_Unpack_layout [OF ok(1) assms(3) ok(2,3) assms(7)] Broadcast_Size_len [OF ok(2)] len assms(8)
    by (simp add: HeaderLen_def)
qed

definition ex_broadcast :: "byte list \<Rightarrow> u32 list \<Rightarrow> broadcast" where
  "ex_broadcast block ids = NewBlockBroadcast zero_hash block ids 1"

lemma ex_broadcast_fields:
  "length (bh_hash (ex_broadcast k i)) = 32" "length (bh_sourceID (ex_broadcast k i)) = 16"
  "length (broadcastType (ex_broadcast k i)) = 4" "bc_block (ex_broadcast k i) = k" "bc_txIDs (ex_broadcast k i) = i"
  by (simp_all add: ex_broadcast_def NewBlockBroadcast_def zero_hash_def layout_defs)

theorem broadcast_roundtrip_witness:
  "\<exists>buf. Broadcast_Pack (ex_broadcast [7, 8] [5, 6]) =
       Inr (ex_broadcast [7, 8] [5, 6]\<lparr>msgType := BroadcastType\<rparr>, buf) \<and>
     Broadcast_Unpack (ex_broadcast [] []) buf = Inr (ex_broadcast [7, 8] [5, 6]\<lparr>msgType := BroadcastType\<rparr>, None)"
  using broadcast_roundtrip [of "ex_broadcast [7, 8] [5, 6]" "ex_broadcast [] []"]
  by (auto simp: ex_broadcast_fields)

text \<open>
  The receiver of a transaction recovers the time of sending up to the 1024 nanoseconds that are
  dropped, if it is within about 13 minutes of the receiver's clock: \<open>2 ^ 42\<close> nanoseconds less an hour.
\<close>

lemma timestamp_recovered:
  assumes "0 \<le> t" "t < 2 ^ 63 - 2 ^ 43" "0 \<le> now" "now < 2 ^ 63 - 2 ^ 43"
    and "\<bar>now - t div 1024 * 1024\<bar> \<le> 2 ^ 42 - Hour"
  shows "merge_timestamp (short_timestamp t) (UnixNano now) = t div 1024 * 1024"
proof -
  have "UnixNano now = now" using assms(3,4) by (intro UnixNano_id) (simp add: int64_range_def)
  then show ?thesis using merge_timestamp_exact [OF assms(1-4)] assms(5) by (simp add: period_def)
qed

lemma timestamp_recovered_example:
  "merge_timestamp (short_timestamp 1700000000000001025) (UnixNano 1700000000500000000) =
     1700000000000001025 div 1024 * 1024"
  by (rule timestamp_recovered) (simp_all add: duration_defs)

text \<open>
  A transaction message without content cannot be packed: the buffer of 73 bytes has no room
  for the short ID, and the write panics.
\<close>

lemma empty_tx_pack_panics:
  assumes "length (bh_hash m) = 32" "length (bh_sourceID m) = 16" "tm_content m = []"
  shows "Tx_Pack m = Inl IndexOutOfRange"
proof -
  have ok: "bh_ok m" using assms by (simp add: bh_ok_def)
  have "replicate (72 + 1) (0 :: byte) = replicate 72 0 @ [] @ [0]"
    by (simp only: replicate_add One_nat_def replicate.simps append.simps)
  then have z: "replicate (unat (tx_size m)) (0 :: byte) = replicate 72 0 @ [] @ [0]"
    using tx_size_empty [OF assms(3)] by simp
  have "BroadcastHeader_Pack m (replicate 72 0 @ [] @ [0]) TxType =
      Inr (m\<lparr>msgType := TxType\<rparr>, header_bytes TxType (52 + 0 + 1) @ broadcast_header_bytes m @ [] @ [ValidControlByte])"
    using BroadcastHeader_Pack_layout [OF ok, of TxType "[]" 0] by (simp add: TxType_def)
  then show ?thesis
    unfolding Tx_Pack_def z using ok by (simp add: put_at_def layout_defs TxType_def)
qed

definition ex_tx :: "byte list \<Rightarrow> tx_message" where
  "ex_tx content = NewTx zero_hash content 1 1700000000000001025"

lemma ex_tx_fields:
  "length (bh_hash (ex_tx c)) = 32" "length (bh_sourceID (ex_tx c)) = 16" "length (tm_sender (ex_tx c)) = 20"
  "tm_content (ex_tx c) = c"
  by (simp_all add: ex_tx_def NewTx_def zero_hash_def layout_defs)

lemma empty_tx_pack_panics_example: "Tx_Pack (ex_tx []) = Inl IndexOutOfRange"
  by (rule empty_tx_pack_panics) (simp_all add: ex_tx_fields)

text \<open>
  C37. A transaction message with content is packed into a buffer that is 8 bytes too short. Read
  back, the hash, network, source and short ID are right, but the last 8 bytes of the content are
  missing: they and 12 bytes of the sender are taken for the sender.
\<close>

theorem tx_roundtrip_truncates:
  assumes "length (bh_hash m) = 32" "length (bh_sourceID m) = 16" "length (tm_sender m) = 20"
    and "8 \<le> length (tm_content m)" "length (tm_content m) < 2 ^ 32 - 93"
    and "length (bh_hash d) = 32" "length (bh_sourceID d) = 16" "length (tm_sender d) = 20"
  shows "\<exists>buf m'. Tx_Pack m = Inr buf \<and> Tx_Unpack now d buf = Inr (m', None) \<and>
     bh_hash m' = bh_hash m \<and> bh_networkNum m' = bh_networkNum m \<and> bh_sourceID m' = bh_sourceID m \<and>
     tm_txID m' = tm_txID m \<and> tm_content m' = take (length (tm_content m) - 8) (tm_content m) \<and>
     tm_sender m' = drop (length (tm_content m) - 8) (tm_content m) @ take 12 (tm_sender m)"
proof -
  have ok: "bh_ok m" "bh_ok d" "tm_content m \<noteq> []" using assms by (auto simp: bh_ok_def)
  show ?thesis
    using Tx_Pack_layout [OF ok(1) assms(3) ok(3) assms(5)]
      Tx_Unpack_layout [OF ok(1) assms(3-5) ok(2) assms(8), of now] by simp
qed

theorem tx_roundtrip_truncates_witness:
  "\<exists>buf m'. Tx_Pack (ex_tx [1, 2, 3, 4, 5, 6, 7, 8, 9]) = Inr buf \<and>
     Tx_Unpack 1700000000500000000 (ex_tx []) buf = Inr (m', None) \<and> tm_content m' = [1]"
  using tx_roundtrip_truncates [of "ex_tx [1, 2, 3, 4, 5, 6, 7, 8, 9]" "ex_tx []" 1700000000500000000]
  by (auto simp: ex_tx_fields)

text \<open>
  A broadcast message from the wire whose offset field is below 8 makes the receiver panic:
  the bounds of the block are out of order.
\<close>

lemma short_offset_panics:
  assumes "length (bh_hash b) = 32" "length (bh_sourceID b) = 16" "length t = 4" "v < 8" "length rest < 2 ^ 32"
    and "length (bh_hash d) = 32" "length (bh_sourceID d) = 16" "length (broadcastType d) = 4"
    and "buf = header_bytes BroadcastType n @ broadcast_header_bytes b @ t @ [e] @ le_bytes 8 v @ rest"
  shows "Broadcast_Unpack d buf = Inl SliceBounds"
proof -
  have ok: "bh_ok b" "bh_ok d" using assms by (simp_all add: bh_ok_def)
  define H where "H = header_bytes BroadcastType n @ broadcast_header_bytes b"
  have H: "length H = 72" using ok(1) by (simp add: H_def BroadcastType_def)
  have buf: "buf = H @ t @ [e] @ le_bytes 8 v @ rest" using assms(9) by (simp add: H_def)
  have len: "length buf = 85 + length rest" using H assms(3) by (simp add: buf)
  have 0: "BroadcastHeader_Unpack d buf = Inr (d\<lparr>msgType := BroadcastType, bh_hash := bh_hash b,
      bh_networkNum := bh_networkNum b, bh_sourceID := bh_sourceID b\<rparr>, None)"
    unfolding assms(9) using ok assms(3,5) by (intro BroadcastHeader_Unpack_layout) auto
  have 1: "slice_of buf 72 (int (length buf)) = Inr (drop 72 buf)"
    using len by (simp add: slice_of_def)
  have 2: "slice_of buf 76 77 = Inr [e]" using slice_of_split [of "H @ t" 76 "[e]" 77] H assms(3) by (simp add: buf)
  have 3: "read_le 8 buf 77 = Inr v"
    using read_le_split [of "H @ t @ [e]" 77 "le_bytes 8 v" 8] H assms(3,4) by (simp add: buf le_val_le_bytes)
  have ck: "checkBufSize buf 77 8 = None" "checkBufSize buf 77 (int v) = None"
    using checkBufSize_ok [of buf 77 8] checkBufSize_ok [of buf 77 v] len assms(4,5) by simp_all
  have si: "sint (word_of_nat v :: u64) = int v"
  proof -
    have "unat (word_of_nat v :: u64) = v" using assms(4) by (intro unat_of_nat_u64) simp
    moreover have "v < 2 ^ 63" using assms(4) by simp
    ultimately show ?thesis by (metis sint_small_u64 uint_nat)
  qed
  have w: "wrap64 (77 + int v) = 77 + int v" using wrap64_nat [of "77 + v"] assms(4) by simp
  have 4: "slice_of buf 85 (77 + int v) = Inl SliceBounds" using assms(4) by (simp add: slice_of_def)
  show ?thesis
    using 0 1 2 3 ck si w 4 by (simp add: Broadcast_Unpack_def layout_defs Let_def)
qed

lemma short_offset_panics_example:
  "Broadcast_Unpack (ex_broadcast [] [])
     (header_bytes BroadcastType 0 @ broadcast_header_bytes (ex_broadcast [] []) @ [0, 0, 0, 0] @ [0] @ le_bytes 8 7 @ [0]) =
   Inl SliceBounds"
  by (rule short_offset_panics [OF _ _ _ _ _ _ _ _ refl]) (simp_all add: ex_broadcast_fields)

end
