(* ===== verification/Blocks.thy ===== *)
theory Blocks
  imports Chain Messages Hash_History Tb_Transaction
begin

text \<open>
  Blocks on their way between Ethereum and the BDN: the hashes of \<^verbatim>\<open>types/hash.go\<close>, the BDN
  block of \<^verbatim>\<open>types/tbblock.go\<close>, the conversions of \<^verbatim>\<open>blockchain/eth/converter.go\<close> and the block
  processor of \<^verbatim>\<open>services/block_processor.go\<close>.
\<close>

section \<open>Hashes\<close>

text \<open>\<open>encoding/hex\<close>: two lower-case digits for each byte; decoding takes either case.\<close>

definition hex_digit :: "nat \<Rightarrow> char" where
  "hex_digit n = ''0123456789abcdef'' ! n"

definition hex_EncodeToString :: "byte list \<Rightarrow> string" where
  "hex_EncodeToString bs = concat (map (\<lambda>b. [hex_digit (unat b div 16), hex_digit (unat b mod 16)]) bs)"

definition fromHexChar :: "char \<Rightarrow> nat option" where
  "fromHexChar c = (let n = of_char c :: nat in
     if 48 \<le> n \<and> n \<le> 57 then Some (n - 48)
     else if 97 \<le> n \<and> n \<le> 102 then Some (n - 87)
     else if 65 \<le> n \<and> n \<le> 70 then Some (n - 55)
     else None)"

datatype hex_error = InvalidByte char | ErrLength

fun hex_DecodeString :: "string \<Rightarrow> hex_error + byte list" where
  "hex_DecodeString [] = Inr []"
| "hex_DecodeString [c] = (if fromHexChar c = None then Inl (InvalidByte c) else Inl ErrLength)"
| "hex_DecodeString (c # d # s) =
     (case fromHexChar c of None \<Rightarrow> Inl (InvalidByte c)
      | Some hi \<Rightarrow>
          (case fromHexChar d of None \<Rightarrow> Inl (InvalidByte d)
           | Some lo \<Rightarrow>
               (case hex_DecodeString s of Inl e \<Rightarrow> Inl e
                | Inr bs \<Rightarrow> Inr (of_nat (16 * hi + lo) # bs))))"

definition DecodeHex :: "string \<Rightarrow> hex_error + byte list" where
  "DecodeHex str = hex_DecodeString (if length str > 2 \<and> take 2 str = ''0x'' then drop 2 str else str)"

datatype hash_error = IncorrectLength | CouldNotDecode string hex_error

definition NewSHA256Hash :: "byte list \<Rightarrow> hash_error + hash" where
  "NewSHA256Hash b = (if length b \<noteq> SHA256HashLen then Inl IncorrectLength else Inr b)"

definition NewSHA256HashFromString :: "string \<Rightarrow> hash_error + hash" where
  "NewSHA256HashFromString hashStr =
     (case DecodeHex hashStr of Inl err \<Rightarrow> Inl (CouldNotDecode hashStr err) | Inr hashBytes \<Rightarrow> NewSHA256Hash hashBytes)"

definition hash_String :: "hash \<Rightarrow> string" where
  "hash_String s = hex_EncodeToString s"

definition hash_Format :: "hash \<Rightarrow> bool \<Rightarrow> string" where
  "hash_Format s prefix = (if prefix then ''0x'' @ hash_String s else hash_String s)"

section \<open>Blocks of the BDN\<close>

record tb_block_transaction =
  bt_hash :: hash
  bt_content :: "byte list"

definition NewTbBlockTransaction :: "hash \<Rightarrow> byte list \<Rightarrow> tb_block_transaction" where
  "NewTbBlockTransaction h content = \<lparr>bt_hash = h, bt_content = content\<rparr>"

definition NewRawTbBlockTransaction :: "byte list \<Rightarrow> tb_block_transaction" where
  "NewRawTbBlockTransaction content = \<lparr>bt_hash = zero_hash, bt_content = content\<rparr>"

record tb_block =
  tb_hash :: hash
  tb_Header :: "byte list"
  tb_Txs :: "tb_block_transaction list"
  tb_Trailer :: "byte list"
  tb_TotalDifficulty :: "int option"
  tb_Number :: "int option"
  tb_timestamp :: instant
  tb_size :: int

datatype block_error = TransactionsMustContainHashes | CouldNotEncodeHeader string | CouldNotEncodeTrailer string
  | CouldNotEncodeTransaction | CouldNotConvertBlock hash string

definition NewRawTbBlock ::
  "instant \<Rightarrow> hash \<Rightarrow> byte list \<Rightarrow> tb_block_transaction list \<Rightarrow> byte list \<Rightarrow> int option \<Rightarrow> int option \<Rightarrow> int \<Rightarrow> tb_block" where
  "NewRawTbBlock now h header txs trailer totalDifficulty number sz =
     \<lparr>tb_hash = h, tb_Header = header, tb_Txs = txs, tb_Trailer = trailer, tb_TotalDifficulty = totalDifficulty,
      tb_Number = number, tb_timestamp = now, tb_size = sz\<rparr>"

fun all_have_hashes :: "tb_block_transaction list \<Rightarrow> bool" where
  "all_have_hashes [] = True"
| "all_have_hashes (tx # txs) = (if bt_hash tx = zero_hash then False else all_have_hashes txs)"

definition NewTbBlock ::
  "instant \<Rightarrow> hash \<Rightarrow> byte list \<Rightarrow> tb_block_transaction list \<Rightarrow> byte list \<Rightarrow> int option \<Rightarrow> int option \<Rightarrow> int \<Rightarrow>
     block_error + tb_block" where
  "NewTbBlock now h header txs trailer totalDifficulty number sz =
     (if \<not> all_have_hashes txs then Inl TransactionsMustContainHashes
      else Inr (NewRawTbBlock now h header txs trailer totalDifficulty number sz))"

definition SetSize :: "tb_block \<Rightarrow> int \<Rightarrow> tb_block" where
  "SetSize b sz = b\<lparr>tb_size := sz\<rparr>"

text \<open>
  \<open>Equals\<close> indexes the other block's transactions and compares the numbers through pointers; \<open>Cmp\<close> finds two
  nil pointers equal and dereferences one that is nil alone.
\<close>

fun equal_txs :: "tb_block_transaction list \<Rightarrow> tb_block_transaction list \<Rightarrow> bool go" where
  "equal_txs [] others = Inr True"
| "equal_txs (tx # txs) [] = Inl IndexOutOfRange"
| "equal_txs (tx # txs) (other # others) =
     (if bt_content tx \<noteq> bt_content other then Inr False else equal_txs txs others)"

definition big_eq :: "int option \<Rightarrow> int option \<Rightarrow> bool go" where
  "big_eq x y = (case (x, y) of (None, None) \<Rightarrow> Inr True | (Some a, Some b) \<Rightarrow> Inr (a = b) | _ \<Rightarrow> Inl NilDereference)"

definition tb_Equals :: "tb_block \<Rightarrow> tb_block \<Rightarrow> bool go" where
  "tb_Equals b other =
     (if tb_Header b \<noteq> tb_Header other \<or> tb_Trailer b \<noteq> tb_Trailer other then Inr False
      else gbind (equal_txs (tb_Txs b) (tb_Txs other)) (\<lambda>same.
        if \<not> same then Inr False
        else gbind (big_eq (tb_TotalDifficulty b) (tb_TotalDifficulty other)) (\<lambda>sameDifficulty.
          if \<not> sameDifficulty then Inr False else big_eq (tb_Number b) (tb_Number other))))"

section \<open>Conversion between Ethereum and BDN\<close>

text \<open>
  go-ethereum computes encodings, hashes of transactions and sizes; the record \<open>geth\<close> holds the
  functions the code calls. A \<open>rlp.RawValue\<close> is a sequence of bytes that is already encoded.
\<close>

record tb_block_rlp =
  rb_Header :: "byte list"
  rb_Txs :: "byte list list"
  rb_Trailer :: "byte list"

record bx_compressed_transaction =
  IsFullTransaction :: bool
  ct_Transaction :: "byte list"

record bx_block_rlp =
  bx_Header :: "byte list"
  bx_Txs :: "bx_compressed_transaction list"
  bx_Trailer :: "byte list"
  bx_TotalDifficulty :: "int option"
  bx_Number :: "int option"

record ('t, 'x) geth =
  enc_header :: "'x eth_header \<Rightarrow> string + byte list"
  enc_uncles :: "'x eth_header list \<Rightarrow> string + byte list"
  enc_tx :: "'t \<Rightarrow> string + byte list"
  dec_tx :: "byte list \<Rightarrow> string + 't"
  enc_block_rlp :: "tb_block_rlp \<Rightarrow> string + byte list"
  dec_block :: "byte list \<Rightarrow> string + ('t, 'x) eth_block"
  enc_bx :: "bx_block_rlp \<Rightarrow> string + byte list"
  txn_Hash :: "'t \<Rightarrow> hash"
  block_Size :: "('t, 'x) eth_block \<Rightarrow> int"

definition TransactionBDNToBlockchain :: "('t, 'x) geth \<Rightarrow> tb_transaction \<Rightarrow> string + 't" where
  "TransactionBDNToBlockchain G transaction = dec_tx G (slice_elems (tx_content transaction))"

definition TransactionBlockchainToBDN :: "('t, 'x) geth \<Rightarrow> 't \<Rightarrow> string + tb_transaction" where
  "TransactionBlockchainToBDN G transaction =
     (case enc_tx G transaction of Inl err \<Rightarrow> Inl err
      | Inr content \<Rightarrow> Inr (NewRawTbTransaction (txn_Hash G transaction) (Some content)))"

fun convert_txs :: "('t, 'x) geth \<Rightarrow> 't list \<Rightarrow> tb_block_transaction list \<Rightarrow> block_error + tb_block_transaction list" where
  "convert_txs G [] txs = Inr txs"
| "convert_txs G (tx # rest) txs =
     (case enc_tx G tx of Inl err \<Rightarrow> Inl CouldNotEncodeTransaction
      | Inr txBytes \<Rightarrow> convert_txs G rest (txs @ [NewTbBlockTransaction (txn_Hash G tx) txBytes]))"

definition BlockBlockchainToBDN ::
  "('t, 'x) geth \<Rightarrow> 'x header_hash \<Rightarrow> instant \<Rightarrow> ('t, 'x) block_info \<Rightarrow> block_error + tb_block" where
  "BlockBlockchainToBDN G HH now blockInfo =
     (let block = bi_Block blockInfo in
      case enc_header G (blk_header block) of Inl err \<Rightarrow> Inl (CouldNotEncodeHeader err)
      | Inr encodedHeader \<Rightarrow>
          (case enc_uncles G (Uncles (blk_body block)) of Inl err \<Rightarrow> Inl (CouldNotEncodeTrailer err)
           | Inr encodedTrailer \<Rightarrow>
               (case convert_txs G (Transactions (blk_body block)) [] of Inl err \<Rightarrow> Inl err
                | Inr txs \<Rightarrow>
                    (let difficulty = (case TotalDifficulty blockInfo of None \<Rightarrow> Some 0 | Some d \<Rightarrow> Some d) in
                     NewTbBlock now (block_Hash HH block) encodedHeader txs encodedTrailer difficulty
                       (Some (Number (blk_header block))) (block_Size G block)))))"

definition BlockBDNtoBlockchain :: "('t, 'x) geth \<Rightarrow> tb_block \<Rightarrow> block_error + ('t, 'x) block_info" where
  "BlockBDNtoBlockchain G block =
     (case enc_block_rlp G \<lparr>rb_Header = tb_Header block, rb_Txs = map bt_content (tb_Txs block), rb_Trailer = tb_Trailer block\<rparr> of
        Inl err \<Rightarrow> Inl (CouldNotConvertBlock (tb_hash block) err)
      | Inr b \<Rightarrow>
          (case dec_block G b of Inl err \<Rightarrow> Inl (CouldNotConvertBlock (tb_hash block) err)
           | Inr ethBlock \<Rightarrow> Inr (NewBlockInfo ethBlock (tb_TotalDifficulty block))))"

section \<open>The block processor\<close>

datatype processor_error = ErrAlreadyProcessed | EncodingError string

text \<open>The fields of \<open>rlpBlockProcessor\<close>; the transaction store it also holds is never used.\<close>

record block_processor =
  processedBlocks :: "string hash_history"

definition NewRLPBlockProcessor :: block_processor where
  "NewRLPBlockProcessor = \<lparr>processedBlocks = newHashHistory ''processedBlocks'' (30 * Minute)\<rparr>"

definition ShouldProcess :: "block_processor \<Rightarrow> instant \<Rightarrow> hash \<Rightarrow> bool" where
  "ShouldProcess bp now h \<longleftrightarrow> \<not> hh_Exists (processedBlocks bp) now (hash_String h)"

definition markProcessed :: "block_processor \<Rightarrow> instant \<Rightarrow> hash \<Rightarrow> block_processor" where
  "markProcessed bp now h = bp\<lparr>processedBlocks := hh_Add (processedBlocks bp) now (hash_String h) (10 * Minute)\<rparr>"

text \<open>\<open>ne\<close> and \<open>na\<close> are the readings of the clock in \<open>Exists\<close> and in \<open>Add\<close>.\<close>

definition BxBlockToBroadcast ::
  "('t, 'x) geth \<Rightarrow> block_processor \<Rightarrow> instant \<Rightarrow> instant \<Rightarrow> tb_block \<Rightarrow> network_num \<Rightarrow>
     block_processor \<times> (processor_error + broadcast \<times> tx_id list)" where
  "BxBlockToBroadcast G bp ne na block networkNum =
     (let blockHash = tb_hash block in
      if \<not> ShouldProcess bp ne blockHash then (bp, Inl ErrAlreadyProcessed)
      else (let usedShortIDs = [];
                txs = map (\<lambda>tx. \<lparr>IsFullTransaction = True, ct_Transaction = bt_content tx\<rparr>) (tb_Txs block);
                rlpBlock = \<lparr>bx_Header = tb_Header block, bx_Txs = txs, bx_Trailer = tb_Trailer block,
                            bx_TotalDifficulty = tb_TotalDifficulty block, bx_Number = tb_Number block\<rparr>
            in case enc_bx G rlpBlock of
                 Inl err \<Rightarrow> (bp, Inl (EncodingError err))
               | Inr encodedBlock \<Rightarrow>
                   (markProcessed bp na blockHash,
                    Inr (NewBlockBroadcast (tb_hash block) encodedBlock usedShortIDs networkNum, usedShortIDs))))"

section \<open>Properties\<close>

lemma fromHexChar_hex_digit: "n < 16 \<Longrightarrow> fromHexChar (hex_digit n) = Some n"
proof -
  have "\<forall>n \<in> {0..<16}. fromHexChar (hex_digit n) = Some n" by code_simp
  then show "n < 16 \<Longrightarrow> ?thesis" by simp
qed

lemma byte_of_halves: "word_of_nat (16 * (unat b div 16) + unat b mod 16) = (b :: byte)"
  by (simp add: mult_div_mod_eq)

lemma hex_roundtrip: "hex_DecodeString (hex_EncodeToString bs) = Inr bs"
proof (induction bs)
  case Nil
  then show ?case by (simp add: hex_EncodeToString_def)
next
  case (Cons b bs)
  have "unat b div 16 < 16" "unat b mod 16 < 16"
    using unsigned_less [of b, where 'a = nat] by simp_all
  with Cons byte_of_halves [of b] show ?case
    by (simp add: hex_EncodeToString_def fromHexChar_hex_digit del: of_nat_add of_nat_mult)
qed

lemma hex_no_prefix: "take 2 (hex_EncodeToString bs) \<noteq> ''0x''"
proof (cases bs)
  case Nil
  then show ?thesis by (simp add: hex_EncodeToString_def)
next
  case (Cons b bs')
  have "\<forall>n \<in> {0..<16}. hex_digit n \<noteq> CHR ''x''" by code_simp
  with Cons show ?thesis by (simp add: hex_EncodeToString_def)
qed

lemma hash_String_length: "length (hash_String s) = 2 * length s"
  by (induction s) (simp_all add: hash_String_def hex_EncodeToString_def)

lemma hash_String_inj: "hash_String a = hash_String b \<longleftrightarrow> a = b"
  by (metis hash_String_def hex_roundtrip sum.inject(2))

lemma DecodeHex_Format:
  assumes "bs \<noteq> []"
  shows "DecodeHex (hash_Format bs prefix) = Inr bs"
  using assms hash_String_length [of bs]
  by (cases prefix; cases bs)
    (simp_all add: DecodeHex_def hash_Format_def hash_String_def hex_roundtrip hex_no_prefix)

text \<open>
  A hash is read back from its string form, with or without the prefix \<open>0x\<close>; the string form of
  any other number of bytes is refused.
\<close>

lemma hash_string_roundtrip:
  assumes "bs \<noteq> []"
  shows "NewSHA256HashFromString (hash_Format bs prefix) =
    (if hash_ok bs then Inr bs else Inl IncorrectLength)"
  by (simp add: NewSHA256HashFromString_def DecodeHex_Format [OF assms] NewSHA256Hash_def hash_ok_def SHA256HashLen_def)

lemma hash_string_roundtrip_example:
  "NewSHA256HashFromString (hash_Format (replicate 32 7) True) = Inr (replicate 32 7) \<and>
   NewSHA256HashFromString (hash_Format [1] True) = Inl IncorrectLength"
  using hash_string_roundtrip [of "replicate 32 7" True] hash_string_roundtrip [of "[1]" True]
  by (simp add: hash_ok_def)

text \<open>The transactions of a converted block.\<close>

lemma convert_txs_map:
  assumes "\<forall>tx \<in> set txs. enc_tx G tx = Inr (f tx)"
  shows "convert_txs G txs acc = Inr (acc @ map (\<lambda>tx. NewTbBlockTransaction (txn_Hash G tx) (f tx)) txs)"
  using assms by (induction txs arbitrary: acc) simp_all

lemma all_have_hashes_iff: "all_have_hashes txs \<longleftrightarrow> (\<forall>tx \<in> set txs. bt_hash tx \<noteq> zero_hash)"
  by (induction txs) auto

text \<open>
  What the conversion relies on of RLP, for one block: its parts can be encoded, and a list of raw
  values, which RLP copies as they are, decodes to the block whose parts they encode.
\<close>

definition rlp_faithful :: "('t, 'x) geth \<Rightarrow> ('t, 'x) eth_block \<Rightarrow> ('t \<Rightarrow> byte list) \<Rightarrow> bool" where
  "rlp_faithful G block f \<longleftrightarrow> (\<forall>tx \<in> set (Transactions (blk_body block)). enc_tx G tx = Inr (f tx)) \<and>
     (\<exists>eh eu eb. enc_header G (blk_header block) = Inr eh \<and> enc_uncles G (Uncles (blk_body block)) = Inr eu \<and>
        enc_block_rlp G \<lparr>rb_Header = eh, rb_Txs = map f (Transactions (blk_body block)), rb_Trailer = eu\<rparr> = Inr eb \<and>
        dec_block G eb = Inr block)"

text \<open>
  C31. A block whose transactions all have hashes survives the way to the BDN and back: the conversion
  succeeds, the BDN block carries the hash, the number and one entry per transaction in order, and
  converting it back gives the same block with the same total difficulty, unknown if it was unknown.
\<close>

theorem block_conversion_roundtrip:
  assumes "rlp_faithful G (bi_Block info) f"
    and "\<forall>tx \<in> set (Transactions (blk_body (bi_Block info))). txn_Hash G tx \<noteq> zero_hash"
  shows "\<exists>tb info'. BlockBlockchainToBDN G HH now info = Inr tb \<and> tb_hash tb = block_Hash HH (bi_Block info) \<and>
     tb_Number tb = Some (Number (blk_header (bi_Block info))) \<and>
     map bt_hash (tb_Txs tb) = map (txn_Hash G) (Transactions (blk_body (bi_Block info))) \<and>
     BlockBDNtoBlockchain G tb = Inr info' \<and> bi_Block info' = bi_Block info \<and>
     TotalDifficulty info' = TotalDifficulty info"
proof -
  let ?txs = "Transactions (blk_body (bi_Block info))"
  from assms(1) obtain eh eu eb where e: "\<forall>tx \<in> set ?txs. enc_tx G tx = Inr (f tx)"
    "enc_header G (blk_header (bi_Block info)) = Inr eh" "enc_uncles G (Uncles (blk_body (bi_Block info))) = Inr eu"
    "enc_block_rlp G \<lparr>rb_Header = eh, rb_Txs = map f ?txs, rb_Trailer = eu\<rparr> = Inr eb" "dec_block G eb = Inr (bi_Block info)"
    by (auto simp: rlp_faithful_def)
  let ?btxs = "map (\<lambda>tx. NewTbBlockTransaction (txn_Hash G tx) (f tx)) ?txs"
  define d where "d = (case TotalDifficulty info of None \<Rightarrow> 0 | Some d \<Rightarrow> d)"
  let ?tb = "NewRawTbBlock now (block_Hash HH (bi_Block info)) eh ?btxs eu (Some d)
    (Some (Number (blk_header (bi_Block info)))) (block_Size G (bi_Block info))"
  have "all_have_hashes ?btxs" using assms(2) by (simp add: all_have_hashes_iff NewTbBlockTransaction_def)
  then have tb: "BlockBlockchainToBDN G HH now info = Inr ?tb"
    using e by (simp add: BlockBlockchainToBDN_def convert_txs_map [OF e(1)] NewTbBlock_def Let_def d_def split: option.split)
  have "BlockBDNtoBlockchain G ?tb = Inr (NewBlockInfo (bi_Block info) (Some d))"
    using e by (simp add: BlockBDNtoBlockchain_def NewRawTbBlock_def NewTbBlockTransaction_def comp_def)
  moreover have "TotalDifficulty (NewBlockInfo (bi_Block info) (Some d)) = TotalDifficulty info"
    by (simp add: NewBlockInfo_def SetInfoTotalDifficulty_def TotalDifficulty_def d_def big_Int64_def wrap64_def)
  moreover have "map bt_hash (tb_Txs ?tb) = map (txn_Hash G) ?txs"
    by (simp add: NewRawTbBlock_def NewTbBlockTransaction_def comp_def)
  ultimately show ?thesis using tb
    by (intro exI [of _ ?tb] exI [of _ "NewBlockInfo (bi_Block info) (Some d)"])
      (simp add: NewRawTbBlock_def NewBlockInfo_def SetInfoTotalDifficulty_def)
qed

text \<open>A codec for the examples: a transaction is its own encoding.\<close>

definition ex_body :: "(byte list, unit) eth_block" where
  "ex_body = \<lparr>blk_header = \<lparr>ParentHash = [], Number = 5, Difficulty = 2, Time = 0, hdr_rest = ()\<rparr>,
     blk_body = \<lparr>Transactions = [[1], [2]], Uncles = []\<rparr>\<rparr>"

definition ex_geth :: "(byte list, unit) geth" where
  "ex_geth = \<lparr>enc_header = (\<lambda>h. Inr [of_int (Number h)]), enc_uncles = (\<lambda>us. Inr []), enc_tx = Inr, dec_tx = Inr,
     enc_block_rlp = (\<lambda>b. Inr (rb_Header b @ concat (rb_Txs b) @ rb_Trailer b)),
     dec_block = (\<lambda>bs. if bs = [5, 1, 2] then Inr ex_body else Inl ''bad''),
     enc_bx = (\<lambda>b. Inr (bx_Header b @ concat (map ct_Transaction (bx_Txs b)) @ bx_Trailer b)),
     txn_Hash = (\<lambda>t. t), block_Size = (\<lambda>b. 100)\<rparr>"

lemma ex_geth_faithful: "rlp_faithful ex_geth ex_body id"
  by (simp add: rlp_faithful_def ex_geth_def ex_body_def)

theorem block_conversion_roundtrip_witness:
  "\<exists>tb info'. BlockBlockchainToBDN ex_geth toy_hash 0 (NewBlockInfo ex_body (Some 7)) = Inr tb \<and>
     map bt_hash (tb_Txs tb) = [[1], [2]] \<and> BlockBDNtoBlockchain ex_geth tb = Inr info' \<and>
     bi_Block info' = ex_body \<and> TotalDifficulty info' = Some 7"
proof -
  have b: "bi_Block (NewBlockInfo ex_body (Some 7)) = ex_body" "TotalDifficulty (NewBlockInfo ex_body (Some 7)) = Some 7"
    by (simp_all add: NewBlockInfo_def SetInfoTotalDifficulty_def TotalDifficulty_def big_Int64_def wrap64_def)
  have t: "map (txn_Hash ex_geth) (Transactions (blk_body ex_body)) = [[1], [2]]"
    by (simp add: ex_geth_def ex_body_def)
  have "\<forall>tx \<in> set (Transactions (blk_body ex_body)). txn_Hash ex_geth tx \<noteq> zero_hash"
    by (simp add: ex_geth_def ex_body_def zero_hash_def replicate_eq_replicate numeral_eq_Suc)
  then obtain tb info' where "BlockBlockchainToBDN ex_geth toy_hash 0 (NewBlockInfo ex_body (Some 7)) = Inr tb"
    "map bt_hash (tb_Txs tb) = [[1], [2]]" "BlockBDNtoBlockchain ex_geth tb = Inr info'"
    "bi_Block info' = ex_body" "TotalDifficulty info' = Some 7"
    using block_conversion_roundtrip [of ex_geth "NewBlockInfo ex_body (Some 7)" id toy_hash 0] ex_geth_faithful
    unfolding b t by auto
  then show ?thesis by (intro exI conjI)
qed

text \<open>Between two calls the history may lose expired entries and see other blocks.\<close>

lemma BxBlockToBroadcast_marks:
  "BxBlockToBroadcast G bp ne na block n = (bp', Inr (msg, ids)) \<Longrightarrow> bp' = markProcessed bp na (tb_hash block)"
  by (auto simp: BxBlockToBroadcast_def Let_def split: if_splits sum.splits)

text \<open>
  A block is broadcast once: after it was turned into a message, every block with the same hash is
  refused for ten minutes, whatever happens to other blocks and to the history in between. The message
  carries the hash and the encoding of the whole block and no short IDs. A block that could not be
  encoded is not marked, so it can be tried again.
\<close>

lemma block_broadcast_once:
  assumes first: "BxBlockToBroadcast G bp ne na block n = (bp1, Inr (msg, ids))"
    and "bp2 = bp1\<lparr>processedBlocks := fold (\<lambda>e hh. hh_step hh e) es (processedBlocks bp1)\<rparr>"
    and "hh_quiet_run (hash_String (tb_hash block)) ne' (processedBlocks bp1) es"
    and "int64_range ne'" "int64_range (na + 10 * Minute)" "ne' < na + 10 * Minute" "tb_hash block' = tb_hash block"
  shows "BxBlockToBroadcast G' bp2 ne' na' block' n' = (bp2, Inl ErrAlreadyProcessed) \<and>
     bh_hash msg = tb_hash block \<and> ids = [] \<and> bc_txIDs msg = [] \<and> bh_networkNum msg = n \<and>
     (\<forall>err. snd (BxBlockToBroadcast G bp ne na block'' n'') = Inl err \<longrightarrow>
        fst (BxBlockToBroadcast G bp ne na block'' n'') = bp)"
proof -
  have "hh_Exists (processedBlocks bp1) ne' (hash_String (tb_hash block))"
    unfolding BxBlockToBroadcast_marks [OF first]
    using hh.check_after_mark [OF assms(4,5,6)] by (simp add: markProcessed_def)
  then have "hh_Exists (processedBlocks bp2) ne' (hash_String (tb_hash block))"
    using hh_quiet_run_exists [OF assms(4,3)] by (simp add: assms(2))
  then have "\<not> ShouldProcess bp2 ne' (tb_hash block')" by (simp add: ShouldProcess_def assms(7))
  moreover have "bh_hash msg = tb_hash block \<and> ids = [] \<and> bc_txIDs msg = [] \<and> bh_networkNum msg = n"
    using first by (auto simp: BxBlockToBroadcast_def Let_def NewBlockBroadcast_def split: if_splits sum.splits)
  ultimately show ?thesis
    by (auto simp: BxBlockToBroadcast_def Let_def split: sum.split)
qed

definition ex_tb_block :: tb_block where
  "ex_tb_block = NewRawTbBlock 0 zero_hash [5] [] [6] (Some 1) (Some 2) 10"

lemma block_broadcast_once_example:
  "\<exists>bp1 msg. BxBlockToBroadcast ex_geth NewRLPBlockProcessor 0 1 ex_tb_block 5 = (bp1, Inr (msg, [])) \<and>
     bc_block msg = [5, 6] \<and>
     BxBlockToBroadcast ex_geth bp1 (9 * Minute) (9 * Minute) ex_tb_block 5 = (bp1, Inl ErrAlreadyProcessed)"
proof -
  let ?bp1 = "markProcessed NewRLPBlockProcessor 1 zero_hash"
  let ?msg = "NewBlockBroadcast zero_hash [5, 6] [] 5"
  have first: "BxBlockToBroadcast ex_geth NewRLPBlockProcessor 0 1 ex_tb_block 5 = (?bp1, Inr (?msg, []))"
    by (simp add: BxBlockToBroadcast_def ShouldProcess_def NewRLPBlockProcessor_def hh_Exists_new ex_tb_block_def
        NewRawTbBlock_def ex_geth_def)
  have "BxBlockToBroadcast ex_geth ?bp1 (9 * Minute) (9 * Minute) ex_tb_block 5 = (?bp1, Inl ErrAlreadyProcessed)"
    using block_broadcast_once [OF first, of ?bp1 "[]" "9 * Minute" ex_tb_block ex_geth "9 * Minute" 5]
    by (simp add: int64_range_def duration_defs)
  with first show ?thesis
    by (intro exI [of _ ?bp1] exI [of _ ?msg]) (simp add: NewBlockBroadcast_def)
qed

end
