(* ===== verification/Connections.thy ===== *)
theory Connections
  imports Messages
begin

text \<open>
  The connections of a node (\<^verbatim>\<open>connections/\<close> and \<^verbatim>\<open>connections/handler/\<close>): node types, connection
  information, the TLS connection with its send queue and its framing of the byte stream, the
  placeholder connection of a blockchain node, and the read loop of a relay connection.
  Results of socket calls are arguments, in the order of the calls.
\<close>

section \<open>Node types\<close>

type_synonym node_type = int

definition Gateway :: node_type where "Gateway = 1"
definition RelayTransaction :: node_type where "RelayTransaction = 2"
definition RelayBlock :: node_type where "RelayBlock = 4"
definition Blockchain :: node_type where "Blockchain = 8"
definition Relay :: node_type where "Relay = RelayTransaction OR RelayBlock"

lemma Relay_eq: "Relay = 6"
  by (simp add: Relay_def RelayTransaction_def RelayBlock_def)

lemmas node_type_defs = Gateway_def RelayTransaction_def RelayBlock_def Blockchain_def Relay_eq

definition nodeTypeNames :: "node_type \<rightharpoonup> string" where
  "nodeTypeNames = [Gateway \<mapsto> ''GATEWAY'', RelayTransaction \<mapsto> ''RELAY_TRANSACTION'',
     RelayBlock \<mapsto> ''RELAY_BLOCK'', Blockchain \<mapsto> ''BLOCKCHAIN'', Relay \<mapsto> ''RELAY'']"

definition nodeNameTypes :: "string \<rightharpoonup> node_type" where
  "nodeNameTypes = [''GATEWAY'' \<mapsto> Gateway, ''RELAY_TRANSACTION'' \<mapsto> RelayTransaction,
     ''RELAY_BLOCK'' \<mapsto> RelayBlock, ''BLOCKCHAIN'' \<mapsto> Blockchain, ''RELAY'' \<mapsto> Relay]"

definition node_type_String :: "node_type \<Rightarrow> string" where
  "node_type_String n = (case nodeTypeNames n of Some s \<Rightarrow> s | None \<Rightarrow> ''UNKNOWN'')"

text \<open>\<open>strings.ToUpper\<close> on ASCII text.\<close>

definition ToUpper :: "string \<Rightarrow> string" where
  "ToUpper s = map (\<lambda>c. if 97 \<le> (of_char c :: nat) \<and> (of_char c :: nat) \<le> 122
                        then char_of ((of_char c :: nat) - 32) else c) s"

definition FromStringToNodeType :: "string \<Rightarrow> string + node_type" where
  "FromStringToNodeType s =
     (let cs = ToUpper (filter (\<lambda>c. c \<noteq> CHR ''-'') s)
      in case nodeNameTypes cs of Some nt \<Rightarrow> Inr nt | None \<Rightarrow> Inl cs)"

section \<open>Connection information\<close>

record node_endpoint =
  ep_IP :: string
  ep_Port :: int
  ep_PublicKey :: string

record conn_info =
  ci_NodeID :: string
  ci_PeerIP :: string
  ci_PeerPort :: int
  ci_PeerEnode :: string
  ci_LocalPort :: int
  ci_ConnectionType :: node_type
  ci_NetworkNum :: u32
  ci_FromMe :: bool
  ci_Version :: string
  ci_ConnectedAt :: instant

definition IsGateway :: "conn_info \<Rightarrow> bool" where
  "IsGateway ci \<longleftrightarrow> ci_ConnectionType ci AND Gateway \<noteq> 0"

definition IsRelay :: "conn_info \<Rightarrow> bool" where
  "IsRelay ci \<longleftrightarrow> ci_ConnectionType ci AND RelayTransaction \<noteq> 0 \<or> ci_ConnectionType ci AND RelayBlock \<noteq> 0"

text \<open>The placeholder connection of a blockchain node.\<close>

definition blockchain_Info :: "node_endpoint \<Rightarrow> conn_info" where
  "blockchain_Info e = \<lparr>ci_NodeID = [], ci_PeerIP = ep_IP e, ci_PeerPort = ep_Port e,
     ci_PeerEnode = ep_PublicKey e, ci_LocalPort = 0, ci_ConnectionType = Blockchain, ci_NetworkNum = 0,
     ci_FromMe = False, ci_Version = [], ci_ConnectedAt = 0\<rparr>"

section \<open>The TLS connection\<close>

definition RemoteInitiatedPort :: int where "RemoteInitiatedPort = 0"
definition LocalInitiatedPort :: int where "LocalInitiatedPort = 0"
definition readPacketSize :: nat where "readPacketSize = 4096"

text \<open>
  \<open>'k\<close> identifies a socket and \<open>'m\<close> is the type of messages. \<open>c_written\<close> is what was handed to the
  writer; \<open>c_done\<close> tells that the context of the current send loop was cancelled.
\<close>

record ('k, 'm) ssl_conn =
  c_Socket :: "'k option"
  c_written :: "byte list"
  c_buf :: "byte list"
  c_ip :: string
  c_port :: int
  c_connectionOpen :: bool
  c_disabled :: bool
  c_done :: bool
  c_sendMessages :: "'m list"
  c_sendChannelSize :: nat
  c_nodeID :: string
  c_connectedAt :: instant

datatype conn_error =
    ConnectError string
  | ReadClosed
  | ReadError string
  | NotConnected
  | SendWhileClosed string int
  | CloseError string

definition NewSSLConnection :: "string \<Rightarrow> int \<Rightarrow> nat \<Rightarrow> ('k, 'm) ssl_conn" where
  "NewSSLConnection ip port sendChannelSize =
     \<lparr>c_Socket = None, c_written = [], c_buf = [], c_ip = ip, c_port = port, c_connectionOpen = False,
      c_disabled = False, c_done = False, c_sendMessages = [], c_sendChannelSize = sendChannelSize,
      c_nodeID = [], c_connectedAt = 0\<rparr>"

definition isInitiator :: "('k, 'm) ssl_conn \<Rightarrow> bool" where
  "isInitiator s \<longleftrightarrow> c_port s \<noteq> RemoteInitiatedPort"

definition ssl_Info :: "('k, 'm) ssl_conn \<Rightarrow> conn_info" where
  "ssl_Info s = \<lparr>ci_NodeID = c_nodeID s, ci_PeerIP = c_ip s, ci_PeerPort = c_port s, ci_PeerEnode = [],
     ci_LocalPort = LocalInitiatedPort, ci_ConnectionType = Relay, ci_NetworkNum = 0,
     ci_FromMe = isInitiator s, ci_Version = [], ci_ConnectedAt = c_connectedAt s\<rparr>"

text \<open>\<open>close\<close>; the last argument is the result of \<open>Socket.Close\<close>.\<close>

definition ssl_close :: "('k, 'm) ssl_conn \<Rightarrow> string option \<Rightarrow> ('k, 'm) ssl_conn \<times> conn_error option" where
  "ssl_close s closeErr =
     (if \<not> c_connectionOpen s then (s, None)
      else (let s = s\<lparr>c_connectionOpen := False, c_disabled := False, c_done := True\<rparr>
            in if c_Socket s \<noteq> None
               then (case closeErr of None \<Rightarrow> (s, None) | Some e \<Rightarrow> (s, Some (CloseError e)))
               else (s, None)))"

definition ssl_Connect :: "('k, 'm) ssl_conn \<Rightarrow> 'k option \<times> string option \<Rightarrow> instant \<Rightarrow> ('k, 'm) ssl_conn \<times> conn_error option" where
  "ssl_Connect s connected now =
     (let s = s\<lparr>c_Socket := fst connected\<rparr>
      in case snd connected of
           Some e \<Rightarrow> (s\<lparr>c_connectionOpen := False\<rparr>, Some (ConnectError e))
         | None \<Rightarrow> (s\<lparr>c_written := [], c_connectedAt := now, c_connectionOpen := True,
                      c_sendMessages := [], c_done := False\<rparr>, None))"

definition ssl_Disable :: "('k, 'm) ssl_conn \<Rightarrow> ('k, 'm) ssl_conn" where
  "ssl_Disable s = s\<lparr>c_disabled := True\<rparr>"

subsection \<open>Sending\<close>

text \<open>A message is queued without blocking; when the queue is full the connection is closed.\<close>

definition queueToMessageChan :: "('k, 'm) ssl_conn \<Rightarrow> 'm \<Rightarrow> string option \<Rightarrow> ('k, 'm) ssl_conn" where
  "queueToMessageChan s msg closeErr =
     (if length (c_sendMessages s) < c_sendChannelSize s
      then s\<lparr>c_sendMessages := c_sendMessages s @ [msg]\<rparr>
      else fst (ssl_close s closeErr))"

definition ssl_Send :: "('k, 'm) ssl_conn \<Rightarrow> 'm \<Rightarrow> string option \<Rightarrow> ('k, 'm) ssl_conn \<times> conn_error option" where
  "ssl_Send s msg closeErr =
     (if c_Socket s = None then (s, Some NotConnected)
      else if \<not> c_connectionOpen s then (s, Some (SendWhileClosed (c_ip s) (c_port s)))
      else (queueToMessageChan s msg closeErr, None))"

text \<open>\<open>Pack\<close> of the message may fail or panic; the writer may report an error.\<close>

definition packAndWrite ::
  "('m \<Rightarrow> (string + byte list) go) \<Rightarrow> ('k, 'm) ssl_conn \<Rightarrow> 'm \<Rightarrow> string option \<Rightarrow> string option \<Rightarrow> ('k, 'm) ssl_conn go" where
  "packAndWrite Pack s msg writeErr closeErr =
     (if \<not> c_connectionOpen s then Inr s
      else gbind (Pack msg) (\<lambda>packed.
             case packed of
               Inl err \<Rightarrow> Inr s
             | Inr buf \<Rightarrow>
                 (case writeErr of
                    None \<Rightarrow> Inr (s\<lparr>c_written := c_written s @ buf\<rparr>)
                  | Some e \<Rightarrow> Inr (fst (ssl_close s closeErr)))))"

text \<open>One round of the send loop: all queued messages are taken and written.\<close>

fun sendLoop_round ::
  "('m \<Rightarrow> (string + byte list) go) \<Rightarrow> ('k, 'm) ssl_conn \<Rightarrow> 'm list \<Rightarrow> (string option \<times> string option) list \<Rightarrow> ('k, 'm) ssl_conn go" where
  "sendLoop_round Pack s [] env = Inr s"
| "sendLoop_round Pack s (msg # msgs) env =
     (let (writeErr, closeErr) = (case env of [] \<Rightarrow> (None, None) | e # _ \<Rightarrow> e)
      in gbind (packAndWrite Pack (s\<lparr>c_sendMessages := tl (c_sendMessages s)\<rparr>) msg writeErr closeErr)
           (\<lambda>s. sendLoop_round Pack s msgs (tl env)))"

subsection \<open>Receiving\<close>

definition readWithDeadline :: "('k, 'm) ssl_conn \<Rightarrow> string + byte list \<Rightarrow> conn_error + byte list" where
  "readWithDeadline s socketRead =
     (if \<not> c_connectionOpen s then Inl ReadClosed
      else (case socketRead of Inl e \<Rightarrow> Inl (ReadError e) | Inr bs \<Rightarrow> Inr (take readPacketSize bs)))"

text \<open>
  The loop of \<open>ReadMessages\<close>: it hands the messages to the callback in order, collected in \<open>msgs\<close>,
  and leaves the rest in the buffer. A loop that never ends has the value \<^term>\<open>None\<close>.
\<close>

partial_function (option) frames_loop ::
  "nat \<Rightarrow> (byte list \<Rightarrow> nat go) \<Rightarrow> byte list \<Rightarrow> byte list list \<Rightarrow> (byte list list \<times> byte list) go option" where
  "frames_loop headerLen readPayloadLen buf msgs =
     (if length buf < headerLen then Some (Inr (msgs, buf))
      else case readPayloadLen buf of
             Inl p \<Rightarrow> Some (Inl p)
           | Inr payloadLen \<Rightarrow>
               if length buf < headerLen + payloadLen then Some (Inr (msgs, buf))
               else frames_loop headerLen readPayloadLen (drop (headerLen + payloadLen) buf)
                      (msgs @ [take (headerLen + payloadLen) buf]))"

definition ReadMessages ::
  "nat \<Rightarrow> (byte list \<Rightarrow> nat go) \<Rightarrow> ('k, 'm) ssl_conn \<Rightarrow> string + byte list \<Rightarrow> string option \<Rightarrow>
     (('k, 'm) ssl_conn \<times> byte list list \<times> conn_error option) go option" where
  "ReadMessages headerLen readPayloadLen s socketRead closeErr =
     (case readWithDeadline s socketRead of
        Inl err \<Rightarrow> Some (Inr (fst (ssl_close s closeErr), [], Some err))
      | Inr bs \<Rightarrow>
          (case frames_loop headerLen readPayloadLen (c_buf s @ bs) [] of
             None \<Rightarrow> None
           | Some (Inl p) \<Rightarrow> Some (Inl p)
           | Some (Inr (msgs, rest)) \<Rightarrow> Some (Inr (s\<lparr>c_buf := rest\<rparr>, msgs, None))))"

text \<open>The arguments the read loop of \<open>TbConn\<close> gives: 20 bytes of header, the length at offset 16.\<close>

definition tb_payload_len :: "byte list \<Rightarrow> nat go" where
  "tb_payload_len b = read_le 4 b PayloadSizeOffset"

section \<open>Relay connections\<close>

text \<open>
  \<open>ProcessMessage\<close> of a relay: a transaction is unpacked, errors ignored, and handed to the node;
  other messages are dropped.
\<close>

definition empty_tx_message :: tx_message where
  "empty_tx_message = \<lparr>msgType = [], bh_hash = zero_hash, bh_networkNum = 0, bh_sourceID = replicate SourceIDLen 0,
     tm_txID = 0, tm_timestamp = 0, tm_content = [], tm_sender = replicate SenderLen 0\<rparr>"

definition relay_ProcessMessage :: "instant \<Rightarrow> byte list \<Rightarrow> tx_message option go" where
  "relay_ProcessMessage now msg =
     gbind (TbType msg) (\<lambda>t.
     if t = TxType then gbind (Tx_Unpack now empty_tx_message msg) (\<lambda>(tx, err). Inr (Some tx))
     else Inr None)"

text \<open>
  The read loop as a state machine. \<open>rl_conns\<close> counts the calls of \<open>OnConnClosed\<close> on the node.
\<close>

datatype read_loop = RLConnect | RLRead | RLSleep | RLStopped

record tb_conn =
  tc_state :: read_loop
  tc_established :: bool
  tc_closed :: bool
  tc_open :: bool
  tc_onClosed :: nat

datatype rl_event =
    ConnectOk | ConnectFailed | ReadOk | ReadFailed | SlotClosed | Slept

definition closeWithRetry :: "tb_conn \<Rightarrow> tb_conn" where
  "closeWithRetry b = b\<lparr>tc_established := False, tc_onClosed := Suc (tc_onClosed b), tc_open := False\<rparr>"

text \<open>After the inner loop ended.\<close>

definition after_read :: "bool \<Rightarrow> tb_conn \<Rightarrow> tb_conn" where
  "after_read initiator b =
     (if \<not> initiator then b\<lparr>tc_open := False, tc_state := RLStopped\<rparr>
      else (let b = closeWithRetry b
            in if tc_closed b then b\<lparr>tc_state := RLStopped\<rparr> else b\<lparr>tc_state := RLSleep\<rparr>))"

inductive rl_step :: "bool \<Rightarrow> tb_conn \<Rightarrow> rl_event \<Rightarrow> tb_conn \<Rightarrow> bool" for initiator where
  connected: "tc_state b = RLConnect \<Longrightarrow>
     rl_step initiator b ConnectOk (b\<lparr>tc_open := True, tc_state := RLRead\<rparr>)"
| refused_stop: "tc_state b = RLConnect \<Longrightarrow> \<not> initiator \<Longrightarrow>
     rl_step initiator b ConnectFailed (b\<lparr>tc_open := False, tc_state := RLStopped\<rparr>)"
| refused_retry: "tc_state b = RLConnect \<Longrightarrow> initiator \<Longrightarrow>
     rl_step initiator b ConnectFailed ((closeWithRetry b)\<lparr>tc_state := RLSleep\<rparr>)"
| read_ok: "tc_state b = RLRead \<Longrightarrow> tc_open b \<Longrightarrow> rl_step initiator b ReadOk b"
| read_failed: "tc_state b = RLRead \<Longrightarrow> tc_open b \<Longrightarrow> rl_step initiator b ReadFailed (after_read initiator b)"
| not_open: "tc_state b = RLRead \<Longrightarrow> rl_step initiator b SlotClosed (after_read initiator (b\<lparr>tc_open := False\<rparr>))"
| slept: "tc_state b = RLSleep \<Longrightarrow> rl_step initiator b Slept (b\<lparr>tc_state := RLConnect\<rparr>)"

definition new_tb_conn :: tb_conn where
  "new_tb_conn = \<lparr>tc_state = RLConnect, tc_established = True, tc_closed = False, tc_open = False, tc_onClosed = 0\<rparr>"

inductive_cases rl_stepE: "rl_step initiator b e b'"

inductive rl_reach :: "bool \<Rightarrow> tb_conn \<Rightarrow> bool" for initiator where
  start: "rl_reach initiator new_tb_conn"
| step: "rl_reach initiator b \<Longrightarrow> rl_step initiator b e b' \<Longrightarrow> rl_reach initiator b'"

section \<open>Framing\<close>

text \<open>
  The contract of a framing: a header is not empty, and the payload length is read from the
  header alone. Its client lemma is that the messages do not depend on how the stream is cut
  into packets.
\<close>

locale framing =
  fixes headerLen :: nat
    and payload :: "byte list \<Rightarrow> nat go"
  assumes header_pos: "0 < headerLen"
    and payload_header: "headerLen \<le> length buf \<Longrightarrow> payload (buf @ xs) = payload buf"
    and payload_total: "headerLen \<le> length buf \<Longrightarrow> \<exists>n. payload buf = Inr n"
begin

lemma loop_returns: "\<exists>msgs' rest. frames_loop headerLen payload buf msgs = Some (Inr (msgs', rest))"
proof (induction "length buf" arbitrary: buf msgs rule: less_induct)
  case less
  show ?case
  proof (cases "length buf < headerLen")
    case True
    then show ?thesis by (subst frames_loop.simps) simp
  next
    case False
    then obtain n where n: "payload buf = Inr n" using payload_total [of buf] by auto
    show ?thesis
    proof (cases "length buf < headerLen + n")
      case True
      with False n show ?thesis by (subst frames_loop.simps) simp
    next
      case enough: False
      then have "length (drop (headerLen + n) buf) < length buf" using header_pos by simp
      from less [OF this] False n enough show ?thesis by (subst frames_loop.simps) simp
    qed
  qed
qed

lemma loop_append:
  "frames_loop headerLen payload buf msgs = Some (Inr (msgs', rest)) \<Longrightarrow>
     frames_loop headerLen payload (buf @ xs) msgs = frames_loop headerLen payload (rest @ xs) msgs'"
proof (induction "length buf" arbitrary: buf msgs rule: less_induct)
  case less
  note eq = frames_loop.simps [of headerLen payload buf msgs]
  show ?case
  proof (cases "length buf < headerLen")
    case True
    with less.prems eq show ?thesis by simp
  next
    case False
    then obtain n where n: "payload buf = Inr n" using payload_total [of buf] by auto
    show ?thesis
    proof (cases "length buf < headerLen + n")
      case True
      with False n less.prems eq show ?thesis by simp
    next
      case enough: False
      then have "length (drop (headerLen + n) buf) < length buf" using header_pos by simp
      moreover have "frames_loop headerLen payload (drop (headerLen + n) buf) (msgs @ [take (headerLen + n) buf]) =
          Some (Inr (msgs', rest))" using less.prems eq False n enough by simp
      ultimately have "frames_loop headerLen payload (drop (headerLen + n) buf @ xs) (msgs @ [take (headerLen + n) buf]) =
          frames_loop headerLen payload (rest @ xs) msgs'" by (rule less.hyps)
      moreover have "frames_loop headerLen payload (buf @ xs) msgs =
          frames_loop headerLen payload (drop (headerLen + n) buf @ xs) (msgs @ [take (headerLen + n) buf])"
        using False n enough payload_header [of buf xs]
        by (subst frames_loop.simps) simp
      ultimately show ?thesis by simp
    qed
  qed
qed

text \<open>A well-formed frame at the front is delivered.\<close>

lemma loop_frame:
  assumes "headerLen \<le> length f" "payload f = Inr (length f - headerLen)"
  shows "frames_loop headerLen payload (f @ xs) msgs = frames_loop headerLen payload xs (msgs @ [f])"
  using assms payload_header [of f xs] by (subst frames_loop.simps) simp

lemma loop_frames:
  assumes "\<forall>f \<in> set fs. headerLen \<le> length f \<and> payload f = Inr (length f - headerLen)" "length rest < headerLen"
  shows "frames_loop headerLen payload (concat fs @ rest) msgs = Some (Inr (msgs @ fs, rest))"
  using assms
proof (induction fs arbitrary: msgs)
  case Nil
  then show ?case by (subst frames_loop.simps) simp
next
  case (Cons f fs)
  then show ?case using loop_frame [of f "concat fs @ rest" msgs] by simp
qed

end

text \<open>The buffer of the connection after each of several packets, and all messages delivered.\<close>

fun feed :: "nat \<Rightarrow> (byte list \<Rightarrow> nat go) \<Rightarrow> byte list \<Rightarrow> byte list list \<Rightarrow> byte list list \<Rightarrow> (byte list list \<times> byte list) go option" where
  "feed headerLen payload buf msgs [] = Some (Inr (msgs, buf))"
| "feed headerLen payload buf msgs (packet # packets) =
     (case frames_loop headerLen payload (buf @ packet) msgs of
        Some (Inr (msgs', rest)) \<Rightarrow> feed headerLen payload rest msgs' packets
      | r \<Rightarrow> r)"

context framing
begin

lemma feed_concat:
  assumes "frames_loop headerLen payload buf msgs = Some (Inr (msgs, buf))"
  shows "feed headerLen payload buf msgs packets = frames_loop headerLen payload (buf @ concat packets) msgs"
  using assms
proof (induction packets arbitrary: buf msgs)
  case Nil
  then show ?case by simp
next
  case (Cons p ps)
  from loop_returns [of "buf @ p" msgs] obtain m r where
    mr: "frames_loop headerLen payload (buf @ p) msgs = Some (Inr (m, r))" by blast
  have "frames_loop headerLen payload r m = Some (Inr (m, r))"
    using loop_append [OF mr, of "[]"] mr by simp
  from Cons.IH [OF this] have "feed headerLen payload r m ps = frames_loop headerLen payload (r @ concat ps) m" .
  also have "\<dots> = frames_loop headerLen payload ((buf @ p) @ concat ps) msgs"
    using loop_append [OF mr, of "concat ps"] by simp
  finally show ?case using mr by simp
qed

end

interpretation tb: framing HeaderLen tb_payload_len
proof
  show "0 < HeaderLen" by (simp add: HeaderLen_def)
  show "tb_payload_len (buf @ xs) = tb_payload_len buf" if "HeaderLen \<le> length buf" for buf xs
    using that by (simp add: tb_payload_len_def read_le_def layout_defs)
  show "\<exists>n. tb_payload_len buf = Inr n" if "HeaderLen \<le> length buf" for buf
    using that by (simp add: tb_payload_len_def read_le_def layout_defs)
qed

lemma packed_broadcast_frame:
  assumes "bh_ok b" "length (broadcastType b) = 4" "broadcast_len b < 2 ^ 32"
  shows "HeaderLen \<le> length (packed_broadcast b) \<and>
    tb_payload_len (packed_broadcast b) = Inr (length (packed_broadcast b) - HeaderLen)"
proof -
  have len: "length (packed_broadcast b) = broadcast_len b"
    using assms by (simp add: packed_broadcast_def length_broadcast_bytes BroadcastType_def broadcast_len_def)
  have "read_le 4 (packed_broadcast b) PayloadSizeOffset = Inr (broadcast_len b - 20)"
    unfolding packed_broadcast_def using assms(3) by (intro payload_len_layout) (auto simp: BroadcastType_def)
  then show ?thesis using len by (simp add: tb_payload_len_def HeaderLen_def broadcast_len_def)
qed

text \<open>
  However the stream of a relay connection is cut into packets, the read loop ends after each
  packet without a panic and delivers exactly the packed broadcast messages of the stream, in order;
  an incomplete header at the end stays in the buffer.
\<close>

lemma stream_delivers_messages:
  assumes "\<forall>b \<in> set bs. length (bh_hash b) = 32 \<and> length (bh_sourceID b) = 16 \<and> length (broadcastType b) = 4 \<and>
      90 + length (bc_block b) + 4 * length (bc_txIDs b) < 2 ^ 32"
    and "length rest < HeaderLen" "concat packets = concat (map packed_broadcast bs) @ rest"
  shows "feed HeaderLen tb_payload_len [] [] packets = Some (Inr (map packed_broadcast bs, rest)) \<and>
     map Broadcast_Pack bs = map (\<lambda>b. Inr (b\<lparr>msgType := BroadcastType\<rparr>, packed_broadcast b)) bs"
proof -
  have ok: "bh_ok b \<and> length (broadcastType b) = 4 \<and> broadcast_len b < 2 ^ 32" if "b \<in> set bs" for b
    using assms(1) that by (auto simp: bh_ok_def broadcast_len_def)
  have "frames_loop HeaderLen tb_payload_len [] [] = Some (Inr ([], []))"
    by (subst frames_loop.simps) (simp add: HeaderLen_def)
  then have "feed HeaderLen tb_payload_len [] [] packets = frames_loop HeaderLen tb_payload_len (concat packets) []"
    using tb.feed_concat [of "[]" "[]" packets] by simp
  also have "\<dots> = Some (Inr (map packed_broadcast bs, rest))"
    using tb.loop_frames [of "map packed_broadcast bs" rest "[]"] ok packed_broadcast_frame assms(2,3) by auto
  finally show ?thesis using ok Broadcast_Pack_layout by auto
qed

lemma stream_delivers_messages_example:
  "\<exists>p. packed_broadcast (ex_broadcast [7] []) = p \<and>
     feed HeaderLen tb_payload_len [] [] [take 5 p, drop 5 p @ p @ [255]] = Some (Inr ([p, p], [255]))"
proof -
  let ?b = "ex_broadcast [7] []"
  let ?p = "packed_broadcast ?b"
  have "feed HeaderLen tb_payload_len [] [] [take 5 ?p, drop 5 ?p @ ?p @ [255]] =
      Some (Inr (map packed_broadcast [?b, ?b], [255]))"
    by (rule conjunct1 [OF stream_delivers_messages]) (auto simp: ex_broadcast_fields HeaderLen_def)
  then show ?thesis by simp
qed

section \<open>The read loop\<close>

lemma rl_step_inv:
  "rl_step initiator b e b' \<Longrightarrow> \<not> tc_closed b \<Longrightarrow> tc_established b = (tc_onClosed b = 0) \<Longrightarrow>
     \<not> tc_closed b' \<and> tc_established b' = (tc_onClosed b' = 0)"
  by (erule rl_stepE) (auto simp: closeWithRetry_def after_read_def Let_def)

lemma rl_reach_inv:
  "rl_reach initiator b \<Longrightarrow> \<not> tc_closed b \<and> tc_established b = (tc_onClosed b = 0)"
  by (induction rule: rl_reach.induct) (auto simp: new_tb_conn_def dest: rl_step_inv)

lemma rl_initiator_running: "rl_reach initiator b \<Longrightarrow> initiator \<Longrightarrow> tc_state b \<noteq> RLStopped"
proof (induction rule: rl_reach.induct)
  case start
  then show ?case by (simp add: new_tb_conn_def)
next
  case (step b e b')
  with rl_reach_inv [OF step.hyps(1)] show ?case
    by (elim rl_stepE) (auto simp: closeWithRetry_def after_read_def Let_def)
qed

lemma rl_enabled: "tc_state b \<noteq> RLStopped \<Longrightarrow> \<exists>e b'. rl_step initiator b e b'"
  by (cases "tc_state b"; cases initiator) (auto intro: rl_step.intros)

text \<open>
  C33. The read loop of a connection this node initiated never stops: in every reachable state it
  can go on, and it never reaches its final state.
\<close>

theorem initiator_keeps_retrying:
  assumes "rl_reach True b"
  shows "tc_state b \<noteq> RLStopped \<and> (\<exists>e b'. rl_step True b e b')"
  using rl_initiator_running [OF assms] rl_enabled by blast

lemma ex_retry:
  "rl_reach True (\<lparr>tc_state = RLConnect, tc_established = False, tc_closed = False, tc_open = False, tc_onClosed = 1\<rparr>)"
proof -
  have "rl_reach True ((closeWithRetry new_tb_conn)\<lparr>tc_state := RLSleep\<rparr>)"
    by (rule rl_reach.step [OF rl_reach.start refused_retry]) (simp_all add: new_tb_conn_def)
  from rl_reach.step [OF this slept] show ?thesis
    by (simp add: closeWithRetry_def new_tb_conn_def)
qed

theorem initiator_keeps_retrying_witness:
  "\<exists>e b'. rl_step True \<lparr>tc_state = RLConnect, tc_established = False, tc_closed = False, tc_open = False, tc_onClosed = 1\<rparr> e b'"
  using initiator_keeps_retrying [OF ex_retry] by blast

text \<open>
  The node knows a connection exactly as long as it was never closed for a retry: \<open>OnConnEstablished\<close>
  runs only when the connection is built, so a connection that was lost once and is open again is no
  longer registered with the node.
\<close>

lemma reconnect_not_registered:
  assumes "rl_reach initiator b"
  shows "tc_established b \<longleftrightarrow> tc_onClosed b = 0"
  using rl_reach_inv [OF assms] by simp

lemma reconnect_not_registered_example:
  "\<exists>b. rl_reach True b \<and> tc_state b = RLRead \<and> tc_open b \<and> \<not> tc_established b"
proof -
  let ?b = "\<lparr>tc_state = RLRead, tc_established = False, tc_closed = False, tc_open = True, tc_onClosed = 1\<rparr> :: tb_conn"
  have "rl_reach True ?b" using rl_reach.step [OF ex_retry connected] by simp
  then show ?thesis using reconnect_not_registered [of True ?b] by auto
qed

section \<open>The send queue\<close>

lemma ssl_close_fields [simp]:
  "c_sendMessages (fst (ssl_close s e)) = c_sendMessages s"
  "c_sendChannelSize (fst (ssl_close s e)) = c_sendChannelSize s"
  "c_written (fst (ssl_close s e)) = c_written s"
  "\<not> c_connectionOpen (fst (ssl_close s e))"
  by (auto simp: ssl_close_def Let_def split: option.splits)

text \<open>
  Sending never blocks and never overfills the queue: on an open connection the message is
  appended, or, when the queue is full, the connection is closed and the queue stays as it is;
  on a closed one an error is returned and nothing changes.
\<close>

lemma send_never_overfills:
  "(c_Socket s \<noteq> None \<and> c_connectionOpen s \<longrightarrow>
      (if length (c_sendMessages s) < c_sendChannelSize s
       then ssl_Send s msg e = (s\<lparr>c_sendMessages := c_sendMessages s @ [msg]\<rparr>, None)
       else snd (ssl_Send s msg e) = None \<and> \<not> c_connectionOpen (fst (ssl_Send s msg e)) \<and>
            c_sendMessages (fst (ssl_Send s msg e)) = c_sendMessages s)) \<and>
   (\<not> (c_Socket s \<noteq> None \<and> c_connectionOpen s) \<longrightarrow> fst (ssl_Send s msg e) = s \<and> snd (ssl_Send s msg e) \<noteq> None)"
  by (auto simp: ssl_Send_def queueToMessageChan_def)

lemma send_never_overfills_example:
  "ssl_Send (fst (ssl_Connect (NewSSLConnection ''relay'' 443 1) (Some (7::nat), None) 0)) (3::nat) None =
     ((fst (ssl_Connect (NewSSLConnection ''relay'' 443 1) (Some 7, None) 0))\<lparr>c_sendMessages := [3]\<rparr>, None)"
  using send_never_overfills [of "fst (ssl_Connect (NewSSLConnection ''relay'' 443 1) (Some (7::nat), None) 0)" "3::nat" None]
  by (simp add: ssl_Connect_def NewSSLConnection_def)

text \<open>
  A round of the send loop on an open connection writes the messages in the order they were
  queued, nothing between them, and empties that part of the queue.
\<close>

lemma send_loop_in_order:
  assumes "c_connectionOpen s" "c_sendMessages s = msgs @ later"
    and "\<forall>m \<in> set msgs. Pack m = Inr (Inr (bytes m))"
  shows "sendLoop_round Pack s msgs [] =
    Inr (s\<lparr>c_sendMessages := later, c_written := c_written s @ concat (map bytes msgs)\<rparr>)"
  using assms
proof (induction msgs arbitrary: s)
  case Nil
  then show ?case by simp
next
  case (Cons m msgs)
  let ?s = "s\<lparr>c_sendMessages := msgs @ later, c_written := c_written s @ bytes m\<rparr>"
  have "packAndWrite Pack (s\<lparr>c_sendMessages := tl (c_sendMessages s)\<rparr>) m None None = Inr ?s"
    using Cons.prems by (simp add: packAndWrite_def)
  moreover have "sendLoop_round Pack ?s msgs [] =
      Inr (?s\<lparr>c_sendMessages := later, c_written := c_written ?s @ concat (map bytes msgs)\<rparr>)"
    using Cons.prems by (intro Cons.IH) simp_all
  ultimately show ?case by simp
qed

lemma send_loop_in_order_example:
  "\<exists>s :: (nat, nat) ssl_conn. c_sendMessages s = [1, 2, 3] \<and>
     sendLoop_round (\<lambda>m. Inr (Inr [word_of_nat m])) s [1, 2] [] = Inr (s\<lparr>c_sendMessages := [3], c_written := [1, 2]\<rparr>)"
proof -
  let ?s = "(NewSSLConnection [] 1 5)\<lparr>c_connectionOpen := True, c_sendMessages := [1, 2, 3]\<rparr> :: (nat, nat) ssl_conn"
  have "sendLoop_round (\<lambda>m. Inr (Inr [word_of_nat m])) ?s [1, 2] [] =
      Inr (?s\<lparr>c_sendMessages := [3], c_written := c_written ?s @ concat (map (\<lambda>m. [word_of_nat m]) [1, 2])\<rparr>)"
    by (rule send_loop_in_order) simp_all
  then show ?thesis by (intro exI [of _ ?s]) (simp add: NewSSLConnection_def)
qed

section \<open>Names of node types\<close>

text \<open>
  Every node type that has a name is parsed back from its name, in upper or in lower case; a
  dash in the name is dropped, so the dashed spelling of a name with an underscore is unknown.
\<close>

lemma node_type_names:
  "\<forall>n \<in> {Gateway, RelayTransaction, RelayBlock, Blockchain, Relay}.
     FromStringToNodeType (node_type_String n) = Inr n \<and>
     FromStringToNodeType ''relay-block'' = Inl ''RELAYBLOCK'' \<and> FromStringToNodeType ''relay_block'' = Inr RelayBlock"
  unfolding node_type_defs by (simp only: ball_simps) code_simp

lemma node_type_names_example: "FromStringToNodeType (node_type_String Relay) = Inr Relay"
  using node_type_names by blast

context framing
begin

lemma loop_partition:
  "\<exists>fs rest. frames_loop headerLen payload buf msgs = Some (Inr (msgs @ fs, rest)) \<and> concat fs @ rest = buf \<and>
     (\<forall>f \<in> set fs. headerLen \<le> length f \<and> payload f = Inr (length f - headerLen))"
proof (induction "length buf" arbitrary: buf msgs rule: less_induct)
  case less
  note eq = frames_loop.simps [of headerLen payload buf msgs]
  show ?case
  proof (cases "length buf < headerLen")
    case True
    then show ?thesis by (simp add: eq)
  next
    case False
    then obtain n where n: "payload buf = Inr n" using payload_total [of buf] by auto
    show ?thesis
    proof (cases "length buf < headerLen + n")
      case True
      with False n show ?thesis by (simp add: eq)
    next
      case enough: False
      let ?f = "take (headerLen + n) buf" and ?rest = "drop (headerLen + n) buf"
      have f: "headerLen \<le> length ?f" "payload ?f = Inr (length ?f - headerLen)"
        using enough n payload_header [of ?f ?rest] by simp_all
      have "length ?rest < length buf" using enough header_pos by simp
      from less [OF this, of "msgs @ [?f]"] obtain fs rest where
        r: "frames_loop headerLen payload ?rest (msgs @ [?f]) = Some (Inr ((msgs @ [?f]) @ fs, rest))" "concat fs @ rest = ?rest"
        "\<forall>f \<in> set fs. headerLen \<le> length f \<and> payload f = Inr (length f - headerLen)" by blast
      have "frames_loop headerLen payload buf msgs = Some (Inr (msgs @ ?f # fs, rest))" using False n enough r(1) by (simp add: eq)
      moreover have "concat (?f # fs) @ rest = buf" using r(2) by simp
      ultimately show ?thesis using f r(3) by (intro exI [of _ "?f # fs"] exI [of _ rest]) auto
    qed
  qed
qed

end

text \<open>
  C23. Termination. Whatever bytes arrive, the loop that takes messages off the buffer ends, without a panic: it
  cuts the buffer, without loss, into complete frames and a rest, and each frame is as long
  as its own header says.
\<close>

theorem framing_terminates:
  "\<exists>fs rest. frames_loop HeaderLen tb_payload_len buf [] = Some (Inr (fs, rest)) \<and> concat fs @ rest = buf \<and>
     (\<forall>f \<in> set fs. HeaderLen \<le> length f \<and> tb_payload_len f = Inr (length f - HeaderLen))"
  using tb.loop_partition [of buf "[]"] by simp

theorem framing_terminates_witness:
  "\<exists>fs rest. frames_loop HeaderLen tb_payload_len (replicate 23 0) [] = Some (Inr (fs, rest)) \<and> concat fs @ rest = replicate 23 0"
  using framing_terminates [of "replicate 23 0"] by blast

end
