(* ===== verification/Bridge.thy ===== *)
theory Bridge
  imports Connections
begin

text \<open>
  The bridge of \<^verbatim>\<open>blockchain/bridge.go\<close> between the blockchain side and the BDN side of the gateway:
  a set of bounded channels. Every send is a \<open>select\<close> with a default branch that returns
  \<open>ErrChannelFull\<close>, except the configuration update, which blocks.
\<close>

section \<open>Bounded channels\<close>

text \<open>
  A channel holds its items and the number of receivers that wait on it; a channel without a
  buffer takes an item only for a waiting receiver.
\<close>

record 'a chan =
  ch_items :: "'a list"
  ch_cap :: nat
  ch_waiting :: nat

definition make_chan :: "nat \<Rightarrow> 'a chan" where
  "make_chan n = \<lparr>ch_items = [], ch_cap = n, ch_waiting = 0\<rparr>"

definition ch_room :: "'a chan \<Rightarrow> nat" where
  "ch_room c = ch_cap c + ch_waiting c"

text \<open>\<open>select { case c <- x: ... default: ... }\<close>; \<^term>\<open>None\<close> is the default branch.\<close>

definition try_send :: "'a chan \<Rightarrow> 'a \<Rightarrow> 'a chan option" where
  "try_send c x = (if length (ch_items c) < ch_room c then Some (c\<lparr>ch_items := ch_items c @ [x]\<rparr>) else None)"

text \<open>A receiver that finds an item; \<open>wait\<close> is a receiver that finds none and waits.\<close>

definition ch_recv :: "'a chan \<Rightarrow> ('a \<times> 'a chan) option" where
  "ch_recv c = (case ch_items c of [] \<Rightarrow> None | x # xs \<Rightarrow> Some (x, c\<lparr>ch_items := xs, ch_waiting := ch_waiting c - 1\<rparr>))"

definition ch_wait :: "'a chan \<Rightarrow> 'a chan" where
  "ch_wait c = (if ch_items c = [] then c\<lparr>ch_waiting := Suc (ch_waiting c)\<rparr> else c)"

text \<open>
  The contract of a channel: a send that is accepted appends, a receive takes the oldest item,
  waiting changes no items. The client lemma is that along every run the accepted items are the
  received ones followed by those still in the channel.
\<close>

datatype 'a ch_event = ChSend 'a | ChRecv | ChWait

fun fifo_run ::
  "('c \<Rightarrow> 'a \<Rightarrow> 'c option) \<Rightarrow> ('c \<Rightarrow> ('a \<times> 'c) option) \<Rightarrow> ('c \<Rightarrow> 'c) \<Rightarrow> 'c \<Rightarrow> 'a ch_event list \<Rightarrow> 'c \<times> 'a list \<times> 'a list" where
  "fifo_run send recv wait c [] = (c, [], [])"
| "fifo_run send recv wait c (ChSend x # es) =
     (case send c x of None \<Rightarrow> fifo_run send recv wait c es
      | Some c' \<Rightarrow> (let (d, acc, rcv) = fifo_run send recv wait c' es in (d, x # acc, rcv)))"
| "fifo_run send recv wait c (ChRecv # es) =
     (case recv c of None \<Rightarrow> fifo_run send recv wait c es
      | Some (x, c') \<Rightarrow> (let (d, acc, rcv) = fifo_run send recv wait c' es in (d, acc, x # rcv)))"
| "fifo_run send recv wait c (ChWait # es) = fifo_run send recv wait (wait c) es"

locale fifo_channel =
  fixes send :: "'c \<Rightarrow> 'a \<Rightarrow> 'c option"
    and recv :: "'c \<Rightarrow> ('a \<times> 'c) option"
    and wait :: "'c \<Rightarrow> 'c"
    and items :: "'c \<Rightarrow> 'a list"
  assumes send_items: "send c x = Some c' \<Longrightarrow> items c' = items c @ [x]"
    and recv_items: "recv c = Some (x, c') \<Longrightarrow> items c = x # items c'"
    and recv_none: "recv c = None \<longleftrightarrow> items c = []"
    and wait_items: "items (wait c) = items c"
begin

lemma run_fifo: "fifo_run send recv wait c es = (d, acc, rcv) \<Longrightarrow> items c @ acc = rcv @ items d"
proof (induction es arbitrary: c acc rcv)
  case Nil
  then show ?case by simp
next
  case (Cons e es)
  show ?case
  proof (cases e)
    case (ChSend x)
    show ?thesis
    proof (cases "send c x")
      case None
      with Cons ChSend show ?thesis by simp
    next
      case (Some c')
      with Cons.prems ChSend obtain acc' where r: "fifo_run send recv wait c' es = (d, acc', rcv)" "acc = x # acc'"
        by (auto split: prod.splits)
      with Cons.IH [OF r(1)] send_items [OF Some] show ?thesis by simp
    qed
  next
    case ChRecv
    show ?thesis
    proof (cases "recv c")
      case None
      with Cons ChRecv show ?thesis by simp
    next
      case (Some p)
      then obtain x c' where p: "recv c = Some (x, c')" by (cases p) auto
      with Cons.prems ChRecv obtain rcv' where r: "fifo_run send recv wait c' es = (d, acc, rcv')" "rcv = x # rcv'"
        by (auto split: prod.splits)
      with Cons.IH [OF r(1)] recv_items [OF p] show ?thesis by simp
    qed
  next
    case ChWait
    with Cons.prems have "fifo_run send recv wait (wait c) es = (d, acc, rcv)" by simp
    from Cons.IH [OF this] show ?thesis by (simp add: wait_items)
  qed
qed

end

interpretation ch: fifo_channel try_send ch_recv ch_wait ch_items
  by unfold_locales (auto simp: try_send_def ch_recv_def ch_wait_def split: if_splits list.splits)

section \<open>The bridge\<close>

definition transactionBacklog :: nat where "transactionBacklog = 500"
definition transactionHashesBacklog :: nat where "transactionHashesBacklog = 1000"
definition blockBacklog :: nat where "blockBacklog = 100"
definition statusBacklog :: nat where "statusBacklog = 10"

record transaction_announcement =
  ta_Hashes :: "hash list"
  ta_PeerID :: string

record 'tx transactions_from_node =
  tf_Transactions :: "'tx list"
  tf_PeerEndpoint :: node_endpoint

record 'blk block_from_node =
  bf_Block :: 'blk
  bf_PeerEndpoint :: node_endpoint

record ('tx, 'blk, 'cfg) turbo_bridge =
  br_config :: "'cfg chan"
  br_transactionsFromNode :: "'tx transactions_from_node chan"
  br_transactionsFromBDN :: "'tx list chan"
  br_transactionHashesFromNode :: "transaction_announcement chan"
  br_transactionHashesRequests :: "transaction_announcement chan"
  br_blocksFromNode :: "'blk block_from_node chan"
  br_blocksFromBDN :: "'blk chan"
  br_confirmedBlockFromNode :: "'blk block_from_node chan"
  br_noActiveBlockchainPeers :: "unit chan"
  br_blockchainStatusRequest :: "unit chan"
  br_blockchainStatusResponse :: "node_endpoint list chan"

datatype bridge_error = ErrChannelFull

definition NewTurboBridge :: "('tx, 'blk, 'cfg) turbo_bridge" where
  "NewTurboBridge =
     \<lparr>br_config = make_chan 0,
      br_transactionsFromNode = make_chan transactionBacklog,
      br_transactionsFromBDN = make_chan transactionBacklog,
      br_transactionHashesFromNode = make_chan transactionHashesBacklog,
      br_transactionHashesRequests = make_chan transactionHashesBacklog,
      br_blocksFromNode = make_chan blockBacklog,
      br_blocksFromBDN = make_chan blockBacklog,
      br_confirmedBlockFromNode = make_chan blockBacklog,
      br_noActiveBlockchainPeers = make_chan 0,
      br_blockchainStatusRequest = make_chan statusBacklog,
      br_blockchainStatusResponse = make_chan statusBacklog\<rparr>"

text \<open>The blocking send: \<^term>\<open>None\<close> while no receiver waits.\<close>

definition UpdateNetworkConfig :: "('tx, 'blk, 'cfg) turbo_bridge \<Rightarrow> 'cfg \<Rightarrow> ('tx, 'blk, 'cfg) turbo_bridge option" where
  "UpdateNetworkConfig b config = map_option (\<lambda>c. b\<lparr>br_config := c\<rparr>) (try_send (br_config b) config)"

definition AnnounceTransactionHashes ::
  "('tx, 'blk, 'cfg) turbo_bridge \<Rightarrow> string \<Rightarrow> hash list \<Rightarrow> ('tx, 'blk, 'cfg) turbo_bridge \<times> bridge_error option" where
  "AnnounceTransactionHashes b peerID hashes =
     (case try_send (br_transactionHashesFromNode b) \<lparr>ta_Hashes = hashes, ta_PeerID = peerID\<rparr> of
        Some c \<Rightarrow> (b\<lparr>br_transactionHashesFromNode := c\<rparr>, None) | None \<Rightarrow> (b, Some ErrChannelFull))"

definition RequestTransactionsFromNode ::
  "('tx, 'blk, 'cfg) turbo_bridge \<Rightarrow> string \<Rightarrow> hash list \<Rightarrow> ('tx, 'blk, 'cfg) turbo_bridge \<times> bridge_error option" where
  "RequestTransactionsFromNode b peerID hashes =
     (case try_send (br_transactionHashesRequests b) \<lparr>ta_Hashes = hashes, ta_PeerID = peerID\<rparr> of
        Some c \<Rightarrow> (b\<lparr>br_transactionHashesRequests := c\<rparr>, None) | None \<Rightarrow> (b, Some ErrChannelFull))"

definition SendTransactionsFromBDN ::
  "('tx, 'blk, 'cfg) turbo_bridge \<Rightarrow> 'tx list \<Rightarrow> ('tx, 'blk, 'cfg) turbo_bridge \<times> bridge_error option" where
  "SendTransactionsFromBDN b transactions =
     (case try_send (br_transactionsFromBDN b) transactions of
        Some c \<Rightarrow> (b\<lparr>br_transactionsFromBDN := c\<rparr>, None) | None \<Rightarrow> (b, Some ErrChannelFull))"

definition SendTransactionsToBDN ::
  "('tx, 'blk, 'cfg) turbo_bridge \<Rightarrow> 'tx list \<Rightarrow> node_endpoint \<Rightarrow> ('tx, 'blk, 'cfg) turbo_bridge \<times> bridge_error option" where
  "SendTransactionsToBDN b txs peerEndpoint =
     (case try_send (br_transactionsFromNode b) \<lparr>tf_Transactions = txs, tf_PeerEndpoint = peerEndpoint\<rparr> of
        Some c \<Rightarrow> (b\<lparr>br_transactionsFromNode := c\<rparr>, None) | None \<Rightarrow> (b, Some ErrChannelFull))"

definition SendConfirmedBlockToGateway ::
  "('tx, 'blk, 'cfg) turbo_bridge \<Rightarrow> 'blk \<Rightarrow> node_endpoint \<Rightarrow> ('tx, 'blk, 'cfg) turbo_bridge \<times> bridge_error option" where
  "SendConfirmedBlockToGateway b block peerEndpoint =
     (case try_send (br_confirmedBlockFromNode b) \<lparr>bf_Block = block, bf_PeerEndpoint = peerEndpoint\<rparr> of
        Some c \<Rightarrow> (b\<lparr>br_confirmedBlockFromNode := c\<rparr>, None) | None \<Rightarrow> (b, Some ErrChannelFull))"

definition SendBlockToBDN ::
  "('tx, 'blk, 'cfg) turbo_bridge \<Rightarrow> 'blk \<Rightarrow> node_endpoint \<Rightarrow> ('tx, 'blk, 'cfg) turbo_bridge \<times> bridge_error option" where
  "SendBlockToBDN b block peerEndpoint =
     (case try_send (br_blocksFromNode b) \<lparr>bf_Block = block, bf_PeerEndpoint = peerEndpoint\<rparr> of
        Some c \<Rightarrow> (b\<lparr>br_blocksFromNode := c\<rparr>, None) | None \<Rightarrow> (b, Some ErrChannelFull))"

definition SendBlockToNode ::
  "('tx, 'blk, 'cfg) turbo_bridge \<Rightarrow> 'blk \<Rightarrow> ('tx, 'blk, 'cfg) turbo_bridge \<times> bridge_error option" where
  "SendBlockToNode b block =
     (case try_send (br_blocksFromBDN b) block of
        Some c \<Rightarrow> (b\<lparr>br_blocksFromBDN := c\<rparr>, None) | None \<Rightarrow> (b, Some ErrChannelFull))"

definition SendNoActiveBlockchainPeersAlert ::
  "('tx, 'blk, 'cfg) turbo_bridge \<Rightarrow> ('tx, 'blk, 'cfg) turbo_bridge \<times> bridge_error option" where
  "SendNoActiveBlockchainPeersAlert b =
     (case try_send (br_noActiveBlockchainPeers b) () of
        Some c \<Rightarrow> (b\<lparr>br_noActiveBlockchainPeers := c\<rparr>, None) | None \<Rightarrow> (b, Some ErrChannelFull))"

definition SendBlockchainStatusRequest ::
  "('tx, 'blk, 'cfg) turbo_bridge \<Rightarrow> ('tx, 'blk, 'cfg) turbo_bridge \<times> bridge_error option" where
  "SendBlockchainStatusRequest b =
     (case try_send (br_blockchainStatusRequest b) () of
        Some c \<Rightarrow> (b\<lparr>br_blockchainStatusRequest := c\<rparr>, None) | None \<Rightarrow> (b, Some ErrChannelFull))"

definition SendBlockchainStatusResponse ::
  "('tx, 'blk, 'cfg) turbo_bridge \<Rightarrow> node_endpoint list \<Rightarrow> ('tx, 'blk, 'cfg) turbo_bridge \<times> bridge_error option" where
  "SendBlockchainStatusResponse b endpoints =
     (case try_send (br_blockchainStatusResponse b) endpoints of
        Some c \<Rightarrow> (b\<lparr>br_blockchainStatusResponse := c\<rparr>, None) | None \<Rightarrow> (b, Some ErrChannelFull))"

text \<open>
  A receive on the channel that a \<open>Receive...\<close> function returns: the oldest item, if there is one.
\<close>

definition ReceiveNodeTransactions where
  "ReceiveNodeTransactions b = map_option (\<lambda>(x, c). (x, b\<lparr>br_transactionsFromNode := c\<rparr>)) (ch_recv (br_transactionsFromNode b))"
definition ReceiveBDNTransactions where
  "ReceiveBDNTransactions b = map_option (\<lambda>(x, c). (x, b\<lparr>br_transactionsFromBDN := c\<rparr>)) (ch_recv (br_transactionsFromBDN b))"
definition ReceiveTransactionHashesAnnouncement where
  "ReceiveTransactionHashesAnnouncement b = map_option (\<lambda>(x, c). (x, b\<lparr>br_transactionHashesFromNode := c\<rparr>)) (ch_recv (br_transactionHashesFromNode b))"
definition ReceiveTransactionHashesRequest where
  "ReceiveTransactionHashesRequest b = map_option (\<lambda>(x, c). (x, b\<lparr>br_transactionHashesRequests := c\<rparr>)) (ch_recv (br_transactionHashesRequests b))"
definition ReceiveBlockFromNode where
  "ReceiveBlockFromNode b = map_option (\<lambda>(x, c). (x, b\<lparr>br_blocksFromNode := c\<rparr>)) (ch_recv (br_blocksFromNode b))"
definition ReceiveBlockFromBDN where
  "ReceiveBlockFromBDN b = map_option (\<lambda>(x, c). (x, b\<lparr>br_blocksFromBDN := c\<rparr>)) (ch_recv (br_blocksFromBDN b))"
definition ReceiveConfirmedBlockFromNode where
  "ReceiveConfirmedBlockFromNode b = map_option (\<lambda>(x, c). (x, b\<lparr>br_confirmedBlockFromNode := c\<rparr>)) (ch_recv (br_confirmedBlockFromNode b))"
definition ReceiveNetworkConfigUpdates where
  "ReceiveNetworkConfigUpdates b = map_option (\<lambda>(x, c). (x, b\<lparr>br_config := c\<rparr>)) (ch_recv (br_config b))"
definition ReceiveNoActiveBlockchainPeersAlert where
  "ReceiveNoActiveBlockchainPeersAlert b = map_option (\<lambda>(x, c). (x, b\<lparr>br_noActiveBlockchainPeers := c\<rparr>)) (ch_recv (br_noActiveBlockchainPeers b))"
definition ReceiveBlockchainStatusRequest where
  "ReceiveBlockchainStatusRequest b = map_option (\<lambda>(x, c). (x, b\<lparr>br_blockchainStatusRequest := c\<rparr>)) (ch_recv (br_blockchainStatusRequest b))"
definition ReceiveBlockchainStatusResponse where
  "ReceiveBlockchainStatusResponse b = map_option (\<lambda>(x, c). (x, b\<lparr>br_blockchainStatusResponse := c\<rparr>)) (ch_recv (br_blockchainStatusResponse b))"

section \<open>Runs of the bridge\<close>

datatype ('tx, 'blk, 'cfg) bridge_event =
    EvUpdateNetworkConfig 'cfg
  | EvAnnounceTransactionHashes string "hash list"
  | EvRequestTransactionsFromNode string "hash list"
  | EvSendTransactionsFromBDN "'tx list"
  | EvSendTransactionsToBDN "'tx list" node_endpoint
  | EvSendConfirmedBlockToGateway 'blk node_endpoint
  | EvSendBlockToBDN 'blk node_endpoint
  | EvSendBlockToNode 'blk
  | EvSendNoActiveBlockchainPeersAlert
  | EvSendBlockchainStatusRequest
  | EvSendBlockchainStatusResponse "node_endpoint list"
  | EvReceiveNodeTransactions | EvReceiveBDNTransactions | EvReceiveTransactionHashesAnnouncement
  | EvReceiveTransactionHashesRequest | EvReceiveBlockFromNode | EvReceiveBlockFromBDN
  | EvReceiveConfirmedBlockFromNode | EvReceiveNetworkConfigUpdates
  | EvReceiveNoActiveBlockchainPeersAlert | EvReceiveBlockchainStatusRequest
  | EvReceiveBlockchainStatusResponse | EvWaitConfig | EvWaitAlert

definition after_recv :: "'b \<Rightarrow> ('a \<times> 'b) option \<Rightarrow> 'b" where
  "after_recv b r = (case r of None \<Rightarrow> b | Some (x, b') \<Rightarrow> b')"

text \<open>A receive on an empty channel and a blocked configuration update leave the bridge as it is.\<close>

fun bridge_step :: "('tx, 'blk, 'cfg) turbo_bridge \<Rightarrow> ('tx, 'blk, 'cfg) bridge_event \<Rightarrow> ('tx, 'blk, 'cfg) turbo_bridge" where
  "bridge_step b (EvUpdateNetworkConfig c) = (case UpdateNetworkConfig b c of None \<Rightarrow> b | Some b' \<Rightarrow> b')"
| "bridge_step b (EvAnnounceTransactionHashes p hs) = fst (AnnounceTransactionHashes b p hs)"
| "bridge_step b (EvRequestTransactionsFromNode p hs) = fst (RequestTransactionsFromNode b p hs)"
| "bridge_step b (EvSendTransactionsFromBDN txs) = fst (SendTransactionsFromBDN b txs)"
| "bridge_step b (EvSendTransactionsToBDN txs e) = fst (SendTransactionsToBDN b txs e)"
| "bridge_step b (EvSendConfirmedBlockToGateway k e) = fst (SendConfirmedBlockToGateway b k e)"
| "bridge_step b (EvSendBlockToBDN k e) = fst (SendBlockToBDN b k e)"
| "bridge_step b (EvSendBlockToNode k) = fst (SendBlockToNode b k)"
| "bridge_step b EvSendNoActiveBlockchainPeersAlert = fst (SendNoActiveBlockchainPeersAlert b)"
| "bridge_step b EvSendBlockchainStatusRequest = fst (SendBlockchainStatusRequest b)"
| "bridge_step b (EvSendBlockchainStatusResponse es) = fst (SendBlockchainStatusResponse b es)"
| "bridge_step b EvReceiveNodeTransactions = after_recv b (ReceiveNodeTransactions b)"
| "bridge_step b EvReceiveBDNTransactions = after_recv b (ReceiveBDNTransactions b)"
| "bridge_step b EvReceiveTransactionHashesAnnouncement = after_recv b (ReceiveTransactionHashesAnnouncement b)"
| "bridge_step b EvReceiveTransactionHashesRequest = after_recv b (ReceiveTransactionHashesRequest b)"
| "bridge_step b EvReceiveBlockFromNode = after_recv b (ReceiveBlockFromNode b)"
| "bridge_step b EvReceiveBlockFromBDN = after_recv b (ReceiveBlockFromBDN b)"
| "bridge_step b EvReceiveConfirmedBlockFromNode = after_recv b (ReceiveConfirmedBlockFromNode b)"
| "bridge_step b EvReceiveNetworkConfigUpdates = after_recv b (ReceiveNetworkConfigUpdates b)"
| "bridge_step b EvReceiveNoActiveBlockchainPeersAlert = after_recv b (ReceiveNoActiveBlockchainPeersAlert b)"
| "bridge_step b EvReceiveBlockchainStatusRequest = after_recv b (ReceiveBlockchainStatusRequest b)"
| "bridge_step b EvReceiveBlockchainStatusResponse = after_recv b (ReceiveBlockchainStatusResponse b)"
| "bridge_step b EvWaitConfig = b\<lparr>br_config := ch_wait (br_config b)\<rparr>"
| "bridge_step b EvWaitAlert = b\<lparr>br_noActiveBlockchainPeers := ch_wait (br_noActiveBlockchainPeers b)\<rparr>"

text \<open>A channel with a buffer of \<open>n\<close> that never exceeds it; one without holds at most what is waited for.\<close>

definition buffered :: "nat \<Rightarrow> 'a chan \<Rightarrow> bool" where
  "buffered n c \<longleftrightarrow> ch_cap c = n \<and> ch_waiting c = 0 \<and> length (ch_items c) \<le> n"

definition unbuffered :: "'a chan \<Rightarrow> bool" where
  "unbuffered c \<longleftrightarrow> ch_cap c = 0 \<and> length (ch_items c) \<le> ch_waiting c"

lemma buffered_ops:
  "buffered n (make_chan n)"
  "buffered n c \<Longrightarrow> try_send c x = Some c' \<Longrightarrow> buffered n c'"
  "buffered n c \<Longrightarrow> ch_recv c = Some (y, c') \<Longrightarrow> buffered n c'"
  by (auto simp: buffered_def make_chan_def try_send_def ch_room_def ch_recv_def split: if_splits list.splits)

lemma unbuffered_ops:
  "unbuffered (make_chan 0)" "unbuffered c \<Longrightarrow> unbuffered (ch_wait c)"
  "unbuffered c \<Longrightarrow> try_send c x = Some c' \<Longrightarrow> unbuffered c'"
  "unbuffered c \<Longrightarrow> ch_recv c = Some (y, c') \<Longrightarrow> unbuffered c'"
  by (auto simp: unbuffered_def make_chan_def try_send_def ch_room_def ch_recv_def ch_wait_def split: if_splits list.splits)

definition bridge_ok :: "('tx, 'blk, 'cfg) turbo_bridge \<Rightarrow> bool" where
  "bridge_ok b \<longleftrightarrow> unbuffered (br_config b) \<and> buffered transactionBacklog (br_transactionsFromNode b) \<and>
     buffered transactionBacklog (br_transactionsFromBDN b) \<and>
     buffered transactionHashesBacklog (br_transactionHashesFromNode b) \<and>
     buffered transactionHashesBacklog (br_transactionHashesRequests b) \<and>
     buffered blockBacklog (br_blocksFromNode b) \<and> buffered blockBacklog (br_blocksFromBDN b) \<and>
     buffered blockBacklog (br_confirmedBlockFromNode b) \<and> unbuffered (br_noActiveBlockchainPeers b) \<and>
     buffered statusBacklog (br_blockchainStatusRequest b) \<and> buffered statusBacklog (br_blockchainStatusResponse b)"

lemmas bridge_sends = UpdateNetworkConfig_def AnnounceTransactionHashes_def RequestTransactionsFromNode_def
  SendTransactionsFromBDN_def SendTransactionsToBDN_def SendConfirmedBlockToGateway_def SendBlockToBDN_def
  SendBlockToNode_def SendNoActiveBlockchainPeersAlert_def SendBlockchainStatusRequest_def
  SendBlockchainStatusResponse_def

lemmas bridge_receives = after_recv_def ReceiveNodeTransactions_def ReceiveBDNTransactions_def
  ReceiveTransactionHashesAnnouncement_def ReceiveTransactionHashesRequest_def ReceiveBlockFromNode_def
  ReceiveBlockFromBDN_def ReceiveConfirmedBlockFromNode_def ReceiveNetworkConfigUpdates_def
  ReceiveNoActiveBlockchainPeersAlert_def ReceiveBlockchainStatusRequest_def ReceiveBlockchainStatusResponse_def

lemma bridge_ok_step: "bridge_ok b \<Longrightarrow> bridge_ok (bridge_step b e)"
  unfolding bridge_ok_def
  by (cases e; simp add: bridge_sends bridge_receives split: option.split;
      blast intro: buffered_ops unbuffered_ops)

lemma bridge_ok_new: "bridge_ok NewTurboBridge"
  by (simp add: bridge_ok_def NewTurboBridge_def buffered_ops unbuffered_ops)

interpretation bridge: step_machine NewTurboBridge "\<lambda>b e. Inr (bridge_step b e)" "\<lambda>b e. True" bridge_ok
  by unfold_locales (auto simp: bridge_ok_new bridge_ok_step)

lemma go_run_total: "go_run (\<lambda>b e. Inr (f b e)) b es = Inr (foldl f b es)"
  by (induction es arbitrary: b) simp_all

lemma go_admitted_all: "go_admitted step (\<lambda>s e. True) s es"
  by (induction es arbitrary: s) (auto split: sum.split)

text \<open>
  Whatever sends, receives and waits happen on a new bridge, no channel holds more than its
  backlog, and the channels without a buffer hold no more than there are waiting receivers.
\<close>

lemma bridge_bounded:
  "bridge_ok (foldl bridge_step NewTurboBridge es)"
  using bridge.inv_reachable [OF go_admitted_all go_run_total] .

text \<open>The events as the channel of the blocks from the node sees them.\<close>

fun block_events :: "('tx, 'blk, 'cfg) bridge_event list \<Rightarrow> 'blk block_from_node ch_event list" where
  "block_events [] = []"
| "block_events (EvSendBlockToBDN k e # es) = ChSend \<lparr>bf_Block = k, bf_PeerEndpoint = e\<rparr> # block_events es"
| "block_events (EvReceiveBlockFromNode # es) = ChRecv # block_events es"
| "block_events (e # es) = block_events es"

lemma bridge_blocks_step:
  "br_blocksFromNode (bridge_step b e) = fst (fifo_run try_send ch_recv ch_wait (br_blocksFromNode b) (block_events [e]))"
  by (cases e) (simp_all add: bridge_sends bridge_receives split: option.split)

lemma block_events_Cons: "block_events (e # es) = block_events [e] @ block_events es"
  by (cases e) simp_all

lemma fifo_run_append:
  "fifo_run send recv wait c (xs @ ys) =
     (let (d, acc, rcv) = fifo_run send recv wait c xs; (d', acc', rcv') = fifo_run send recv wait d ys
      in (d', acc @ acc', rcv @ rcv'))"
  by (induction send recv wait c xs rule: fifo_run.induct) (auto split: prod.splits option.splits)

lemma bridge_blocks_run:
  "br_blocksFromNode (foldl bridge_step b es) = fst (fifo_run try_send ch_recv ch_wait (br_blocksFromNode b) (block_events es))"
proof (induction es arbitrary: b)
  case Nil
  then show ?case by simp
next
  case (Cons e es)
  then show ?case
    unfolding block_events_Cons [of e es] fifo_run_append
    by (simp add: bridge_blocks_step split: prod.splits)
qed

text \<open>
  Blocks cross the bridge in order and without loss: whatever else happens, the blocks from the
  node that were accepted are those received so far, in the same order, followed by those in the channel.
\<close>

lemma bridge_blocks_in_order:
  assumes "fifo_run try_send ch_recv ch_wait (make_chan blockBacklog) (block_events es) = (d, accepted, received)"
  shows "br_blocksFromNode (foldl bridge_step NewTurboBridge es) = d \<and> accepted = received @ ch_items d"
  using ch.run_fifo [OF assms] bridge_blocks_run [of NewTurboBridge es] assms
  by (simp add: NewTurboBridge_def make_chan_def)

lemma bridge_blocks_in_order_example:
  "\<exists>d. br_blocksFromNode (foldl bridge_step NewTurboBridge
       [EvSendBlockToBDN (1::nat) \<lparr>ep_IP = [], ep_Port = 0, ep_PublicKey = []\<rparr>, EvSendBlockToNode 9,
        EvSendBlockToBDN 2 \<lparr>ep_IP = [], ep_Port = 0, ep_PublicKey = []\<rparr>, EvReceiveBlockFromNode]) = d \<and>
     map bf_Block (ch_items d) = [2]"
proof -
  let ?e = "\<lparr>ep_IP = [], ep_Port = 0, ep_PublicKey = []\<rparr> :: node_endpoint"
  let ?es = "[EvSendBlockToBDN (1::nat) ?e, EvSendBlockToNode 9, EvSendBlockToBDN 2 ?e, EvReceiveBlockFromNode]"
  have "fifo_run try_send ch_recv ch_wait (make_chan blockBacklog) (block_events ?es) =
      (\<lparr>ch_items = [\<lparr>bf_Block = 2, bf_PeerEndpoint = ?e\<rparr>], ch_cap = blockBacklog, ch_waiting = 0\<rparr>,
       [\<lparr>bf_Block = 1, bf_PeerEndpoint = ?e\<rparr>, \<lparr>bf_Block = 2, bf_PeerEndpoint = ?e\<rparr>], [\<lparr>bf_Block = 1, bf_PeerEndpoint = ?e\<rparr>])"
    by (simp add: make_chan_def try_send_def ch_room_def ch_recv_def blockBacklog_def)
  from conjunct1 [OF bridge_blocks_in_order [OF this]] show ?thesis
    by (intro exI conjI) (assumption, simp)
qed

end
