(* ===== verification/Eth_Peer.thy ===== *)
theory Eth_Peer
  imports Blocks Bridge
begin

text \<open>
  A connection to an Ethereum node, \<^verbatim>\<open>blockchain/eth/peer.go\<close>: the handshake, requests and their
  responses, and the loop that decides when a block is sent to the node.
\<close>

section \<open>Messages of the Ethereum protocol\<close>

text \<open>The message codes of go-ethereum, by name.\<close>

datatype eth_code = StatusMsg | NewBlockHashesMsg | TransactionsMsg | GetBlockHeadersMsg | BlockHeadersMsg
  | GetBlockBodiesMsg | BlockBodiesMsg | NewBlockMsg | GetNodeDataMsg | NodeDataMsg | GetReceiptsMsg | ReceiptsMsg
  | NewPooledTransactionHashesMsg | GetPooledTransactionsMsg | PooledTransactionsMsg | OtherMsg u64

definition ETH65 :: nat where "ETH65 = 65"
definition ETH66 :: nat where "ETH66 = 66"

record status_packet =
  st_ProtocolVersion :: u32
  st_NetworkID :: u64
  st_TD :: "int option"
  st_Head :: hash
  st_Genesis :: hash
  st_ForkID :: "byte list \<times> u64"

record get_headers =
  gh_Origin :: hash_or_number
  gh_Amount :: u64
  gh_Skip :: u64
  gh_Reverse :: bool

record ('t, 'x) new_block =
  nb_Block :: "('t, 'x) eth_block"
  nb_TD :: "int option"

datatype ('t, 'x) eth_packet =
    StatusPacket status_packet
  | NewBlockPacket "('t, 'x) new_block"
  | NewBlockHashesPacket "(hash \<times> u64) list"
  | TransactionsPacket "'t list"
  | NewPooledTransactionHashesPacket "hash list"
  | GetPooledTransactionsPacket "hash list"
  | GetPooledTransactionsPacket66 u64 "hash list"
  | PooledTransactionsPacket "'t list"
  | PooledTransactionsPacket66 u64 "'t list"
  | GetBlockHeadersPacket get_headers
  | GetBlockHeadersPacket66 u64 get_headers
  | BlockHeadersPacket "'x eth_header option list"
  | BlockHeadersPacket66 u64 "'x eth_header option list"
  | GetBlockBodiesPacket "hash list"
  | GetBlockBodiesPacket66 u64 "hash list"
  | BlockBodiesPacket "('t, 'x) eth_body list"
  | BlockBodiesPacket66 u64 "('t, 'x) eth_body list"

text \<open>
  The p2p layer is go-ethereum's. A message that was read has a code, a size and the result of
  decoding it into the type the handler asks for. A peer keeps the messages it handed to \<open>p2p.Send\<close>;
  how the connection answers is a function \<open>W\<close> of the earlier messages and the new one, \<^term>\<open>None\<close>
  for success.
\<close>

type_synonym ('t, 'x) eth_msg = "eth_code \<times> ('t, 'x) eth_packet"

type_synonym ('t, 'x) wire = "('t, 'x) eth_msg list \<Rightarrow> ('t, 'x) eth_msg \<Rightarrow> string option"

record 'p p2p_msg =
  m_Code :: eth_code
  m_Size :: u32
  m_Decode :: "string + 'p"

section \<open>The peer\<close>

definition maxMessageSize :: u32 where "maxMessageSize = 10 * 1024 * 1024"
definition responseQueueSize :: nat where "responseQueueSize = 10"
definition fastBlockConfirmationInterval :: duration where "fastBlockConfirmationInterval = 200 * 1000000"
definition fastBlockConfirmationAttempts :: nat where "fastBlockConfirmationAttempts = 5"
definition slowBlockConfirmationInterval :: duration where "slowBlockConfirmationInterval = 1 * Second"
definition headChannelBacklog :: nat where "headChannelBacklog = 10"
definition blockChannelBacklog :: nat where "blockChannelBacklog = 10"
definition blockQueueMaxSize :: nat where "blockQueueMaxSize = 50"

datatype peer_error = ErrUnknownRequestID | SendError string

text \<open>
  A response channel is a number, \<^term>\<open>None\<close> the nil channel. \<open>p_confirmers\<close> holds the running
  confirmation goroutines: the block they wait for and the number of requests they have made.
\<close>

record ('t, 'x) peer =
  p_id :: string
  p_version :: nat
  p_endpoint :: node_endpoint
  p_disconnected :: bool
  p_checkpointPassed :: bool
  p_responseQueue :: "nat option chan"
  p_responseQueue66 :: "u64 \<rightharpoonup> nat option"
  p_newHeadCh :: "block_ref chan"
  p_newBlockCh :: "('t, 'x) new_block chan"
  p_confirmedHead :: block_ref
  p_sentHead :: block_ref
  p_queuedBlocks :: "('t, 'x) new_block list"
  p_requestConfirmations :: bool
  p_stopped :: bool
  p_confirmers :: "(block_ref \<times> nat) list"
  p_written :: "('t, 'x) eth_msg list"

definition newPeer :: "string \<Rightarrow> node_endpoint \<Rightarrow> nat \<Rightarrow> ('t, 'x) peer" where
  "newPeer pid endpoint version =
     \<lparr>p_id = pid, p_version = version, p_endpoint = endpoint, p_disconnected = False, p_checkpointPassed = False,
      p_responseQueue = make_chan responseQueueSize, p_responseQueue66 = Map.empty,
      p_newHeadCh = make_chan headChannelBacklog, p_newBlockCh = make_chan blockChannelBacklog,
      p_confirmedHead = zero_ref, p_sentHead = zero_ref, p_queuedBlocks = [], p_requestConfirmations = True,
      p_stopped = False, p_confirmers = [], p_written = []\<rparr>"

definition Disconnect :: "('t, 'x) peer \<Rightarrow> ('t, 'x) peer" where
  "Disconnect ep = ep\<lparr>p_disconnected := True\<rparr>"

definition peer_Stop :: "('t, 'x) peer \<Rightarrow> ('t, 'x) peer" where
  "peer_Stop ep = ep\<lparr>p_stopped := True\<rparr>"

definition isVersion66 :: "('t, 'x) peer \<Rightarrow> bool" where
  "isVersion66 ep \<longleftrightarrow> p_version ep \<ge> ETH66"

definition peer_send ::
  "('t, 'x) wire \<Rightarrow> ('t, 'x) peer \<Rightarrow> eth_code \<Rightarrow> ('t, 'x) eth_packet \<Rightarrow> ('t, 'x) peer \<times> string option" where
  "peer_send W ep msgCode data =
     (if p_disconnected ep then (ep, None)
      else (ep\<lparr>p_written := p_written ep @ [(msgCode, data)]\<rparr>, W (p_written ep) (msgCode, data)))"

text \<open>A send on a full channel blocks: \<^term>\<open>None\<close>.\<close>

definition registerForResponse :: "('t, 'x) peer \<Rightarrow> nat option \<Rightarrow> ('t, 'x) peer option" where
  "registerForResponse ep responseCh =
     map_option (\<lambda>q. ep\<lparr>p_responseQueue := q\<rparr>) (try_send (p_responseQueue ep) responseCh)"

definition registerForResponse66 :: "('t, 'x) peer \<Rightarrow> u64 \<Rightarrow> nat option \<Rightarrow> ('t, 'x) peer" where
  "registerForResponse66 ep requestID responseCh =
     ep\<lparr>p_responseQueue66 := (p_responseQueue66 ep)(requestID \<mapsto> responseCh)\<rparr>"

definition RequestBlockHeaderRaw ::
  "('t, 'x) wire \<Rightarrow> ('t, 'x) peer \<Rightarrow> u64 \<Rightarrow> hash_or_number \<Rightarrow> u64 \<Rightarrow> u64 \<Rightarrow> bool \<Rightarrow> nat option \<Rightarrow>
     (('t, 'x) peer \<times> string option) option" where
  "RequestBlockHeaderRaw W ep requestID origin amount skip reverse responseCh =
     (let packet = \<lparr>gh_Origin = origin, gh_Amount = amount, gh_Skip = skip, gh_Reverse = reverse\<rparr>
      in if isVersion66 ep
         then Some (peer_send W (registerForResponse66 ep requestID responseCh) GetBlockHeadersMsg
                (GetBlockHeadersPacket66 requestID packet))
         else map_option (\<lambda>ep1. peer_send W ep1 GetBlockHeadersMsg (GetBlockHeadersPacket packet))
                (registerForResponse ep responseCh))"

definition RequestBlockHeader ::
  "('t, 'x) wire \<Rightarrow> ('t, 'x) peer \<Rightarrow> u64 \<Rightarrow> hash \<Rightarrow> (('t, 'x) peer \<times> string option) option" where
  "RequestBlockHeader W ep requestID h =
     RequestBlockHeaderRaw W ep requestID \<lparr>hn_Hash = h, hn_Number = 0\<rparr> 1 0 False None"

definition block_ref_of :: "'x header_hash \<Rightarrow> ('t, 'x) eth_block \<Rightarrow> block_ref" where
  "block_ref_of HH b = \<lparr>ref_height = NumberU64 b, ref_hash = block_Hash HH b\<rparr>"

text \<open>Sending a block starts a goroutine that asks for the block's header until the peer confirms it.\<close>

definition sendNewBlock ::
  "('t, 'x) wire \<Rightarrow> 'x header_hash \<Rightarrow> ('t, 'x) peer \<Rightarrow> ('t, 'x) new_block \<Rightarrow> ('t, 'x) peer \<times> string option" where
  "sendNewBlock W HH ep packet =
     (case peer_send W ep NewBlockMsg (NewBlockPacket packet) of
        (ep1, Some err) \<Rightarrow> (ep1, Some err)
      | (ep1, None) \<Rightarrow>
          (if p_requestConfirmations ep1
           then (ep1\<lparr>p_confirmers := p_confirmers ep1 @ [(block_ref_of HH (nb_Block packet), 0)]\<rparr>, None)
           else (ep1, None)))"

definition confirmer_interval :: "nat \<Rightarrow> duration" where
  "confirmer_interval count' =
     (if count' < fastBlockConfirmationAttempts then fastBlockConfirmationInterval else slowBlockConfirmationInterval)"

text \<open>One tick of the \<open>i\<close>-th confirmation goroutine, which ends when the peer has reached the height.\<close>

definition confirmer_tick ::
  "('t, 'x) wire \<Rightarrow> ('t, 'x) peer \<Rightarrow> nat \<Rightarrow> u64 \<Rightarrow> ('t, 'x) peer option" where
  "confirmer_tick W ep i requestID =
     (if length (p_confirmers ep) \<le> i then None
      else case p_confirmers ep ! i of (block, count') \<Rightarrow>
        let done' = ep\<lparr>p_confirmers := take i (p_confirmers ep) @ drop (Suc i) (p_confirmers ep)\<rparr>
        in if ref_height (p_confirmedHead ep) \<ge> ref_height block then Some done'
           else (case RequestBlockHeader W ep requestID (ref_hash block) of
                   None \<Rightarrow> None
                 | Some (ep1, Some err) \<Rightarrow>
                     Some (ep1\<lparr>p_confirmers := take i (p_confirmers ep) @ drop (Suc i) (p_confirmers ep)\<rparr>)
                 | Some (ep1, None) \<Rightarrow> Some (ep1\<lparr>p_confirmers := (p_confirmers ep)[i := (block, count' + 1)]\<rparr>)))"

section \<open>The block loop\<close>

definition sendTopBlock :: "('t, 'x) wire \<Rightarrow> 'x header_hash \<Rightarrow> ('t, 'x) peer \<Rightarrow> ('t, 'x) peer go" where
  "sendTopBlock W HH ep =
     (case p_queuedBlocks ep of [] \<Rightarrow> Inl IndexOutOfRange
      | block # rest \<Rightarrow>
          Inr (fst (sendNewBlock W HH (ep\<lparr>p_queuedBlocks := rest, p_sentHead := block_ref_of HH (nb_Block block)\<rparr>) block)))"

text \<open>The scan over the queue after a new head: where to cut the queue and whether to release a block.\<close>

definition is_next :: "block_ref \<Rightarrow> ('t, 'x) new_block \<Rightarrow> bool" where
  "is_next head' nb \<longleftrightarrow> NumberU64 (nb_Block nb) = ref_height head' + 1 \<and>
     ParentHash (blk_header (nb_Block nb)) = ref_hash head'"

fun release_scan :: "block_ref \<Rightarrow> ('t, 'x) new_block list \<Rightarrow> int \<Rightarrow> int \<Rightarrow> int \<times> bool" where
  "release_scan confirmedHead [] i breakpoint = (breakpoint, False)"
| "release_scan confirmedHead (qb # qbs) i breakpoint =
     (let nextHeight = (NumberU64 (nb_Block qb) = ref_height confirmedHead + 1);
          exceedsHeight = (NumberU64 (nb_Block qb) > ref_height confirmedHead + 1)
      in if is_next confirmedHead qb then (i, True)
         else (let breakpoint1 = (if nextHeight then i else breakpoint)
               in if exceedsHeight then (if breakpoint1 = -1 then i else breakpoint1, False)
                  else release_scan confirmedHead qbs (i + 1) breakpoint1))"

definition on_newHead :: "('t, 'x) wire \<Rightarrow> 'x header_hash \<Rightarrow> ('t, 'x) peer \<Rightarrow> block_ref \<Rightarrow> ('t, 'x) peer go" where
  "on_newHead W HH ep newHead =
     (if ref_height newHead < ref_height (p_confirmedHead ep) then Inr ep
      else (let ep1 = ep\<lparr>p_confirmedHead := newHead\<rparr>;
                ep2 = (if ref_height newHead \<ge> ref_height (p_sentHead ep1) then ep1\<lparr>p_sentHead := newHead\<rparr> else ep1);
                (bp, releaseBlock) = release_scan newHead (p_queuedBlocks ep2) 0 (-1);
                breakpoint = (if bp = -1 then int (length (p_queuedBlocks ep2)) else bp);
                ep3 = ep2\<lparr>p_queuedBlocks := drop (nat breakpoint) (p_queuedBlocks ep2)\<rparr>
            in if releaseBlock then sendTopBlock W HH ep3 else Inr ep3))"

text \<open>The insertion point: the loop has no \<open>break\<close>, so the last higher block counts.\<close>

fun insertion_scan :: "u64 \<Rightarrow> ('t, 'x) new_block list \<Rightarrow> nat \<Rightarrow> nat \<Rightarrow> nat" where
  "insertion_scan number [] i insertionPoint = insertionPoint"
| "insertion_scan number (block # blocks) i insertionPoint =
     insertion_scan number blocks (Suc i) (if NumberU64 (nb_Block block) > number then i else insertionPoint)"

definition queue_insert :: "('t, 'x) new_block list \<Rightarrow> ('t, 'x) new_block \<Rightarrow> ('t, 'x) new_block list" where
  "queue_insert queue newBlock =
     (let insertionPoint = insertion_scan (NumberU64 (nb_Block newBlock)) queue 0 (length queue);
          queue1 = take insertionPoint queue @ [newBlock] @ drop insertionPoint queue
      in if length queue1 > blockQueueMaxSize then drop (length queue1 - blockQueueMaxSize) queue1 else queue1)"

definition on_newBlock :: "('t, 'x) wire \<Rightarrow> 'x header_hash \<Rightarrow> ('t, 'x) peer \<Rightarrow> ('t, 'x) new_block \<Rightarrow> ('t, 'x) peer" where
  "on_newBlock W HH ep newBlock =
     (let newBlockNumber = NumberU64 (nb_Block newBlock);
          parentHash = ParentHash (blk_header (nb_Block newBlock))
      in if newBlockNumber \<le> ref_height (p_sentHead ep) \<and> ref_height (p_sentHead ep) \<noteq> 0 then ep
         else (let nextBlock = is_next (p_confirmedHead ep) newBlock;
                   initialBlock = (ref_height (p_confirmedHead ep) = 0 \<and> ref_height (p_sentHead ep) = 0 \<and>
                                   parentHash = ref_hash (p_confirmedHead ep))
               in if nextBlock \<or> initialBlock
                  then (fst (sendNewBlock W HH ep newBlock))\<lparr>p_sentHead := block_ref_of HH (nb_Block newBlock)\<rparr>
                  else ep\<lparr>p_queuedBlocks := queue_insert (p_queuedBlocks ep) newBlock\<rparr>))"

text \<open>One round of the loop: it takes a head or a block from its channels, in either order.\<close>

definition blockLoop_head :: "('t, 'x) wire \<Rightarrow> 'x header_hash \<Rightarrow> ('t, 'x) peer \<Rightarrow> ('t, 'x) peer go option" where
  "blockLoop_head W HH ep =
     map_option (\<lambda>(newHead, c). on_newHead W HH (ep\<lparr>p_newHeadCh := c\<rparr>) newHead) (ch_recv (p_newHeadCh ep))"

definition blockLoop_block :: "('t, 'x) wire \<Rightarrow> 'x header_hash \<Rightarrow> ('t, 'x) peer \<Rightarrow> ('t, 'x) peer go option" where
  "blockLoop_block W HH ep =
     map_option (\<lambda>(newBlock, c). Inr (on_newBlock W HH (ep\<lparr>p_newBlockCh := c\<rparr>) newBlock)) (ch_recv (p_newBlockCh ep))"

section \<open>Handshake\<close>

datatype handshake_error = ReadError string | UnexpectedFirstMessage eth_code | MessageTooBig u32
  | CouldNotDecodeStatus string | NetworkMismatch u64 u64 | VersionMismatch u32 u32 | GenesisMismatch hash hash

text \<open>The result of \<open>ReadMsg\<close> is an argument.\<close>

definition readStatus :: "string + status_packet p2p_msg \<Rightarrow> handshake_error + status_packet" where
  "readStatus r =
     (case r of Inl err \<Rightarrow> Inl (ReadError err)
      | Inr msg \<Rightarrow>
          if m_Code msg \<noteq> StatusMsg then Inl (UnexpectedFirstMessage (m_Code msg))
          else if m_Size msg > maxMessageSize then Inl (MessageTooBig (m_Size msg))
          else (case m_Decode msg of Inl err \<Rightarrow> Inl (CouldNotDecodeStatus err) | Inr status \<Rightarrow> Inr status))"

definition Handshake ::
  "('t, 'x) wire \<Rightarrow> ('t, 'x) peer \<Rightarrow> string + status_packet p2p_msg \<Rightarrow> u32 \<Rightarrow> u64 \<Rightarrow> int option \<Rightarrow> hash \<Rightarrow> hash \<Rightarrow>
     ('t, 'x) peer \<times> (handshake_error + status_packet)" where
  "Handshake W ep r version network td head' genesis =
     (case readStatus r of Inl err \<Rightarrow> (ep, Inl err)
      | Inr peerStatus \<Rightarrow>
          (let ep1 = ep\<lparr>p_confirmedHead := \<lparr>ref_height = 0, ref_hash = head'\<rparr>\<rparr>;
               (ep2, err) = peer_send W ep1 StatusMsg (StatusPacket \<lparr>st_ProtocolVersion = version, st_NetworkID = network,
                  st_TD = td, st_Head = head', st_Genesis = genesis, st_ForkID = st_ForkID peerStatus\<rparr>)
           in (ep2,
               if st_NetworkID peerStatus \<noteq> network then Inl (NetworkMismatch network (st_NetworkID peerStatus))
               else if st_ProtocolVersion peerStatus \<noteq> version
               then Inl (VersionMismatch version (st_ProtocolVersion peerStatus))
               else if st_Genesis peerStatus \<noteq> genesis then Inl (GenesisMismatch genesis (st_Genesis peerStatus))
               else Inr peerStatus)))"

section \<open>Requests and responses\<close>

text \<open>
  \<open>NotifyResponse\<close> waits for a registered channel (\<^term>\<open>None\<close> while there is none). The last part of
  the result is the send on the response channel, if it is not nil.
\<close>

type_synonym ('t, 'x) delivery = "(nat \<times> ('t, 'x) eth_packet) option"

definition NotifyResponse ::
  "('t, 'x) peer \<Rightarrow> ('t, 'x) eth_packet \<Rightarrow> (('t, 'x) peer \<times> bool \<times> ('t, 'x) delivery) option" where
  "NotifyResponse ep packet =
     (case ch_recv (p_responseQueue ep) of None \<Rightarrow> None
      | Some (responseCh, q) \<Rightarrow>
          Some (ep\<lparr>p_responseQueue := q\<rparr>, responseCh \<noteq> None, map_option (\<lambda>ch. (ch, packet)) responseCh))"

definition NotifyResponse66 ::
  "('t, 'x) peer \<Rightarrow> u64 \<Rightarrow> ('t, 'x) eth_packet \<Rightarrow> ('t, 'x) peer \<times> (peer_error + bool \<times> ('t, 'x) delivery)" where
  "NotifyResponse66 ep requestID packet =
     (case p_responseQueue66 ep requestID of None \<Rightarrow> (ep, Inl ErrUnknownRequestID)
      | Some responseCh \<Rightarrow>
          (ep\<lparr>p_responseQueue66 := (p_responseQueue66 ep)(requestID := None)\<rparr>,
           Inr (responseCh \<noteq> None, map_option (\<lambda>ch. (ch, packet)) responseCh)))"

definition UpdateHead :: "('t, 'x) peer \<Rightarrow> u64 \<Rightarrow> hash \<Rightarrow> ('t, 'x) peer option" where
  "UpdateHead ep height h =
     map_option (\<lambda>c. ep\<lparr>p_newHeadCh := c\<rparr>) (try_send (p_newHeadCh ep) \<lparr>ref_height = height, ref_hash = h\<rparr>)"

definition QueueNewBlock :: "('t, 'x) peer \<Rightarrow> ('t, 'x) eth_block \<Rightarrow> int option \<Rightarrow> ('t, 'x) peer option" where
  "QueueNewBlock ep block td =
     map_option (\<lambda>c. ep\<lparr>p_newBlockCh := c\<rparr>) (try_send (p_newBlockCh ep) \<lparr>nb_Block = block, nb_TD = td\<rparr>)"

definition AnnounceBlock :: "('t, 'x) wire \<Rightarrow> ('t, 'x) peer \<Rightarrow> hash \<Rightarrow> u64 \<Rightarrow> ('t, 'x) peer \<times> string option" where
  "AnnounceBlock W ep h number = peer_send W ep NewBlockHashesMsg (NewBlockHashesPacket [(h, number)])"

definition SendBlockBodies :: "('t, 'x) wire \<Rightarrow> ('t, 'x) peer \<Rightarrow> ('t, 'x) eth_body list \<Rightarrow> ('t, 'x) peer \<times> string option" where
  "SendBlockBodies W ep bodies = peer_send W ep BlockBodiesMsg (BlockBodiesPacket bodies)"

definition ReplyBlockBodies ::
  "('t, 'x) wire \<Rightarrow> ('t, 'x) peer \<Rightarrow> u64 \<Rightarrow> ('t, 'x) eth_body list \<Rightarrow> ('t, 'x) peer \<times> string option" where
  "ReplyBlockBodies W ep id' bodies = peer_send W ep BlockBodiesMsg (BlockBodiesPacket66 id' bodies)"

definition SendBlockHeaders ::
  "('t, 'x) wire \<Rightarrow> ('t, 'x) peer \<Rightarrow> 'x eth_header option list \<Rightarrow> ('t, 'x) peer \<times> string option" where
  "SendBlockHeaders W ep headers = peer_send W ep BlockHeadersMsg (BlockHeadersPacket headers)"

definition ReplyBlockHeaders ::
  "('t, 'x) wire \<Rightarrow> ('t, 'x) peer \<Rightarrow> u64 \<Rightarrow> 'x eth_header option list \<Rightarrow> ('t, 'x) peer \<times> string option" where
  "ReplyBlockHeaders W ep id' headers = peer_send W ep BlockHeadersMsg (BlockHeadersPacket66 id' headers)"

definition SendTransactions :: "('t, 'x) wire \<Rightarrow> ('t, 'x) peer \<Rightarrow> 't list \<Rightarrow> ('t, 'x) peer \<times> string option" where
  "SendTransactions W ep txs = peer_send W ep TransactionsMsg (TransactionsPacket txs)"

definition RequestTransactions ::
  "('t, 'x) wire \<Rightarrow> ('t, 'x) peer \<Rightarrow> u64 \<Rightarrow> hash list \<Rightarrow> ('t, 'x) peer \<times> string option" where
  "RequestTransactions W ep requestID txHashes =
     (if isVersion66 ep
      then peer_send W ep GetPooledTransactionsMsg (GetPooledTransactionsPacket66 requestID txHashes)
      else peer_send W ep GetPooledTransactionsMsg (GetPooledTransactionsPacket txHashes))"

text \<open>Two messages in a row; the second is not sent when the first fails.\<close>

definition send_both ::
  "('t, 'x) wire \<Rightarrow> ('t, 'x) peer \<Rightarrow> ('t, 'x) eth_packet \<Rightarrow> ('t, 'x) eth_packet \<Rightarrow> ('t, 'x) peer \<times> string option" where
  "send_both W ep getHeaders getBodies =
     (case peer_send W ep GetBlockHeadersMsg getHeaders of
        (ep1, Some err) \<Rightarrow> (ep1, Some err)
      | (ep1, None) \<Rightarrow> peer_send W ep1 GetBlockBodiesMsg getBodies)"

definition RequestBlock ::
  "('t, 'x) wire \<Rightarrow> ('t, 'x) peer \<Rightarrow> hash \<Rightarrow> nat option \<Rightarrow> nat option \<Rightarrow> (('t, 'x) peer \<times> string option) option go" where
  "RequestBlock W ep blockHash headersCh bodiesCh =
     (if isVersion66 ep then Inl (ExplicitPanic ''unexpected call to request block for a ETH66 peer'')
      else Inr (case registerForResponse ep headersCh of None \<Rightarrow> None
        | Some ep1 \<Rightarrow>
            (case registerForResponse ep1 bodiesCh of None \<Rightarrow> None
             | Some ep2 \<Rightarrow> Some (send_both W ep2
                 (GetBlockHeadersPacket \<lparr>gh_Origin = \<lparr>hn_Hash = blockHash, hn_Number = 0\<rparr>,
                    gh_Amount = 1, gh_Skip = 0, gh_Reverse = False\<rparr>)
                 (GetBlockBodiesPacket [blockHash])))))"

definition RequestBlock66 ::
  "('t, 'x) wire \<Rightarrow> ('t, 'x) peer \<Rightarrow> u64 \<Rightarrow> u64 \<Rightarrow> hash \<Rightarrow> nat option \<Rightarrow> nat option \<Rightarrow> (('t, 'x) peer \<times> string option) go" where
  "RequestBlock66 W ep getHeadersRequestID getBodiesRequestID blockHash headersCh bodiesCh =
     (if \<not> isVersion66 ep then Inl (ExplicitPanic ''unexpected call to request block 66 for a <ETH66 peer'')
      else (let ep1 = registerForResponse66 ep getHeadersRequestID headersCh;
                ep2 = registerForResponse66 ep1 getBodiesRequestID bodiesCh
            in Inr (send_both W ep2
                 (GetBlockHeadersPacket66 getHeadersRequestID
                    \<lparr>gh_Origin = \<lparr>hn_Hash = blockHash, hn_Number = 0\<rparr>, gh_Amount = 1, gh_Skip = 0, gh_Reverse = False\<rparr>)
                 (GetBlockBodiesPacket66 getBodiesRequestID [blockHash]))))"

section \<open>Properties of the block loop\<close>

lemma peer_send_fields [simp]:
  "p_confirmedHead (fst (peer_send W ep c d)) = p_confirmedHead ep"
  "p_sentHead (fst (peer_send W ep c d)) = p_sentHead ep"
  "p_queuedBlocks (fst (peer_send W ep c d)) = p_queuedBlocks ep"
  "p_written (fst (peer_send W ep c d)) = p_written ep @ (if p_disconnected ep then [] else [(c, d)])"
  by (simp_all add: peer_send_def)

lemma sendNewBlock_fields [simp]:
  "p_confirmedHead (fst (sendNewBlock W HH ep nb)) = p_confirmedHead ep"
  "p_sentHead (fst (sendNewBlock W HH ep nb)) = p_sentHead ep"
  "p_queuedBlocks (fst (sendNewBlock W HH ep nb)) = p_queuedBlocks ep"
  "p_written (fst (sendNewBlock W HH ep nb)) =
     p_written ep @ (if p_disconnected ep then [] else [(NewBlockMsg, NewBlockPacket nb)])"
  by (simp_all add: sendNewBlock_def peer_send_def split: option.split)

text \<open>What the scan finds: the child of the head, if no higher block stands before it.\<close>

lemma release_scan_range:
  "release_scan hd' qs i bp = (b, r) \<Longrightarrow> 0 \<le> i \<Longrightarrow> bp = -1 \<or> 0 \<le> bp \<and> bp < i \<Longrightarrow>
     (r \<longrightarrow> i \<le> b \<and> b < i + int (length qs) \<and> is_next hd' (qs ! nat (b - i))) \<and>
     (\<not> r \<longrightarrow> b = -1 \<or> 0 \<le> b \<and> b < i + int (length qs))"
proof (induction hd' qs i bp rule: release_scan.induct)
  case (1 hd' i bp)
  then show ?case by auto
next
  case (2 hd' qb qbs i bp)
  show ?case
  proof (cases "is_next hd' qb \<or> NumberU64 (nb_Block qb) > ref_height hd' + 1")
    case True
    with 2(2-) show ?thesis by (auto simp: Let_def split: if_splits)
  next
    case False
    let ?bp1 = "if NumberU64 (nb_Block qb) = ref_height hd' + 1 then i else bp"
    from False 2(2) have r: "release_scan hd' qbs (i + 1) ?bp1 = (b, r)" by (simp add: Let_def)
    from False have "(r \<longrightarrow> i + 1 \<le> b \<and> b < i + 1 + int (length qbs) \<and> is_next hd' (qbs ! nat (b - (i + 1)))) \<and>
        (\<not> r \<longrightarrow> b = -1 \<or> 0 \<le> b \<and> b < i + 1 + int (length qbs))"
      using 2(1) [OF refl refl _ refl _ r] 2(3,4) by auto
    moreover have "(qb # qbs) ! nat (b - i) = qbs ! nat (b - (i + 1))" if "i + 1 \<le> b"
    proof -
      have "nat (b - i) = Suc (nat (b - (i + 1)))" using that by simp
      then show ?thesis by simp
    qed
    ultimately show ?thesis by auto
  qed
qed

lemma release_scan_found:
  "\<forall>q \<in> set pre. \<not> is_next hd' q \<and> NumberU64 (nb_Block q) \<le> ref_height hd' + 1 \<Longrightarrow> is_next hd' nb \<Longrightarrow>
     release_scan hd' (pre @ nb # post) i bp = (i + int (length pre), True)"
  by (induction pre arbitrary: i bp) (auto simp: Let_def)

text \<open>A block above the next height stays in the queue.\<close>

lemma release_scan_keeps:
  "release_scan hd' qs i bp = (b, r) \<Longrightarrow> 0 \<le> i \<Longrightarrow> bp = -1 \<or> 0 \<le> bp \<and> bp < i \<Longrightarrow> k < length qs \<Longrightarrow>
     NumberU64 (nb_Block (qs ! k)) > ref_height hd' + 1 \<Longrightarrow> 0 \<le> b \<and> b \<le> i + int k"
proof (induction hd' qs i bp arbitrary: k rule: release_scan.induct)
  case (1 hd' i bp)
  then show ?case by auto
next
  case (2 hd' qb qbs i bp)
  show ?case
  proof (cases "is_next hd' qb \<or> NumberU64 (nb_Block qb) > ref_height hd' + 1")
    case True
    with 2(2-) show ?thesis by (auto simp: Let_def split: if_splits)
  next
    case False
    let ?bp1 = "if NumberU64 (nb_Block qb) = ref_height hd' + 1 then i else bp"
    from False 2(2) have r: "release_scan hd' qbs (i + 1) ?bp1 = (b, r)" by (simp add: Let_def)
    from False 2(6) obtain k' where k: "k = Suc k'" by (cases k) auto
    with False have "0 \<le> b \<and> b \<le> i + 1 + int k'"
      using 2(1) [OF refl refl _ refl _ r, of k'] 2(3-6) by auto
    with k show ?thesis by simp
  qed
qed

lemma on_newHead_spec:
  obtains "ref_height h < ref_height (p_confirmedHead ep)" "on_newHead W HH ep h = Inr ep"
  | (pruned) k ep' where "ref_height (p_confirmedHead ep) \<le> ref_height h" "on_newHead W HH ep h = Inr ep'"
      "p_confirmedHead ep' = h" "p_queuedBlocks ep' = drop k (p_queuedBlocks ep)" "p_written ep' = p_written ep"
      "\<not> snd (release_scan h (p_queuedBlocks ep) 0 (-1))"
      "\<forall>j < length (p_queuedBlocks ep). NumberU64 (nb_Block (p_queuedBlocks ep ! j)) > ref_height h + 1 \<longrightarrow> k \<le> j"
  | (released) k ep' where "ref_height (p_confirmedHead ep) \<le> ref_height h" "on_newHead W HH ep h = Inr ep'"
      "p_confirmedHead ep' = h" "k < length (p_queuedBlocks ep)" "is_next h (p_queuedBlocks ep ! k)"
      "p_sentHead ep' = block_ref_of HH (nb_Block (p_queuedBlocks ep ! k))"
      "p_queuedBlocks ep' = drop (Suc k) (p_queuedBlocks ep)"
      "p_written ep' = p_written ep @ (if p_disconnected ep then [] else [(NewBlockMsg, NewBlockPacket (p_queuedBlocks ep ! k))])"
      "release_scan h (p_queuedBlocks ep) 0 (-1) = (int k, True)"
      "\<forall>j < length (p_queuedBlocks ep). NumberU64 (nb_Block (p_queuedBlocks ep ! j)) > ref_height h + 1 \<longrightarrow> k < j"
proof (cases "ref_height h < ref_height (p_confirmedHead ep)")
  case True
  then show ?thesis by (intro that(1)) (simp_all add: on_newHead_def)
next
  case stale: False
  let ?q = "p_queuedBlocks ep"
  define ep2 where "ep2 = (let ep1 = ep\<lparr>p_confirmedHead := h\<rparr> in
    if ref_height h \<ge> ref_height (p_sentHead ep1) then ep1\<lparr>p_sentHead := h\<rparr> else ep1)"
  have ep2: "p_confirmedHead ep2 = h" "p_queuedBlocks ep2 = ?q" "p_written ep2 = p_written ep" "p_disconnected ep2 = p_disconnected ep"
    by (simp_all add: ep2_def Let_def)
  obtain b r where scan: "release_scan h ?q 0 (-1) = (b, r)" by (cases "release_scan h ?q 0 (-1)")
  have eq: "on_newHead W HH ep h = (let ep3 = ep2\<lparr>p_queuedBlocks := drop (nat (if b = -1 then int (length ?q) else b)) ?q\<rparr>
      in if r then sendTopBlock W HH ep3 else Inr ep3)"
    using stale scan ep2(2) unfolding on_newHead_def Let_def ep2_def by (simp split: if_splits)
  have keep: "0 \<le> b \<and> b \<le> int j" if "j < length ?q" "NumberU64 (nb_Block (?q ! j)) > ref_height h + 1" for j
    using release_scan_keeps [OF scan] that by simp
  show ?thesis
  proof (cases r)
    case True
    then have b: "0 \<le> b" "nat b < length ?q" "is_next h (?q ! nat b)" using release_scan_range [OF scan] by auto
    have top: "drop (nat b) ?q = ?q ! nat b # drop (Suc (nat b)) ?q" using b(2) by (simp add: Cons_nth_drop_Suc)
    have "NumberU64 (nb_Block (?q ! nat b)) = ref_height h + 1" using b(3) by (simp add: is_next_def)
    then have kept: "nat b < j" if "j < length ?q" "NumberU64 (nb_Block (?q ! j)) > ref_height h + 1" for j
      using that keep [OF that] by (cases "j = nat b") auto
    let ?ep' = "fst (sendNewBlock W HH (ep2\<lparr>p_queuedBlocks := drop (Suc (nat b)) ?q,
      p_sentHead := block_ref_of HH (nb_Block (?q ! nat b))\<rparr>) (?q ! nat b))"
    have "on_newHead W HH ep h = Inr ?ep'" using eq True b(1) top by (simp add: sendTopBlock_def)
    then show ?thesis using stale b kept ep2 scan True
      by (intro released [of ?ep' "nat b"]) (auto simp: not_less)
  next
    case False
    let ?k = "nat (if b = -1 then int (length ?q) else b)"
    have "?k \<le> j" if "j < length ?q" "NumberU64 (nb_Block (?q ! j)) > ref_height h + 1" for j
      using keep [OF that] by auto
    then show ?thesis using stale eq False ep2 scan
      by (intro pruned [of "ep2\<lparr>p_queuedBlocks := drop ?k ?q\<rparr>" ?k]) (auto simp: not_less)
  qed
qed

lemma drop_keeps:
  assumes "q \<in> set qs" "\<forall>j < length qs. P (qs ! j) \<longrightarrow> k \<le> j" "P q"
  shows "q \<in> set (drop k qs)"
proof -
  from assms obtain j where "j < length qs" "qs ! j = q" "k \<le> j" by (auto simp: in_set_conv_nth)
  then have "drop k qs ! (j - k) = q" "j - k < length (drop k qs)" by auto
  then show ?thesis by (metis nth_mem)
qed

text \<open>
  C22. The loop sends a block to the peer only when the peer is ready for it. A head update sends at most
  one block, a queued child of the head the peer then has, and records it as sent; a new block is sent
  only if it is a child of the confirmed head, or builds on the head of the handshake when nothing is
  confirmed or sent yet. The loop never panics and the height of the confirmed head never falls.
\<close>

theorem peer_sends_only_next:
  "(\<exists>ep'. on_newHead W HH ep h = Inr ep' \<and> ref_height (p_confirmedHead ep) \<le> ref_height (p_confirmedHead ep') \<and>
      (p_written ep' = p_written ep \<or>
       (\<exists>nb \<in> set (p_queuedBlocks ep). is_next (p_confirmedHead ep') nb \<and> p_sentHead ep' = block_ref_of HH (nb_Block nb) \<and>
          p_written ep' = p_written ep @ [(NewBlockMsg, NewBlockPacket nb)]))) \<and>
   p_confirmedHead (on_newBlock W HH ep nb) = p_confirmedHead ep \<and>
   (p_written (on_newBlock W HH ep nb) = p_written ep \<or>
     p_written (on_newBlock W HH ep nb) = p_written ep @ [(NewBlockMsg, NewBlockPacket nb)] \<and>
     p_sentHead (on_newBlock W HH ep nb) = block_ref_of HH (nb_Block nb) \<and>
     (is_next (p_confirmedHead ep) nb \<or> ref_height (p_confirmedHead ep) = 0 \<and> ref_height (p_sentHead ep) = 0 \<and>
        ParentHash (blk_header (nb_Block nb)) = ref_hash (p_confirmedHead ep)))"
  (is "?head \<and> ?kept \<and> ?block")
proof (intro conjI)
  show ?head
  proof (cases rule: on_newHead_spec [of h ep W HH])
    case 1
    then show ?thesis by simp
  next
    case (pruned k ep')
    then show ?thesis by simp
  next
    case (released k ep')
    then show ?thesis using nth_mem [OF released(4)] by (intro exI [of _ ep']) auto
  qed
  show ?kept ?block
    by (auto simp: on_newBlock_def Let_def)
qed

text \<open>
  A head update releases the queued child of the new head when no block above the next height stands
  before it: the block is sent, everything up to it leaves the queue. Whatever the update does, the
  queued blocks above the next height stay queued.
\<close>

lemma head_update_releases:
  assumes "\<not> p_disconnected ep" "ref_height (p_confirmedHead ep) \<le> ref_height h"
    and "p_queuedBlocks ep = pre @ nb # post" "is_next h nb"
    and "\<forall>q \<in> set pre. \<not> is_next h q \<and> NumberU64 (nb_Block q) \<le> ref_height h + 1"
  shows "\<exists>ep'. on_newHead W HH ep h = Inr ep' \<and> p_queuedBlocks ep' = post \<and>
     p_confirmedHead ep' = h \<and> p_sentHead ep' = block_ref_of HH (nb_Block nb) \<and>
     p_written ep' = p_written ep @ [(NewBlockMsg, NewBlockPacket nb)] \<and>
     (\<forall>q \<in> set (p_queuedBlocks ep). NumberU64 (nb_Block q) > ref_height h + 1 \<longrightarrow> q \<in> set (p_queuedBlocks ep'))"
proof -
  have scan: "release_scan h (p_queuedBlocks ep) 0 (-1) = (int (length pre), True)"
    using release_scan_found [OF assms(5,4), of post 0 "-1"] by (simp add: assms(3))
  show ?thesis
  proof (cases rule: on_newHead_spec [of h ep W HH])
    case 1
    then show ?thesis using assms(2) by simp
  next
    case (pruned k ep')
    then show ?thesis using scan by simp
  next
    case (released k ep')
    then have k: "k = length pre" using scan by simp
    have "q \<in> set (drop (Suc k) (p_queuedBlocks ep))"
      if "q \<in> set (p_queuedBlocks ep)" "NumberU64 (nb_Block q) > ref_height h + 1" for q
      using drop_keeps [of q "p_queuedBlocks ep" "\<lambda>q. NumberU64 (nb_Block q) > ref_height h + 1" "Suc k"] that released(10)
      by (simp add: Suc_le_eq)
    then show ?thesis using released assms(1,3) k by (intro exI [of _ ep']) (auto simp: nth_append)
  qed
qed

definition ex_nb :: "int \<Rightarrow> hash \<Rightarrow> (unit, unit) new_block" where
  "ex_nb n p = \<lparr>nb_Block = \<lparr>blk_header = \<lparr>ParentHash = p, Number = n, Difficulty = 1, Time = 0, hdr_rest = ()\<rparr>,
     blk_body = \<lparr>Transactions = [], Uncles = []\<rparr>\<rparr>, nb_TD = Some 1\<rparr>"

definition ex_peer :: "(unit, unit) new_block list \<Rightarrow> (unit, unit) peer" where
  "ex_peer queue = (newPeer [] \<lparr>ep_IP = [], ep_Port = 0, ep_PublicKey = []\<rparr> 65)\<lparr>p_queuedBlocks := queue\<rparr>"

lemma ex_nb_number [simp]: "NumberU64 (nb_Block (ex_nb n p)) = word_of_int n"
  by (simp add: ex_nb_def NumberU64_def big_Uint64_def)

lemma ex_nb_next [simp]: "is_next h (ex_nb n p) \<longleftrightarrow> word_of_int n = ref_height h + 1 \<and> p = ref_hash h"
  by (simp add: is_next_def) (simp add: ex_nb_def)

lemma ex_peer_fields [simp]:
  "p_disconnected (ex_peer queue) = False" "p_confirmedHead (ex_peer queue) = zero_ref" "p_sentHead (ex_peer queue) = zero_ref"
  "p_queuedBlocks (ex_peer queue) = queue" "p_written (ex_peer queue) = []"
  by (simp_all add: ex_peer_def newPeer_def)

lemma head_update_releases_example:
  "\<exists>ep'. on_newHead (\<lambda>ms m. None) toy_hash (ex_peer [ex_nb 3 [9], ex_nb 4 [8], ex_nb 4 [7], ex_nb 5 []]) \<lparr>ref_height = 3, ref_hash = [7]\<rparr> = Inr ep' \<and>
     p_queuedBlocks ep' = [ex_nb 5 []] \<and> p_written ep' = [(NewBlockMsg, NewBlockPacket (ex_nb 4 [7]))]"
  using head_update_releases [of "ex_peer [ex_nb 3 [9], ex_nb 4 [8], ex_nb 4 [7], ex_nb 5 []]" "\<lparr>ref_height = 3, ref_hash = [7]\<rparr>"
      "[ex_nb 3 [9], ex_nb 4 [8]]" "ex_nb 4 [7]" "[ex_nb 5 []]" "\<lambda>ms m. None" toy_hash]
  by (auto simp: zero_ref_def)

text \<open>The queue when a lower block arrives.\<close>

lemma insertion_scan_last:
  "NumberU64 (nb_Block z) > n \<Longrightarrow> insertion_scan n (qs @ [z]) i ip = i + length qs"
  by (induction qs arbitrary: i ip) simp_all

lemma queue_insert_before_last:
  assumes "NumberU64 (nb_Block nb) < NumberU64 (nb_Block z)" "length qs + 2 \<le> blockQueueMaxSize"
  shows "queue_insert (qs @ [z]) nb = qs @ [nb, z]"
  using assms by (simp add: queue_insert_def insertion_scan_last)

text \<open>
  C40. The queue loses its order. A block that is lower than all of at least two queued blocks is put
  before the last of them and not in front, so the queue is no longer sorted by height; and when the head
  it builds on is confirmed, it is neither sent nor pruned, because a higher block stands before it.
\<close>

theorem queued_block_missed:
  assumes "p_queuedBlocks ep = q # qs @ [z]" "length qs + 3 \<le> blockQueueMaxSize"
    and "NumberU64 (nb_Block nb) < NumberU64 (nb_Block q)" "NumberU64 (nb_Block nb) < NumberU64 (nb_Block z)"
    and "ref_height (p_sentHead ep) < NumberU64 (nb_Block nb)" "0 < ref_height (p_confirmedHead ep)"
    and "ref_height (p_confirmedHead ep) \<le> ref_height h" "is_next h nb" "\<not> is_next (p_confirmedHead ep) nb"
  shows "p_queuedBlocks (on_newBlock W HH ep nb) = q # qs @ [nb, z] \<and>
     (\<exists>ep'. on_newHead W HH (on_newBlock W HH ep nb) h = Inr ep' \<and> p_written ep' = p_written ep \<and>
        p_queuedBlocks ep' = q # qs @ [nb, z])"
proof -
  have q: "on_newBlock W HH ep nb = ep\<lparr>p_queuedBlocks := q # qs @ [nb, z]\<rparr>"
    using assms(5,6,9) queue_insert_before_last [OF assms(4), of "q # qs"] assms(1,2)
    by (auto simp: on_newBlock_def Let_def)
  have "NumberU64 (nb_Block q) > ref_height h + 1" using assms(3,8) by (simp add: is_next_def)
  then have "release_scan h (q # qs @ [nb, z]) 0 (-1) = (0, False)" by (auto simp: is_next_def)
  with assms(7) q show ?thesis
    by (auto simp: on_newHead_def Let_def not_less simp del: release_scan.simps)
qed

theorem queued_block_missed_witness:
  "\<exists>ep'. on_newHead (\<lambda>ms m. None) toy_hash (on_newBlock (\<lambda>ms m. None) toy_hash
        (ex_peer [ex_nb 6 [], ex_nb 7 []]\<lparr>p_confirmedHead := \<lparr>ref_height = 3, ref_hash = []\<rparr>\<rparr>) (ex_nb 5 [4]))
      \<lparr>ref_height = 4, ref_hash = [4]\<rparr> = Inr ep' \<and> p_written ep' = [] \<and>
     p_queuedBlocks ep' = [ex_nb 6 [], ex_nb 5 [4], ex_nb 7 []]"
  using queued_block_missed [of "ex_peer [ex_nb 6 [], ex_nb 7 []]\<lparr>p_confirmedHead := \<lparr>ref_height = 3, ref_hash = []\<rparr>\<rparr>"
      "ex_nb 6 []" "[]" "ex_nb 7 []" "ex_nb 5 [4]" "\<lparr>ref_height = 4, ref_hash = [4]\<rparr>" "\<lambda>ms m. None" toy_hash]
  by (simp add: blockQueueMaxSize_def zero_ref_def)

section \<open>Runs of a peer\<close>

datatype ('t, 'x) peer_event =
    PvUpdateHead u64 hash
  | PvQueueNewBlock "('t, 'x) eth_block" "int option"
  | PvLoopHead
  | PvLoopBlock
  | PvConfirmer nat u64
  | PvRequestHeader u64 hash_or_number u64 u64 bool "nat option"
  | PvNotifyResponse "('t, 'x) eth_packet"
  | PvDisconnect

text \<open>An event that blocks leaves the peer as it is.\<close>

fun peer_step ::
  "('t, 'x) wire \<Rightarrow> 'x header_hash \<Rightarrow> ('t, 'x) peer \<Rightarrow> ('t, 'x) peer_event \<Rightarrow> ('t, 'x) peer go" where
  "peer_step W HH ep (PvUpdateHead height h) = Inr (case UpdateHead ep height h of None \<Rightarrow> ep | Some ep' \<Rightarrow> ep')"
| "peer_step W HH ep (PvQueueNewBlock b td) = Inr (case QueueNewBlock ep b td of None \<Rightarrow> ep | Some ep' \<Rightarrow> ep')"
| "peer_step W HH ep PvLoopHead = (case blockLoop_head W HH ep of None \<Rightarrow> Inr ep | Some r \<Rightarrow> r)"
| "peer_step W HH ep PvLoopBlock = (case blockLoop_block W HH ep of None \<Rightarrow> Inr ep | Some r \<Rightarrow> r)"
| "peer_step W HH ep (PvConfirmer i rid) = Inr (case confirmer_tick W ep i rid of None \<Rightarrow> ep | Some ep' \<Rightarrow> ep')"
| "peer_step W HH ep (PvRequestHeader rid origin amount skip reverse ch) =
     Inr (case RequestBlockHeaderRaw W ep rid origin amount skip reverse ch of None \<Rightarrow> ep | Some (ep', err) \<Rightarrow> ep')"
| "peer_step W HH ep (PvNotifyResponse packet) =
     Inr (case NotifyResponse ep packet of None \<Rightarrow> ep | Some (ep', handled, d) \<Rightarrow> ep')"
| "peer_step W HH ep PvDisconnect = Inr (Disconnect ep)"

definition peer_ok :: "('t, 'x) peer \<Rightarrow> bool" where
  "peer_ok ep \<longleftrightarrow> length (p_queuedBlocks ep) \<le> blockQueueMaxSize \<and> buffered headChannelBacklog (p_newHeadCh ep) \<and>
     buffered blockChannelBacklog (p_newBlockCh ep) \<and> buffered responseQueueSize (p_responseQueue ep)"

lemma peer_send_chans [simp]:
  "p_newHeadCh (fst (peer_send W ep c d)) = p_newHeadCh ep"
  "p_newBlockCh (fst (peer_send W ep c d)) = p_newBlockCh ep"
  "p_responseQueue (fst (peer_send W ep c d)) = p_responseQueue ep"
  "p_newHeadCh (fst (sendNewBlock W HH ep nb)) = p_newHeadCh ep"
  "p_newBlockCh (fst (sendNewBlock W HH ep nb)) = p_newBlockCh ep"
  "p_responseQueue (fst (sendNewBlock W HH ep nb)) = p_responseQueue ep"
  by (simp_all add: sendNewBlock_def peer_send_def split: option.split)

lemma queue_insert_bounded: "length (queue_insert queue nb) \<le> blockQueueMaxSize"
proof -
  have "length (if length xs > n then drop (length xs - n) xs else xs) \<le> n" for xs :: "('a, 'b) new_block list" and n
    by simp
  then show ?thesis unfolding queue_insert_def Let_def .
qed

lemma on_newHead_chans:
  "on_newHead W HH ep h = Inr ep' \<Longrightarrow> p_newHeadCh ep' = p_newHeadCh ep \<and> p_newBlockCh ep' = p_newBlockCh ep \<and>
     p_responseQueue ep' = p_responseQueue ep"
  by (auto simp: on_newHead_def Let_def sendTopBlock_def split: if_splits prod.splits list.splits)

lemma on_newHead_queue: "on_newHead W HH ep h = Inr ep' \<Longrightarrow> length (p_queuedBlocks ep') \<le> length (p_queuedBlocks ep)"
  by (cases rule: on_newHead_spec [of h ep W HH]) auto

lemma peer_ok_on_newHead: "peer_ok ep \<Longrightarrow> on_newHead W HH ep h = Inr ep' \<Longrightarrow> peer_ok ep'"
  using on_newHead_chans [of W HH ep h ep'] on_newHead_queue [of W HH ep h ep'] by (simp add: peer_ok_def)

lemma peer_ok_on_newBlock: "peer_ok ep \<Longrightarrow> peer_ok (on_newBlock W HH ep nb)"
  by (simp add: peer_ok_def on_newBlock_def Let_def queue_insert_bounded)

lemma peer_ok_send: "peer_ok (fst (peer_send W ep c d)) = peer_ok ep"
  by (simp add: peer_ok_def)

lemma peer_ok_RequestBlockHeaderRaw:
  "peer_ok ep \<Longrightarrow> RequestBlockHeaderRaw W ep rid origin amount skip reverse ch = Some (ep', err) \<Longrightarrow> peer_ok ep'"
proof -
  assume ok: "peer_ok ep" and r: "RequestBlockHeaderRaw W ep rid origin amount skip reverse ch = Some (ep', err)"
  have "peer_ok ep1" if "registerForResponse ep ch = Some ep1" for ep1
    using that ok buffered_ops(2) [of responseQueueSize "p_responseQueue ep" ch]
    by (auto simp: registerForResponse_def peer_ok_def)
  moreover have "peer_ok (registerForResponse66 ep rid ch)" using ok by (simp add: registerForResponse66_def peer_ok_def)
  ultimately show ?thesis using r peer_ok_send [of W]
    by (auto simp: RequestBlockHeaderRaw_def Let_def split: if_splits) (metis fst_conv)+
qed

lemma peer_ok_confirmer_tick: "peer_ok ep \<Longrightarrow> confirmer_tick W ep i rid = Some ep' \<Longrightarrow> peer_ok ep'"
proof -
  assume ok: "peer_ok ep" and t: "confirmer_tick W ep i rid = Some ep'"
  have upd: "peer_ok (e\<lparr>p_confirmers := cs\<rparr>) = peer_ok e" for e :: "('a, 'b) peer" and cs by (simp add: peer_ok_def)
  from t show ?thesis
    using ok peer_ok_RequestBlockHeaderRaw [OF ok]
    by (auto simp: confirmer_tick_def Let_def upd RequestBlockHeader_def split: if_splits prod.splits option.splits)
qed


lemma peer_ok_step: "peer_ok ep \<Longrightarrow> peer_step W HH ep e = Inr ep' \<Longrightarrow> peer_ok ep'"
proof (cases e)
  case PvLoopHead
  assume ok: "peer_ok ep" and s: "peer_step W HH ep e = Inr ep'"
  have "peer_ok (ep\<lparr>p_newHeadCh := c\<rparr>)" if "ch_recv (p_newHeadCh ep) = Some (y, c)" for y c
    using ok buffered_ops(3) [OF _ that] by (simp add: peer_ok_def)
  with ok s PvLoopHead show ?thesis
    by (auto simp: blockLoop_head_def intro: peer_ok_on_newHead split: option.splits)
next
  case PvLoopBlock
  assume ok: "peer_ok ep" and s: "peer_step W HH ep e = Inr ep'"
  have "peer_ok (ep\<lparr>p_newBlockCh := c\<rparr>)" if "ch_recv (p_newBlockCh ep) = Some (y, c)" for y c
    using ok buffered_ops(3) [OF _ that] by (simp add: peer_ok_def)
  with ok s PvLoopBlock show ?thesis
    by (auto simp: blockLoop_block_def intro: peer_ok_on_newBlock split: option.splits)
next
  case (PvConfirmer i rid)
  assume "peer_ok ep" "peer_step W HH ep e = Inr ep'"
  with PvConfirmer show ?thesis by (auto intro: peer_ok_confirmer_tick split: option.splits)
next
  case (PvRequestHeader rid origin amount skip reverse ch)
  assume "peer_ok ep" "peer_step W HH ep e = Inr ep'"
  with PvRequestHeader show ?thesis by (auto intro: peer_ok_RequestBlockHeaderRaw split: option.splits)
qed (auto simp: UpdateHead_def QueueNewBlock_def NotifyResponse_def Disconnect_def peer_ok_def intro: buffered_ops
    split: option.splits)

lemma peer_step_returns: "\<exists>ep'. peer_step W HH ep e = Inr ep'"
proof (cases e)
  case PvLoopHead
  have "\<exists>ep'. on_newHead W HH x h = Inr ep'" for x h
    by (cases rule: on_newHead_spec [of h x W HH]) auto
  with PvLoopHead show ?thesis by (auto simp: blockLoop_head_def split: option.split)
next
  case PvLoopBlock
  then show ?thesis by (auto simp: blockLoop_block_def split: option.split)
qed simp_all

lemma peer_run_returns: "\<exists>ep'. go_run (peer_step W HH) ep es = Inr ep'"
proof (induction es arbitrary: ep)
  case Nil
  then show ?case by simp
next
  case (Cons e es)
  then show ?case using peer_step_returns [of W HH ep e] by auto
qed

lemma peer_ok_new: "peer_ok (newPeer pid endpoint version)"
  by (simp add: peer_ok_def newPeer_def buffered_ops blockQueueMaxSize_def)

interpretation peer: step_machine "newPeer pid endpoint version" "peer_step W HH" "\<lambda>ep e. True" peer_ok
  for pid endpoint version W and HH :: "'x header_hash"
  by unfold_locales (simp add: peer_ok_new, rule peer_ok_step)

text \<open>
  Whatever heads, blocks, confirmation ticks, header requests and responses reach a peer, and however
  its connection answers, its loop never panics, at most 50 blocks wait in its queue, and no channel holds
  more than its backlog.
\<close>

lemma peer_queue_bounded:
  "\<exists>ep. go_run (peer_step W HH) (newPeer pid endpoint version) es = Inr ep \<and> length (p_queuedBlocks ep) \<le> 50 \<and>
     length (ch_items (p_newHeadCh ep)) \<le> 10 \<and> length (ch_items (p_newBlockCh ep)) \<le> 10 \<and>
     length (ch_items (p_responseQueue ep)) \<le> 10"
proof -
  obtain ep where ep: "go_run (peer_step W HH) (newPeer pid endpoint version) es = Inr ep"
    using peer_run_returns by blast
  have "peer_ok ep" using peer.inv_reachable [OF go_admitted_all ep] .
  with ep show ?thesis
    by (simp add: peer_ok_def buffered_def blockQueueMaxSize_def headChannelBacklog_def blockChannelBacklog_def responseQueueSize_def)
qed

end
