(* ===== verification/Eth_Config.thy ===== *)
theory Eth_Config
  imports Connections
begin

text \<open>
  The configuration of the Ethereum side: \<^verbatim>\<open>blockchain/network/config.go\<close>, \<^verbatim>\<open>blockchain/network/preset.go\<close>,
  the flags of the command line, and the printing of the peer list in \<^verbatim>\<open>nodes/gateway.go\<close>.
\<close>

section \<open>Strings\<close>

text \<open>\<open>strings.Split\<close> with a separator of one byte: never an empty list.\<close>

fun strings_Split :: "string \<Rightarrow> char \<Rightarrow> string list" where
  "strings_Split [] sep = [[]]"
| "strings_Split (c # s) sep =
     (if c = sep then [] # strings_Split s sep
      else (case strings_Split s sep of [] \<Rightarrow> [[c]] | w # ws \<Rightarrow> (c # w) # ws))"

definition HasPrefix :: "string \<Rightarrow> string \<Rightarrow> bool" where
  "HasPrefix s prefix \<longleftrightarrow> length s \<ge> length prefix \<and> take (length prefix) s = prefix"

section \<open>Ethereum configuration\<close>

text \<open>
  Nodes (\<^typ>\<open>'n\<close>) and private keys (\<^typ>\<open>'k\<close>) are go-ethereum's; \<open>Parse\<close>, \<open>HexToECDSA\<close> and \<open>String\<close> are
  its functions on them.
\<close>

record 'n peer_info =
  pi_Enode :: 'n
  pi_EthWsURI :: string

record ('n, 'k) eth_config =
  cf_StaticPeers :: "'n peer_info list"
  cf_PrivateKey :: "'k option"
  cf_Network :: u64
  cf_TotalDifficulty :: "int option"
  cf_Head :: hash
  cf_Genesis :: hash
  cf_BlockConfirmationsCount :: int
  cf_SendBlockConfirmation :: bool
  cf_IgnoreBlockTimeout :: duration

datatype config_error = BothMultiNodeAndEnodes | EnodeError string | BadWsURI string | BadKeyLength nat | KeyError string
  | NoSuchNetwork string | UnableToParseMultiNode | UnrecognizedEnv string | LevelError string | UnknownNodeType string

definition privateKeyLen :: nat where "privateKeyLen = 64"

definition validateWsURI :: "string \<Rightarrow> config_error option" where
  "validateWsURI ethWsURI =
     (if \<not> HasPrefix ethWsURI ''ws://'' \<and> \<not> HasPrefix ethWsURI ''wss://'' then Some (BadWsURI ethWsURI) else None)"

text \<open>One pair \<open>enode+uri\<close>; a third part and what follows it is ignored.\<close>

definition parse_pair :: "(string \<Rightarrow> string + 'n) \<Rightarrow> string \<Rightarrow> config_error + 'n peer_info" where
  "parse_pair Parse pairStr =
     (case strings_Split pairStr CHR ''+'' of
        [] \<Rightarrow> Inl UnableToParseMultiNode
      | enodeStr # rest \<Rightarrow>
          (case Parse enodeStr of Inl err \<Rightarrow> Inl (EnodeError err)
           | Inr en \<Rightarrow>
               (case rest of [] \<Rightarrow> Inr \<lparr>pi_Enode = en, pi_EthWsURI = []\<rparr>
                | ethWsURI # _ \<Rightarrow>
                    (case (if ethWsURI \<noteq> [] then validateWsURI ethWsURI else None) of
                       Some err \<Rightarrow> Inl err
                     | None \<Rightarrow> Inr \<lparr>pi_Enode = en, pi_EthWsURI = ethWsURI\<rparr>))))"

fun parse_pairs :: "(string \<Rightarrow> string + 'n) \<Rightarrow> string list \<Rightarrow> 'n peer_info list \<Rightarrow> config_error + 'n peer_info list" where
  "parse_pairs Parse [] peers = Inr peers"
| "parse_pairs Parse (pairStr # pairs) peers =
     (case parse_pair Parse pairStr of Inl err \<Rightarrow> Inl err | Inr peer \<Rightarrow> parse_pairs Parse pairs (peers @ [peer]))"

definition ParseMultiNode :: "(string \<Rightarrow> string + 'n) \<Rightarrow> string \<Rightarrow> config_error + 'n peer_info list" where
  "ParseMultiNode Parse multiEthWsURI = parse_pairs Parse (strings_Split multiEthWsURI CHR '','') []"

definition generatePeers :: "('n \<Rightarrow> string) \<Rightarrow> 'n peer_info list \<Rightarrow> string" where
  "generatePeers String peersInfo =
     (if peersInfo = [] then []
      else (let result = concat (map (\<lambda>peer. String (pi_Enode peer) @ ''+'' @ pi_EthWsURI peer @ '','') peersInfo)
            in take (length result - 1) result))"

definition config_Update :: "('n, 'k) eth_config \<Rightarrow> ('n, 'k) eth_config \<Rightarrow> ('n, 'k) eth_config" where
  "config_Update ec otherConfig =
     ec\<lparr>cf_Network := cf_Network otherConfig, cf_TotalDifficulty := cf_TotalDifficulty otherConfig,
        cf_Head := cf_Head otherConfig, cf_Genesis := cf_Genesis otherConfig,
        cf_BlockConfirmationsCount := cf_BlockConfirmationsCount otherConfig\<rparr>"

definition StaticEnodes :: "('n, 'k) eth_config \<Rightarrow> 'n list" where
  "StaticEnodes ec = map pi_Enode (cf_StaticPeers ec)"

text \<open>The preset of the main network.\<close>

definition mainnet_genesis :: hash where
  "mainnet_genesis =
     [0xd4, 0xe5, 0x67, 0x40, 0xf8, 0x76, 0xae, 0xf8, 0xc0, 0x10, 0xb8, 0x6a, 0x40, 0xd5, 0xf5, 0x67,
      0x45, 0xa1, 0x18, 0xd0, 0x90, 0x6a, 0x34, 0xe6, 0x9a, 0xec, 0x8c, 0x0d, 0xb1, 0xcb, 0x8f, 0xa3]"

definition unknownConfig :: "('n, 'k) eth_config" where
  "unknownConfig = \<lparr>cf_StaticPeers = [], cf_PrivateKey = None, cf_Network = 0, cf_TotalDifficulty = None,
     cf_Head = zero_hash, cf_Genesis = zero_hash, cf_BlockConfirmationsCount = 0, cf_SendBlockConfirmation = False,
     cf_IgnoreBlockTimeout = 0\<rparr>"

definition newEthereumMainnetConfig :: "('n, 'k) eth_config" where
  "newEthereumMainnetConfig = unknownConfig\<lparr>cf_Network := 1, cf_TotalDifficulty := Some 0x0400000000,
     cf_Head := mainnet_genesis, cf_Genesis := mainnet_genesis, cf_IgnoreBlockTimeout := 150 * Second\<rparr>"

definition NewEthereumPreset :: "string \<Rightarrow> config_error + ('n, 'k) eth_config" where
  "NewEthereumPreset network =
     (if network = ''ethereum-mainnet'' then Inr newEthereumMainnetConfig else Inl (NoSuchNetwork network))"

text \<open>The values of the flags (\<^verbatim>\<open>utils/flags.go\<close>, \<^verbatim>\<open>utils/eth_flags.go\<close>); \<^term>\<open>None\<close> where the code asks whether a flag is set.\<close>

record cli_flags =
  fl_AppName :: string
  fl_Port :: int
  fl_Env :: string
  fl_BlockchainNetwork :: string
  fl_DisableProfiling :: bool
  fl_DataDir :: string
  fl_LogLevel :: string
  fl_LogFileLevel :: string
  fl_LogMaxSize :: int
  fl_LogMaxAge :: int
  fl_LogMaxBackups :: int
  fl_TxTraceEnabled :: bool
  fl_TxTraceMaxFileSize :: int
  fl_TxTraceMaxBackupFiles :: int
  fl_NodeType :: string
  fl_Enodes :: "string option"
  fl_PrivateKey :: "string option"
  fl_EthWsUri :: "string option"
  fl_MultiNode :: "string option"

definition cli_peers :: "(string \<Rightarrow> string + 'n) \<Rightarrow> cli_flags \<Rightarrow> config_error + 'n peer_info list" where
  "cli_peers Parse ctx =
     (case fl_MultiNode ctx of
        Some multi \<Rightarrow> (if fl_Enodes ctx \<noteq> None then Inl BothMultiNodeAndEnodes else ParseMultiNode Parse multi)
      | None \<Rightarrow>
          (case fl_Enodes ctx of None \<Rightarrow> Inr []
           | Some enodeStr \<Rightarrow>
               (case Parse enodeStr of Inl err \<Rightarrow> Inl (EnodeError err)
                | Inr node \<Rightarrow>
                    (case fl_EthWsUri ctx of None \<Rightarrow> Inr [\<lparr>pi_Enode = node, pi_EthWsURI = []\<rparr>]
                     | Some ethWsURI \<Rightarrow>
                         (case validateWsURI ethWsURI of Some err \<Rightarrow> Inl err
                          | None \<Rightarrow> Inr [\<lparr>pi_Enode = node, pi_EthWsURI = ethWsURI\<rparr>])))))"

definition NewPresetEthConfigFromCLI ::
  "(string \<Rightarrow> string + 'n) \<Rightarrow> (string \<Rightarrow> string + 'k) \<Rightarrow> cli_flags \<Rightarrow> config_error + ('n, 'k) eth_config" where
  "NewPresetEthConfigFromCLI Parse HexToECDSA ctx =
     (case NewEthereumPreset (fl_BlockchainNetwork ctx) of Inl err \<Rightarrow> Inl err
      | Inr preset \<Rightarrow>
          (case cli_peers Parse ctx of Inl err \<Rightarrow> Inl err
           | Inr peers \<Rightarrow>
               (let preset1 = preset\<lparr>cf_StaticPeers := peers\<rparr>
                in case fl_PrivateKey ctx of None \<Rightarrow> Inr preset1
                   | Some privateKeyHex \<Rightarrow>
                       if length privateKeyHex \<noteq> privateKeyLen then Inl (BadKeyLength (length privateKeyHex))
                       else (case HexToECDSA privateKeyHex of Inl err \<Rightarrow> Inl (KeyError err)
                             | Inr privateKey \<Rightarrow> Inr (preset1\<lparr>cf_PrivateKey := Some privateKey\<rparr>)))))"

section \<open>Properties\<close>

lemma strings_Split_not_Nil [simp]: "strings_Split s sep \<noteq> []"
  by (cases s) (auto split: list.split)

lemma strings_Split_word: "sep \<notin> set w \<Longrightarrow> strings_Split w sep = [w]"
  by (induction w) auto

lemma strings_Split_append:
  "sep \<notin> set w \<Longrightarrow> strings_Split (w @ sep # s) sep = w # strings_Split s sep"
  by (induction w) auto

text \<open>Splitting is the inverse of joining.\<close>

lemma split_joined:
  "\<forall>w \<in> set ws. sep \<notin> set w \<Longrightarrow> ws \<noteq> [] \<Longrightarrow>
     strings_Split (take (length (concat (map (\<lambda>w. w @ [sep]) ws)) - 1) (concat (map (\<lambda>w. w @ [sep]) ws))) sep = ws"
proof (induction ws)
  case Nil
  then show ?case by simp
next
  case (Cons w ws)
  show ?case
  proof (cases ws)
    case Nil
    with Cons.prems show ?thesis by (simp add: strings_Split_word)
  next
    case (Cons v vs)
    then have "concat (map (\<lambda>w. w @ [sep]) ws) \<noteq> []" by simp
    then have "take (length (concat (map (\<lambda>w. w @ [sep]) (w # ws))) - 1) (concat (map (\<lambda>w. w @ [sep]) (w # ws))) =
        w @ sep # take (length (concat (map (\<lambda>w. w @ [sep]) ws)) - 1) (concat (map (\<lambda>w. w @ [sep]) ws))"
      by (simp add: take_Cons' Suc_diff_le)
    with Cons.IH Cons.prems Cons show ?thesis by (simp only: strings_Split_append list.set_intros) (simp add: strings_Split_append)
  qed
qed

definition pair_string :: "('n \<Rightarrow> string) \<Rightarrow> 'n peer_info \<Rightarrow> string" where
  "pair_string String peer = String (pi_Enode peer) @ ''+'' @ pi_EthWsURI peer"

text \<open>A peer that can be written in the format: its parts contain no separators, and its URI is empty or valid.\<close>

definition writable :: "('n \<Rightarrow> string) \<Rightarrow> 'n peer_info \<Rightarrow> bool" where
  "writable String peer \<longleftrightarrow> {CHR ''+'', CHR '',''} \<inter> (set (String (pi_Enode peer)) \<union> set (pi_EthWsURI peer)) = {} \<and>
     (pi_EthWsURI peer = [] \<or> validateWsURI (pi_EthWsURI peer) = None)"

lemma parse_pair_string:
  assumes "writable String peer" "Parse (String (pi_Enode peer)) = Inr (pi_Enode peer)"
  shows "parse_pair Parse (pair_string String peer) = Inr peer"
proof -
  have "strings_Split (pair_string String peer) CHR ''+'' = [String (pi_Enode peer), pi_EthWsURI peer]"
    using assms(1) by (simp add: pair_string_def writable_def strings_Split_append strings_Split_word)
  with assms show ?thesis by (auto simp: parse_pair_def writable_def)
qed

lemma parse_pairs_strings:
  "\<forall>peer \<in> set peers. writable String peer \<and> Parse (String (pi_Enode peer)) = Inr (pi_Enode peer) \<Longrightarrow>
     parse_pairs Parse (map (pair_string String) peers) acc = Inr (acc @ peers)"
  by (induction peers arbitrary: acc) (simp_all add: parse_pair_string)

lemma generatePeers_split:
  assumes "\<forall>peer \<in> set peers. writable String peer" "peers \<noteq> []"
  shows "strings_Split (generatePeers String peers) CHR '','' = map (pair_string String) peers"
proof -
  have "generatePeers String peers =
      (let r = concat (map (\<lambda>w. w @ [CHR '','']) (map (pair_string String) peers)) in take (length r - 1) r)"
    using assms(2) by (simp add: generatePeers_def pair_string_def comp_def)
  moreover have "\<forall>w \<in> set (map (pair_string String) peers). CHR '','' \<notin> set w"
    using assms(1) by (auto simp: pair_string_def writable_def)
  ultimately show ?thesis using split_joined [of "map (pair_string String) peers" "CHR '',''"] assms(2)
    by (simp add: Let_def)
qed

text \<open>
  The peer list the gateway prints is read back by the parser of \<open>--multi-node\<close>: for at least one peer
  whose node string has no separator and is parsed back by go-ethereum, and whose websocket URI is empty or
  starts with \<open>ws://\<close> or \<open>wss://\<close>, the result is the list of peers in order.
\<close>

lemma multi_node_roundtrip:
  assumes "\<forall>peer \<in> set peers. writable String peer \<and> Parse (String (pi_Enode peer)) = Inr (pi_Enode peer)" "peers \<noteq> []"
  shows "ParseMultiNode Parse (generatePeers String peers) = Inr peers"
proof -
  have "strings_Split (generatePeers String peers) CHR '','' = map (pair_string String) peers"
    using generatePeers_split assms by blast
  with parse_pairs_strings [OF assms(1), of "[]"] show ?thesis by (simp add: ParseMultiNode_def)
qed

lemma multi_node_roundtrip_example:
  "ParseMultiNode Inr (generatePeers (\<lambda>s. s) [\<lparr>pi_Enode = ''enode1'', pi_EthWsURI = ''ws://a''\<rparr>, \<lparr>pi_Enode = ''e2'', pi_EthWsURI = []\<rparr>])
     = Inr [\<lparr>pi_Enode = ''enode1'', pi_EthWsURI = ''ws://a''\<rparr>, \<lparr>pi_Enode = ''e2'', pi_EthWsURI = []\<rparr>]"
  by (rule multi_node_roundtrip) (simp_all add: writable_def validateWsURI_def HasPrefix_def)

text \<open>The flags: a preset only for the main network, never both kinds of peer lists, keys of 64 digits.\<close>

lemma NewPresetEthConfigFromCLI_ok:
  assumes "NewPresetEthConfigFromCLI Parse HexToECDSA ctx = Inr config"
  shows "fl_BlockchainNetwork ctx = ''ethereum-mainnet''" "cf_Network config = 1"
    "\<not> (fl_MultiNode ctx \<noteq> None \<and> fl_Enodes ctx \<noteq> None)" "cf_Genesis config = mainnet_genesis"
    "cf_PrivateKey config \<noteq> None \<longleftrightarrow> fl_PrivateKey ctx \<noteq> None"
  using assms
  by (auto simp: NewPresetEthConfigFromCLI_def NewEthereumPreset_def cli_peers_def newEthereumMainnetConfig_def
      unknownConfig_def Let_def split: sum.splits option.splits if_splits)

lemma config_Update_keeps:
  "cf_StaticPeers (config_Update ec other) = cf_StaticPeers ec"
  "cf_PrivateKey (config_Update ec other) = cf_PrivateKey ec"
  "cf_IgnoreBlockTimeout (config_Update ec other) = cf_IgnoreBlockTimeout ec"
  by (simp_all add: config_Update_def)

end
