(* ===== verification/Backend.thy ===== *)
theory Backend
  imports Eth_Peer Chain_Queries Eth_Config
begin

text \<open>
  The Ethereum backend of \<^verbatim>\<open>blockchain/eth/backend.go\<close> with the set of peers of
  \<^verbatim>\<open>blockchain/eth/peerset.go\<close>: it owns the chain and the peers and moves blocks and transactions between
  them and the bridge to the BDN.
\<close>

section \<open>Calls that may block\<close>

text \<open>
  A call may panic (\<^term>\<open>Inl\<close>), wait on a full or empty channel (\<^term>\<open>Inr None\<close>) or return. What a
  call did before it started to wait is not part of its value.
\<close>

type_synonym 'a act = "'a option go"

definition abind :: "'a act \<Rightarrow> ('a \<Rightarrow> 'b act) \<Rightarrow> 'b act" where
  "abind x f = (case x of Inl p \<Rightarrow> Inl p | Inr None \<Rightarrow> Inr None | Inr (Some a) \<Rightarrow> f a)"

abbreviation returns :: "'a \<Rightarrow> 'a act" where
  "returns a \<equiv> Inr (Some a)"

definition lift_go :: "'a go \<Rightarrow> 'a act" where
  "lift_go x = (case x of Inl p \<Rightarrow> Inl p | Inr a \<Rightarrow> Inr (Some a))"

lemma abind_simps [simp, go_simps]:
  "abind (Inl p) f = Inl p" "abind (Inr None) f = Inr None" "abind (Inr (Some a)) f = f a"
  "lift_go (Inl p) = Inl p" "lift_go (Inr a) = Inr (Some a)"
  by (simp_all add: abind_def lift_go_def)

lemma abind_returns_iff: "abind x f = Inr (Some b) \<longleftrightarrow> (\<exists>a. x = Inr (Some a) \<and> f a = Inr (Some b))"
  by (auto simp: abind_def split: sum.split option.split)

lemma lift_go_returns_iff: "lift_go x = Inr (Some a) \<longleftrightarrow> x = Inr a"
  by (auto simp: lift_go_def split: sum.split)

section \<open>The set of peers\<close>

text \<open>Peers are identified by their ID. The order in which \<open>getAll\<close> lists the map is an argument.\<close>

type_synonym ('t, 'x) peer_set = "string \<rightharpoonup> ('t, 'x) peer"

datatype peer_set_error = PeerAlreadyRegistered | PeerDoesNotExist

definition newPeerSet :: "('t, 'x) peer_set" where
  "newPeerSet = Map.empty"

definition ps_register :: "('t, 'x) peer_set \<Rightarrow> ('t, 'x) peer \<Rightarrow> ('t, 'x) peer_set \<times> peer_set_error option" where
  "ps_register ps ep = (if ps (p_id ep) \<noteq> None then (ps, Some PeerAlreadyRegistered) else (ps(p_id ep \<mapsto> ep), None))"

definition ps_unregister :: "('t, 'x) peer_set \<Rightarrow> string \<Rightarrow> ('t, 'x) peer_set \<times> peer_set_error option" where
  "ps_unregister ps pid = (if ps pid = None then (ps, Some PeerDoesNotExist) else (ps(pid := None), None))"

definition ps_getAll :: "string list \<Rightarrow> ('t, 'x) peer_set \<Rightarrow> ('t, 'x) peer list" where
  "ps_getAll order ps = List.map_filter ps order"

section \<open>The handler\<close>

record ('t, 'x, 'n, 'k) handler =
  h_bridge :: "(tb_transaction, tb_block, ('n, 'k) eth_config) turbo_bridge"
  h_peers :: "('t, 'x) peer_set"
  h_config :: "('n, 'k) eth_config"
  h_chain :: "('t, 'x) chain"

text \<open>
  What a call reads from outside: the clock, once for the validation and once for each conversion of a
  block, the order in which the peers are listed, random request IDs, and the number of the next response
  channel.
\<close>

record readings =
  rd_now :: instant
  rd_clk :: "nat \<Rightarrow> instant"
  rd_order :: "string list"
  rd_rid :: "nat \<Rightarrow> u64"
  rd_ch :: nat

text \<open>
  What a call leaves to other goroutines: one that waits for the header and the body of a block, one that
  fetches ancient headers from the peer, or a response that is handed over on a response channel.
\<close>

datatype ('t, 'x) effect =
    AwaitBlock string hash nat nat
  | AwaitAncient string "u64 option" get_headers
  | Deliver nat "('t, 'x) eth_packet"

datatype backend_error = BeChain chain_error | TimestampTooOld | BeConvert block_error | BePeer peer_error
  | BeSend string | BeDecode string | WrongCounts nat nat

text \<open>
  go-ethereum's functions \<open>G\<close>, the header hash \<open>HH\<close> and the connections \<open>W\<close> of the peers are arguments
  throughout.
\<close>

type_synonym ('t, 'x, 'n, 'k) outcome = "(('t, 'x, 'n, 'k) handler \<times> ('t, 'x) effect list \<times> backend_error option) act"

definition NewHandler ::
  "(tb_transaction, tb_block, ('n, 'k) eth_config) turbo_bridge \<Rightarrow> ('n, 'k) eth_config \<Rightarrow> ('t, 'x, 'n, 'k) handler" where
  "NewHandler bridge config = \<lparr>h_bridge = bridge, h_peers = newPeerSet, h_config = config, h_chain = NewChain\<rparr>"

text \<open>An operation on a registered peer; handlers run only for registered peers.\<close>

definition on_peer ::
  "('t, 'x, 'n, 'k) handler \<Rightarrow> string \<Rightarrow> (('t, 'x) peer \<Rightarrow> (('t, 'x) peer \<times> 'a) act) \<Rightarrow> (('t, 'x, 'n, 'k) handler \<times> 'a) act" where
  "on_peer h pid f =
     (case h_peers h pid of None \<Rightarrow> Inr None
      | Some ep \<Rightarrow> abind (f ep) (\<lambda>(ep', a). returns (h\<lparr>h_peers := (h_peers h)(pid \<mapsto> ep')\<rparr>, a)))"

section \<open>Blocks for the BDN\<close>

text \<open>The new heads from the lowest to the highest; \<open>i\<close> is the index of the head in the list of new heads.\<close>

fun send_heads ::
  "('t, 'x) geth \<Rightarrow> 'x header_hash \<Rightarrow> (nat \<Rightarrow> instant) \<Rightarrow> node_endpoint \<Rightarrow> ('t, 'x) block_info list \<Rightarrow>
     ('t, 'x, 'n, 'k) handler \<Rightarrow> ('t, 'x, 'n, 'k) handler" where
  "send_heads G HH clk peerEndpoint [] h = h"
| "send_heads G HH clk peerEndpoint (newHead # rest) h =
     (case BlockBlockchainToBDN G HH (clk (length rest)) newHead of
        Inl err \<Rightarrow> send_heads G HH clk peerEndpoint rest h
      | Inr bdnBlock \<Rightarrow>
          (case SendBlockToBDN (h_bridge h) bdnBlock peerEndpoint of
             (br, Some err) \<Rightarrow> send_heads G HH clk peerEndpoint rest (h\<lparr>h_bridge := br\<rparr>)
           | (br, None) \<Rightarrow> send_heads G HH clk peerEndpoint rest
               (h\<lparr>h_bridge := br, h_chain := MarkSentToBDN (h_chain h) (block_Hash HH (bi_Block newHead))\<rparr>)))"

definition blockAtDepth ::
  "('t, 'x) geth \<Rightarrow> 'x header_hash \<Rightarrow> instant \<Rightarrow> ('t, 'x, 'n, 'k) handler \<Rightarrow> int \<Rightarrow> (backend_error + tb_block) go" where
  "blockAtDepth G HH now h chainDepth =
     gbind (BlockAtDepth HH (h_chain h) chainDepth) (\<lambda>r.
       case r of Inl err \<Rightarrow> Inr (Inl (BeChain err))
       | Inr block \<Rightarrow>
           (case BlockBlockchainToBDN G HH now (NewBlockInfo block (Some (Difficulty (blk_header block)))) of
              Inl err \<Rightarrow> Inr (Inl (BeConvert err)) | Inr tbBlock \<Rightarrow> Inr (Inr tbBlock)))"

text \<open>The confirmation of the block at the configured depth, sent to the gateway once.\<close>

definition confirm_to_gateway :: "node_endpoint \<Rightarrow> tb_block \<Rightarrow> ('t, 'x, 'n, 'k) handler \<Rightarrow> ('t, 'x, 'n, 'k) handler" where
  "confirm_to_gateway peerEndpoint b h =
     (case blockHashToMetadata (h_chain h) (tb_hash b) of None \<Rightarrow> h
      | Some metadata \<Rightarrow>
          if confirmedMsgSent metadata then h
          else (case SendConfirmedBlockToGateway (h_bridge h) b peerEndpoint of
                  (br, Some err) \<Rightarrow> h\<lparr>h_bridge := br\<rparr>
                | (br, None) \<Rightarrow> h\<lparr>h_bridge := br, h_chain :=
                    storeBlockMetadata (h_chain h) (tb_hash b) (bm_height metadata) (confirmed metadata) True\<rparr>))"

definition send_confirmation ::
  "('t, 'x) geth \<Rightarrow> 'x header_hash \<Rightarrow> instant \<Rightarrow> node_endpoint \<Rightarrow> ('t, 'x, 'n, 'k) handler \<Rightarrow> ('t, 'x, 'n, 'k) handler go" where
  "send_confirmation G HH now peerEndpoint h =
     gbind (blockAtDepth G HH now h (cf_BlockConfirmationsCount (h_config h))) (\<lambda>r.
       Inr (case r of Inl err \<Rightarrow> h | Inr b \<Rightarrow> confirm_to_gateway peerEndpoint b h))"

definition sendConfirmedBlocksToBDN ::
  "('t, 'x) geth \<Rightarrow> 'x header_hash \<Rightarrow> readings \<Rightarrow> ('t, 'x, 'n, 'k) handler \<Rightarrow> int \<Rightarrow> node_endpoint \<Rightarrow> ('t, 'x, 'n, 'k) handler go" where
  "sendConfirmedBlocksToBDN G HH rd h count' peerEndpoint =
     gbind (GetNewHeadsForBDN HH (h_chain h) count') (\<lambda>(newHeads, err).
       send_confirmation G HH (rd_clk rd (length newHeads)) peerEndpoint
         (send_heads G HH (rd_clk rd) peerEndpoint (rev newHeads) h))"

definition confirmBlock ::
  "('t, 'x) geth \<Rightarrow> 'x header_hash \<Rightarrow> readings \<Rightarrow> ('t, 'x, 'n, 'k) handler \<Rightarrow> hash \<Rightarrow> node_endpoint \<Rightarrow> ('t, 'x, 'n, 'k) handler go" where
  "confirmBlock G HH rd h hsh peerEndpoint =
     gbind (ConfirmBlock HH (h_chain h) hsh) (\<lambda>(c, newHeads).
       sendConfirmedBlocksToBDN G HH rd (h\<lparr>h_chain := c\<rparr>) newHeads peerEndpoint)"

section \<open>Blocks for the peers\<close>

text \<open>The peers get the block in the order of the list; a peer whose channel is full blocks the loop.\<close>

fun broadcastBlock ::
  "string list \<Rightarrow> ('t, 'x) eth_block \<Rightarrow> int option \<Rightarrow> string option \<Rightarrow> ('t, 'x) peer_set \<Rightarrow> ('t, 'x) peer_set act" where
  "broadcastBlock [] block totalDifficulty source ps = returns ps"
| "broadcastBlock (pid # order) block totalDifficulty source ps =
     (case ps pid of None \<Rightarrow> broadcastBlock order block totalDifficulty source ps
      | Some ep \<Rightarrow>
          if source = Some pid then broadcastBlock order block totalDifficulty source ps
          else (case QueueNewBlock ep block totalDifficulty of None \<Rightarrow> Inr None
                | Some ep' \<Rightarrow> broadcastBlock order block totalDifficulty source (ps(pid \<mapsto> ep'))))"

fun broadcastBlockAnnouncement ::
  "(string \<Rightarrow> ('t, 'x) wire) \<Rightarrow> 'x header_hash \<Rightarrow> string list \<Rightarrow> ('t, 'x) eth_block \<Rightarrow> ('t, 'x) peer_set \<Rightarrow> ('t, 'x) peer_set" where
  "broadcastBlockAnnouncement W HH [] block ps = ps"
| "broadcastBlockAnnouncement W HH (pid # order) block ps =
     (case ps pid of None \<Rightarrow> broadcastBlockAnnouncement W HH order block ps
      | Some ep \<Rightarrow> broadcastBlockAnnouncement W HH order block
          (ps(pid \<mapsto> fst (AnnounceBlock (W pid) ep (block_Hash HH block) (NumberU64 block)))))"

fun broadcastTransactions ::
  "(string \<Rightarrow> ('t, 'x) wire) \<Rightarrow> string list \<Rightarrow> 't list \<Rightarrow> ('t, 'x) peer_set \<Rightarrow> ('t, 'x) peer_set" where
  "broadcastTransactions W [] txs ps = ps"
| "broadcastTransactions W (pid # order) txs ps =
     (case ps pid of None \<Rightarrow> broadcastTransactions W order txs ps
      | Some ep \<Rightarrow> broadcastTransactions W order txs (ps(pid \<mapsto> fst (SendTransactions (W pid) ep txs))))"

section \<open>Messages of the peers\<close>

fun convert_transactions :: "('t, 'x) geth \<Rightarrow> 't list \<Rightarrow> tb_transaction list \<Rightarrow> string + tb_transaction list" where
  "convert_transactions G [] bdnTxs = Inr bdnTxs"
| "convert_transactions G (tx # txs) bdnTxs =
     (case TransactionBlockchainToBDN G tx of Inl err \<Rightarrow> Inl err
      | Inr bdnTx \<Rightarrow> convert_transactions G txs (bdnTxs @ [bdnTx]))"

text \<open>A full channel to the BDN drops the transactions without an error.\<close>

definition processTransactions ::
  "('t, 'x) geth \<Rightarrow> ('t, 'x, 'n, 'k) handler \<Rightarrow> node_endpoint \<Rightarrow> 't list \<Rightarrow> ('t, 'x, 'n, 'k) handler \<times> backend_error option" where
  "processTransactions G h peerEndpoint txs =
     (case convert_transactions G txs [] of Inl err \<Rightarrow> (h, Some (BeSend err))
      | Inr bdnTxs \<Rightarrow>
          (case SendTransactionsToBDN (h_bridge h) bdnTxs peerEndpoint of
             (br, Some ErrChannelFull) \<Rightarrow> (h\<lparr>h_bridge := br\<rparr>, None)
           | (br, None) \<Rightarrow> (h\<lparr>h_bridge := br\<rparr>, None)))"

definition processTransactionHashes ::
  "('t, 'x, 'n, 'k) handler \<Rightarrow> string \<Rightarrow> hash list \<Rightarrow> ('t, 'x, 'n, 'k) handler \<times> backend_error option" where
  "processTransactionHashes h pid txHashes =
     (case AnnounceTransactionHashes (h_bridge h) pid txHashes of
        (br, Some ErrChannelFull) \<Rightarrow> (h\<lparr>h_bridge := br\<rparr>, None)
      | (br, None) \<Rightarrow> (h\<lparr>h_bridge := br\<rparr>, None))"

text \<open>\<open>Unix\<close> counts whole seconds.\<close>

definition validateBlock ::
  "instant \<Rightarrow> ('t, 'x, 'n, 'k) handler \<Rightarrow> hash \<Rightarrow> int \<Rightarrow> int \<Rightarrow> backend_error option" where
  "validateBlock now h blockHash blockHeight blockTime =
     (case ValidateBlock (h_chain h) blockHash blockHeight of Some err \<Rightarrow> Some (BeChain err)
      | None \<Rightarrow>
          (let minTimestamp = now + (- cf_IgnoreBlockTimeout (h_config h))
           in if minTimestamp div Second > blockTime then Some TimestampTooOld else None))"

definition processBlock ::
  "('t, 'x) geth \<Rightarrow> 'x header_hash \<Rightarrow> readings \<Rightarrow> ('t, 'x, 'n, 'k) handler \<Rightarrow> string \<Rightarrow> node_endpoint \<Rightarrow>
     ('t, 'x) block_info \<Rightarrow> ('t, 'x, 'n, 'k) handler act" where
  "processBlock G HH rd h pid peerEndpoint blockInfo =
     (let block = bi_Block blockInfo; header = blk_header block
      in case validateBlock (rd_now rd) h (block_Hash HH block) (big_Int64 (Number header)) (sint (Time header)) of
           Some err \<Rightarrow> returns h
         | None \<Rightarrow>
             abind (lift_go (AddBlock HH (h_chain h) blockInfo BSBlockchain)) (\<lambda>(c, newHeadCount).
             abind (lift_go (sendConfirmedBlocksToBDN G HH rd (h\<lparr>h_chain := c\<rparr>) newHeadCount peerEndpoint)) (\<lambda>h1.
             abind (broadcastBlock (rd_order rd) block (Some (bi_totalDifficulty blockInfo)) (Some pid) (h_peers h1)) (\<lambda>ps.
             returns (h1\<lparr>h_peers := ps\<rparr>)))))"

text \<open>A block that is not known is requested, a known one is confirmed.\<close>

definition request_block ::
  "(string \<Rightarrow> ('t, 'x) wire) \<Rightarrow> readings \<Rightarrow> ('t, 'x, 'n, 'k) handler \<Rightarrow> string \<Rightarrow> hash \<Rightarrow> ('t, 'x, 'n, 'k) outcome" where
  "request_block W rd h pid blockHash =
     (let headersCh = rd_ch rd; bodiesCh = Suc (rd_ch rd)
      in abind (on_peer h pid (\<lambda>peer.
           if isVersion66 peer
           then lift_go (RequestBlock66 (W pid) peer (rd_rid rd 0) (rd_rid rd 1) blockHash (Some headersCh) (Some bodiesCh))
           else RequestBlock (W pid) peer blockHash (Some headersCh) (Some bodiesCh)))
         (\<lambda>(h1, err).
           case err of Some e \<Rightarrow> returns (h1, [], Some (BeSend e))
           | None \<Rightarrow> returns (h1, [AwaitBlock pid blockHash headersCh bodiesCh], None)))"

fun processBlockAnnouncement ::
  "('t, 'x) geth \<Rightarrow> 'x header_hash \<Rightarrow> (string \<Rightarrow> ('t, 'x) wire) \<Rightarrow> (nat \<Rightarrow> readings) \<Rightarrow> ('t, 'x, 'n, 'k) handler \<Rightarrow>
     string \<Rightarrow> node_endpoint \<Rightarrow> (hash \<times> u64) list \<Rightarrow> ('t, 'x, 'n, 'k) outcome" where
  "processBlockAnnouncement G HH W rds h pid peerEndpoint [] = returns (h, [], None)"
| "processBlockAnnouncement G HH W rds h pid peerEndpoint ((blockHash, number) # newBlocks) =
     (if \<not> HasBlock (h_chain h) blockHash
      then abind (request_block W (rds (length newBlocks)) h pid blockHash) (\<lambda>(h1, started, err).
             if err \<noteq> None then returns (h1, started, err)
             else abind (processBlockAnnouncement G HH W rds h1 pid peerEndpoint newBlocks) (\<lambda>(h2, started2, err2).
               returns (h2, started @ started2, err2)))
      else abind (lift_go (confirmBlock G HH (rds (length newBlocks)) h blockHash peerEndpoint)) (\<lambda>h1.
             processBlockAnnouncement G HH W rds h1 pid peerEndpoint newBlocks))"

definition processBlockComponents ::
  "('t, 'x) geth \<Rightarrow> 'x header_hash \<Rightarrow> readings \<Rightarrow> ('t, 'x, 'n, 'k) handler \<Rightarrow> string \<Rightarrow> node_endpoint \<Rightarrow>
     'x eth_header option list \<Rightarrow> ('t, 'x) eth_body list \<Rightarrow> (('t, 'x, 'n, 'k) handler \<times> backend_error option) act" where
  "processBlockComponents G HH rd h pid peerEndpoint headers bodies =
     (if length headers \<noteq> 1 \<and> length bodies \<noteq> 1 then returns (h, Some (WrongCounts (length headers) (length bodies)))
      else case headers of [] \<Rightarrow> Inl IndexOutOfRange
      | header # _ \<Rightarrow>
          (case bodies of [] \<Rightarrow> Inl IndexOutOfRange
           | body # _ \<Rightarrow>
               (case header of None \<Rightarrow> Inl NilDereference
                | Some hdr \<Rightarrow>
                    (let blockInfo = NewBlockInfo \<lparr>blk_header = hdr, blk_body = body\<rparr> None;
                         (c, blockInfo1, err) = SetTotalDifficulty HH (h_chain h) blockInfo
                     in abind (processBlock G HH rd (h\<lparr>h_chain := c\<rparr>) pid peerEndpoint blockInfo1) (\<lambda>h1.
                          returns (h1, None))))))"

text \<open>
  What the two response channels give: a packet, or \<^term>\<open>None\<close> when the timeout comes first.
\<close>

datatype fetch_error = ErrInvalidPacketType | ErrResponseTimeout

definition headers_response :: "('t, 'x) eth_packet option \<Rightarrow> fetch_error + 'x eth_header option list" where
  "headers_response r = (case r of None \<Rightarrow> Inl ErrResponseTimeout
     | Some (BlockHeadersPacket hs) \<Rightarrow> Inr hs | Some _ \<Rightarrow> Inl ErrInvalidPacketType)"

definition bodies_response :: "('t, 'x) eth_packet option \<Rightarrow> fetch_error + ('t, 'x) eth_body list" where
  "bodies_response r = (case r of None \<Rightarrow> Inl ErrResponseTimeout
     | Some (BlockBodiesPacket bs) \<Rightarrow> Inr bs | Some _ \<Rightarrow> Inl ErrInvalidPacketType)"

definition fetchBlockResponse ::
  "('t, 'x) eth_packet option \<Rightarrow> ('t, 'x) eth_packet option \<Rightarrow> fetch_error + 'x eth_header option list \<times> ('t, 'x) eth_body list" where
  "fetchBlockResponse rh rb =
     (case headers_response rh of Inl err \<Rightarrow> Inl err
      | Inr headers \<Rightarrow> (case bodies_response rb of Inl err \<Rightarrow> Inl err | Inr bodies \<Rightarrow> Inr (headers, bodies)))"

text \<open>
  The version for ETH66 waits in two goroutines; \<open>bodyFirst\<close> tells which of them reports first on the
  error channel.
\<close>

definition fetchBlockResponse66 ::
  "bool \<Rightarrow> ('t, 'x) eth_packet option \<Rightarrow> ('t, 'x) eth_packet option \<Rightarrow>
     fetch_error + 'x eth_header option list \<times> ('t, 'x) eth_body list" where
  "fetchBlockResponse66 bodyFirst rh rb =
     (let eh = (case headers_response rh of Inl err \<Rightarrow> Some err | Inr hs \<Rightarrow> None);
          eb = (case bodies_response rb of Inl err \<Rightarrow> Some err | Inr bs \<Rightarrow> None);
          reports = (if bodyFirst then [eb, eh] else [eh, eb])
      in case List.map_filter id reports of
           err # _ \<Rightarrow> Inl err
         | [] \<Rightarrow> (case (headers_response rh, bodies_response rb) of
                   (Inr headers, Inr bodies) \<Rightarrow> Inr (headers, bodies) | _ \<Rightarrow> Inl ErrInvalidPacketType))"

definition awaitBlockResponse ::
  "('t, 'x) geth \<Rightarrow> 'x header_hash \<Rightarrow> readings \<Rightarrow> ('t, 'x, 'n, 'k) handler \<Rightarrow> string \<Rightarrow> node_endpoint \<Rightarrow>
     fetch_error + 'x eth_header option list \<times> ('t, 'x) eth_body list \<Rightarrow> ('t, 'x, 'n, 'k) handler act" where
  "awaitBlockResponse G HH rd h pid peerEndpoint fetched =
     (case fetched of
        Inl err \<Rightarrow> abind (on_peer h pid (\<lambda>peer. returns (if p_disconnected peer then peer else Disconnect peer, ())))
                     (\<lambda>(h1, u). returns h1)
      | Inr (headers, bodies) \<Rightarrow>
          abind (processBlockComponents G HH rd h pid peerEndpoint headers bodies) (\<lambda>(h1, err). returns h1))"

fun processBlockHeaders ::
  "('t, 'x) geth \<Rightarrow> 'x header_hash \<Rightarrow> (nat \<Rightarrow> readings) \<Rightarrow> ('t, 'x, 'n, 'k) handler \<Rightarrow> node_endpoint \<Rightarrow>
     'x eth_header option list \<Rightarrow> ('t, 'x, 'n, 'k) handler go" where
  "processBlockHeaders G HH rds h peerEndpoint [] = Inr h"
| "processBlockHeaders G HH rds h peerEndpoint (blockHeader # blockHeaders) =
     gbind (confirmBlock G HH (rds (length blockHeaders)) h (HH blockHeader) peerEndpoint) (\<lambda>h1.
       processBlockHeaders G HH rds h1 peerEndpoint blockHeaders)"

text \<open>The dispatch; announced transaction hashes fall through, their case is commented out in the code.\<close>

definition Handle ::
  "('t, 'x) geth \<Rightarrow> 'x header_hash \<Rightarrow> (string \<Rightarrow> ('t, 'x) wire) \<Rightarrow> (nat \<Rightarrow> readings) \<Rightarrow> ('t, 'x, 'n, 'k) handler \<Rightarrow>
     string \<Rightarrow> node_endpoint \<Rightarrow> ('t, 'x) eth_packet \<Rightarrow> ('t, 'x, 'n, 'k) outcome" where
  "Handle G HH W rds h pid peerEndpoint packet =
     (case packet of
        StatusPacket p \<Rightarrow> returns (h\<lparr>h_chain := InitializeDifficulty (h_chain h) (st_Head p) (st_TD p)\<rparr>, [], None)
      | TransactionsPacket txs \<Rightarrow> (let (h1, err) = processTransactions G h peerEndpoint txs in returns (h1, [], err))
      | PooledTransactionsPacket txs \<Rightarrow> (let (h1, err) = processTransactions G h peerEndpoint txs in returns (h1, [], err))
      | NewBlockPacket p \<Rightarrow>
          abind (processBlock G HH (rds 0) h pid peerEndpoint (NewBlockInfo (nb_Block p) (nb_TD p))) (\<lambda>h1.
            returns (h1, [], None))
      | NewBlockHashesPacket bs \<Rightarrow> processBlockAnnouncement G HH W rds h pid peerEndpoint bs
      | BlockHeadersPacket hs \<Rightarrow>
          abind (lift_go (processBlockHeaders G HH rds h peerEndpoint hs)) (\<lambda>h1. returns (h1, [], None))
      | _ \<Rightarrow> returns (h, [], None))"

section \<open>Messages of the BDN\<close>

text \<open>A transaction that cannot be decoded is left out.\<close>

fun decode_transactions :: "('t, 'x) geth \<Rightarrow> tb_transaction list \<Rightarrow> 't list \<Rightarrow> 't list" where
  "decode_transactions G [] ethTxs = ethTxs"
| "decode_transactions G (bdnTx # bdnTxs) ethTxs =
     (case TransactionBDNToBlockchain G bdnTx of Inl err \<Rightarrow> decode_transactions G bdnTxs ethTxs
      | Inr ethTx \<Rightarrow> decode_transactions G bdnTxs (ethTxs @ [ethTx]))"

definition processBDNTransactions ::
  "('t, 'x) geth \<Rightarrow> (string \<Rightarrow> ('t, 'x) wire) \<Rightarrow> readings \<Rightarrow> ('t, 'x, 'n, 'k) handler \<Rightarrow> tb_transaction list \<Rightarrow>
     ('t, 'x, 'n, 'k) handler" where
  "processBDNTransactions G W rd h bdnTxs =
     h\<lparr>h_peers := broadcastTransactions W (rd_order rd) (decode_transactions G bdnTxs []) (h_peers h)\<rparr>"

definition processBDNTransactionRequests ::
  "(string \<Rightarrow> ('t, 'x) wire) \<Rightarrow> readings \<Rightarrow> ('t, 'x, 'n, 'k) handler \<Rightarrow> transaction_announcement \<Rightarrow> ('t, 'x, 'n, 'k) handler" where
  "processBDNTransactionRequests W rd h request =
     (case h_peers h (ta_PeerID request) of None \<Rightarrow> h
      | Some peer \<Rightarrow> h\<lparr>h_peers := (h_peers h)(ta_PeerID request \<mapsto>
          fst (RequestTransactions (W (ta_PeerID request)) peer (rd_rid rd 0) (ta_Hashes request)))\<rparr>)"

definition storeBDNBlock ::
  "('t, 'x) geth \<Rightarrow> 'x header_hash \<Rightarrow> ('t, 'x, 'n, 'k) handler \<Rightarrow> tb_block \<Rightarrow>
     (('t, 'x, 'n, 'k) handler \<times> (block_error + ('t, 'x) block_info option)) go" where
  "storeBDNBlock G HH h bdnBlock =
     (if HasBlock (h_chain h) (tb_hash bdnBlock) then Inr (h, Inr None)
      else case BlockBDNtoBlockchain G bdnBlock of Inl err \<Rightarrow> Inr (h, Inl err)
      | Inr ethBlockInfo \<Rightarrow>
          gbind (AddBlock HH (h_chain h) ethBlockInfo BSBDN) (\<lambda>(c, n).
            Inr (h\<lparr>h_chain := c\<rparr>, Inr (Some ethBlockInfo))))"

definition processBDNBlock ::
  "('t, 'x) geth \<Rightarrow> 'x header_hash \<Rightarrow> (string \<Rightarrow> ('t, 'x) wire) \<Rightarrow> readings \<Rightarrow> ('t, 'x, 'n, 'k) handler \<Rightarrow> tb_block \<Rightarrow>
     ('t, 'x, 'n, 'k) handler act" where
  "processBDNBlock G HH W rd h bdnBlock =
     abind (lift_go (storeBDNBlock G HH h bdnBlock)) (\<lambda>(h1, r).
       case r of Inl err \<Rightarrow> returns h1
       | Inr None \<Rightarrow> returns h1
       | Inr (Some ethBlockInfo) \<Rightarrow>
           (case SetTotalDifficulty HH (h_chain h1) ethBlockInfo of
              (c, info, Some err) \<Rightarrow> returns (h1\<lparr>h_chain := c,
                h_peers := broadcastBlockAnnouncement W HH (rd_order rd) (bi_Block info) (h_peers h1)\<rparr>)
            | (c, info, None) \<Rightarrow>
                abind (broadcastBlock (rd_order rd) (bi_Block info) (TotalDifficulty info) None (h_peers h1)) (\<lambda>ps.
                  returns (h1\<lparr>h_chain := c, h_peers := ps\<rparr>))))"

definition processBlockchainStatusRequest ::
  "readings \<Rightarrow> ('t, 'x, 'n, 'k) handler \<Rightarrow> ('t, 'x, 'n, 'k) handler" where
  "processBlockchainStatusRequest rd h =
     h\<lparr>h_bridge := fst (SendBlockchainStatusResponse (h_bridge h) (map p_endpoint (ps_getAll (rd_order rd) (h_peers h))))\<rparr>"

definition checkInitialBlockchainLiveliness :: "readings \<Rightarrow> ('t, 'x, 'n, 'k) handler \<Rightarrow> ('t, 'x, 'n, 'k) handler" where
  "checkInitialBlockchainLiveliness rd h =
     (if ps_getAll (rd_order rd) (h_peers h) = []
      then h\<lparr>h_bridge := fst (SendNoActiveBlockchainPeersAlert (h_bridge h))\<rparr> else h)"

text \<open>One round of \<open>handleBDNBridge\<close>: the case the \<open>select\<close> takes is an argument.\<close>

datatype bdn_case = CaseTransactions | CaseRequest | CaseBlock | CaseConfig | CaseStatus

definition handleBDNBridge_round ::
  "('t, 'x) geth \<Rightarrow> 'x header_hash \<Rightarrow> (string \<Rightarrow> ('t, 'x) wire) \<Rightarrow> readings \<Rightarrow> ('t, 'x, 'n, 'k) handler \<Rightarrow> bdn_case \<Rightarrow>
     ('t, 'x, 'n, 'k) handler act" where
  "handleBDNBridge_round G HH W rd h k =
     (case k of
        CaseTransactions \<Rightarrow> (case ReceiveBDNTransactions (h_bridge h) of None \<Rightarrow> Inr None
          | Some (bdnTxs, br) \<Rightarrow> returns (processBDNTransactions G W rd (h\<lparr>h_bridge := br\<rparr>) bdnTxs))
      | CaseRequest \<Rightarrow> (case ReceiveTransactionHashesRequest (h_bridge h) of None \<Rightarrow> Inr None
          | Some (request, br) \<Rightarrow> returns (processBDNTransactionRequests W rd (h\<lparr>h_bridge := br\<rparr>) request))
      | CaseBlock \<Rightarrow> (case ReceiveBlockFromBDN (h_bridge h) of None \<Rightarrow> Inr None
          | Some (bdnBlock, br) \<Rightarrow> processBDNBlock G HH W rd (h\<lparr>h_bridge := br\<rparr>) bdnBlock)
      | CaseConfig \<Rightarrow> (case ReceiveNetworkConfigUpdates (h_bridge h) of None \<Rightarrow> Inr None
          | Some (config, br) \<Rightarrow> returns (h\<lparr>h_bridge := br, h_config := config_Update (h_config h) config\<rparr>))
      | CaseStatus \<Rightarrow> (case ReceiveBlockchainStatusRequest (h_bridge h) of None \<Rightarrow> Inr None
          | Some (u, br) \<Rightarrow> returns (processBlockchainStatusRequest rd (h\<lparr>h_bridge := br\<rparr>))))"

text \<open>\<open>RunPeer\<close> registers the peer, runs the message loop, and at its end stops and unregisters the peer.\<close>

definition RunPeer_start :: "('t, 'x, 'n, 'k) handler \<Rightarrow> ('t, 'x) peer \<Rightarrow> ('t, 'x, 'n, 'k) handler \<times> peer_set_error option" where
  "RunPeer_start h ep = (let (ps, err) = ps_register (h_peers h) ep in (h\<lparr>h_peers := ps\<rparr>, err))"

definition checkpoint_timeout :: "('t, 'x, 'n, 'k) handler \<Rightarrow> string \<Rightarrow> ('t, 'x, 'n, 'k) handler" where
  "checkpoint_timeout h pid =
     h\<lparr>h_peers := (h_peers h)(pid := map_option (\<lambda>ep. ep\<lparr>p_checkpointPassed := True\<rparr>) (h_peers h pid))\<rparr>"

definition RunPeer_end :: "('t, 'x, 'n, 'k) handler \<Rightarrow> string \<Rightarrow> ('t, 'x, 'n, 'k) handler" where
  "RunPeer_end h pid = h\<lparr>h_peers := fst (ps_unregister (h_peers h) pid)\<rparr>"

end
