(* ===== verification/Backend_Flow.thy ===== *)
theory Backend_Flow
  imports Backend
begin

text \<open>
  What the backend does with blocks: it keeps the invariant of the chain, sends new heads to the BDN in
  ascending order, and queues or announces blocks for the other peers.
\<close>

section \<open>The chain under the handler\<close>

lemma send_heads_frame [simp]:
  "h_peers (send_heads G HH clk e heads h) = h_peers h" "h_config (send_heads G HH clk e heads h) = h_config h"
  by (induction G HH clk e heads h rule: send_heads.induct) (simp_all split: sum.split prod.split option.split)

lemma send_heads_chain_ok: "chain_ok HH (h_chain h) \<Longrightarrow> chain_ok HH (h_chain (send_heads G HH clk e heads h))"
proof (induction G HH clk e heads h rule: send_heads.induct)
  case (1 G HH clk e h)
  then show ?case by simp
next
  case (2 G HH clk e newHead rest h)
  then show ?case by (auto simp: chain_ok_MarkSentToBDN split: sum.split prod.split option.split)
qed

text \<open>The confirmation changes at most the metadata of one block and the channel of confirmed blocks.\<close>

lemma SendConfirmedBlockToGateway_blocks:
  "SendConfirmedBlockToGateway b k e = (b', r) \<Longrightarrow> br_blocksFromNode b' = br_blocksFromNode b"
  by (auto simp: SendConfirmedBlockToGateway_def split: option.splits)

lemma HasSentToBDN_storeBlockMetadata: "HasSentToBDN (storeBlockMetadata c h ht cf cs) hsh = HasSentToBDN c hsh"
  by (auto simp: storeBlockMetadata_def HasSentToBDN_def split: option.split)

lemma confirm_to_gateway_frame:
  "chain_ok HH (h_chain h) \<Longrightarrow> chain_ok HH (h_chain (confirm_to_gateway e b h))"
  "br_blocksFromNode (h_bridge (confirm_to_gateway e b h)) = br_blocksFromNode (h_bridge h)"
  "HasSentToBDN (h_chain (confirm_to_gateway e b h)) hsh = HasSentToBDN (h_chain h) hsh"
  by (auto simp: confirm_to_gateway_def chain_ok_storeBlockMetadata HasSentToBDN_storeBlockMetadata
      dest: SendConfirmedBlockToGateway_blocks split: option.split prod.split)

lemma send_confirmation_cases:
  "send_confirmation G HH now e h = Inr h' \<Longrightarrow> h' = h \<or> (\<exists>b. h' = confirm_to_gateway e b h)"
  unfolding send_confirmation_def gbind_Inr_iff by (elim exE conjE) (auto split: sum.split_asm)

lemma send_confirmation_chain_ok:
  "chain_ok HH (h_chain h) \<Longrightarrow> send_confirmation G HH now e h = Inr h' \<Longrightarrow> chain_ok HH (h_chain h')"
  by (auto dest!: send_confirmation_cases simp: confirm_to_gateway_frame)

lemma sendConfirmedBlocksToBDN_chain_ok:
  "chain_ok HH (h_chain h) \<Longrightarrow> sendConfirmedBlocksToBDN G HH rd h n e = Inr h' \<Longrightarrow> chain_ok HH (h_chain h')"
  by (auto simp: sendConfirmedBlocksToBDN_def gbind_Inr_iff dest: send_confirmation_chain_ok [OF send_heads_chain_ok])

lemma confirmBlock_chain_ok:
  assumes "chain_ok HH (h_chain h)" "confirmBlock G HH rd h hsh e = Inr h'"
  shows "chain_ok HH (h_chain h')"
proof -
  from assms(2) obtain c n where c: "ConfirmBlock HH (h_chain h) hsh = Inr (c, n)"
    "sendConfirmedBlocksToBDN G HH rd (h\<lparr>h_chain := c\<rparr>) n e = Inr h'"
    by (auto simp: confirmBlock_def gbind_Inr_iff)
  from sendConfirmedBlocksToBDN_chain_ok [OF _ c(2)] chain_ok_ConfirmBlock [OF assms(1) c(1)] show ?thesis by simp
qed

lemma processBlockHeaders_chain_ok:
  "chain_ok HH (h_chain h) \<Longrightarrow> processBlockHeaders G HH rds h e hs = Inr h' \<Longrightarrow> chain_ok HH (h_chain h')"
  by (induction hs arbitrary: h) (auto simp: gbind_Inr_iff dest: confirmBlock_chain_ok)

lemma processBlock_chain_ok:
  assumes "chain_ok HH (h_chain h)" "hash_binds HH" "unat (NumberU64 (bi_Block info)) < 2 ^ 63"
    and "processBlock G HH rd h pid e info = returns h'"
  shows "chain_ok HH (h_chain h')"
proof (cases "validateBlock (rd_now rd) h (block_Hash HH (bi_Block info))
    (big_Int64 (Number (blk_header (bi_Block info)))) (sint (Time (blk_header (bi_Block info))))")
  case None
  with assms(4) obtain c n h1 where r: "AddBlock HH (h_chain h) info BSBlockchain = Inr (c, n)"
    "sendConfirmedBlocksToBDN G HH rd (h\<lparr>h_chain := c\<rparr>) n e = Inr h1" "h_chain h' = h_chain h1"
    by (auto simp: processBlock_def Let_def abind_returns_iff lift_go_returns_iff)
  from sendConfirmedBlocksToBDN_chain_ok [OF _ r(2)] chain_ok_AddBlock [OF assms(2,1,3) r(1)] r(3) show ?thesis by simp
next
  case (Some err)
  with assms(1,4) show ?thesis by (simp add: processBlock_def Let_def)
qed

lemma on_peer_chain [simp]: "on_peer h pid f = returns (h', a) \<Longrightarrow> h_chain h' = h_chain h"
  by (auto simp: on_peer_def abind_returns_iff split: option.splits prod.splits)

lemma processBlockAnnouncement_chain_ok:
  "chain_ok HH (h_chain h) \<Longrightarrow> processBlockAnnouncement G HH W rds h pid e bs = returns (h', ps, err) \<Longrightarrow>
     chain_ok HH (h_chain h')"
proof (induction bs arbitrary: h ps)
  case Nil
  then show ?case by simp
next
  case (Cons b bs)
  obtain bh n where b: "b = (bh, n)" by (cases b)
  show ?case
  proof (cases "HasBlock (h_chain h) bh")
    case True
    with Cons b show ?thesis by (auto simp: abind_returns_iff lift_go_returns_iff dest: confirmBlock_chain_ok)
  next
    case False
    with Cons.prems b obtain h1 st er where r: "request_block W (rds (length bs)) h pid bh = returns (h1, st, er)"
      and rest: "(if er \<noteq> None then returns (h1, st, er)
        else abind (processBlockAnnouncement G HH W rds h1 pid e bs) (\<lambda>(h2, st2, er2). returns (h2, st @ st2, er2))) =
        returns (h', ps, err)"
      by (auto simp: abind_returns_iff)
    from r have "h_chain h1 = h_chain h"
      by (auto simp: request_block_def Let_def abind_returns_iff split: option.splits)
    then have ok: "chain_ok HH (h_chain h1)" using Cons.prems(1) by simp
    from rest ok show ?thesis
      by (auto simp: abind_returns_iff split: if_splits intro: Cons.IH [OF ok])
  qed
qed

text \<open>The numbers a packet brings into the chain.\<close>

fun packet_heights_ok :: "('t, 'x) eth_packet \<Rightarrow> bool" where
  "packet_heights_ok (NewBlockPacket p) = (unat (NumberU64 (nb_Block p)) < 2 ^ 63)"
| "packet_heights_ok _ = True"

lemma bi_Block_NewBlockInfo [simp]: "bi_Block (NewBlockInfo b td) = b"
  by (simp add: NewBlockInfo_def SetInfoTotalDifficulty_def split: option.split)

text \<open>
  Whatever message of a peer the handler processes, in whatever state, the chain keeps its invariant:
  complete stores and a linked chain state.
\<close>

lemma Handle_chain_ok:
  assumes "chain_ok HH (h_chain h)" "hash_binds HH" "packet_heights_ok packet"
    and "Handle G HH W rds h pid e packet = returns (h', started, err)"
  shows "chain_ok HH (h_chain h')"
proof (cases packet)
  case (NewBlockPacket p)
  with assms(4) have "processBlock G HH (rds 0) h pid e (NewBlockInfo (nb_Block p) (nb_TD p)) = returns h'"
    by (auto simp: Handle_def abind_returns_iff)
  from processBlock_chain_ok [OF assms(1,2) _ this] NewBlockPacket assms(3) show ?thesis by simp
next
  case (NewBlockHashesPacket bs)
  with assms show ?thesis by (auto simp: Handle_def intro: processBlockAnnouncement_chain_ok)
next
  case (BlockHeadersPacket hs)
  with assms show ?thesis
    by (auto simp: Handle_def abind_returns_iff lift_go_returns_iff intro: processBlockHeaders_chain_ok)
next
  case (StatusPacket p)
  with assms show ?thesis by (auto simp: Handle_def chain_ok_InitializeDifficulty)
qed (use assms in \<open>auto simp: Handle_def processTransactions_def split: sum.splits prod.splits option.splits bridge_error.splits\<close>)

text \<open>A handler and readings for the examples.\<close>

definition ex_handler :: "(byte list, unit, unit, unit) handler" where
  "ex_handler = NewHandler NewTurboBridge newEthereumMainnetConfig"

definition ex_rd :: "string list \<Rightarrow> readings" where
  "ex_rd order = \<lparr>rd_now = 0, rd_clk = (\<lambda>n. 0), rd_order = order, rd_rid = (\<lambda>n. of_nat n), rd_ch = 0\<rparr>"

definition ex_endpoint :: node_endpoint where
  "ex_endpoint = \<lparr>ep_IP = [], ep_Port = 0, ep_PublicKey = []\<rparr>"

definition ex_packet :: "(byte list, unit) eth_packet" where
  "ex_packet = NewBlockPacket \<lparr>nb_Block = ex_body, nb_TD = Some 7\<rparr>"

lemma ex_handler_ok: "chain_ok toy_hash (h_chain ex_handler)"
  by (simp add: ex_handler_def NewHandler_def NewChain_def chain_ok_newChain)

section \<open>New heads on their way to the BDN\<close>

text \<open>The hashes of the blocks that wait in the channel to the BDN.\<close>

definition to_bdn :: "('t, 'x, 'n, 'k) handler \<Rightarrow> hash list" where
  "to_bdn h = map (\<lambda>b. tb_hash (bf_Block b)) (ch_items (br_blocksFromNode (h_bridge h)))"

text \<open>Blocks that can be converted, at any time.\<close>

definition convertible :: "('t, 'x) geth \<Rightarrow> 'x header_hash \<Rightarrow> ('t, 'x) block_info list \<Rightarrow> bool" where
  "convertible G HH heads \<longleftrightarrow> (\<forall>i \<in> set heads. \<forall>now. \<exists>tb. BlockBlockchainToBDN G HH now i = Inr tb)"

lemma BlockBlockchainToBDN_hash:
  "BlockBlockchainToBDN G HH now info = Inr tb \<Longrightarrow> tb_hash tb = block_Hash HH (bi_Block info)"
  by (auto simp: BlockBlockchainToBDN_def Let_def NewTbBlock_def NewRawTbBlock_def split: sum.splits option.splits if_splits)

lemma SendBlockToBDN_room:
  assumes "length (ch_items (br_blocksFromNode b)) < ch_cap (br_blocksFromNode b)"
  shows "\<exists>b'. SendBlockToBDN b k e = (b', None) \<and>
     ch_items (br_blocksFromNode b') = ch_items (br_blocksFromNode b) @ [\<lparr>bf_Block = k, bf_PeerEndpoint = e\<rparr>] \<and>
     ch_cap (br_blocksFromNode b') = ch_cap (br_blocksFromNode b)"
  using assms by (simp add: SendBlockToBDN_def try_send_def ch_room_def)

lemma HasSentToBDN_MarkSentToBDN:
  "HasSentToBDN (MarkSentToBDN c h) h' \<longleftrightarrow> HasSentToBDN c h' \<or> (h' = h \<and> h \<in> dom (blockHashToMetadata c))"
  by (auto simp: HasSentToBDN_def MarkSentToBDN_def split: option.split)

lemma send_heads_spec:
  "convertible G HH heads \<Longrightarrow>
     length (ch_items (br_blocksFromNode (h_bridge h))) + length heads \<le> ch_cap (br_blocksFromNode (h_bridge h)) \<Longrightarrow>
     \<forall>i \<in> set heads. block_Hash HH (bi_Block i) \<in> dom (blockHashToMetadata (h_chain h)) \<Longrightarrow>
     to_bdn (send_heads G HH clk e heads h) = to_bdn h @ map (\<lambda>i. block_Hash HH (bi_Block i)) heads \<and>
     chainState (h_chain (send_heads G HH clk e heads h)) = chainState (h_chain h) \<and>
     (\<forall>hsh. HasSentToBDN (h_chain (send_heads G HH clk e heads h)) hsh \<longleftrightarrow>
        HasSentToBDN (h_chain h) hsh \<or> hsh \<in> (\<lambda>i. block_Hash HH (bi_Block i)) ` set heads)"
proof (induction heads arbitrary: h)
  case Nil
  then show ?case by simp
next
  case (Cons i heads)
  obtain tb where tb: "BlockBlockchainToBDN G HH (clk (length heads)) i = Inr tb" using Cons.prems(1) unfolding convertible_def by (meson list.set_intros(1))
  obtain br where br: "SendBlockToBDN (h_bridge h) tb e = (br, None)"
    "ch_items (br_blocksFromNode br) = ch_items (br_blocksFromNode (h_bridge h)) @ [\<lparr>bf_Block = tb, bf_PeerEndpoint = e\<rparr>]"
    "ch_cap (br_blocksFromNode br) = ch_cap (br_blocksFromNode (h_bridge h))"
    using SendBlockToBDN_room [of "h_bridge h" tb e] Cons.prems(2) by auto
  let ?h1 = "h\<lparr>h_bridge := br, h_chain := MarkSentToBDN (h_chain h) (block_Hash HH (bi_Block i))\<rparr>"
  have dom: "dom (blockHashToMetadata (MarkSentToBDN c x)) = dom (blockHashToMetadata c)" for c :: "('a, 'b) chain" and x
    by (auto simp: MarkSentToBDN_def split: option.split)
  note IH = Cons.IH [of ?h1]
  show ?case
    using IH Cons.prems tb br BlockBlockchainToBDN_hash [OF tb] dom [of "h_chain h" "block_Hash HH (bi_Block i)"]
    by (auto simp: to_bdn_def HasSentToBDN_MarkSentToBDN convertible_def domIff)
qed

text \<open>At depth 0 the confirmation always returns.\<close>

lemma BlockAtDepth_head:
  assumes "chain_ok HH c"
  shows "\<exists>r. BlockAtDepth HH c 0 = Inr r"
proof (cases "chainState c")
  case Nil
  then show ?thesis by (simp add: BlockAtDepth_def)
next
  case (Cons hd' tl')
  have bk: "backed HH c hd'" using chain_okD(2) [OF assms] Cons by simp
  then obtain hdr where "getBlockHeader HH c (ref_height hd') (ref_hash hd') = Some (Some hdr)" by (auto simp: backed_def)
  moreover obtain body where "blockHashToBody c (ref_hash hd') = Some body"
    using backed_in_stores [OF chain_okD(1) [OF assms] bk] by auto
  ultimately show ?thesis using Cons by (simp add: BlockAtDepth_def getHeaderAtHeight_def Let_def)
qed

lemma send_confirmation_returns:
  assumes "chain_ok HH (h_chain h)" "cf_BlockConfirmationsCount (h_config h) = 0"
  shows "\<exists>h'. send_confirmation G HH now e h = Inr h'"
proof -
  obtain r where "BlockAtDepth HH (h_chain h) 0 = Inr r" using BlockAtDepth_head [OF assms(1)] by blast
  then show ?thesis using assms(2) by (simp add: send_confirmation_def blockAtDepth_def split: sum.split)
qed

lemma to_bdn_send_confirmation:
  "send_confirmation G HH now e h = Inr h' \<Longrightarrow> to_bdn h' = to_bdn h \<and> HasSentToBDN (h_chain h') x = HasSentToBDN (h_chain h) x"
  by (auto dest!: send_confirmation_cases simp: to_bdn_def confirm_to_gateway_frame)

lemma heads_have_metadata:
  assumes "chain_ok HH c" "map (\<lambda>b. HH (Some (blk_header (bi_Block b)))) bs = map ref_hash (take k (chainState c))"
    and "i \<in> set bs"
  shows "block_Hash HH (bi_Block i) \<in> dom (blockHashToMetadata c)"
proof -
  have "HH (Some (blk_header (bi_Block i))) \<in> set (map ref_hash (take k (chainState c)))"
    unfolding assms(2) [symmetric] using assms(3) by simp
  then obtain r where r: "r \<in> set (chainState c)" "ref_hash r = block_Hash HH (bi_Block i)"
    by (auto simp: block_Hash_def dest: in_set_takeD)
  with backed_in_stores [OF chain_okD(1) [OF assms(1)] chain_okD(2) [OF assms(1) r(1)]] show ?thesis by simp
qed

text \<open>The entries on top of the chain state, among the newest \<open>n\<close>, down to the first that was sent already.\<close>

definition unsent_heads :: "('t, 'x) chain \<Rightarrow> int \<Rightarrow> block_ref list" where
  "unsent_heads c n = takeWhile (\<lambda>r. \<not> HasSentToBDN c (ref_hash r)) (take (nat n) (chainState c))"

lemma new_heads_unsent:
  assumes "hash_binds HH" "chain_ok HH c" "unat (NumberU64 (bi_Block b)) < 2 ^ 63"
    and "AddBlock HH c b BSBlockchain = Inr (c', n)" "GetNewHeadsForBDN HH c' n = Inr (heads, er)"
  shows "er = None" "int (length heads) \<le> n" "take (length heads) (chainState c') = unsent_heads c' n"
    "map (\<lambda>i. block_Hash HH (bi_Block i)) heads = map ref_hash (unsent_heads c' n)"
    "0 < n \<Longrightarrow> \<not> HasSentToBDN c' (block_Hash HH (bi_Block b)) \<Longrightarrow>
       heads \<noteq> [] \<and> block_Hash HH (bi_Block (hd heads)) = block_Hash HH (bi_Block b)"
proof -
  have "make_ok pointerSize n" using assms(5) by (auto simp: GetNewHeadsForBDN_def split: if_splits)
  from new_heads_of_AddBlock [OF assms(1-4) this] assms(5) have bs: "er = None" "int (length heads) \<le> n"
    "map (\<lambda>b. HH (Some (blk_header (bi_Block b)))) heads = map ref_hash (take (length heads) (chainState c'))"
    "\<forall>j < length heads. \<not> HasSentToBDN c' (ref_hash (chainState c' ! j))"
    "int (length heads) < n \<longrightarrow> length heads < length (chainState c') \<and> HasSentToBDN c' (ref_hash (chainState c' ! length heads))"
    "0 < n \<and> \<not> HasSentToBDN c' (block_Hash HH (bi_Block b)) \<longrightarrow>
        heads \<noteq> [] \<and> HH (Some (blk_header (bi_Block (hd heads)))) = block_Hash HH (bi_Block b)"
    by auto
  have "unsent_heads c' n = take (length heads) (take (nat n) (chainState c'))"
    unfolding unsent_heads_def by (rule takeWhile_eq_take_P_nth) (use bs(2,4,5) in auto)
  then show t: "take (length heads) (chainState c') = unsent_heads c' n" using bs(2) by (simp add: min_absorb1)
  show "er = None" "int (length heads) \<le> n" using bs(1,2) .
  show "map (\<lambda>i. block_Hash HH (bi_Block i)) heads = map ref_hash (unsent_heads c' n)"
    using bs(3) by (simp add: t block_Hash_def)
  show "heads \<noteq> [] \<and> block_Hash HH (bi_Block (hd heads)) = block_Hash HH (bi_Block b)"
    if "0 < n" "\<not> HasSentToBDN c' (block_Hash HH (bi_Block b))"
    using bs(6) that by (simp add: block_Hash_def)
qed

text \<open>
  C17. A block of the local node reaches the BDN with everything below it that is new. After \<open>AddBlock\<close>
  returned \<open>n\<close>, the entries on top of the chain state, among the newest \<open>n\<close>, down to the first that was sent
  before, are sent, all of them and nothing else, from the lowest to the highest, and exactly these hashes become
  marked as sent; if the block itself is new, it comes last. The conditions are a linked chain with complete
  stores, a number that fits a signed integer, heads that can be converted (go-ethereum encodes them and no hash of a
  transaction is zero), room for \<open>n\<close> blocks in the channel to the BDN, and the depth of confirmation 0, which every
  preset has.
\<close>

theorem heads_sent_ascending:
  assumes "hash_binds HH" "chain_ok HH (h_chain h)" "unat (NumberU64 (bi_Block b)) < 2 ^ 63"
    and add: "AddBlock HH (h_chain h) b BSBlockchain = Inr (c', n)"
    and new: "GetNewHeadsForBDN HH c' n = Inr (heads, er)" "convertible G HH heads" and "cf_BlockConfirmationsCount (h_config h) = 0"
    and room: "int (length (ch_items (br_blocksFromNode (h_bridge h)))) + n \<le> int (ch_cap (br_blocksFromNode (h_bridge h)))"
  shows "\<exists>h'. sendConfirmedBlocksToBDN G HH rd (h\<lparr>h_chain := c'\<rparr>) n e = Inr h' \<and>
     take (length heads) (chainState c') = unsent_heads c' n \<and>
     to_bdn h' = to_bdn h @ rev (map ref_hash (unsent_heads c' n)) \<and>
     (\<forall>r \<in> set (unsent_heads c' n). \<not> HasSentToBDN c' (ref_hash r)) \<and>
     (\<forall>hsh. HasSentToBDN (h_chain h') hsh \<longleftrightarrow> HasSentToBDN c' hsh \<or> hsh \<in> ref_hash ` set (unsent_heads c' n)) \<and>
     (0 < n \<and> \<not> HasSentToBDN c' (block_Hash HH (bi_Block b)) \<longrightarrow> last (to_bdn h') = block_Hash HH (bi_Block b))"
proof -
  note bs = new_heads_unsent [OF assms(1-4) new(1)]
  let ?h0 = "h\<lparr>h_chain := c'\<rparr>" and ?top = "unsent_heads c' n"
  let ?h1 = "send_heads G HH (rd_clk rd) e (rev heads) ?h0"
  have ok: "chain_ok HH c'" using chain_ok_AddBlock [OF assms(1-4)] .
  have in_hashes: "(\<lambda>i. block_Hash HH (bi_Block i)) ` set heads = ref_hash ` set ?top"
    using bs(4) by (metis list.set_map)
  have hashes: "map (\<lambda>b. HH (Some (blk_header (bi_Block b)))) heads = map ref_hash (take (length heads) (chainState c'))"
    using bs(4) by (simp add: bs(3) block_Hash_def)
  have spec: "to_bdn ?h1 = to_bdn ?h0 @ map (\<lambda>i. block_Hash HH (bi_Block i)) (rev heads)"
    "\<forall>x. HasSentToBDN (h_chain ?h1) x \<longleftrightarrow> HasSentToBDN c' x \<or> x \<in> ref_hash ` set ?top"
    using send_heads_spec [of G HH "rev heads" ?h0 "rd_clk rd" e] new(2) room bs(2) heads_have_metadata [OF ok hashes]
    by (auto simp: in_hashes [symmetric] convertible_def)
  have "to_bdn ?h0 = to_bdn h" by (simp add: to_bdn_def)
  with spec(1) have out: "to_bdn ?h1 = to_bdn h @ rev (map (\<lambda>i. block_Hash HH (bi_Block i)) heads)"
    by (simp add: rev_map [symmetric])
  obtain h' where h': "send_confirmation G HH (rd_clk rd (length heads)) e ?h1 = Inr h'"
    using send_confirmation_returns [of HH ?h1 G "rd_clk rd (length heads)" e] send_heads_chain_ok [of HH ?h0 G] ok assms(7) by auto
  then have s: "sendConfirmedBlocksToBDN G HH rd ?h0 n e = Inr h'"
    using new(1) bs(1) by (simp add: sendConfirmedBlocksToBDN_def)
  have "\<not> HasSentToBDN c' (ref_hash r)" if "r \<in> set ?top" for r
    using that by (auto simp: unsent_heads_def dest: set_takeWhileD)
  moreover have "last (to_bdn h') = block_Hash HH (bi_Block b)"
    if "0 < n" "\<not> HasSentToBDN c' (block_Hash HH (bi_Block b))"
    using bs(5) [OF that] to_bdn_send_confirmation [OF h'] out by (cases heads) simp_all
  moreover have "to_bdn h' = to_bdn h @ rev (map ref_hash ?top)"
    using to_bdn_send_confirmation [OF h'] out bs(4) by simp
  ultimately show ?thesis using s bs(3) spec(2) to_bdn_send_confirmation [OF h'] by (intro exI [of _ h']) blast
qed

lemma ex_convertible: "convertible (ex_geth\<lparr>txn_Hash := \<lambda>t. [1]\<rparr>) toy_hash heads"
proof -
  let ?G = "ex_geth\<lparr>txn_Hash := \<lambda>t. [1]\<rparr>"
  have enc: "convert_txs ?G txs [] = Inr (map (\<lambda>tx. NewTbBlockTransaction [1] tx) txs)" for txs
    using convert_txs_map [of txs ?G id "[]"] by (simp add: ex_geth_def)
  have "[1] \<noteq> zero_hash" by (simp add: zero_hash_def numeral_eq_Suc)
  then have "all_have_hashes (map (\<lambda>tx. NewTbBlockTransaction [1] tx) txs)" for txs
    by (simp add: all_have_hashes_iff NewTbBlockTransaction_def)
  moreover have "enc_header ?G x = Inr [of_int (Number x)]" "enc_uncles ?G us = Inr []" for x us
    by (simp_all add: ex_geth_def)
  ultimately show ?thesis
    by (simp add: convertible_def BlockBlockchainToBDN_def Let_def enc NewTbBlock_def)
qed

theorem heads_sent_ascending_witness:
  "\<exists>c' h'. AddBlock toy_hash (h_chain ex_handler) (NewBlockInfo ex_body None) BSBlockchain = Inr (c', 1) \<and>
     sendConfirmedBlocksToBDN (ex_geth\<lparr>txn_Hash := \<lambda>t. [1]\<rparr>) toy_hash (ex_rd []) (ex_handler\<lparr>h_chain := c'\<rparr>) 1 ex_endpoint = Inr h' \<and>
     last (to_bdn h') = block_Hash toy_hash ex_body"
proof -
  have ev: "(case AddBlock toy_hash (h_chain ex_handler) (NewBlockInfo ex_body None) BSBlockchain of
      Inr (c', n) \<Rightarrow> n = 1 \<and> \<not> HasSentToBDN c' (block_Hash toy_hash ex_body) \<and>
        (case GetNewHeadsForBDN toy_hash c' 1 of Inr (bs, er) \<Rightarrow> True | _ \<Rightarrow> False) | _ \<Rightarrow> False)"
    by code_simp
  then obtain c' heads er where c: "AddBlock toy_hash (h_chain ex_handler) (NewBlockInfo ex_body None) BSBlockchain = Inr (c', 1)"
    "\<not> HasSentToBDN c' (block_Hash toy_hash ex_body)" "GetNewHeadsForBDN toy_hash c' 1 = Inr (heads, er)"
    by (auto split: sum.splits prod.splits)
  have small: "unat (NumberU64 (bi_Block (NewBlockInfo ex_body None))) < 2 ^ 63"
    by (simp add: ex_body_def NumberU64_def big_Uint64_def)
  have "cf_BlockConfirmationsCount (h_config ex_handler) = 0"
    "int (length (ch_items (br_blocksFromNode (h_bridge ex_handler)))) + 1 \<le> int (ch_cap (br_blocksFromNode (h_bridge ex_handler)))"
    by (simp_all add: ex_handler_def NewHandler_def newEthereumMainnetConfig_def unknownConfig_def NewTurboBridge_def
        make_chan_def blockBacklog_def)
  from heads_sent_ascending [OF toy_hash_binds ex_handler_ok small c(1,3) ex_convertible this,
      where rd = "ex_rd []" and e = ex_endpoint] c(1,2)
  show ?thesis by auto
qed

section \<open>Blocks for the peers\<close>

text \<open>
  A block is queued once for every registered peer except the one it came from, and for nobody else:
  when every channel has room, the broadcast returns, each other peer has the block with its total
  difficulty at the end of its channel, and nothing else about any peer changes.
\<close>

lemma broadcastBlock_spec:
  assumes "distinct order" "\<forall>pid \<in> set order. \<forall>ep. ps pid = Some ep \<longrightarrow> length (ch_items (p_newBlockCh ep)) < ch_cap (p_newBlockCh ep)"
  shows "broadcastBlock order block td source ps =
    returns (\<lambda>pid. if pid \<in> set order \<and> source \<noteq> Some pid
      then map_option (\<lambda>ep. ep\<lparr>p_newBlockCh := p_newBlockCh ep\<lparr>ch_items := ch_items (p_newBlockCh ep) @
             [\<lparr>nb_Block = block, nb_TD = td\<rparr>]\<rparr>\<rparr>) (ps pid)
      else ps pid)"
  using assms
proof (induction order arbitrary: ps)
  case Nil
  then show ?case by simp
next
  case (Cons pid order)
  show ?case
  proof (cases "ps pid = None \<or> source = Some pid")
    case True
    then have "broadcastBlock (pid # order) block td source ps = broadcastBlock order block td source ps"
      by (auto split: option.split)
    with Cons True show ?thesis by (auto simp: fun_eq_iff)
  next
    case False
    then obtain ep where ep: "ps pid = Some ep" "source \<noteq> Some pid" by auto
    let ?ep' = "ep\<lparr>p_newBlockCh := p_newBlockCh ep\<lparr>ch_items := ch_items (p_newBlockCh ep) @ [\<lparr>nb_Block = block, nb_TD = td\<rparr>]\<rparr>\<rparr>"
    have "QueueNewBlock ep block td = Some ?ep'"
      using Cons.prems(2) ep(1) by (simp add: QueueNewBlock_def try_send_def ch_room_def trans_less_add1)
    then have "broadcastBlock (pid # order) block td source ps = broadcastBlock order block td source (ps(pid \<mapsto> ?ep'))"
      using ep by simp
    moreover have "pid \<notin> set order" "distinct order" using Cons.prems(1) by auto
    moreover have "broadcastBlock order block td source (ps(pid \<mapsto> ?ep')) =
        returns (\<lambda>q. if q \<in> set order \<and> source \<noteq> Some q
          then map_option (\<lambda>ep. ep\<lparr>p_newBlockCh := p_newBlockCh ep\<lparr>ch_items := ch_items (p_newBlockCh ep) @
                 [\<lparr>nb_Block = block, nb_TD = td\<rparr>]\<rparr>\<rparr>) ((ps(pid \<mapsto> ?ep')) q)
          else (ps(pid \<mapsto> ?ep')) q)"
      using Cons.prems by (intro Cons.IH) auto
    ultimately show ?thesis using ep by (auto simp: fun_eq_iff)
  qed
qed

lemma broadcastBlock_spec_example:
  "broadcastBlock [''a'', ''b''] (nb_Block (ex_nb 1 [])) (Some 3) (Some ''a'')
      [''a'' \<mapsto> ex_peer [], ''b'' \<mapsto> ex_peer []] =
    returns [''a'' \<mapsto> ex_peer [], ''b'' \<mapsto> (ex_peer [])\<lparr>p_newBlockCh :=
      \<lparr>ch_items = [\<lparr>nb_Block = nb_Block (ex_nb 1 []), nb_TD = Some 3\<rparr>], ch_cap = 10, ch_waiting = 0\<rparr>\<rparr>]"
proof -
  have ch: "p_newBlockCh (ex_peer []) = \<lparr>ch_items = [], ch_cap = 10, ch_waiting = 0\<rparr>"
    by (simp add: ex_peer_def newPeer_def make_chan_def blockChannelBacklog_def)
  show ?thesis
    by (subst broadcastBlock_spec) (auto simp: ch fun_eq_iff)
qed

text \<open>
  The two ways to wait for the header and the body of a block, one after the other and side by side,
  agree: whichever report comes first, they succeed on the same responses with the same result.
\<close>

lemma fetch_equivalence:
  "fetchBlockResponse66 bodyFirst rh rb = Inr r \<longleftrightarrow> fetchBlockResponse rh rb = Inr r"
  by (auto simp: fetchBlockResponse66_def fetchBlockResponse_def Let_def List.map_filter_def split: sum.splits)

text \<open>
  A peer can stop the gateway: the answer to a request for one block with an empty list of headers and
  one body, or with one header and no body, passes the check of the counts and then panics.
\<close>

lemma empty_response_panics:
  assumes "length headers = 1 \<and> bodies = [] \<or> headers = [] \<and> length bodies = 1"
  shows "awaitBlockResponse G HH rd h pid e (Inr (headers, bodies)) = Inl IndexOutOfRange"
  using assms by (auto simp: awaitBlockResponse_def processBlockComponents_def split: list.split)

lemma empty_response_panics_example:
  "awaitBlockResponse ex_geth toy_hash (ex_rd []) ex_handler [] ex_endpoint (Inr ([], [blk_body ex_body])) = Inl IndexOutOfRange"
  by (rule empty_response_panics) simp

section \<open>Blocks from the BDN\<close>

lemma SetTotalDifficulty_frame:
  "SetTotalDifficulty HH c info = (c', info', err) \<Longrightarrow> chainState c' = chainState c \<and> bi_Block info' = bi_Block info"
  by (auto simp: SetTotalDifficulty_def SetInfoTotalDifficulty_def storeBlockDifficulty_def Let_def split: option.splits)

text \<open>The chain keeps its invariant on this side too.\<close>

lemma AddBlock_BDN:
  assumes "AddBlock HH c b BSBDN = Inr (c', n)"
  shows "chainState c' = chainState c"
  using assms by (auto simp: AddBlock_split)

lemma broadcastBlockAnnouncement_spec:
  "distinct order \<Longrightarrow> broadcastBlockAnnouncement W HH order block ps = (\<lambda>pid. if pid \<in> set order
     then map_option (\<lambda>ep. fst (AnnounceBlock (W pid) ep (block_Hash HH block) (NumberU64 block))) (ps pid) else ps pid)"
  by (induction order arbitrary: ps) (auto simp: fun_eq_iff split: option.split)

lemma AddBlock_store_difficulty:
  "TotalDifficulty b = None \<Longrightarrow> blockHashToDifficulty (AddBlock_store HH c b source) = blockHashToDifficulty c"
  by (auto simp: AddBlock_store_def storeBlockMetadata_def storeBlock_def storeBlockHeader_def storeHeaderAtHeight_def
      storeEthHeaderAtHeight_def storeBlockBody_def storeBlockDifficulty_def Let_def split: option.split)

lemma storeBDNBlock_new:
  assumes "\<not> HasBlock (h_chain h) (tb_hash tb)" "BlockBDNtoBlockchain G tb = Inr info"
  shows "storeBDNBlock G HH h tb = Inr (h\<lparr>h_chain := AddBlock_store HH (h_chain h) info BSBDN\<rparr>, Inr (Some info))"
    "chainState (AddBlock_store HH (h_chain h) info BSBDN) = chainState (h_chain h)"
    "HasBlock (AddBlock_store HH (h_chain h) info BSBDN) (block_Hash HH (bi_Block info))"
proof -
  have add: "AddBlock HH (h_chain h) info BSBDN = Inr (AddBlock_store HH (h_chain h) info BSBDN, 0)" by (simp add: AddBlock_split)
  with assms show "storeBDNBlock G HH h tb = Inr (h\<lparr>h_chain := AddBlock_store HH (h_chain h) info BSBDN\<rparr>, Inr (Some info))"
    by (simp add: storeBDNBlock_def)
  show "chainState (AddBlock_store HH (h_chain h) info BSBDN) = chainState (h_chain h)" using AddBlock_BDN [OF add] .
qed (rule HasBlock_AddBlock_store)

lemma HasBlock_SetTotalDifficulty:
  "SetTotalDifficulty HH c info = (c', info', err) \<Longrightarrow> HasBlock c' hsh = HasBlock c hsh"
  by (auto simp: SetTotalDifficulty_def storeBlockDifficulty_def HasBlock_def hasHeader_def hasBody_def Let_def
      split: option.splits)

text \<open>
  The total difficulty a block is sent on with. A difficulty counts when its low 64 bits, as a signed number, are
  positive. One that comes with the block wins; otherwise it is the sum of the difficulty known for the parent and the
  block's own, and when neither is known there is none.
\<close>

definition counting :: "int \<Rightarrow> int option" where
  "counting d = (if big_Int64 d \<le> 0 then None else Some d)"

definition known_difficulty :: "('t, 'x) chain \<Rightarrow> tb_block \<Rightarrow> ('t, 'x) eth_block \<Rightarrow> int option option" where
  "known_difficulty c tb block =
     (case Option.bind (tb_TotalDifficulty tb) counting of Some d \<Rightarrow> Some (Some d)
      | None \<Rightarrow> map_option (\<lambda>p. counting (p + Difficulty (blk_header block)))
          (blockHashToDifficulty c (ParentHash (blk_header block))))"

lemma TotalDifficulty_NewBlockInfo: "TotalDifficulty (NewBlockInfo block td) = Option.bind td counting"
  by (simp add: TotalDifficulty_def NewBlockInfo_def SetInfoTotalDifficulty_def counting_def big_Int64_def wrap64_def split: option.split)

lemma BDN_block_difficulty:
  "BlockBDNtoBlockchain G tb = Inr info \<Longrightarrow> TotalDifficulty info = Option.bind (tb_TotalDifficulty tb) counting"
  by (auto simp: BlockBDNtoBlockchain_def TotalDifficulty_NewBlockInfo split: sum.splits)

text \<open>\<open>SetTotalDifficulty\<close>, after the block was stored, finds this difficulty.\<close>

lemma SetTotalDifficulty_known:
  assumes "BlockBDNtoBlockchain G tb = Inr info"
    and "SetTotalDifficulty HH (AddBlock_store HH c info BSBDN) info = (c', info', err)"
  shows "known_difficulty c tb (bi_Block info) = (if err = None then Some (TotalDifficulty info') else None)"
proof (cases "Option.bind (tb_TotalDifficulty tb) counting")
  case None
  with assms(2) BDN_block_difficulty [OF assms(1)] AddBlock_store_difficulty [of info HH c BSBDN] show ?thesis
    by (auto simp: known_difficulty_def SetTotalDifficulty_def SetInfoTotalDifficulty_def TotalDifficulty_def counting_def Let_def
        split: option.splits)
next
  case (Some d)
  with assms(2) BDN_block_difficulty [OF assms(1)] show ?thesis by (simp add: known_difficulty_def SetTotalDifficulty_def)
qed

text \<open>What becomes of a peer: the block at the end of its channel, or an announcement.\<close>

definition forward_to ::
  "('t, 'x) wire \<Rightarrow> 'x header_hash \<Rightarrow> ('t, 'x) eth_block \<Rightarrow> int option option \<Rightarrow> ('t, 'x) peer \<Rightarrow> ('t, 'x) peer" where
  "forward_to W HH block known ep =
     (case known of
        Some td \<Rightarrow> ep\<lparr>p_newBlockCh := p_newBlockCh ep\<lparr>ch_items := ch_items (p_newBlockCh ep) @ [\<lparr>nb_Block = block, nb_TD = td\<rparr>]\<rparr>\<rparr>
      | None \<Rightarrow> fst (AnnounceBlock W ep (block_Hash HH block) (NumberU64 block)))"

lemma forward_to_cases:
  "forward_to W HH block None = (\<lambda>ep. fst (AnnounceBlock W ep (block_Hash HH block) (NumberU64 block)))"
  "forward_to W HH block (Some td) = (\<lambda>ep. ep\<lparr>p_newBlockCh :=
     p_newBlockCh ep\<lparr>ch_items := ch_items (p_newBlockCh ep) @ [\<lparr>nb_Block = block, nb_TD = td\<rparr>]\<rparr>\<rparr>)"
  by (simp_all add: forward_to_def fun_eq_iff)

text \<open>
  C29. A block from the BDN is passed on once and has no authority. If the chain has it already, nothing
  happens. Otherwise it is stored, the chain state and the bridge stay as they are, and every peer gets it: put at the end
  of the peer's channel of new blocks with its total difficulty when this is known, that is when it came with the
  block or the difficulty of the parent is stored, and announced by hash and number when it is not; nothing else
  about a peer changes. A difficulty that comes with the block counts when its low 64 bits are positive as a signed number;
  a computed one that does not is queued as nil. The conditions are that the block converts (go-ethereum encodes and decodes it),
  that the channel of new blocks of every peer has room, and that the iteration over the peers gives each one once.
\<close>

theorem bdn_block_forwarded:
  assumes "BlockBDNtoBlockchain G tb = Inr info" "distinct (rd_order rd)" "set (rd_order rd) = dom (h_peers h)"
    and "\<forall>pid ep. h_peers h pid = Some ep \<longrightarrow> length (ch_items (p_newBlockCh ep)) < ch_cap (p_newBlockCh ep)"
  shows "if HasBlock (h_chain h) (tb_hash tb) then processBDNBlock G HH W rd h tb = returns h
    else \<exists>h'. processBDNBlock G HH W rd h tb = returns h' \<and> HasBlock (h_chain h') (block_Hash HH (bi_Block info)) \<and>
      chainState (h_chain h') = chainState (h_chain h) \<and> h_bridge h' = h_bridge h \<and>
      (\<forall>pid. h_peers h' pid =
         map_option (forward_to (W pid) HH (bi_Block info) (known_difficulty (h_chain h) tb (bi_Block info))) (h_peers h pid))"
proof (cases "HasBlock (h_chain h) (tb_hash tb)")
  case True
  then show ?thesis by (simp add: processBDNBlock_def storeBDNBlock_def)
next
  case False
  note c = storeBDNBlock_new [OF False assms(1), of HH]
  obtain c' info' err where t: "SetTotalDifficulty HH (AddBlock_store HH (h_chain h) info BSBDN) info = (c', info', err)"
    by (cases "SetTotalDifficulty HH (AddBlock_store HH (h_chain h) info BSBDN) info")
  note fr = SetTotalDifficulty_frame [OF t] HasBlock_SetTotalDifficulty [OF t] and known = SetTotalDifficulty_known [OF assms(1) t]
  have out: "h_peers h pid = None" if "pid \<notin> set (rd_order rd)" for pid using that assms(3) by auto
  show ?thesis
  proof (cases err)
    case (Some er)
    with False c fr t known out show ?thesis
      by (auto simp: processBDNBlock_def broadcastBlockAnnouncement_spec [OF assms(2)] forward_to_cases)
  next
    case None
    have "\<forall>pid \<in> set (rd_order rd). \<forall>ep. h_peers h pid = Some ep \<longrightarrow>
        length (ch_items (p_newBlockCh ep)) < ch_cap (p_newBlockCh ep)" using assms(4) by blast
    from broadcastBlock_spec [OF assms(2) this] None False c fr t known out show ?thesis
      by (auto simp: processBDNBlock_def forward_to_cases fun_eq_iff)
  qed
qed

text \<open>A handler with one peer, and a block of the BDN with its total difficulty.\<close>

definition ex_one_peer :: "(byte list, unit, unit, unit) handler" where
  "ex_one_peer = ex_handler\<lparr>h_peers := [''a'' \<mapsto> newPeer [] ex_endpoint 65]\<rparr>"

definition ex_bdn_block :: tb_block where
  "ex_bdn_block = NewRawTbBlock 0 zero_hash [5] [NewTbBlockTransaction [1] [1], NewTbBlockTransaction [2] [2]] [] (Some 7) (Some 5) 9"

theorem bdn_block_forwarded_witness:
  "\<exists>h' ep. processBDNBlock ex_geth toy_hash (\<lambda>p ms m. None) (ex_rd [''a'']) ex_one_peer ex_bdn_block = returns h' \<and>
     HasBlock (h_chain h') (block_Hash toy_hash ex_body) \<and> chainState (h_chain h') = [] \<and>
     h_peers h' ''a'' = Some ep \<and> ch_items (p_newBlockCh ep) = [\<lparr>nb_Block = ex_body, nb_TD = Some 7\<rparr>]"
proof -
  have b: "BlockBDNtoBlockchain ex_geth ex_bdn_block = Inr (NewBlockInfo ex_body (Some 7))"
    by (simp add: ex_bdn_block_def BlockBDNtoBlockchain_def NewRawTbBlock_def NewTbBlockTransaction_def ex_geth_def)
  have f: "\<not> HasBlock (h_chain ex_one_peer) (tb_hash ex_bdn_block)" "h_peers ex_one_peer = [''a'' \<mapsto> newPeer [] ex_endpoint 65]"
    "chainState (h_chain ex_one_peer) = []" "rd_order (ex_rd [''a'']) = [''a'']"
    "p_newBlockCh (newPeer [] ex_endpoint 65 :: (byte list, unit) peer) = \<lparr>ch_items = [], ch_cap = 10, ch_waiting = 0\<rparr>"
    by (simp_all add: ex_one_peer_def ex_handler_def NewHandler_def NewChain_def newChain_def HasBlock_def hasHeader_def ex_rd_def
        newPeer_def make_chan_def blockChannelBacklog_def)
  have td: "known_difficulty (h_chain ex_one_peer) ex_bdn_block ex_body = Some (Some 7)"
    by (simp add: known_difficulty_def ex_bdn_block_def NewRawTbBlock_def counting_def big_Int64_def wrap64_def)
  have "distinct [''a'']" "set [''a''] = dom (h_peers ex_one_peer)"
    "\<forall>pid ep. h_peers ex_one_peer pid = Some ep \<longrightarrow> length (ch_items (p_newBlockCh ep)) < ch_cap (p_newBlockCh ep)"
    using f(2,5) by auto
  from bdn_block_forwarded [OF b, of "ex_rd [''a'']" ex_one_peer toy_hash "\<lambda>p ms m. None", unfolded f(4), OF this] obtain h' where h':
    "processBDNBlock ex_geth toy_hash (\<lambda>p ms m. None) (ex_rd [''a'']) ex_one_peer ex_bdn_block = returns h'"
    "HasBlock (h_chain h') (block_Hash toy_hash ex_body)" "chainState (h_chain h') = []"
    "h_peers h' ''a'' = Some (forward_to (\<lambda>ms m. None) toy_hash ex_body (Some (Some 7)) (newPeer [] ex_endpoint 65))"
    using f(1-3) td by auto
  moreover have "ch_items (p_newBlockCh (forward_to (\<lambda>ms m. None) toy_hash ex_body (Some (Some 7)) (newPeer [] ex_endpoint 65))) =
      [\<lparr>nb_Block = ex_body, nb_TD = Some 7\<rparr>]"
    by (simp add: forward_to_def f(5))
  ultimately show ?thesis by blast
qed

end
