(* ===== verification/Eth_Handlers.thy ===== *)
theory Eth_Handlers
  imports Backend_Flow
begin

text \<open>
  The message handlers and the protocol loop of the Ethereum side: \<open>src/blockchain/eth/handlers.go\<close> and
  \<open>src/blockchain/eth/protocol.go\<close>. Queries for headers and bodies are answered from the chain, responses
  are delivered to whoever waits for them, and everything else is passed on to the backend
  (theory \<open>Backend\<close>). The theorems say that no sequence of messages breaks the invariant of the chain,
  and what a header query is answered with.
\<close>

section \<open>Answering queries\<close>

text \<open>
  A message is decoded into the type the handler asks for; a payload of another type is a decoding
  error. \<open>Amount\<close> and \<open>Skip\<close> are converted from \<open>uint64\<close> to \<open>int\<close>.
\<close>

type_synonym ('t, 'x) eth_raw = "('t, 'x) eth_packet p2p_msg"

definition wrong_type :: string where
  "wrong_type = ''wrong type''"

definition answerGetBlockHeaders ::
  "'x header_hash \<Rightarrow> ('t, 'x) chain \<Rightarrow> get_headers \<Rightarrow> ('t, 'x) peer \<Rightarrow>
     (('t, 'x) peer \<times> (chain_error + 'x eth_header option list)) go" where
  "answerGetBlockHeaders HH c query peer =
     (if \<not> p_checkpointPassed peer then Inr (peer\<lparr>p_checkpointPassed := True\<rparr>, Inr [])
      else gbind (GetHeaders HH c (gh_Origin query) (sint (gh_Amount query)) (sint (gh_Skip query)) (gh_Reverse query)) (\<lambda>r.
        Inr (peer, case r of
            Inl ErrInvalidRequest \<Rightarrow> Inl ErrInvalidRequest
          | Inl ErrAncientHeaders \<Rightarrow> Inl ErrAncientHeaders
          | Inl ErrFutureHeaders \<Rightarrow> Inr []
          | Inl err \<Rightarrow> Inr []
          | Inr headers \<Rightarrow> Inr headers)))"

text \<open>The result of a send becomes the result of the handler.\<close>

definition sent :: "('t, 'x, 'n, 'k) handler \<times> string option \<Rightarrow> ('t, 'x, 'n, 'k) outcome" where
  "sent r = returns (fst r, [], map_option BeSend (snd r))"

text \<open>What both versions of the query do; \<open>rid\<close> is the request ID of ETH66.\<close>

definition serve_headers ::
  "'x header_hash \<Rightarrow> (string \<Rightarrow> ('t, 'x) wire) \<Rightarrow> ('t, 'x, 'n, 'k) handler \<Rightarrow> string \<Rightarrow> u64 option \<Rightarrow> get_headers \<Rightarrow>
     ('t, 'x, 'n, 'k) outcome" where
  "serve_headers HH W h pid rid query =
     abind (on_peer h pid (\<lambda>peer. lift_go (answerGetBlockHeaders HH (h_chain h) query peer))) (\<lambda>(h1, r).
       case r of
         Inl err \<Rightarrow> (if err = ErrAncientHeaders then returns (h1, [AwaitAncient pid rid query], None) else returns (h1, [], None))
       | Inr headers \<Rightarrow>
           abind (on_peer h1 pid (\<lambda>peer. returns (case rid of
               None \<Rightarrow> SendBlockHeaders (W pid) peer headers | Some i \<Rightarrow> ReplyBlockHeaders (W pid) peer i headers))) sent)"

definition handleGetBlockHeaders ::
  "'x header_hash \<Rightarrow> (string \<Rightarrow> ('t, 'x) wire) \<Rightarrow> ('t, 'x, 'n, 'k) handler \<Rightarrow> string \<Rightarrow> ('t, 'x) eth_raw \<Rightarrow> ('t, 'x, 'n, 'k) outcome" where
  "handleGetBlockHeaders HH W h pid msg =
     (case m_Decode msg of Inl err \<Rightarrow> returns (h, [], Some (BeDecode err))
      | Inr (GetBlockHeadersPacket query) \<Rightarrow> serve_headers HH W h pid None query
      | Inr _ \<Rightarrow> returns (h, [], Some (BeDecode wrong_type)))"

definition handleGetBlockHeaders66 ::
  "'x header_hash \<Rightarrow> (string \<Rightarrow> ('t, 'x) wire) \<Rightarrow> ('t, 'x, 'n, 'k) handler \<Rightarrow> string \<Rightarrow> ('t, 'x) eth_raw \<Rightarrow> ('t, 'x, 'n, 'k) outcome" where
  "handleGetBlockHeaders66 HH W h pid msg =
     (case m_Decode msg of Inl err \<Rightarrow> returns (h, [], Some (BeDecode err))
      | Inr (GetBlockHeadersPacket66 rid query) \<Rightarrow> serve_headers HH W h pid (Some rid) query
      | Inr _ \<Rightarrow> returns (h, [], Some (BeDecode wrong_type)))"

text \<open>The goroutine for ancient headers: it asks the peer itself and returns the answer to it.\<close>

definition ancient_request ::
  "(string \<Rightarrow> ('t, 'x) wire) \<Rightarrow> readings \<Rightarrow> ('t, 'x, 'n, 'k) handler \<Rightarrow> string \<Rightarrow> get_headers \<Rightarrow>
     (('t, 'x, 'n, 'k) handler \<times> string option) act" where
  "ancient_request W rd h pid query =
     on_peer h pid (\<lambda>peer. Inr (RequestBlockHeaderRaw (W pid) peer (rd_rid rd 0) (gh_Origin query) (gh_Amount query)
       (gh_Skip query) (gh_Reverse query) (Some (rd_ch rd))))"

definition ancient_reply ::
  "(string \<Rightarrow> ('t, 'x) wire) \<Rightarrow> ('t, 'x, 'n, 'k) handler \<Rightarrow> string \<Rightarrow> u64 option \<Rightarrow> ('t, 'x) eth_packet \<Rightarrow>
     (('t, 'x, 'n, 'k) handler \<times> string option) act" where
  "ancient_reply W h pid rid packet =
     (case packet of
        BlockHeadersPacket headers \<Rightarrow> on_peer h pid (\<lambda>peer. returns (case rid of
            None \<Rightarrow> SendBlockHeaders (W pid) peer headers | Some i \<Rightarrow> ReplyBlockHeaders (W pid) peer i headers))
      | _ \<Rightarrow> Inl (ExplicitPanic ''interface conversion''))"

definition answerGetBlockBodies :: "('t, 'x) chain \<Rightarrow> hash list \<Rightarrow> chain_error + ('t, 'x) eth_body list" where
  "answerGetBlockBodies c query =
     (case GetBodies c query of
        Inl err \<Rightarrow> (if err = ErrBodyNotFound then Inr [] else Inl err)
      | Inr bodies \<Rightarrow> Inr (map (\<lambda>body. \<lparr>Transactions = Transactions body, Uncles = Uncles body\<rparr>) bodies))"

definition handleGetBlockBodies ::
  "(string \<Rightarrow> ('t, 'x) wire) \<Rightarrow> ('t, 'x, 'n, 'k) handler \<Rightarrow> string \<Rightarrow> ('t, 'x) eth_raw \<Rightarrow> ('t, 'x, 'n, 'k) outcome" where
  "handleGetBlockBodies W h pid msg =
     (case m_Decode msg of Inl err \<Rightarrow> returns (h, [], Some (BeDecode err))
      | Inr (GetBlockBodiesPacket query) \<Rightarrow>
          (case answerGetBlockBodies (h_chain h) query of Inl err \<Rightarrow> returns (h, [], Some (BeChain err))
           | Inr bodies \<Rightarrow> abind (on_peer h pid (\<lambda>peer. returns (SendBlockBodies (W pid) peer bodies))) sent)
      | Inr _ \<Rightarrow> returns (h, [], Some (BeDecode wrong_type)))"

definition handleGetBlockBodies66 ::
  "(string \<Rightarrow> ('t, 'x) wire) \<Rightarrow> ('t, 'x, 'n, 'k) handler \<Rightarrow> string \<Rightarrow> ('t, 'x) eth_raw \<Rightarrow> ('t, 'x, 'n, 'k) outcome" where
  "handleGetBlockBodies66 W h pid msg =
     (case m_Decode msg of Inl err \<Rightarrow> returns (h, [], Some (BeDecode err))
      | Inr (GetBlockBodiesPacket66 rid query) \<Rightarrow>
          (case answerGetBlockBodies (h_chain h) query of Inl err \<Rightarrow> returns (h, [], Some (BeChain err))
           | Inr bodies \<Rightarrow> abind (on_peer h pid (\<lambda>peer. returns (ReplyBlockBodies (W pid) peer rid bodies))) sent)
      | Inr _ \<Rightarrow> returns (h, [], Some (BeDecode wrong_type)))"

section \<open>Heads of the peer\<close>

text \<open>The first of the highest headers, and the first of the highest announced blocks.\<close>

fun highest_header :: "'x header_hash \<Rightarrow> int \<Rightarrow> hash \<Rightarrow> 'x eth_header option list \<Rightarrow> (int \<times> hash) go" where
  "highest_header HH maxHeight hsh [] = Inr (maxHeight, hsh)"
| "highest_header HH maxHeight hsh (None # headers) = Inl NilDereference"
| "highest_header HH maxHeight hsh (Some header # headers) =
     (if Number header > maxHeight then highest_header HH (Number header) (HH (Some header)) headers
      else highest_header HH maxHeight hsh headers)"

definition updatePeerHeadFromHeaders ::
  "'x header_hash \<Rightarrow> 'x eth_header option list \<Rightarrow> ('t, 'x) peer \<Rightarrow> ('t, 'x) peer act" where
  "updatePeerHeadFromHeaders HH headers peer =
     (case headers of [] \<Rightarrow> returns peer
      | None # _ \<Rightarrow> Inl NilDereference
      | Some h0 # rest \<Rightarrow>
          abind (lift_go (highest_header HH (Number h0) (HH (Some h0)) rest)) (\<lambda>(maxHeight, hsh).
            Inr (UpdateHead peer (big_Uint64 maxHeight) hsh)))"

fun highest_announced :: "u64 \<Rightarrow> hash \<Rightarrow> (hash \<times> u64) list \<Rightarrow> u64 \<times> hash" where
  "highest_announced maxHeight hsh [] = (maxHeight, hsh)"
| "highest_announced maxHeight hsh ((bh, number) # newBlocks) =
     (if number > maxHeight then highest_announced number bh newBlocks else highest_announced maxHeight hsh newBlocks)"

definition updatePeerHeadFromNewHashes :: "(hash \<times> u64) list \<Rightarrow> ('t, 'x) peer \<Rightarrow> ('t, 'x) peer act" where
  "updatePeerHeadFromNewHashes newBlocks peer =
     (case newBlocks of [] \<Rightarrow> returns peer
      | (h0, n0) # rest \<Rightarrow> (case highest_announced n0 h0 rest of (maxHeight, hsh) \<Rightarrow> Inr (UpdateHead peer maxHeight hsh)))"

section \<open>Handlers\<close>

text \<open>The environment of the handlers that pass packets on to the backend.\<close>

record ('t, 'x) eth_env =
  e_G :: "('t, 'x) geth"
  e_HH :: "'x header_hash"
  e_W :: "string \<Rightarrow> ('t, 'x) wire"
  e_rds :: "nat \<Rightarrow> readings"

definition endpoint_of :: "('t, 'x, 'n, 'k) handler \<Rightarrow> string \<Rightarrow> node_endpoint act" where
  "endpoint_of h pid = (case h_peers h pid of None \<Rightarrow> Inr None | Some ep \<Rightarrow> returns (p_endpoint ep))"

definition pass_on :: "('t, 'x) eth_env \<Rightarrow> ('t, 'x, 'n, 'k) handler \<Rightarrow> string \<Rightarrow> ('t, 'x) eth_packet \<Rightarrow> ('t, 'x, 'n, 'k) outcome" where
  "pass_on E h pid packet =
     abind (endpoint_of h pid) (\<lambda>e. Handle (e_G E) (e_HH E) (e_W E) (e_rds E) h pid e packet)"

type_synonym ('t, 'x, 'n, 'k) msg_handler =
  "('t, 'x) eth_env \<Rightarrow> ('t, 'x, 'n, 'k) handler \<Rightarrow> string \<Rightarrow> ('t, 'x) eth_raw \<Rightarrow> ('t, 'x, 'n, 'k) outcome"

definition handleNewBlock :: "('t, 'x, 'n, 'k) msg_handler" where
  "handleNewBlock E h pid msg =
     (case m_Decode msg of Inl err \<Rightarrow> returns (h, [], Some (BeDecode err))
      | Inr (NewBlockPacket p) \<Rightarrow>
          abind (on_peer h pid (\<lambda>peer. Inr (map_option (\<lambda>ep. (ep, ()))
             (UpdateHead peer (NumberU64 (nb_Block p)) (block_Hash (e_HH E) (nb_Block p)))))) (\<lambda>(h1, u).
          pass_on E h1 pid (NewBlockPacket p))
      | Inr _ \<Rightarrow> returns (h, [], Some (BeDecode wrong_type)))"

definition handleTransactions :: "('t, 'x, 'n, 'k) msg_handler" where
  "handleTransactions E h pid msg =
     (case m_Decode msg of Inl err \<Rightarrow> returns (h, [], Some (BeDecode err))
      | Inr (TransactionsPacket txs) \<Rightarrow> pass_on E h pid (TransactionsPacket txs)
      | Inr _ \<Rightarrow> returns (h, [], Some (BeDecode wrong_type)))"

definition handlePooledTransactions :: "('t, 'x, 'n, 'k) msg_handler" where
  "handlePooledTransactions E h pid msg =
     (case m_Decode msg of Inl err \<Rightarrow> returns (h, [], Some (BeDecode err))
      | Inr (PooledTransactionsPacket txs) \<Rightarrow> pass_on E h pid (PooledTransactionsPacket txs)
      | Inr _ \<Rightarrow> returns (h, [], Some (BeDecode wrong_type)))"

definition handlePooledTransactions66 :: "('t, 'x, 'n, 'k) msg_handler" where
  "handlePooledTransactions66 E h pid msg =
     (case m_Decode msg of Inl err \<Rightarrow> returns (h, [], Some (BeDecode err))
      | Inr (PooledTransactionsPacket66 rid txs) \<Rightarrow>
          (if txs = [] then returns (h, [], None) else pass_on E h pid (PooledTransactionsPacket txs))
      | Inr _ \<Rightarrow> returns (h, [], Some (BeDecode wrong_type)))"

definition handleNewPooledTransactionHashes :: "('t, 'x, 'n, 'k) msg_handler" where
  "handleNewPooledTransactionHashes E h pid msg =
     (case m_Decode msg of Inl err \<Rightarrow> returns (h, [], Some (BeDecode err))
      | Inr (NewPooledTransactionHashesPacket hs) \<Rightarrow> pass_on E h pid (NewPooledTransactionHashesPacket hs)
      | Inr _ \<Rightarrow> returns (h, [], Some (BeDecode wrong_type)))"

definition handleNewBlockHashes :: "('t, 'x, 'n, 'k) msg_handler" where
  "handleNewBlockHashes E h pid msg =
     (case m_Decode msg of Inl err \<Rightarrow> returns (h, [], Some (BeDecode err))
      | Inr (NewBlockHashesPacket bs) \<Rightarrow>
          abind (on_peer h pid (\<lambda>peer. abind (updatePeerHeadFromNewHashes bs peer) (\<lambda>ep. returns (ep, ())))) (\<lambda>(h1, u).
          pass_on E h1 pid (NewBlockHashesPacket bs))
      | Inr _ \<Rightarrow> returns (h, [], Some (BeDecode wrong_type)))"

definition delivered :: "('t, 'x) delivery \<Rightarrow> ('t, 'x) effect list" where
  "delivered d = (case d of None \<Rightarrow> [] | Some (ch, packet) \<Rightarrow> [Deliver ch packet])"

definition handleBlockHeaders :: "('t, 'x, 'n, 'k) msg_handler" where
  "handleBlockHeaders E h pid msg =
     (case m_Decode msg of Inl err \<Rightarrow> returns (h, [], Some (BeDecode err))
      | Inr (BlockHeadersPacket hs) \<Rightarrow>
          abind (on_peer h pid (\<lambda>peer. abind (updatePeerHeadFromHeaders (e_HH E) hs peer) (\<lambda>ep.
             Inr (NotifyResponse ep (BlockHeadersPacket hs))))) (\<lambda>(h1, handled, d).
          if handled then returns (h1, delivered d, None) else pass_on E h1 pid (BlockHeadersPacket hs))
      | Inr _ \<Rightarrow> returns (h, [], Some (BeDecode wrong_type)))"

definition handleBlockHeaders66 :: "('t, 'x, 'n, 'k) msg_handler" where
  "handleBlockHeaders66 E h pid msg =
     (case m_Decode msg of Inl err \<Rightarrow> returns (h, [], Some (BeDecode err))
      | Inr (BlockHeadersPacket66 rid hs) \<Rightarrow>
          abind (on_peer h pid (\<lambda>peer. abind (updatePeerHeadFromHeaders (e_HH E) hs peer) (\<lambda>ep.
             returns (NotifyResponse66 ep rid (BlockHeadersPacket hs))))) (\<lambda>(h1, r).
          case r of Inl err \<Rightarrow> returns (h1, [], Some (BePeer err))
          | Inr (handled, d) \<Rightarrow>
              if handled then returns (h1, delivered d, None) else pass_on E h1 pid (BlockHeadersPacket hs))
      | Inr _ \<Rightarrow> returns (h, [], Some (BeDecode wrong_type)))"

definition handleBlockBodies :: "('t, 'x, 'n, 'k) msg_handler" where
  "handleBlockBodies E h pid msg =
     (case m_Decode msg of Inl err \<Rightarrow> returns (h, [], Some (BeDecode err))
      | Inr (BlockBodiesPacket bs) \<Rightarrow>
          abind (on_peer h pid (\<lambda>peer. Inr (NotifyResponse peer (BlockBodiesPacket bs)))) (\<lambda>(h1, handled, d).
          returns (h1, delivered d, None))
      | Inr _ \<Rightarrow> returns (h, [], Some (BeDecode wrong_type)))"

definition handleBlockBodies66 :: "('t, 'x, 'n, 'k) msg_handler" where
  "handleBlockBodies66 E h pid msg =
     (case m_Decode msg of Inl err \<Rightarrow> returns (h, [], Some (BeDecode err))
      | Inr (BlockBodiesPacket66 rid bs) \<Rightarrow>
          abind (on_peer h pid (\<lambda>peer. returns (NotifyResponse66 peer rid (BlockBodiesPacket bs)))) (\<lambda>(h1, r).
          case r of Inl err \<Rightarrow> returns (h1, [], Some (BePeer err)) | Inr (handled, d) \<Rightarrow> returns (h1, delivered d, None))
      | Inr _ \<Rightarrow> returns (h, [], Some (BeDecode wrong_type)))"

definition handleUnimplemented :: "('t, 'x, 'n, 'k) msg_handler" where
  "handleUnimplemented E h pid msg = returns (h, [], None)"

section \<open>The protocol\<close>

definition eth65 :: "eth_code \<Rightarrow> ('t, 'x, 'n, 'k) msg_handler option" where
  "eth65 code = (case code of
       GetBlockHeadersMsg \<Rightarrow> Some (\<lambda>E. handleGetBlockHeaders (e_HH E) (e_W E))
     | BlockHeadersMsg \<Rightarrow> Some handleBlockHeaders
     | GetBlockBodiesMsg \<Rightarrow> Some (\<lambda>E. handleGetBlockBodies (e_W E))
     | BlockBodiesMsg \<Rightarrow> Some handleBlockBodies
     | GetNodeDataMsg \<Rightarrow> Some handleUnimplemented
     | NodeDataMsg \<Rightarrow> Some handleUnimplemented
     | GetReceiptsMsg \<Rightarrow> Some handleUnimplemented
     | ReceiptsMsg \<Rightarrow> Some handleUnimplemented
     | NewBlockHashesMsg \<Rightarrow> Some handleNewBlockHashes
     | NewBlockMsg \<Rightarrow> Some handleNewBlock
     | TransactionsMsg \<Rightarrow> Some handleTransactions
     | NewPooledTransactionHashesMsg \<Rightarrow> Some handleNewPooledTransactionHashes
     | GetPooledTransactionsMsg \<Rightarrow> Some handleUnimplemented
     | PooledTransactionsMsg \<Rightarrow> Some handlePooledTransactions
     | StatusMsg \<Rightarrow> None
     | OtherMsg n \<Rightarrow> None)"

definition eth66 :: "eth_code \<Rightarrow> ('t, 'x, 'n, 'k) msg_handler option" where
  "eth66 code = (case code of
       NewBlockHashesMsg \<Rightarrow> Some handleNewBlockHashes
     | NewBlockMsg \<Rightarrow> Some handleNewBlock
     | TransactionsMsg \<Rightarrow> Some handleTransactions
     | NewPooledTransactionHashesMsg \<Rightarrow> Some handleNewPooledTransactionHashes
     | GetBlockHeadersMsg \<Rightarrow> Some (\<lambda>E. handleGetBlockHeaders66 (e_HH E) (e_W E))
     | BlockHeadersMsg \<Rightarrow> Some handleBlockHeaders66
     | GetBlockBodiesMsg \<Rightarrow> Some (\<lambda>E. handleGetBlockBodies66 (e_W E))
     | BlockBodiesMsg \<Rightarrow> Some handleBlockBodies66
     | GetNodeDataMsg \<Rightarrow> Some handleUnimplemented
     | NodeDataMsg \<Rightarrow> Some handleUnimplemented
     | GetReceiptsMsg \<Rightarrow> Some handleUnimplemented
     | ReceiptsMsg \<Rightarrow> Some handleUnimplemented
     | GetPooledTransactionsMsg \<Rightarrow> Some handleUnimplemented
     | PooledTransactionsMsg \<Rightarrow> Some handlePooledTransactions66
     | StatusMsg \<Rightarrow> None
     | OtherMsg n \<Rightarrow> None)"

text \<open>The message that was read is an argument, or the error of reading.\<close>

definition handleMessage ::
  "('t, 'x) eth_env \<Rightarrow> ('t, 'x, 'n, 'k) handler \<Rightarrow> string \<Rightarrow> string + ('t, 'x) eth_raw \<Rightarrow> ('t, 'x, 'n, 'k) outcome" where
  "handleMessage E h pid r =
     (case r of Inl err \<Rightarrow> returns (h, [], Some (BeSend err))
      | Inr msg \<Rightarrow>
          (case h_peers h pid of None \<Rightarrow> Inr None
           | Some peer \<Rightarrow>
               (case (if p_version peer \<ge> ETH66 then eth66 (m_Code msg) else eth65 (m_Code msg)) of
                  None \<Rightarrow> returns (h, [], None)
                | Some handle \<Rightarrow> handle E h pid msg)))"

text \<open>
  \<open>Run\<close>: the handshake, the initial difficulty from the peer's status, the registration. When it
  succeeds, the messages of the peer are handled one after the other until one of them fails.
\<close>

datatype run_error = HandshakeFailed handshake_error | RegisterFailed peer_set_error | LoopFailed backend_error

definition run_start ::
  "('t, 'x) eth_env \<Rightarrow> ('t, 'x, 'n, 'k) handler \<Rightarrow> string \<Rightarrow> node_endpoint \<Rightarrow> nat \<Rightarrow> string + status_packet p2p_msg \<Rightarrow>
     ('t, 'x, 'n, 'k) handler \<times> run_error option" where
  "run_start E h pid endpoint version r =
     (let config = h_config h;
          (ep, s) = Handshake (e_W E pid) (newPeer pid endpoint version) r (of_nat version) (cf_Network config)
             (cf_TotalDifficulty config) (cf_Head config) (cf_Genesis config)
      in case s of Inl err \<Rightarrow> (h, Some (HandshakeFailed err))
         | Inr peerStatus \<Rightarrow>
             (let h1 = h\<lparr>h_chain := InitializeDifficulty (h_chain h) (st_Head peerStatus) (st_TD peerStatus)\<rparr>
              in case RunPeer_start h1 ep of (h2, Some err) \<Rightarrow> (h2, Some (RegisterFailed err)) | (h2, None) \<Rightarrow> (h2, None)))"

fun message_loop ::
  "('t, 'x) eth_env \<Rightarrow> ('t, 'x, 'n, 'k) handler \<Rightarrow> string \<Rightarrow> (string + ('t, 'x) eth_raw) list \<Rightarrow> ('t, 'x, 'n, 'k) outcome" where
  "message_loop E h pid [] = returns (h, [], None)"
| "message_loop E h pid (r # rs) =
     abind (handleMessage E h pid r) (\<lambda>(h1, effects, err).
       if err \<noteq> None then returns (RunPeer_end h1 pid, effects, err)
       else abind (message_loop E h1 pid rs) (\<lambda>(h2, effects2, err2). returns (h2, effects @ effects2, err2)))"

section \<open>The chain under the protocol\<close>

definition keeps :: "'x header_hash \<Rightarrow> ('t, 'x, 'n, 'k) handler \<Rightarrow> ('t, 'x, 'n, 'k) outcome \<Rightarrow> bool" where
  "keeps HH h r \<longleftrightarrow> (\<forall>h' eff err. r = returns (h', eff, err) \<longrightarrow> chain_ok HH (h_chain h) \<longrightarrow> chain_ok HH (h_chain h'))"

lemma keeps_returns [simp, intro]: "keeps HH h (returns (h, eff, err))" "keeps HH h (Inl p)" "keeps HH h (Inr None)"
  by (simp_all add: keeps_def)

lemma keeps_sent: "h_chain (fst r) = h_chain h \<Longrightarrow> keeps HH h (sent r)"
  by (auto simp: keeps_def sent_def)

text \<open>A step on a peer does not touch the chain.\<close>

lemma keeps_on_peer:
  assumes "\<And>h1 a. h_chain h1 = h_chain h \<Longrightarrow> keeps HH h1 (k (h1, a))"
  shows "keeps HH h (abind (on_peer h pid f) k)"
  unfolding keeps_def abind_returns_iff
proof (intro allI impI, elim exE conjE)
  fix h' eff err r
  assume r: "on_peer h pid f = returns r" "k r = returns (h', eff, err)" and ok: "chain_ok HH (h_chain h)"
  obtain h1 a where "r = (h1, a)" by (cases r)
  with r assms [of h1 a] ok show "chain_ok HH (h_chain h')" by (simp add: keeps_def)
qed

lemma keeps_pass_on:
  assumes "hash_binds (e_HH E)" "packet_heights_ok packet"
  shows "keeps (e_HH E) h (pass_on E h pid packet)"
  using Handle_chain_ok [OF _ assms] by (auto simp: keeps_def pass_on_def abind_returns_iff)

lemma keeps_serve_headers: "keeps HH h (serve_headers HH W h pid rid query)"
  unfolding serve_headers_def
  by (auto split: sum.split intro!: keeps_on_peer keeps_sent keeps_returns)

lemmas eth_handlers = handleGetBlockHeaders_def handleGetBlockHeaders66_def handleGetBlockBodies_def
  handleGetBlockBodies66_def handleNewBlock_def handleTransactions_def handlePooledTransactions_def
  handlePooledTransactions66_def handleNewPooledTransactionHashes_def handleNewBlockHashes_def
  handleBlockHeaders_def handleBlockHeaders66_def handleBlockBodies_def handleBlockBodies66_def handleUnimplemented_def

lemmas keeps_intros = keeps_returns keeps_on_peer keeps_pass_on keeps_serve_headers keeps_sent

definition msg_heights_ok :: "string + ('t, 'x) eth_raw \<Rightarrow> bool" where
  "msg_heights_ok r = (case r of Inl err \<Rightarrow> True | Inr msg \<Rightarrow>
     (case m_Decode msg of Inl err \<Rightarrow> True | Inr packet \<Rightarrow> packet_heights_ok packet))"

lemma keeps_queries:
  "keeps HH h (handleGetBlockHeaders HH W h pid msg)" "keeps HH h (handleGetBlockHeaders66 HH W h pid msg)"
  "keeps HH h (handleGetBlockBodies W h pid msg)" "keeps HH h (handleGetBlockBodies66 W h pid msg)"
  "keeps HH h (handleBlockBodies E h pid msg)" "keeps HH h (handleBlockBodies66 E h pid msg)"
  "keeps HH h (handleUnimplemented E h pid msg)"
  by (auto simp: eth_handlers split: sum.split eth_packet.split prod.split intro!: keeps_intros)

lemma keeps_updates:
  assumes "hash_binds (e_HH E)" "msg_heights_ok (Inr msg)"
  shows "keeps (e_HH E) h (handleNewBlock E h pid msg)" "keeps (e_HH E) h (handleTransactions E h pid msg)"
    "keeps (e_HH E) h (handlePooledTransactions E h pid msg)" "keeps (e_HH E) h (handlePooledTransactions66 E h pid msg)"
    "keeps (e_HH E) h (handleNewPooledTransactionHashes E h pid msg)" "keeps (e_HH E) h (handleNewBlockHashes E h pid msg)"
    "keeps (e_HH E) h (handleBlockHeaders E h pid msg)" "keeps (e_HH E) h (handleBlockHeaders66 E h pid msg)"
  using assms
  by (auto simp: eth_handlers msg_heights_ok_def split: sum.split eth_packet.split prod.split intro!: keeps_intros)

lemma keeps_handleMessage:
  assumes "hash_binds (e_HH E)" "msg_heights_ok r"
  shows "keeps (e_HH E) h (handleMessage E h pid r)"
proof (cases r)
  case (Inl err)
  then show ?thesis by (simp add: handleMessage_def)
next
  case (Inr msg)
  have m: "msg_heights_ok (Inr msg)" using assms(2) Inr by simp
  show ?thesis unfolding handleMessage_def Inr eth65_def eth66_def
    by (auto split: option.split eth_code.split intro!: keeps_queries keeps_updates [OF assms(1) m])
qed

text \<open>
  C10. Whatever messages a peer sends, and however many, the chain keeps its invariant: complete stores and
  a linked chain state. The only demand on the messages is that the numbers of pushed blocks fit a signed
  integer.
\<close>

theorem messages_keep_chain:
  assumes "hash_binds (e_HH E)" "chain_ok (e_HH E) (h_chain h)" "\<forall>r \<in> set rs. msg_heights_ok r"
    and "message_loop E h pid rs = returns (h', eff, err)"
  shows "chain_ok (e_HH E) (h_chain h')"
  using assms(2-)
proof (induction rs arbitrary: h eff)
  case Nil
  then show ?case by simp
next
  case (Cons r rs)
  from Cons.prems(3) obtain h1 e1 er1 where s: "handleMessage E h pid r = returns (h1, e1, er1)"
    and rest: "(if er1 \<noteq> None then returns (RunPeer_end h1 pid, e1, er1)
       else abind (message_loop E h1 pid rs) (\<lambda>(h2, e2, er2). returns (h2, e1 @ e2, er2))) = returns (h', eff, err)"
    by (auto simp: abind_returns_iff)
  have ok: "chain_ok (e_HH E) (h_chain h1)"
    using keeps_handleMessage [OF assms(1), of r h pid] s Cons.prems(1,2) by (simp add: keeps_def)
  show ?case
  proof (cases er1)
    case None
    with rest obtain e2 where "message_loop E h1 pid rs = returns (h', e2, err)" by (auto simp: abind_returns_iff)
    with Cons.IH [OF ok] Cons.prems(2) show ?thesis by simp
  next
    case (Some er)
    with rest ok show ?thesis by (auto simp: RunPeer_end_def)
  qed
qed

text \<open>An environment and a registered peer for the examples.\<close>

definition ex_env :: "(byte list, unit) eth_env" where
  "ex_env = \<lparr>e_G = ex_geth, e_HH = toy_hash, e_W = (\<lambda>p ms m. None), e_rds = (\<lambda>n. ex_rd [])\<rparr>"

definition ex_registered :: "(byte list, unit, unit, unit) handler" where
  "ex_registered = ex_handler\<lparr>h_peers := [''p'' \<mapsto> (newPeer ''p'' ex_endpoint 66)\<lparr>p_checkpointPassed := True\<rparr>]\<rparr>"

definition ex_msgs :: "(string + (byte list, unit) eth_raw) list" where
  "ex_msgs = [Inr \<lparr>m_Code = NewBlockMsg, m_Size = 9, m_Decode = Inr ex_packet\<rparr>,
     Inr \<lparr>m_Code = GetReceiptsMsg, m_Size = 9, m_Decode = Inl ''x''\<rparr>, Inl ''eof'']"

theorem messages_keep_chain_witness:
  "\<exists>h' eff. message_loop ex_env ex_registered ''p'' ex_msgs = returns (h', eff, Some (BeSend ''eof'')) \<and>
     map ref_height (chainState (h_chain h')) = [5] \<and> chain_ok toy_hash (h_chain h')"
proof -
  have "(case message_loop ex_env ex_registered ''p'' ex_msgs of
      Inr (Some (h', eff, er)) \<Rightarrow> er = Some (BeSend ''eof'') \<and> map ref_height (chainState (h_chain h')) = [5] | _ \<Rightarrow> False)"
    by code_simp
  then obtain h' eff where h: "message_loop ex_env ex_registered ''p'' ex_msgs = returns (h', eff, Some (BeSend ''eof''))"
    "map ref_height (chainState (h_chain h')) = [5]" by (auto split: sum.splits option.splits prod.splits)
  have "\<forall>r \<in> set ex_msgs. msg_heights_ok r"
    by (simp add: ex_msgs_def msg_heights_ok_def ex_packet_def ex_body_def NumberU64_def big_Uint64_def)
  from messages_keep_chain [OF _ _ this h(1)] h show ?thesis
    by (simp add: ex_env_def ex_registered_def toy_hash_binds ex_handler_ok)
qed

section \<open>Header queries\<close>

lemma sint_of_large: "2 ^ 63 \<le> unat (w :: u64) \<Longrightarrow> sint w < 0"
proof (rule ccontr)
  assume large: "2 ^ 63 \<le> unat w" and pos: "\<not> sint w < 0"
  have "sint w = take_bit 64 (uint w) - 2 ^ 64 * of_bool (bit (uint w) 63)"
    using signed_take_bit_eq_take_bit_minus [of 63 "uint w"] by (simp add: sint_uint)
  moreover have "take_bit 64 (uint w) = uint w" using uint_bounded [of w] by (simp add: take_bit_int_eq_self)
  ultimately have "sint w = uint w" using pos uint_bounded [of w] by (cases "bit (uint w) 63") simp_all
  with sint_lt [of w] large show False by (simp add: uint_nat del: of_nat_unat)
qed

lemma sint_of_small: "unat (w :: u64) < 2 ^ 63 \<Longrightarrow> sint w = int (unat w)"
  by (simp add: sint_small_u64)

text \<open>The answer of a peer whose checkpoint has passed, by the result of the chain.\<close>

lemma serve_headers_eq:
  assumes "h_peers h pid = Some p" "p_checkpointPassed p"
    and "GetHeaders HH (h_chain h) (gh_Origin q) (sint (gh_Amount q)) (sint (gh_Skip q)) (gh_Reverse q) = Inr r"
  shows "serve_headers HH W h pid rid q =
    (let stays = h\<lparr>h_peers := (h_peers h)(pid \<mapsto> p)\<rparr>;
         reply = (\<lambda>hs. let (p', err) = peer_send (W pid) p BlockHeadersMsg
             (case rid of None \<Rightarrow> BlockHeadersPacket hs | Some i \<Rightarrow> BlockHeadersPacket66 i hs)
           in returns (h\<lparr>h_peers := (h_peers h)(pid \<mapsto> p')\<rparr>, [], map_option BeSend err))
     in case r of
          Inr hs \<Rightarrow> reply hs
        | Inl ErrAncientHeaders \<Rightarrow> returns (stays, [AwaitAncient pid rid q], None)
        | Inl ErrInvalidRequest \<Rightarrow> returns (stays, [], None)
        | Inl _ \<Rightarrow> reply [])"
  using assms
  by (auto simp: serve_headers_def on_peer_def answerGetBlockHeaders_def sent_def SendBlockHeaders_def
      ReplyBlockHeaders_def Let_def split: sum.split chain_error.split option.split prod.split)

lemma amount_make_ok: "make_ok pointerSize (sint (w :: u64)) \<longleftrightarrow> unat w \<le> 2 ^ 45"
proof (cases "unat w < 2 ^ 63")
  case True
  then show ?thesis by (simp add: make_ok_def pointerSize_def maxAlloc_def sint_of_small [OF True] del: of_nat_unat)
next
  case False
  then have "sint w < 0" by (intro sint_of_large) simp
  with False show ?thesis by (simp add: make_ok_def)
qed

text \<open>
  C26. A peer that has passed the checkpoint and asks for headers is answered or refused, and the chain stays
  as it is: at most one message is written, a header reply of the right version with no more headers
  than asked for (but the origin), each of them held by the chain. That holds for amounts up to \<open>2 ^ 45\<close>, the largest
  slice of pointers that \<open>make\<close> accepts, as long as there is memory for a slice of that size; a larger amount, which
  any peer can send, panics, from \<open>2 ^ 63\<close> on because it becomes a negative length.
\<close>

theorem header_query_answered:
  assumes "h_peers h pid = Some p" "p_checkpointPassed p" "\<not> p_disconnected p"
  shows "(2 ^ 45 < unat (gh_Amount q) \<longrightarrow> serve_headers HH W h pid rid q = Inl MakeSlice) \<and>
    (unat (gh_Amount q) \<le> 2 ^ 45 \<longrightarrow> (\<exists>p' eff err.
       serve_headers HH W h pid rid q = returns (h\<lparr>h_peers := (h_peers h)(pid \<mapsto> p')\<rparr>, eff, err) \<and>
       (p' = p \<or> (\<exists>hs. length hs \<le> max 1 (unat (gh_Amount q)) \<and> (\<forall>x \<in> set hs. held HH (h_chain h) x) \<and>
          p_written p' = p_written p @ [(BlockHeadersMsg,
            case rid of None \<Rightarrow> BlockHeadersPacket hs | Some i \<Rightarrow> BlockHeadersPacket66 i hs)]))))"
proof -
  let ?get = "GetHeaders HH (h_chain h) (gh_Origin q) (sint (gh_Amount q)) (sint (gh_Skip q)) (gh_Reverse q)"
  note get = get_headers_bounded [of "sint (gh_Amount q)" HH "h_chain h" "gh_Origin q" "sint (gh_Skip q)" "gh_Reverse q",
      unfolded amount_make_ok]
  { assume "2 ^ 45 < unat (gh_Amount q)"
    with get have "?get = Inl MakeSlice" by simp
    with assms have "serve_headers HH W h pid rid q = Inl MakeSlice"
      by (simp add: serve_headers_def on_peer_def answerGetBlockHeaders_def) }
  moreover
  { assume le: "unat (gh_Amount q) \<le> 2 ^ 45"
    then have small: "unat (gh_Amount q) < 2 ^ 63" by (rule le_less_trans) simp
    note n = sint_of_small [OF small]
    from get le n obtain r where r: "?get = Inr r" and
      hs: "\<And>hs. r = Inr hs \<Longrightarrow> int (length hs) \<le> max 1 (int (unat (gh_Amount q))) \<and> (\<forall>x \<in> set hs. held HH (h_chain h) x)"
      by metis
    have len: "r = Inr hs \<Longrightarrow> length hs \<le> max 1 (unat (gh_Amount q)) \<and> (\<forall>x \<in> set hs. held HH (h_chain h) x)" for hs
      using hs [of hs] by (auto simp del: of_nat_unat)
    note eq = serve_headers_eq [OF assms(1,2) r, where W = W and rid = rid]
    have "\<exists>p' eff err. serve_headers HH W h pid rid q = returns (h\<lparr>h_peers := (h_peers h)(pid \<mapsto> p')\<rparr>, eff, err) \<and>
       (p' = p \<or> (\<exists>hs. length hs \<le> max 1 (unat (gh_Amount q)) \<and> (\<forall>x \<in> set hs. held HH (h_chain h) x) \<and>
          p_written p' = p_written p @ [(BlockHeadersMsg,
            case rid of None \<Rightarrow> BlockHeadersPacket hs | Some i \<Rightarrow> BlockHeadersPacket66 i hs)]))" (is ?answer)
    proof -
      have refuse: ?answer if "serve_headers HH W h pid rid q = returns (h\<lparr>h_peers := (h_peers h)(pid \<mapsto> p)\<rparr>, eff, None)" for eff
        using that by blast
      have reply: ?answer if "r = Inr hs \<or> hs = []"
        "serve_headers HH W h pid rid q = (let (p', err) = peer_send (W pid) p BlockHeadersMsg
               (case rid of None \<Rightarrow> BlockHeadersPacket hs | Some i \<Rightarrow> BlockHeadersPacket66 i hs)
             in returns (h\<lparr>h_peers := (h_peers h)(pid \<mapsto> p')\<rparr>, [], map_option BeSend err))" for hs
      proof -
        have "length hs \<le> max 1 (unat (gh_Amount q)) \<and> (\<forall>x \<in> set hs. held HH (h_chain h) x)"
          using that(1) len [of hs] by auto
        with that(2) assms(3) show ?answer
          unfolding peer_send_def Let_def by (simp only: if_False prod.case) (rule exI, rule exI, rule exI, rule conjI, rule refl, force)
      qed
      show ?answer
      proof (cases r)
        case (Inr hs)
        show ?thesis by (rule reply [of hs]) (use eq Inr in \<open>simp_all add: Let_def\<close>)
      next
        case (Inl er)
        show ?thesis
        proof (cases "er = ErrAncientHeaders \<or> er = ErrInvalidRequest")
          case True
          then show ?thesis using refuse eq Inl by (auto simp: Let_def)
        next
          case False
          show ?thesis
            by (rule reply [of "[]"]) (use eq Inl False in \<open>cases er; simp add: Let_def\<close>)+
        qed
      qed
    qed }
  ultimately show ?thesis by blast
qed

definition ex_query :: "u64 \<Rightarrow> get_headers" where
  "ex_query n = \<lparr>gh_Origin = \<lparr>hn_Hash = zero_hash, hn_Number = 1\<rparr>, gh_Amount = n, gh_Skip = 0, gh_Reverse = False\<rparr>"

theorem header_query_answered_witness:
  "serve_headers toy_hash (\<lambda>p ms m. None) ex_registered ''p'' None (ex_query (2 ^ 62)) = Inl MakeSlice \<and>
   (\<exists>h' eff err. serve_headers toy_hash (\<lambda>p ms m. None) ex_registered ''p'' None (ex_query 3) = returns (h', eff, err))"
proof -
  define p where "p = (newPeer ''p'' ex_endpoint 66 :: (byte list, unit) peer)\<lparr>p_checkpointPassed := True\<rparr>"
  have p: "h_peers ex_registered ''p'' = Some p" "p_checkpointPassed p" "\<not> p_disconnected p"
    by (simp_all add: ex_registered_def p_def newPeer_def)
  show ?thesis
    using header_query_answered [OF p, of "ex_query (2 ^ 62)" toy_hash "\<lambda>p ms m. None" None]
      header_query_answered [OF p, of "ex_query 3" toy_hash "\<lambda>p ms m. None" None]
    by (auto simp: ex_query_def)
qed

end
