(* ===== verification/Gateway.thy ===== *)
theory Gateway
  imports Eth_Handlers Tx_Store
begin

text \<open>
  The gateway node: \<^verbatim>\<open>nodes/base.go\<close>, \<^verbatim>\<open>nodes/gateway.go\<close>, \<^verbatim>\<open>services/async_handler.go\<close> and
  \<^verbatim>\<open>types/broadcast_results.go\<close>. The gateway holds the list of connections, the transaction store, the
  block processor and its end of the bridge; it relays transactions and blocks between nodes and relays.
  The last part makes it a machine whose steps interleave freely, with its invariant.
\<close>

section \<open>Messages and connections of a node\<close>

text \<open>
  A message on a send queue. The interface value may hold a nil pointer to a \<open>Broadcast\<close>. A connection is
  a \<open>TbConn\<close>, whose methods are those of the TLS connection it embeds, or the placeholder of a blockchain
  node. The ID of a connection is its socket; the placeholder is a value that equals only itself.
\<close>

datatype node_msg = TxMsg tx_message | BroadcastMsg "broadcast option"

datatype 'k node_conn = TbConn "('k, node_msg) ssl_conn" | BlockchainConn node_endpoint

datatype 'k socket_id = SocketID "'k option" | TLSPlaceholder

definition conn_ID :: "'k node_conn \<Rightarrow> 'k socket_id" where
  "conn_ID conn = (case conn of TbConn s \<Rightarrow> SocketID (c_Socket s) | BlockchainConn e \<Rightarrow> TLSPlaceholder)"

definition conn_Info :: "'k node_conn \<Rightarrow> conn_info" where
  "conn_Info conn = (case conn of TbConn s \<Rightarrow> ssl_Info s | BlockchainConn e \<Rightarrow> blockchain_Info e)"

definition conn_IsOpen :: "'k node_conn \<Rightarrow> bool" where
  "conn_IsOpen conn = (case conn of TbConn s \<Rightarrow> c_connectionOpen s | BlockchainConn e \<Rightarrow> False)"

text \<open>\<open>closeErr\<close> is what closing the socket reports when the queue is full; it is dropped.\<close>

definition conn_Send :: "'k node_conn \<Rightarrow> node_msg \<Rightarrow> string option \<Rightarrow> 'k node_conn \<times> conn_error option" where
  "conn_Send conn msg closeErr =
     (case conn of TbConn s \<Rightarrow> map_prod TbConn id (ssl_Send s msg closeErr) | BlockchainConn e \<Rightarrow> (conn, None))"

text \<open>\<open>Pack\<close> of a message; the receiver of a nil \<open>Broadcast\<close> is dereferenced.\<close>

definition node_msg_Pack :: "node_msg \<Rightarrow> (string + byte list) go" where
  "node_msg_Pack msg =
     (case msg of
        TxMsg tx \<Rightarrow> gbind (Tx_Pack tx) (\<lambda>buf. Inr (Inr buf))
      | BroadcastMsg None \<Rightarrow> Inl NilDereference
      | BroadcastMsg (Some b) \<Rightarrow> gbind (Broadcast_Pack b) (\<lambda>(b', buf). Inr (Inr buf)))"

section \<open>The gateway\<close>

record ('k, 'cfg) gateway =
  g_Connections :: "'k node_conn list"
  g_TxStore :: "unit tb_tx_store"
  g_bridge :: "(tb_transaction, tb_block, 'cfg) turbo_bridge"
  g_asyncMsgChannel :: "(node_msg \<times> 'k node_conn) chan"
  g_blockProcessor :: block_processor
  g_blockchainPeers :: "node_endpoint list"
  g_timeStarted :: instant
  g_gatewayPeers :: string

definition gateway_timeToAvoidReEntry :: duration where
  "gateway_timeToAvoidReEntry = 6 * Hour"

definition AsyncMsgChannelSize :: nat where
  "AsyncMsgChannelSize = 500"

text \<open>The last argument is the text \<open>generatePeers\<close> makes (theory \<open>Eth_Config\<close>).\<close>

definition NewGateway ::
  "(tb_transaction, tb_block, 'cfg) turbo_bridge \<Rightarrow> node_endpoint list \<Rightarrow> instant \<Rightarrow> string \<Rightarrow> ('k, 'cfg) gateway" where
  "NewGateway bridge blockchainPeers now gatewayPeers =
     \<lparr>g_Connections = [],
      g_TxStore = NewTbTxStore (30 * Minute) (3 * 24 * Hour) (10 * Minute) () (newHashHistory ''seenTxs'' (30 * Minute))
        False gateway_timeToAvoidReEntry,
      g_bridge = bridge, g_asyncMsgChannel = make_chan AsyncMsgChannelSize, g_blockProcessor = NewRLPBlockProcessor,
      g_blockchainPeers = blockchainPeers, g_timeStarted = now, g_gatewayPeers = gatewayPeers\<rparr>"

section \<open>The list of connections\<close>

definition OnConnEstablished :: "('k, 'cfg) gateway \<Rightarrow> 'k node_conn \<Rightarrow> ('k, 'cfg) gateway" where
  "OnConnEstablished g conn = g\<lparr>g_Connections := g_Connections g @ [conn]\<rparr>"

text \<open>The loop of \<open>OnConnClosed\<close>: the list without the connection, or \<^term>\<open>None\<close> when it is not found.\<close>

fun remove_conn :: "'k socket_id \<Rightarrow> 'k node_conn list \<Rightarrow> 'k node_conn list option" where
  "remove_conn i [] = None"
| "remove_conn i (connection # connections) =
     (if conn_ID connection = i then Some connections else map_option ((#) connection) (remove_conn i connections))"

datatype node_error = ConnNotFound

definition OnConnClosed :: "('k, 'cfg) gateway \<Rightarrow> 'k node_conn \<Rightarrow> ('k, 'cfg) gateway \<times> node_error option" where
  "OnConnClosed g conn =
     (case remove_conn (conn_ID conn) (g_Connections g) of
        Some conns \<Rightarrow> (g\<lparr>g_Connections := conns\<rparr>, None)
      | None \<Rightarrow> (g, Some ConnNotFound))"

text \<open>
  \<open>DisconnectConn\<close> starts a goroutine for each connection with the ID of a node, and the goroutine closes what
  the loop variable holds when it runs: for the match at position \<open>i\<close> the connection at position
  \<open>captured i\<close>, which is \<open>i\<close> or a later one. The value is the list of positions that are closed.
\<close>

definition DisconnectConn :: "(nat \<Rightarrow> nat) \<Rightarrow> ('k, 'cfg) gateway \<Rightarrow> string \<Rightarrow> nat list" where
  "DisconnectConn captured g i =
     map captured (filter (\<lambda>n. i = ci_NodeID (conn_Info (g_Connections g ! n))) [0..<length (g_Connections g)])"

lemma DisconnectConn_matches:
  "set (DisconnectConn id g i) = {n. n < length (g_Connections g) \<and> ci_NodeID (conn_Info (g_Connections g ! n)) = i}"
  by (auto simp: DisconnectConn_def)

text \<open>A relay connection is in the list from its construction on, before its read loop connects it.\<close>

definition connectRelay :: "('k, 'cfg) gateway \<Rightarrow> string \<Rightarrow> int \<Rightarrow> ('k, 'cfg) gateway" where
  "connectRelay g ip port = OnConnEstablished g (TbConn (NewSSLConnection ip port 100000))"

section \<open>Broadcast\<close>

record broadcast_results =
  RelevantPeers :: int
  NotOpenPeers :: int
  DisabledPeers :: int
  ExcludedPeers :: int
  ErrorPeers :: int
  SentPeers :: int
  SentGatewayPeers :: int

definition zero_results :: broadcast_results where
  "zero_results = \<lparr>RelevantPeers = 0, NotOpenPeers = 0, DisabledPeers = 0, ExcludedPeers = 0, ErrorPeers = 0,
     SentPeers = 0, SentGatewayPeers = 0\<rparr>"

fun broadcast_loop ::
  "('k node_conn \<Rightarrow> string option) \<Rightarrow> node_msg \<Rightarrow> 'k node_conn option \<Rightarrow> node_type \<Rightarrow> 'k node_conn list \<Rightarrow>
     broadcast_results \<Rightarrow> 'k node_conn list \<times> broadcast_results" where
  "broadcast_loop cl msg source to [] results = ([], results)"
| "broadcast_loop cl msg source to (conn # conns) results =
     (let next = (\<lambda>c r. map_prod ((#) c) id (broadcast_loop cl msg source to conns r))
      in if ci_ConnectionType (conn_Info conn) AND to = 0 then next conn results
         else (let results = results\<lparr>RelevantPeers := RelevantPeers results + 1\<rparr>
               in if \<not> conn_IsOpen conn \<or> (case source of None \<Rightarrow> False | Some s \<Rightarrow> conn_ID conn = conn_ID s)
                  then next conn (results\<lparr>NotOpenPeers := NotOpenPeers results + 1\<rparr>)
                  else (case conn_Send conn msg (cl conn) of
                          (conn', Some err) \<Rightarrow> next conn' (results\<lparr>ErrorPeers := ErrorPeers results + 1\<rparr>)
                        | (conn', None) \<Rightarrow>
                            (let results = (if IsGateway (conn_Info conn)
                                            then results\<lparr>SentGatewayPeers := SentGatewayPeers results + 1\<rparr> else results)
                             in next conn' (results\<lparr>SentPeers := SentPeers results + 1\<rparr>)))))"

definition gateway_broadcast ::
  "('k node_conn \<Rightarrow> string option) \<Rightarrow> ('k, 'cfg) gateway \<Rightarrow> node_msg \<Rightarrow> 'k node_conn option \<Rightarrow> node_type \<Rightarrow>
     ('k, 'cfg) gateway \<times> broadcast_results" where
  "gateway_broadcast cl g msg source to =
     (let (conns, results) = broadcast_loop cl msg source to (g_Connections g) zero_results
      in (g\<lparr>g_Connections := conns\<rparr>, results))"

section \<open>Transactions and blocks\<close>

text \<open>
  The clock when a message is made or unpacked, at the addition to the store, inside the store (at the age check, in \<open>Exists\<close> and in \<open>Add\<close> of
  the history) and when the message is stamped; and what closing a socket reports.
\<close>

record 'k tx_readings =
  tr_new :: instant
  tr_now :: instant
  tr_age :: instant
  tr_exists :: instant
  tr_add :: instant
  tr_stamp :: instant
  tr_close :: "'k node_conn \<Rightarrow> string option"

text \<open>A result with new content always carries its transaction.\<close>

definition relay_tx ::
  "'k tx_readings \<Rightarrow> ('k, 'cfg) gateway \<Rightarrow> tx_message \<Rightarrow> 'k node_conn \<Rightarrow> transaction_result \<Rightarrow> ('k, 'cfg) gateway" where
  "relay_tx rd g tx source txResult =
     (let g1 = (if \<not> IsRelay (conn_Info source)
                then fst (gateway_broadcast (tr_close rd) g (TxMsg ((SetSender tx (Sender txResult))\<lparr>tm_timestamp := tr_stamp rd\<rparr>))
                            (Some source) RelayTransaction)
                else g)
      in if ci_ConnectionType (conn_Info source) \<noteq> Blockchain
         then g1\<lparr>g_bridge := fst (SendTransactionsFromBDN (g_bridge g1) (case Transaction txResult of None \<Rightarrow> [] | Some t \<Rightarrow> [t]))\<rparr>
         else g1)"

definition processTransaction ::
  "'k tx_readings \<Rightarrow> ('k, 'cfg) gateway \<Rightarrow> tx_message \<Rightarrow> 'k node_conn \<Rightarrow> ('k, 'cfg) gateway go" where
  "processTransaction rd g tx source =
     gbind (Add emptyTxIDAssigner_Next (g_TxStore g) (tr_age rd) (tr_exists rd) (tr_add rd) (bh_hash tx)
              (Some (tm_content tx)) (tm_txID tx) (bh_networkNum tx) (tr_now rd)) (\<lambda>(st, txResult).
     let g1 = g\<lparr>g_TxStore := st\<rparr>
     in if NewContent txResult \<or> Reprocess txResult then Inr (relay_tx rd g1 tx source txResult) else Inr g1)"

definition processBlockFromBlockchain ::
  "('t, 'x) geth \<Rightarrow> 'k tx_readings \<Rightarrow> ('k, 'cfg) gateway \<Rightarrow> tb_block \<Rightarrow> 'k node_conn \<Rightarrow> ('k, 'cfg) gateway" where
  "processBlockFromBlockchain G rd g tbBlock source =
     (let (bp, r) = BxBlockToBroadcast G (g_blockProcessor g) (tr_exists rd) (tr_add rd) tbBlock 0;
          broadcastMessage = (case r of Inl err \<Rightarrow> None | Inr (m, ids) \<Rightarrow> Some m)
      in fst (gateway_broadcast (tr_close rd) (g\<lparr>g_blockProcessor := bp\<rparr>) (BroadcastMsg broadcastMessage) (Some source) RelayBlock))"

section \<open>Messages from the bridge and from relays\<close>

text \<open>The transactions of a node are processed in order, as messages of network 1.\<close>

fun process_node_txs ::
  "(nat \<Rightarrow> 'k tx_readings) \<Rightarrow> ('k, 'cfg) gateway \<Rightarrow> tb_transaction list \<Rightarrow> 'k node_conn \<Rightarrow> ('k, 'cfg) gateway go" where
  "process_node_txs rds g [] source = Inr g"
| "process_node_txs rds g (blockchainTx # txs) source =
     gbind (processTransaction (rds 0) g
              (Messages.NewTx (tx_hash blockchainTx) (slice_elems (tx_content blockchainTx)) 1 (tr_new (rds 0))) source)
       (\<lambda>g. process_node_txs (\<lambda>n. rds (Suc n)) g txs source)"

text \<open>
  The cases of the select in \<open>handleBridgeMessages\<close>; a case on an empty channel waits. The loop takes
  either case whenever its channel has an item.
\<close>

definition bridge_txs_case :: "(nat \<Rightarrow> 'k tx_readings) \<Rightarrow> ('k, 'cfg) gateway \<Rightarrow> ('k, 'cfg) gateway act" where
  "bridge_txs_case rds g =
     (case ReceiveNodeTransactions (g_bridge g) of
        None \<Rightarrow> Inr None
      | Some (txsFromNode, br) \<Rightarrow>
          lift_go (process_node_txs rds (g\<lparr>g_bridge := br\<rparr>) (tf_Transactions txsFromNode)
            (BlockchainConn (tf_PeerEndpoint txsFromNode))))"

definition bridge_block_case ::
  "('t, 'x) geth \<Rightarrow> 'k tx_readings \<Rightarrow> ('k, 'cfg) gateway \<Rightarrow> ('k, 'cfg) gateway act" where
  "bridge_block_case G rd g =
     (case ReceiveBlockFromNode (g_bridge g) of
        None \<Rightarrow> Inr None
      | Some (blockFromNode, br) \<Rightarrow>
          returns (processBlockFromBlockchain G rd (g\<lparr>g_bridge := br\<rparr>) (bf_Block blockFromNode)
            (BlockchainConn (bf_PeerEndpoint blockFromNode))))"

definition HandleMsg ::
  "'k tx_readings \<Rightarrow> ('k, 'cfg) gateway \<Rightarrow> node_msg \<Rightarrow> 'k node_conn \<Rightarrow> bool \<Rightarrow> ('k, 'cfg) gateway act" where
  "HandleMsg rd g msg source background =
     (if background
      then Inr (map_option (\<lambda>c. g\<lparr>g_asyncMsgChannel := c\<rparr>) (try_send (g_asyncMsgChannel g) (msg, source)))
      else (case msg of
              TxMsg tx \<Rightarrow> lift_go (processTransaction rd g tx source)
            | BroadcastMsg b \<Rightarrow> returns g))"

text \<open>One round of the goroutine behind the channel of messages in the background.\<close>

definition HandleMsgAsync :: "'k tx_readings \<Rightarrow> ('k, 'cfg) gateway \<Rightarrow> ('k, 'cfg) gateway act" where
  "HandleMsgAsync rd g =
     (case ch_recv (g_asyncMsgChannel g) of
        None \<Rightarrow> Inr None
      | Some ((msg, source), c) \<Rightarrow> HandleMsg rd (g\<lparr>g_asyncMsgChannel := c\<rparr>) msg source False)"

text \<open>A frame from a relay, handled by \<open>ProcessMessage\<close> of its connection.\<close>

definition relay_frame ::
  "'k tx_readings \<Rightarrow> ('k, 'cfg) gateway \<Rightarrow> byte list \<Rightarrow> 'k node_conn \<Rightarrow> ('k, 'cfg) gateway act" where
  "relay_frame rd g frame source =
     abind (lift_go (relay_ProcessMessage (tr_new rd) frame)) (\<lambda>m.
       case m of None \<Rightarrow> returns g | Some tx \<Rightarrow> HandleMsg rd g (TxMsg tx) source False)"

section \<open>What a broadcast does\<close>

text \<open>The connections a broadcast counts and those it sends to.\<close>

definition relevant :: "node_type \<Rightarrow> 'k node_conn \<Rightarrow> bool" where
  "relevant to conn \<longleftrightarrow> ci_ConnectionType (conn_Info conn) AND to \<noteq> 0"

definition addressed :: "'k node_conn option \<Rightarrow> node_type \<Rightarrow> 'k node_conn \<Rightarrow> bool" where
  "addressed source to conn \<longleftrightarrow>
     relevant to conn \<and> conn_IsOpen conn \<and> (\<forall>s. source = Some s \<longrightarrow> conn_ID conn \<noteq> conn_ID s)"

text \<open>What a send leaves: the message at the end of the queue, or a closed connection when it is full.\<close>

definition with_msg :: "node_msg \<Rightarrow> 'k node_conn \<Rightarrow> 'k node_conn" where
  "with_msg msg conn =
     (case conn of
        TbConn s \<Rightarrow>
          (if c_Socket s = None then conn
           else if length (c_sendMessages s) < c_sendChannelSize s
           then TbConn (s\<lparr>c_sendMessages := c_sendMessages s @ [msg]\<rparr>)
           else TbConn (s\<lparr>c_connectionOpen := False, c_disabled := False, c_done := True\<rparr>))
      | BlockchainConn e \<Rightarrow> conn)"

definition has_socket :: "'k node_conn \<Rightarrow> bool" where
  "has_socket conn \<longleftrightarrow> (case conn of TbConn s \<Rightarrow> c_Socket s \<noteq> None | BlockchainConn e \<Rightarrow> True)"

lemma conn_Send_eq:
  "conn_IsOpen conn \<Longrightarrow> conn_Send conn msg ce = (with_msg msg conn, if has_socket conn then None else Some NotConnected)"
  by (auto simp: conn_Send_def conn_IsOpen_def with_msg_def has_socket_def ssl_Send_def queueToMessageChan_def
      ssl_close_def Let_def split: node_conn.splits option.split)

text \<open>The counters after a broadcast over a list of connections.\<close>

definition count_results :: "'k node_conn option \<Rightarrow> node_type \<Rightarrow> 'k node_conn list \<Rightarrow> broadcast_results \<Rightarrow> broadcast_results" where
  "count_results source to conns r = r
     \<lparr>RelevantPeers := RelevantPeers r + int (length (filter (relevant to) conns)),
      NotOpenPeers := NotOpenPeers r + int (length (filter (\<lambda>c. relevant to c \<and> \<not> addressed source to c) conns)),
      ErrorPeers := ErrorPeers r + int (length (filter (\<lambda>c. addressed source to c \<and> \<not> has_socket c) conns)),
      SentPeers := SentPeers r + int (length (filter (\<lambda>c. addressed source to c \<and> has_socket c) conns)),
      SentGatewayPeers := SentGatewayPeers r +
        int (length (filter (\<lambda>c. addressed source to c \<and> has_socket c \<and> IsGateway (conn_Info c)) conns))\<rparr>"

lemma broadcast_loop_eq:
  "broadcast_loop cl msg source to conns r =
     (map (\<lambda>c. if addressed source to c then with_msg msg c else c) conns, count_results source to conns r)"
proof (induction conns arbitrary: r)
  case Nil
  then show ?case by (simp add: count_results_def)
next
  case (Cons c conns)
  have src: "(case source of None \<Rightarrow> False | Some s \<Rightarrow> conn_ID c = conn_ID s) \<longleftrightarrow> (\<exists>s. source = Some s \<and> conn_ID c = conn_ID s)"
    by (simp split: option.split)
  consider (skip) "\<not> relevant to c" | (closed) "relevant to c" "\<not> addressed source to c"
    | (fails) "addressed source to c" "\<not> has_socket c" | (sends) "addressed source to c" "has_socket c" by blast
  then show ?case
  proof cases
    case skip
    then have "\<not> addressed source to c" by (simp add: addressed_def)
    with skip show ?thesis by (simp add: Cons.IH relevant_def count_results_def)
  next
    case closed
    then have "\<not> conn_IsOpen c \<or> (\<exists>s. source = Some s \<and> conn_ID c = conn_ID s)" by (auto simp: addressed_def)
    with closed show ?thesis
      by (simp add: Cons.IH src Let_def count_results_def) (simp add: relevant_def)
  next
    case fails
    then have o: "relevant to c" "conn_IsOpen c" "\<not> (\<exists>s. source = Some s \<and> conn_ID c = conn_ID s)" by (auto simp: addressed_def)
    with fails show ?thesis
      by (simp add: Cons.IH src Let_def count_results_def conn_Send_eq del: not_ex) (simp add: relevant_def)
  next
    case sends
    then have o: "relevant to c" "conn_IsOpen c" "\<not> (\<exists>s. source = Some s \<and> conn_ID c = conn_ID s)" by (auto simp: addressed_def)
    with sends show ?thesis
      by (simp add: Cons.IH src Let_def count_results_def conn_Send_eq del: not_ex) (simp add: relevant_def)
  qed
qed

lemma broadcast_eq:
  "gateway_broadcast cl g msg source to =
     (g\<lparr>g_Connections := map (\<lambda>c. if addressed source to c then with_msg msg c else c) (g_Connections g)\<rparr>,
      count_results source to (g_Connections g) zero_results)"
  by (simp add: gateway_broadcast_def broadcast_loop_eq)

lemma length_filter_split:
  "length (filter P xs) = length (filter (\<lambda>x. P x \<and> \<not> Q x) xs) + length (filter (\<lambda>x. P x \<and> Q x) xs)"
  by (induction xs) auto

text \<open>
  C24. A broadcast puts the message once at the end of the send queue of every open connection of the
  addressed type other than its source, closes those whose queue is full, touches no other connection,
  and accounts for every relevant connection exactly once: sent, not open (or the source), or failed.
\<close>

theorem broadcast_delivers:
  "\<exists>r. gateway_broadcast cl g msg source to =
     (g\<lparr>g_Connections := map (\<lambda>c. if addressed source to c then with_msg msg c else c) (g_Connections g)\<rparr>, r) \<and>
     RelevantPeers r = int (length (filter (relevant to) (g_Connections g))) \<and>
     SentPeers r = int (length (filter (\<lambda>c. addressed source to c \<and> has_socket c) (g_Connections g))) \<and>
     RelevantPeers r = SentPeers r + NotOpenPeers r + ErrorPeers r \<and>
     SentGatewayPeers r \<le> SentPeers r \<and> DisabledPeers r = 0 \<and> ExcludedPeers r = 0"
proof -
  let ?cs = "g_Connections g"
  have sub: "filter (\<lambda>c. relevant to c \<and> addressed source to c) ?cs = filter (addressed source to) ?cs"
    by (intro filter_cong) (auto simp: addressed_def)
  have "length (filter (relevant to) ?cs) = length (filter (\<lambda>c. relevant to c \<and> \<not> addressed source to c) ?cs) +
      (length (filter (\<lambda>c. addressed source to c \<and> \<not> has_socket c) ?cs) + length (filter (\<lambda>c. addressed source to c \<and> has_socket c) ?cs))"
    using length_filter_split [of "relevant to" ?cs "addressed source to"] length_filter_split [of "addressed source to" ?cs has_socket]
    by (simp add: sub)
  moreover have "length (filter (\<lambda>c. addressed source to c \<and> has_socket c \<and> IsGateway (conn_Info c)) ?cs) \<le>
      length (filter (\<lambda>c. addressed source to c \<and> has_socket c) ?cs)"
    using length_filter_split [of "\<lambda>c. addressed source to c \<and> has_socket c" ?cs "\<lambda>c. IsGateway (conn_Info c)"]
    by (simp add: conj_assoc)
  ultimately show ?thesis by (simp add: broadcast_eq count_results_def zero_results_def)
qed

section \<open>Relaying transactions\<close>

lemma relay_tx_frame [simp]:
  "g_TxStore (relay_tx rd g tx source r) = g_TxStore g"
  "g_blockProcessor (relay_tx rd g tx source r) = g_blockProcessor g"
  "g_asyncMsgChannel (relay_tx rd g tx source r) = g_asyncMsgChannel g"
  by (simp_all add: relay_tx_def broadcast_eq Let_def)

text \<open>What an addition does that reports new content.\<close>

lemma Add_known_content:
  assumes "Add Next t now ne na h content txID n ts = Inr (t', r)"
    and "hashToContent t h = Some tx" "tx_HasContent tx"
  shows "\<not> NewContent r"
  using assms(1)
proof (cases rule: Add_cases)
  case (inserted t0)
  then show ?thesis using assms(2,3) by (simp add: store_simps zero_result_def tx_HasContent_def)
qed (simp_all add: zero_result_def)

lemma Add_not_Reprocess: "Add Next t now ne na h content txID n ts = Inr (t', r) \<Longrightarrow> \<not> Reprocess r"
  by (erule Add_cases) (simp_all add: zero_result_def store_simps)

lemma Add_keeps_content:
  assumes "Add Next t now ne na h' content txID n ts = Inr (t', r)"
    and "hashToContent t h = Some tx" "tx_HasContent tx"
  shows "\<exists>tx'. hashToContent t' h = Some tx' \<and> tx_HasContent tx'"
  using assms(1)
proof (cases rule: Add_cases)
  case (inserted t0)
  then show ?thesis using assms(2,3)
    by (cases "h' = h") (auto simp: store_simps add_final_def SetContent_content tx_HasContent_def)
qed (use assms(2,3) in auto)

lemma Add_new_content:
  assumes "Add Next t now ne na h content txID n ts = Inr (t', r)" "NewContent r"
  shows "\<exists>tx. hashToContent t' h = Some tx \<and> Transaction r = Some tx \<and> tx_content tx = Some (slice_elems content) \<and> tx_HasContent tx"
  using assms(1)
proof (cases rule: Add_cases)
  case (inserted t0)
  with assms(2) have "slice_elems (tx_content (add_base t0 h n ts)) = [] \<and> slice_elems content \<noteq> []"
    by (simp add: store_simps zero_result_def)
  with inserted show ?thesis by (auto simp: store_simps add_final_def SetContent_content tx_HasContent_def)
qed (use assms(2) in \<open>simp_all add: zero_result_def\<close>)

section \<open>The gateway as a machine\<close>

text \<open>
  What happens on a connection of the list: it is connected, its send loop writes out the queue, it is
  disabled or closed.
\<close>

datatype 'k conn_event =
    CConnect "'k option \<times> string option" instant
  | CDrain "(string option \<times> string option) list"
  | CDisable
  | CClose "string option"

fun conn_step :: "'k node_conn \<Rightarrow> 'k conn_event \<Rightarrow> 'k node_conn go" where
  "conn_step (BlockchainConn e) ev = Inr (BlockchainConn e)"
| "conn_step (TbConn s) (CConnect result now) = Inr (TbConn (fst (ssl_Connect s result now)))"
| "conn_step (TbConn s) (CDrain env) = gbind (sendLoop_round node_msg_Pack s (c_sendMessages s) env) (\<lambda>s'. Inr (TbConn s'))"
| "conn_step (TbConn s) CDisable = Inr (TbConn (ssl_Disable s))"
| "conn_step (TbConn s) (CClose ce) = Inr (TbConn (fst (ssl_close s ce)))"

text \<open>
  The steps of the gateway, in any order: the two cases of the bridge loop, a frame from a connected
  relay, a message for or from the background, callbacks of connections, the connection with a number,
  a new relay, and what the blockchain side does on the shared bridge.
\<close>

datatype ('k, 'cfg) gw_event =
    GTxs "nat \<Rightarrow> 'k tx_readings"
  | GBlock "'k tx_readings"
  | GFrame "'k tx_readings" "byte list" nat
  | GBackground "'k tx_readings" node_msg nat
  | GAsync "'k tx_readings"
  | GClosed nat
  | GConn nat "'k conn_event"
  | GRelay string int
  | GBridge "(tb_transaction, tb_block, 'cfg) bridge_event"

definition settle :: "'s \<Rightarrow> 's act \<Rightarrow> 's go" where
  "settle s r = (case r of Inl p \<Rightarrow> Inl p | Inr None \<Rightarrow> Inr s | Inr (Some s') \<Rightarrow> Inr s')"

definition with_conn :: "('k, 'cfg) gateway \<Rightarrow> nat \<Rightarrow> ('k node_conn \<Rightarrow> ('k, 'cfg) gateway go) \<Rightarrow> ('k, 'cfg) gateway go" where
  "with_conn g i f = (if i < length (g_Connections g) then f (g_Connections g ! i) else Inr g)"

fun gw_step :: "('t, 'x) geth \<Rightarrow> ('k, 'cfg) gateway \<Rightarrow> ('k, 'cfg) gw_event \<Rightarrow> ('k, 'cfg) gateway go" where
  "gw_step G g (GTxs rds) = settle g (bridge_txs_case rds g)"
| "gw_step G g (GBlock rd) = settle g (bridge_block_case G rd g)"
| "gw_step G g (GFrame rd frame i) = with_conn g i (\<lambda>conn. settle g (relay_frame rd g frame conn))"
| "gw_step G g (GBackground rd msg i) = with_conn g i (\<lambda>conn. settle g (HandleMsg rd g msg conn True))"
| "gw_step G g (GAsync rd) = settle g (HandleMsgAsync rd g)"
| "gw_step G g (GClosed i) = with_conn g i (\<lambda>conn. Inr (fst (OnConnClosed g conn)))"
| "gw_step G g (GConn i ev) = with_conn g i (\<lambda>conn.
     gbind (conn_step conn ev) (\<lambda>conn'. Inr (g\<lparr>g_Connections := (g_Connections g)[i := conn']\<rparr>)))"
| "gw_step G g (GRelay ip port) = Inr (connectRelay g ip port)"
| "gw_step G g (GBridge e) = Inr (g\<lparr>g_bridge := bridge_step (g_bridge g) e\<rparr>)"

subsection \<open>The invariant\<close>

text \<open>
  The store and the bridge keep their invariants, no channel holds more than its capacity, and all
  registered connections are connections to relays.
\<close>

definition conn_ok :: "'k node_conn \<Rightarrow> bool" where
  "conn_ok conn \<longleftrightarrow> (case conn of TbConn s \<Rightarrow> length (c_sendMessages s) \<le> c_sendChannelSize s | BlockchainConn e \<Rightarrow> False)"

definition gateway_ok :: "('k, 'cfg) gateway \<Rightarrow> bool" where
  "gateway_ok g \<longleftrightarrow> store_ok (g_TxStore g) \<and> bridge_ok (g_bridge g) \<and> buffered AsyncMsgChannelSize (g_asyncMsgChannel g) \<and>
     (\<forall>conn \<in> set (g_Connections g). conn_ok conn)"

lemma conn_ok_with_msg: "conn_ok conn \<Longrightarrow> conn_ok (with_msg msg conn)"
  by (auto simp: conn_ok_def with_msg_def split: node_conn.splits)

lemma gateway_ok_broadcast: "gateway_ok g \<Longrightarrow> gateway_ok (fst (gateway_broadcast cl g msg source to))"
  by (auto simp: gateway_ok_def broadcast_eq conn_ok_with_msg)

lemma bridge_ok_SendTransactionsFromBDN: "bridge_ok b \<Longrightarrow> bridge_ok (fst (SendTransactionsFromBDN b txs))"
  using bridge_ok_step [of b "EvSendTransactionsFromBDN txs"] by simp

text \<open>
  A property of gateways that the processing of transactions of a kind \<open>Q\<close> keeps, where those from the bridge, from
  frames and from the background are of that kind, and that the other steps keep, holds along every step.
\<close>

lemma process_node_txs_keeps:
  assumes "\<And>rd g tx source g'. Q tx \<Longrightarrow> processTransaction rd g tx source = Inr g' \<Longrightarrow> P g \<Longrightarrow> P g'"
    and "\<And>t now. t \<in> set txs \<Longrightarrow> Q (Messages.NewTx (tx_hash t) (slice_elems (tx_content t)) 1 now)"
  shows "process_node_txs rds g txs source = Inr g' \<Longrightarrow> P g \<Longrightarrow> P g'"
  using assms(2) by (induction txs arbitrary: rds g) (auto simp: gbind_Inr_iff dest: assms(1) [rotated])

lemma settle_Inr_iff: "settle s r = Inr s' \<longleftrightarrow> r = Inr None \<and> s' = s \<or> r = returns s'"
  by (auto simp: settle_def split: sum.split option.split)

lemma HandleMsg_keeps:
  assumes "\<And>rd g tx source g'. Q tx \<Longrightarrow> processTransaction rd g tx source = Inr g' \<Longrightarrow> P g \<Longrightarrow> P g'"
    and "\<And>tx. msg = TxMsg tx \<Longrightarrow> Q tx"
  shows "HandleMsg rd g msg source False = returns g' \<Longrightarrow> P g \<Longrightarrow> P g'"
  using assms(2) by (auto simp: HandleMsg_def lift_go_returns_iff dest: assms(1) [rotated] split: node_msg.splits)

lemma gw_step_keeps_given:
  assumes step: "gw_step G g e = Inr g'" and P: "P g"
    and tx: "\<And>rd g tx source g'. Q tx \<Longrightarrow> processTransaction rd g tx source = Inr g' \<Longrightarrow> P g \<Longrightarrow> P g'"
    and node_tx: "\<And>item br t now. ReceiveNodeTransactions (g_bridge g) = Some (item, br) \<Longrightarrow> t \<in> set (tf_Transactions item) \<Longrightarrow>
      Q (Messages.NewTx (tx_hash t) (slice_elems (tx_content t)) 1 now)"
    and frame_tx: "\<And>now frame tx. relay_ProcessMessage now frame = Inr (Some tx) \<Longrightarrow> Q tx"
    and async_tx: "\<And>tx source c. ch_recv (g_asyncMsgChannel g) = Some ((TxMsg tx, source), c) \<Longrightarrow> Q tx"
    and recv_txs: "\<And>item br. ReceiveNodeTransactions (g_bridge g) = Some (item, br) \<Longrightarrow> P (g\<lparr>g_bridge := br\<rparr>)"
    and block: "\<And>rd b br source. ReceiveBlockFromNode (g_bridge g) = Some (b, br) \<Longrightarrow>
      P (processBlockFromBlockchain G rd (g\<lparr>g_bridge := br\<rparr>) (bf_Block b) source)"
    and bridge: "\<And>ev. e = GBridge ev \<Longrightarrow> P (g\<lparr>g_bridge := bridge_step (g_bridge g) ev\<rparr>)"
    and send: "\<And>rd msg i source c. e = GBackground rd msg i \<Longrightarrow> try_send (g_asyncMsgChannel g) (msg, source) = Some c \<Longrightarrow>
      P (g\<lparr>g_asyncMsgChannel := c\<rparr>)"
    and recv: "\<And>c x. ch_recv (g_asyncMsgChannel g) = Some (x, c) \<Longrightarrow> P (g\<lparr>g_asyncMsgChannel := c\<rparr>)"
    and conn: "\<And>i ev conn'. e = GConn i ev \<Longrightarrow> i < length (g_Connections g) \<Longrightarrow> conn_step (g_Connections g ! i) ev = Inr conn' \<Longrightarrow>
      P (g\<lparr>g_Connections := (g_Connections g)[i := conn']\<rparr>)"
    and closed: "\<And>i. P (fst (OnConnClosed g (g_Connections g ! i)))"
    and relay: "\<And>ip port. P (connectRelay g ip port)"
  shows "P g'"
proof (cases e)
  case (GTxs rds)
  show ?thesis
  proof (cases "ReceiveNodeTransactions (g_bridge g)")
    case None
    with GTxs step P show ?thesis by (simp add: bridge_txs_case_def settle_def)
  next
    case (Some x)
    then obtain item br where r: "ReceiveNodeTransactions (g_bridge g) = Some (item, br)" by (cases x) auto
    with GTxs step have "process_node_txs rds (g\<lparr>g_bridge := br\<rparr>) (tf_Transactions item) (BlockchainConn (tf_PeerEndpoint item)) = Inr g'"
      by (auto simp: bridge_txs_case_def settle_def lift_go_def split: sum.splits)
    moreover have "P g''" if "process_node_txs rds (g\<lparr>g_bridge := br\<rparr>) (tf_Transactions item) source = Inr g''" for g'' source
      by (rule process_node_txs_keeps [of Q P "tf_Transactions item", OF _ _ that recv_txs [OF r]]) (blast intro: tx node_tx [OF r])+
    ultimately show ?thesis by blast
  qed
next
  case (GBlock rd)
  with step P block show ?thesis by (auto simp: bridge_block_case_def settle_Inr_iff split: option.splits)
next
  case (GFrame rd frame i)
  have "P g''" if "HandleMsg rd g (TxMsg t) source False = returns g''" "relay_ProcessMessage now frame = Inr (Some t)" for g'' t source now
    by (rule HandleMsg_keeps [of Q P "TxMsg t", OF _ _ that(1) P]) (use frame_tx that(2) in \<open>auto intro: tx\<close>)
  with GFrame step P show ?thesis
    by (auto simp: with_conn_def settle_Inr_iff relay_frame_def abind_returns_iff lift_go_returns_iff split: if_splits option.splits)
next
  case (GBackground rd msg i)
  with step P send show ?thesis by (auto simp: with_conn_def settle_Inr_iff HandleMsg_def split: if_splits)
next
  case (GAsync rd)
  show ?thesis
  proof (cases "ch_recv (g_asyncMsgChannel g)")
    case None
    with GAsync step P show ?thesis by (simp add: HandleMsgAsync_def settle_def)
  next
    case (Some x)
    then obtain msg source c where r: "ch_recv (g_asyncMsgChannel g) = Some ((msg, source), c)" by (cases x) auto
    with GAsync step have "HandleMsg rd (g\<lparr>g_asyncMsgChannel := c\<rparr>) msg source False = returns g' \<or> g' = g"
      by (auto simp: HandleMsgAsync_def settle_Inr_iff)
    moreover have "P g''" if "HandleMsg rd (g\<lparr>g_asyncMsgChannel := c\<rparr>) msg source False = returns g''" for g''
      by (rule HandleMsg_keeps [of Q P msg, OF _ _ that recv [OF r]]) (use async_tx r in \<open>auto intro: tx\<close>)
    ultimately show ?thesis using P by blast
  qed
next
  case (GClosed i)
  with step P closed show ?thesis by (auto simp: with_conn_def split: if_splits)
next
  case (GConn i ev)
  with step P conn show ?thesis by (auto simp: with_conn_def gbind_Inr_iff split: if_splits)
next
  case (GRelay ip port)
  with step relay [of ip port] show ?thesis by simp
next
  case (GBridge ev)
  with step bridge [of ev] show ?thesis by simp
qed

text \<open>The special case of transactions and blocks of any kind.\<close>

lemma gw_step_keeps:
  assumes step: "gw_step G g e = Inr g'" and P: "P g"
    and tx: "\<And>rd g tx source g'. processTransaction rd g tx source = Inr g' \<Longrightarrow> P g \<Longrightarrow> P g'"
    and block: "\<And>rd g b source. P g \<Longrightarrow> P (processBlockFromBlockchain G rd g b source)"
    and bridge: "\<And>g ev. P g \<Longrightarrow> P (g\<lparr>g_bridge := bridge_step (g_bridge g) ev\<rparr>)"
    and send: "\<And>g c x. P g \<Longrightarrow> try_send (g_asyncMsgChannel g) x = Some c \<Longrightarrow> P (g\<lparr>g_asyncMsgChannel := c\<rparr>)"
    and recv: "\<And>g c x. P g \<Longrightarrow> ch_recv (g_asyncMsgChannel g) = Some (x, c) \<Longrightarrow> P (g\<lparr>g_asyncMsgChannel := c\<rparr>)"
    and conn: "\<And>i ev conn'. e = GConn i ev \<Longrightarrow> P g \<Longrightarrow> i < length (g_Connections g) \<Longrightarrow> conn_step (g_Connections g ! i) ev = Inr conn' \<Longrightarrow>
      P (g\<lparr>g_Connections := (g_Connections g)[i := conn']\<rparr>)"
    and closed: "\<And>i. P g \<Longrightarrow> P (fst (OnConnClosed g (g_Connections g ! i)))"
    and relay: "\<And>ip port. P g \<Longrightarrow> P (connectRelay g ip port)"
  shows "P g'"
proof -
  have txs: "P (g\<lparr>g_bridge := br\<rparr>)" if "ReceiveNodeTransactions (g_bridge g) = Some (x, br)" for x br
    using bridge [OF P, of EvReceiveNodeTransactions] that by (simp add: after_recv_def)
  have blk: "P (g\<lparr>g_bridge := br\<rparr>)" if "ReceiveBlockFromNode (g_bridge g) = Some (x, br)" for x br
    using bridge [OF P, of EvReceiveBlockFromNode] that by (simp add: after_recv_def)
  show ?thesis
    by (rule gw_step_keeps_given [of G g e g' P "\<lambda>_. True", OF step P])
      (use txs blk P in \<open>auto intro: tx block bridge send recv conn closed relay\<close>)
qed

lemma gateway_ok_tx: "processTransaction rd g tx source = Inr g' \<Longrightarrow> gateway_ok g \<Longrightarrow> gateway_ok g'"
  by (auto simp: processTransaction_def gbind_Inr_iff relay_tx_def Let_def broadcast_eq gateway_ok_def conn_ok_with_msg
      split: if_splits intro: bridge_ok_SendTransactionsFromBDN store_ok_Add)

lemma gateway_ok_block: "gateway_ok g \<Longrightarrow> gateway_ok (processBlockFromBlockchain G rd g b source)"
  by (auto simp: processBlockFromBlockchain_def Let_def gateway_ok_def broadcast_eq conn_ok_with_msg split: prod.split)

lemma packAndWrite_queue:
  "packAndWrite Pack s msg we ce = Inr s' \<Longrightarrow> c_sendMessages s' = c_sendMessages s \<and> c_sendChannelSize s' = c_sendChannelSize s"
  by (cases "Pack msg") (auto simp: packAndWrite_def ssl_close_def Let_def split: if_splits sum.splits option.splits)

lemma sendLoop_round_queue:
  "sendLoop_round Pack s msgs env = Inr s' \<Longrightarrow>
     c_sendMessages s' = drop (length msgs) (c_sendMessages s) \<and> c_sendChannelSize s' = c_sendChannelSize s"
  by (induction msgs arbitrary: s env) (fastforce simp: gbind_Inr_iff drop_Suc Let_def dest: packAndWrite_queue split: prod.splits list.splits)+

lemma conn_ok_step: "conn_ok conn \<Longrightarrow> conn_step conn ev = Inr conn' \<Longrightarrow> conn_ok conn'"
  by (cases "(conn, ev)" rule: conn_step.cases)
    (auto simp: conn_ok_def ssl_Connect_def ssl_Disable_def ssl_close_def Let_def gbind_Inr_iff
      split: option.splits if_splits dest: sendLoop_round_queue)

lemma remove_conn_set: "remove_conn i conns = Some conns' \<Longrightarrow> set conns' \<subseteq> set conns"
  by (induction conns arbitrary: conns') (auto split: if_splits)

lemma gateway_ok_conn:
  assumes "gateway_ok g" "i < length (g_Connections g)" "conn_step (g_Connections g ! i) ev = Inr conn'"
  shows "gateway_ok (g\<lparr>g_Connections := (g_Connections g)[i := conn']\<rparr>)"
proof -
  have "conn_ok conn'" using assms conn_ok_step [OF _ assms(3)] by (auto simp: gateway_ok_def)
  then show ?thesis using assms(1) set_update_subset_insert [of "g_Connections g" i conn'] by (auto simp: gateway_ok_def)
qed

lemma gateway_ok_closed: "gateway_ok g \<Longrightarrow> gateway_ok (fst (OnConnClosed g conn))"
  by (auto simp: gateway_ok_def OnConnClosed_def split: option.split dest: remove_conn_set)

lemma gateway_ok_relay: "gateway_ok g \<Longrightarrow> gateway_ok (connectRelay g ip port)"
  by (auto simp: gateway_ok_def connectRelay_def OnConnEstablished_def conn_ok_def NewSSLConnection_def)

lemma gateway_ok_bridge: "gateway_ok g \<Longrightarrow> gateway_ok (g\<lparr>g_bridge := bridge_step (g_bridge g) ev\<rparr>)"
  by (simp add: gateway_ok_def bridge_ok_step)

lemma gateway_ok_async: 
  "gateway_ok g \<Longrightarrow> try_send (g_asyncMsgChannel g) x = Some c \<Longrightarrow> gateway_ok (g\<lparr>g_asyncMsgChannel := c\<rparr>)"
  "gateway_ok g \<Longrightarrow> ch_recv (g_asyncMsgChannel g) = Some (x, c) \<Longrightarrow> gateway_ok (g\<lparr>g_asyncMsgChannel := c\<rparr>)"
  by (auto simp: gateway_ok_def intro: buffered_ops)

lemma gateway_ok_step: "gateway_ok g \<Longrightarrow> gw_step G g e = Inr g' \<Longrightarrow> gateway_ok g'"
  by (rule gw_step_keeps [of G g e g' gateway_ok])
    (auto intro: gateway_ok_tx gateway_ok_block gateway_ok_bridge gateway_ok_async gateway_ok_conn gateway_ok_closed gateway_ok_relay)

lemma gateway_ok_new: "gateway_ok (NewGateway NewTurboBridge peers now text)"
  by (simp add: gateway_ok_def NewGateway_def store_ok_New bridge_ok_new buffered_ops)

interpretation gw: step_machine "NewGateway NewTurboBridge peers now text" "gw_step G" "\<lambda>g e. True" gateway_ok
  by unfold_locales (auto intro: gateway_ok_new gateway_ok_step)

end
