(* ===== verification/Gateway_Flow.thy ===== *)
theory Gateway_Flow
  imports Gateway
begin

text \<open>
  What the gateway does with transactions, blocks and connections: each new transaction is passed on once
  and in the right direction, transactions of a peer of the Ethereum backend reach the relays, when
  processing panics, and how closed connections leave the list.
\<close>

section \<open>New transactions\<close>

text \<open>A transaction the gateway neither holds nor has recently dropped, and that is not too old.\<close>

definition fresh_tx :: "'k tx_readings \<Rightarrow> unit tb_tx_store \<Rightarrow> hash \<Rightarrow> byte list \<Rightarrow> bool" where
  "fresh_tx rd st h content \<longleftrightarrow> content \<noteq> [] \<and> hashToContent st h = None \<and> \<not> hh_Exists (seenTxs st) (tr_exists rd) h \<and>
     time_Sub (tr_age rd) (tr_now rd) \<le> maxTxAge st"

lemma processTransaction_fresh:
  assumes "fresh_tx rd (g_TxStore g) (bh_hash tx) (tm_content tx)"
  shows "\<exists>st e r. processTransaction rd g tx source = Inr (relay_tx rd (g\<lparr>g_TxStore := st\<rparr>) tx source r) \<and>
    Transaction r = Some e \<and> tx_hash e = bh_hash tx \<and> tx_content e = Some (tm_content tx) \<and> Sender r = replicate 20 0 \<and>
    hashToContent st = (hashToContent (g_TxStore g))(bh_hash tx \<mapsto> e) \<and>
    seenTxs st = seenTxs (g_TxStore g) \<and> maxTxAge st = maxTxAge (g_TxStore g)"
proof -
  let ?st = "g_TxStore g"
  let ?e = "add_final emptyTxIDAssigner_Next ?st (bh_hash tx) (Some (tm_content tx)) (tm_txID tx) (bh_networkNum tx) (tr_now rd)"
  let ?ins = "Add_insert emptyTxIDAssigner_Next ?st (bh_hash tx) (Some (tm_content tx)) (tm_txID tx) (bh_networkNum tx) (tr_now rd)"
  have add: "Add emptyTxIDAssigner_Next ?st (tr_age rd) (tr_exists rd) (tr_add rd) (bh_hash tx) (Some (tm_content tx))
      (tm_txID tx) (bh_networkNum tx) (tr_now rd) = Inr ?ins"
    using assms by (simp add: Add_def refreshSeenTx_def fresh_tx_def)
  have r: "NewContent (snd ?ins)" "Transaction (snd ?ins) = Some ?e" "Sender (snd ?ins) = replicate 20 0"
    using assms by (simp_all add: store_simps zero_result_def fresh_tx_def NewTbTransaction_def)
  have f: "tx_hash ?e = bh_hash tx" "tx_content ?e = Some (tm_content tx)"
    using assms by (simp_all add: fresh_tx_def add_final_def SetContent_def AddTxID_def NewTbTransaction_def)
  have p: "processTransaction rd g tx source = Inr (relay_tx rd (g\<lparr>g_TxStore := fst ?ins\<rparr>) tx source (snd ?ins))"
    using r(1) by (simp add: processTransaction_def add Let_def split: prod.split) (metis fst_conv snd_conv)
  have s: "hashToContent (fst ?ins) = (hashToContent ?st)(bh_hash tx \<mapsto> ?e)" by (rule Add_insert_hashToContent)
  show ?thesis
    by (rule exI [of _ "fst ?ins"], rule exI [of _ ?e], rule exI [of _ "snd ?ins"]) (use p r f s in \<open>simp del: fun_upd_apply\<close>)
qed

text \<open>The message a transaction is broadcast as, and what its queue receives.\<close>

definition stamped :: "'k tx_readings \<Rightarrow> tx_message \<Rightarrow> tx_message" where
  "stamped rd tx = (SetSender tx (replicate 20 0))\<lparr>tm_timestamp := tr_stamp rd\<rparr>"

definition deliver :: "'k node_conn option \<Rightarrow> node_type \<Rightarrow> node_msg \<Rightarrow> 'k node_conn \<Rightarrow> 'k node_conn" where
  "deliver source to msg c = (if addressed source to c then with_msg msg c else c)"

lemma relay_tx_from_node:
  "Sender r = replicate 20 0 \<Longrightarrow> relay_tx rd g tx (BlockchainConn e) r =
     g\<lparr>g_Connections := map (deliver (Some (BlockchainConn e)) RelayTransaction (TxMsg (stamped rd tx))) (g_Connections g)\<rparr>"
  by (simp add: relay_tx_def conn_Info_def blockchain_Info_def IsRelay_def Let_def broadcast_eq stamped_def
      node_type_defs deliver_def [abs_def])

lemma relay_tx_from_relay:
  "Transaction r = Some t \<Longrightarrow> relay_tx rd g tx (TbConn s) r = g\<lparr>g_bridge := fst (SendTransactionsFromBDN (g_bridge g) [t])\<rparr>"
  by (simp add: relay_tx_def conn_Info_def ssl_Info_def IsRelay_def Let_def node_type_defs)

text \<open>
  A transaction that is new to the gateway is stored under its hash with its content and goes where it
  has not come from. From a blockchain node it is put, stamped with the time, on the queue of every
  open relay connection and not returned to the nodes; from a relay it goes to the nodes over the bridge,
  if there is room, and to no other relay.
\<close>

lemma new_tx_relayed:
  assumes "fresh_tx rd (g_TxStore g) (bh_hash tx) (tm_content tx)"
  shows "\<exists>g' e. processTransaction rd g tx source = Inr g' \<and>
    hashToContent (g_TxStore g') = (hashToContent (g_TxStore g))(bh_hash tx \<mapsto> e) \<and>
    tx_hash e = bh_hash tx \<and> tx_content e = Some (tm_content tx) \<and>
    (case source of
       BlockchainConn n \<Rightarrow> g_bridge g' = g_bridge g \<and>
         g_Connections g' = map (deliver (Some source) RelayTransaction (TxMsg (stamped rd tx))) (g_Connections g)
     | TbConn s \<Rightarrow> g_Connections g' = g_Connections g \<and> g_bridge g' = fst (SendTransactionsFromBDN (g_bridge g) [e]))"
proof -
  from processTransaction_fresh [OF assms, of source] obtain st e r where
    p: "processTransaction rd g tx source = Inr (relay_tx rd (g\<lparr>g_TxStore := st\<rparr>) tx source r)" and
    r: "Transaction r = Some e" "Sender r = replicate 20 0" and
    e: "tx_hash e = bh_hash tx" "tx_content e = Some (tm_content tx)" and
    st: "hashToContent st = (hashToContent (g_TxStore g))(bh_hash tx \<mapsto> e)" by blast
  show ?thesis
    by (rule exI, rule exI [of _ e], rule conjI [OF p], cases source)
      (simp_all add: relay_tx_from_node [OF r(2)] relay_tx_from_relay [OF r(1)] e st)
qed

text \<open>A gateway with one connected relay, and readings of the clock, for the examples.\<close>

definition ex_trd :: "unit tx_readings" where
  "ex_trd = \<lparr>tr_new = 0, tr_now = 0, tr_age = 0, tr_exists = 0, tr_add = 0, tr_stamp = 7, tr_close = (\<lambda>c. None)\<rparr>"

definition ex_gateway :: "(unit, 'cfg) gateway" where
  "ex_gateway = (NewGateway NewTurboBridge [] 0 [])
     \<lparr>g_Connections := [TbConn ((NewSSLConnection ''r'' 443 100000)\<lparr>c_Socket := Some (), c_connectionOpen := True\<rparr>)]\<rparr>"

definition ex_node :: "unit node_conn" where
  "ex_node = BlockchainConn ex_endpoint"

lemma ex_gateway_fresh: "content \<noteq> [] \<Longrightarrow> fresh_tx ex_trd (g_TxStore ex_gateway) h content"
  by (simp add: fresh_tx_def ex_gateway_def NewGateway_def NewTbTxStore_def hh_Exists_new ex_trd_def time_Sub_def
      duration_defs wrap64_def)

lemma new_tx_relayed_example:
  "\<exists>g' :: (unit, unit) gateway. processTransaction ex_trd ex_gateway (Messages.NewTx [1] [9] 1 0) ex_node = Inr g' \<and>
     g_Connections g' = [TbConn ((NewSSLConnection ''r'' 443 100000)\<lparr>c_Socket := Some (), c_connectionOpen := True,
       c_sendMessages := [TxMsg ((Messages.NewTx [1] [9] 1 0)\<lparr>tm_timestamp := 7\<rparr>)]\<rparr>)]"
proof -
  have "fresh_tx ex_trd (g_TxStore (ex_gateway :: (unit, unit) gateway)) (bh_hash (Messages.NewTx [1] [9] 1 0)) (tm_content (Messages.NewTx [1] [9] 1 0))"
    by (intro ex_gateway_fresh) (simp add: Messages.NewTx_def)
  from new_tx_relayed [OF this, of ex_node] show ?thesis
    by (auto simp: ex_node_def ex_gateway_def deliver_def addressed_def relevant_def conn_Info_def ssl_Info_def conn_IsOpen_def
        conn_ID_def with_msg_def NewSSLConnection_def node_type_defs stamped_def SetSender_def copy_array_def Messages.NewTx_def
        SenderLen_def ex_trd_def)
qed

section \<open>Each transaction is relayed once\<close>

definition known_tx :: "hash \<Rightarrow> 'a tb_tx_store \<Rightarrow> bool" where
  "known_tx h t \<longleftrightarrow> (\<exists>tx. hashToContent t h = Some tx \<and> tx_HasContent tx)"

lemma known_tx_kept: "processTransaction rd g tx source = Inr g' \<Longrightarrow> known_tx h (g_TxStore g) \<Longrightarrow> known_tx h (g_TxStore g')"
  by (auto simp: processTransaction_def gbind_Inr_iff known_tx_def Let_def split: if_splits dest!: Add_keeps_content)

lemma known_tx_step: "known_tx h (g_TxStore g) \<Longrightarrow> gw_step G g e = Inr g' \<Longrightarrow> known_tx h (g_TxStore g')"
  by (rule gw_step_keeps [of G g e g' "\<lambda>g. known_tx h (g_TxStore g)"])
    (auto intro: known_tx_kept simp: processBlockFromBlockchain_def broadcast_eq Let_def OnConnClosed_def
      connectRelay_def OnConnEstablished_def split: prod.split option.split)

lemma known_tx_run: "known_tx h (g_TxStore g) \<Longrightarrow> go_run (gw_step G) g es = Inr g' \<Longrightarrow> known_tx h (g_TxStore g')"
  by (induction es arbitrary: g) (auto simp: gbind_Inr_iff dest: known_tx_step)

lemma processTransaction_known:
  assumes "known_tx (bh_hash tx) (g_TxStore g)" "processTransaction rd g tx source = Inr g'"
  shows "\<exists>st. g' = g\<lparr>g_TxStore := st\<rparr>"
  using assms
  by (auto simp: processTransaction_def gbind_Inr_iff known_tx_def Let_def split: if_splits
      dest: Add_known_content Add_not_Reprocess)

lemma processTransaction_returns:
  "\<not> (tm_txID tx = TxIDEmpty \<and> tm_content tx = []) \<Longrightarrow> \<exists>g'. processTransaction rd g tx source = Inr g'"
  using Add_no_panic [of "tm_txID tx" "Some (tm_content tx)" emptyTxIDAssigner_Next "g_TxStore g" "tr_age rd" "tr_exists rd"
      "tr_add rd" "bh_hash tx" "bh_networkNum tx" "tr_now rd"]
  by (auto simp: processTransaction_def Let_def gbind_def split: if_split)

lemma processTransaction_relays:
  assumes "processTransaction rd g tx source = Inr g'" "g_Connections g' \<noteq> g_Connections g \<or> g_bridge g' \<noteq> g_bridge g"
  shows "known_tx (bh_hash tx) (g_TxStore g')"
proof -
  from assms obtain st r where
    a: "Add emptyTxIDAssigner_Next (g_TxStore g) (tr_age rd) (tr_exists rd) (tr_add rd) (bh_hash tx) (Some (tm_content tx))
      (tm_txID tx) (bh_networkNum tx) (tr_now rd) = Inr (st, r)" and
    g': "g' = (if NewContent r \<or> Reprocess r then relay_tx rd (g\<lparr>g_TxStore := st\<rparr>) tx source r else g\<lparr>g_TxStore := st\<rparr>)"
    by (auto simp: processTransaction_def gbind_Inr_iff Let_def split: if_splits)
  have "NewContent r" using assms(2) g' Add_not_Reprocess [OF a] by (auto split: if_splits)
  with Add_new_content [OF a] g' show ?thesis by (auto simp: known_tx_def)
qed

text \<open>
  C3. A transaction is relayed at most once. After the gateway has passed it on, to relays or to nodes,
  and after any further steps of the gateway, another message with its hash, from whatever source and
  with whatever content, leaves all connections, the bridge and the block processor as they are. (The
  steps do not include the clean-up of the store, which forgets transactions after their time.)
\<close>

theorem tx_relayed_once:
  assumes "processTransaction rd g tx source = Inr g1" "g_Connections g1 \<noteq> g_Connections g \<or> g_bridge g1 \<noteq> g_bridge g"
    and "go_run (gw_step G) g1 es = Inr g2" "bh_hash tx' = bh_hash tx" "processTransaction rd' g2 tx' source' = Inr g3"
  shows "\<exists>st. g3 = g2\<lparr>g_TxStore := st\<rparr>"
  using processTransaction_known [of tx' g2] known_tx_run [OF processTransaction_relays [OF assms(1,2)] assms(3)] assms(4,5)
  by simp

theorem tx_relayed_once_witness:
  "\<exists>(g1 :: (unit, unit) gateway) g2 g3 st. processTransaction ex_trd ex_gateway (Messages.NewTx [1] [9] 1 0) ex_node = Inr g1 \<and>
     go_run (gw_step ex_geth) g1 [GClosed 5, GRelay ''q'' 443] = Inr g2 \<and>
     processTransaction ex_trd g2 (Messages.NewTx [1] [8] 1 0) ex_node = Inr g3 \<and> g3 = g2\<lparr>g_TxStore := st\<rparr>"
proof -
  let ?tx = "Messages.NewTx [1] [9] 1 0"
  let ?tx' = "Messages.NewTx [1] [8] 1 0"
  have n: "bh_hash ?tx = [1]" "tm_content ?tx = [9]" "bh_hash ?tx' = [1]" "tm_content ?tx' = [8]" by (simp_all add: Messages.NewTx_def)
  have "fresh_tx ex_trd (g_TxStore (ex_gateway :: (unit, unit) gateway)) (bh_hash ?tx) (tm_content ?tx)" by (intro ex_gateway_fresh) (simp add: n)
  from processTransaction_fresh [OF this, of ex_node] obtain st e r where
    p: "processTransaction ex_trd (ex_gateway :: (unit, unit) gateway) ?tx ex_node = Inr (relay_tx ex_trd (ex_gateway\<lparr>g_TxStore := st\<rparr>) ?tx ex_node r)"
    and s: "Sender r = replicate 20 0" by blast
  define g1 :: "(unit, unit) gateway" where "g1 = relay_tx ex_trd (ex_gateway\<lparr>g_TxStore := st\<rparr>) ?tx ex_node r"
  have c: "g_Connections g1 \<noteq> g_Connections ex_gateway"
    by (simp add: g1_def ex_node_def relay_tx_from_node [OF s] ex_gateway_def deliver_def addressed_def relevant_def conn_Info_def
        ssl_Info_def conn_IsOpen_def conn_ID_def with_msg_def NewSSLConnection_def node_type_defs)
  obtain g2 where g2: "go_run (gw_step ex_geth) g1 [GClosed 5, GRelay ''q'' 443] = Inr g2" by (cases "5 < length (g_Connections g1)") (simp_all add: with_conn_def)
  obtain g3 where g3: "processTransaction ex_trd g2 ?tx' ex_node = Inr g3"
    using processTransaction_returns [of ?tx' ex_trd g2 ex_node] n by auto
  from tx_relayed_once [OF p [folded g1_def] _ g2 _ g3] c n obtain st' where "g3 = g2\<lparr>g_TxStore := st'\<rparr>" by auto
  then show ?thesis using g2 g3 p [folded g1_def] by (intro exI [of _ g1] exI [of _ g2] exI [of _ g3] exI [of _ st']) simp
qed

section \<open>Panics\<close>

text \<open>
  Processing a transaction either returns or panics, and it panics exactly for messages that have
  neither content nor a short ID. Such a message arrives when a relay sends a transaction frame with an
  empty body, and nothing recovers the panic.
\<close>

lemma processTransaction_panics_iff:
  "(\<exists>p. processTransaction rd g tx source = Inl p) = (tm_txID tx = TxIDEmpty \<and> tm_content tx = [])"
proof (cases "tm_txID tx = TxIDEmpty \<and> tm_content tx = []")
  case True
  then show ?thesis by (simp add: processTransaction_def Add_def)
next
  case False
  then show ?thesis using processTransaction_returns [of tx rd g source] by auto
qed

text \<open>
  C36. A block the gateway has already processed is broadcast all the same, as a nil message: the error of
  the block processor is dropped. On a connected relay with an empty queue the nil message is queued and
  the next round of the send loop dereferences it.
\<close>

theorem repeated_block_panics:
  assumes "\<not> ShouldProcess (g_blockProcessor g) (tr_exists rd) (tb_hash block)"
    and "i < length (g_Connections g)" "g_Connections g ! i = TbConn s" "c_Socket s \<noteq> None" "c_connectionOpen s"
    and "c_sendMessages s = []" "0 < c_sendChannelSize s"
  shows "gw_step G (processBlockFromBlockchain G rd g block (BlockchainConn e)) (GConn i (CDrain env)) = Inl NilDereference"
proof -
  from assms(4) obtain y where y: "c_Socket s = Some y" by blast
  have "addressed (Some (BlockchainConn e)) RelayBlock (TbConn s)"
    using assms(5) by (simp add: addressed_def relevant_def conn_Info_def ssl_Info_def conn_IsOpen_def conn_ID_def node_type_defs)
  then have "g_Connections (processBlockFromBlockchain G rd g block (BlockchainConn e)) ! i =
      TbConn (s\<lparr>c_sendMessages := [BroadcastMsg None]\<rparr>)"
    "length (g_Connections (processBlockFromBlockchain G rd g block (BlockchainConn e))) = length (g_Connections g)"
    using assms(1,2,3,6,7) y by (simp_all add: processBlockFromBlockchain_def BxBlockToBroadcast_def broadcast_eq with_msg_def)
  then show ?thesis
    using assms(2,5) by (simp add: with_conn_def packAndWrite_def node_msg_Pack_def split: list.split prod.split)
qed

theorem repeated_block_panics_witness:
  "\<exists>g :: (unit, unit) gateway. g = processBlockFromBlockchain ex_geth ex_trd (ex_gateway\<lparr>g_blockProcessor := markProcessed NewRLPBlockProcessor 0 zero_hash\<rparr>)
       ex_tb_block (BlockchainConn ex_endpoint) \<and>
     gw_step ex_geth g (GConn 0 (CDrain [])) = Inl NilDereference"
proof -
  let ?g = "ex_gateway :: (unit, unit) gateway"
  let ?g = "?g\<lparr>g_blockProcessor := markProcessed NewRLPBlockProcessor 0 zero_hash\<rparr>"
  have "\<not> ShouldProcess (g_blockProcessor ?g) (tr_exists ex_trd) (tb_hash ex_tb_block)"
    using hh.check_after_mark [of 0 0 "10 * Minute" "processedBlocks NewRLPBlockProcessor" "hash_String zero_hash"]
    by (simp add: ShouldProcess_def markProcessed_def ex_trd_def ex_tb_block_def NewRawTbBlock_def int64_range_def duration_defs)
  from repeated_block_panics [OF this, of 0 _ ex_geth ex_endpoint "[]"] show ?thesis
    by (simp add: ex_gateway_def NewSSLConnection_def)
qed

section \<open>The invariant along runs\<close>

text \<open>
  C12. Whatever the gateway is fed with, in whatever order: the store stays consistent, no channel of the
  bridge and no send queue exceeds its capacity, and only relay connections are registered.
\<close>

theorem gateway_invariant:
  assumes "go_run (gw_step G) (NewGateway NewTurboBridge peers now text) es = Inr g"
  shows "gateway_ok g"
  using assms by (rule gw.inv_reachable [OF go_admitted_True])

theorem gateway_invariant_witness:
  "\<exists>g :: (unit, unit) gateway. go_run (gw_step ex_geth) (NewGateway NewTurboBridge [] 0 []) [GRelay ''r'' 443,
      GConn 0 (CConnect (Some (), None) 1), GBridge (EvSendBlockToBDN ex_tb_block ex_endpoint), GBlock ex_trd] = Inr g \<and>
     gateway_ok g \<and> length (g_Connections g) = 1"
proof -
  let ?es = "[GRelay ''r'' 443, GConn 0 (CConnect (Some (), None) 1), GBridge (EvSendBlockToBDN ex_tb_block ex_endpoint), GBlock ex_trd]"
  obtain g :: "(unit, unit) gateway" where g: "go_run (gw_step ex_geth) (NewGateway NewTurboBridge [] 0 []) ?es = Inr g"
    "length (g_Connections g) = 1"
    by (simp add: connectRelay_def OnConnEstablished_def NewGateway_def with_conn_def settle_def bridge_block_case_def
        ReceiveBlockFromNode_def SendBlockToBDN_def NewTurboBridge_def make_chan_def try_send_def ch_room_def ch_recv_def
        blockBacklog_def processBlockFromBlockchain_def broadcast_eq Let_def split: prod.split)
  from gateway_invariant [OF g(1)] g show ?thesis by blast
qed

section \<open>From a node to the relays\<close>

text \<open>The hash and the content a message carries.\<close>

definition carried :: "node_msg \<Rightarrow> (hash \<times> byte list) option" where
  "carried msg = (case msg of TxMsg tx \<Rightarrow> Some (bh_hash tx, tm_content tx) | BroadcastMsg b \<Rightarrow> None)"

lemma deliver_ready:
  assumes "c_connectionOpen s" "c_Socket s \<noteq> None" "length (c_sendMessages s) < c_sendChannelSize s"
  shows "deliver (Some (BlockchainConn e)) RelayTransaction msg (TbConn s) = TbConn (s\<lparr>c_sendMessages := c_sendMessages s @ [msg]\<rparr>)"
  using assms by (auto simp: deliver_def addressed_def relevant_def conn_Info_def ssl_Info_def conn_IsOpen_def conn_ID_def
      with_msg_def node_type_defs)

lemma process_node_txs_relays:
  assumes "distinct (map tx_hash txs)"
    and "\<forall>n. \<forall>t \<in> set txs. fresh_tx (rds n) (g_TxStore g) (tx_hash t) (slice_elems (tx_content t))"
    and "i < length (g_Connections g)" "g_Connections g ! i = TbConn s"
    and "c_connectionOpen s" "c_Socket s \<noteq> None" "length (c_sendMessages s) + length txs \<le> c_sendChannelSize s"
  shows "\<exists>g' msgs. process_node_txs rds g txs (BlockchainConn e) = Inr g' \<and> g_bridge g' = g_bridge g \<and>
     length (g_Connections g') = length (g_Connections g) \<and>
     g_Connections g' ! i = TbConn (s\<lparr>c_sendMessages := c_sendMessages s @ msgs\<rparr>) \<and>
     map carried msgs = map (\<lambda>t. Some (tx_hash t, slice_elems (tx_content t))) txs"
  using assms
proof (induction txs arbitrary: rds g s)
  case Nil
  then show ?case by simp
next
  case (Cons t txs)
  let ?tx = "Messages.NewTx (tx_hash t) (slice_elems (tx_content t)) 1 (tr_new (rds 0))"
  have n: "bh_hash ?tx = tx_hash t" "tm_content ?tx = slice_elems (tx_content t)" by (simp_all add: Messages.NewTx_def)
  have "fresh_tx (rds 0) (g_TxStore g) (bh_hash ?tx) (tm_content ?tx)" using Cons.prems(2) by (simp add: n)
  from processTransaction_fresh [OF this, of "BlockchainConn e"] obtain st f r where
    p: "processTransaction (rds 0) g ?tx (BlockchainConn e) = Inr (relay_tx (rds 0) (g\<lparr>g_TxStore := st\<rparr>) ?tx (BlockchainConn e) r)"
    and r: "Sender r = replicate 20 0"
    and st: "hashToContent st = (hashToContent (g_TxStore g))(bh_hash ?tx \<mapsto> f)" "seenTxs st = seenTxs (g_TxStore g)"
      "maxTxAge st = maxTxAge (g_TxStore g)" by blast
  let ?m = "TxMsg (stamped (rds 0) ?tx)"
  define g1 where "g1 = relay_tx (rds 0) (g\<lparr>g_TxStore := st\<rparr>) ?tx (BlockchainConn e) r"
  let ?s = "s\<lparr>c_sendMessages := c_sendMessages s @ [?m]\<rparr>"
  have g1: "g1 = g\<lparr>g_TxStore := st, g_Connections := map (deliver (Some (BlockchainConn e)) RelayTransaction ?m) (g_Connections g)\<rparr>"
    by (simp add: g1_def relay_tx_from_node [OF r])
  have c: "g_Connections g1 ! i = TbConn ?s" using Cons.prems(3-7) by (simp add: g1 deliver_ready)
  have fr: "\<forall>n. \<forall>t \<in> set txs. fresh_tx (rds (Suc n)) (g_TxStore g1) (tx_hash t) (slice_elems (tx_content t))"
  proof (intro allI ballI)
    fix m u assume u: "u \<in> set txs"
    then have "tx_hash u \<noteq> tx_hash t" using Cons.prems(1) by (metis distinct.simps(2) image_eqI list.set_map list.simps(9))
    with u Cons.prems(2) st show "fresh_tx (rds (Suc m)) (g_TxStore g1) (tx_hash u) (slice_elems (tx_content u))"
      by (simp add: g1 fresh_tx_def n)
  qed
  from Cons.IH [OF _ fr _ c] Cons.prems obtain g' msgs where
    g': "process_node_txs (\<lambda>n. rds (Suc n)) g1 txs (BlockchainConn e) = Inr g'" "g_bridge g' = g_bridge g1"
      "length (g_Connections g') = length (g_Connections g1)"
      "g_Connections g' ! i = TbConn (?s\<lparr>c_sendMessages := c_sendMessages ?s @ msgs\<rparr>)"
      "map carried msgs = map (\<lambda>t. Some (tx_hash t, slice_elems (tx_content t))) txs"
    by (auto simp: g1)
  have m: "carried ?m = Some (tx_hash t, slice_elems (tx_content t))" by (simp add: carried_def stamped_def SetSender_def n)
  show ?case
    using p [folded g1_def] g' by (intro exI [of _ g'] exI [of _ "?m # msgs"]) (simp add: g1 m)
qed

text \<open>
  C6. Composition. Transactions a peer sends to the Ethereum backend reach the relays: the backend puts them
  on the bridge, the gateway takes them off and appends one message per transaction, with its hash
  and content and in the order the peer sent them, to the queue of every connected relay with room. The
  conditions are that the transactions convert, that they are new to the gateway, and that the channel
  of the bridge is empty.
\<close>

theorem peer_txs_reach_relays:
  assumes "convert_transactions G txs [] = Inr bdnTxs" "distinct (map tx_hash bdnTxs)"
    and "br_transactionsFromNode (h_bridge h) = make_chan transactionBacklog"
    and "\<forall>n. \<forall>t \<in> set bdnTxs. fresh_tx (rds n) (g_TxStore g) (tx_hash t) (slice_elems (tx_content t))"
    and "i < length (g_Connections g)" "g_Connections g ! i = TbConn s"
    and "c_connectionOpen s" "c_Socket s \<noteq> None" "length (c_sendMessages s) + length bdnTxs \<le> c_sendChannelSize s"
  shows "\<exists>h' g' msgs. processTransactions G h endpoint txs = (h', None) \<and>
     gw_step G (g\<lparr>g_bridge := h_bridge h'\<rparr>) (GTxs rds) = Inr g' \<and> g_bridge g' = h_bridge h \<and>
     g_Connections g' ! i = TbConn (s\<lparr>c_sendMessages := c_sendMessages s @ msgs\<rparr>) \<and>
     map carried msgs = map (\<lambda>t. Some (tx_hash t, slice_elems (tx_content t))) bdnTxs"
proof -
  let ?item = "\<lparr>tf_Transactions = bdnTxs, tf_PeerEndpoint = endpoint\<rparr>"
  let ?br = "(h_bridge h)\<lparr>br_transactionsFromNode := (make_chan transactionBacklog)\<lparr>ch_items := [?item]\<rparr>\<rparr>"
  have send: "processTransactions G h endpoint txs = (h\<lparr>h_bridge := ?br\<rparr>, None)"
    by (simp add: processTransactions_def assms(1) SendTransactionsToBDN_def assms(3) try_send_def make_chan_def ch_room_def
        transactionBacklog_def)
  have recv: "ReceiveNodeTransactions ?br = Some (?item, h_bridge h)"
    by (simp add: ReceiveNodeTransactions_def ch_recv_def make_chan_def assms(3))
  from process_node_txs_relays [OF assms(2), of rds "g\<lparr>g_bridge := h_bridge h\<rparr>" i s endpoint] assms(4-) obtain g' msgs where
    "process_node_txs rds (g\<lparr>g_bridge := h_bridge h\<rparr>) bdnTxs (BlockchainConn endpoint) = Inr g'" "g_bridge g' = h_bridge h"
    "g_Connections g' ! i = TbConn (s\<lparr>c_sendMessages := c_sendMessages s @ msgs\<rparr>)"
    "map carried msgs = map (\<lambda>t. Some (tx_hash t, slice_elems (tx_content t))) bdnTxs" by auto
  with send recv show ?thesis by (auto simp: bridge_txs_case_def settle_def)
qed

theorem peer_txs_reach_relays_witness:
  "\<exists>h' (g' :: (unit, (unit, unit) eth_config) gateway) msgs. processTransactions ex_geth ex_handler ex_endpoint [[1], [2]] = (h', None) \<and>
     gw_step ex_geth (ex_gateway\<lparr>g_bridge := h_bridge h'\<rparr>) (GTxs (\<lambda>n. ex_trd)) = Inr g' \<and>
     g_Connections g' ! 0 = TbConn ((NewSSLConnection ''r'' 443 100000)\<lparr>c_Socket := Some (), c_connectionOpen := True,
       c_sendMessages := msgs\<rparr>) \<and>
     map carried msgs = [Some ([1], [1]), Some ([2], [2])]"
proof -
  let ?s = "(NewSSLConnection ''r'' 443 100000)\<lparr>c_Socket := Some (), c_connectionOpen := True\<rparr> :: (unit, node_msg) ssl_conn"
  let ?ts = "[NewRawTbTransaction [1] (Some [1]), NewRawTbTransaction [2] (Some [2])]"
  let ?g = "ex_gateway :: (unit, (unit, unit) eth_config) gateway"
  have conv: "convert_transactions ex_geth [[1], [2]] [] = Inr ?ts"
    by (simp add: TransactionBlockchainToBDN_def ex_geth_def)
  have f: "\<forall>n. \<forall>t \<in> set ?ts. fresh_tx ((\<lambda>n. ex_trd) n) (g_TxStore ?g) (tx_hash t) (slice_elems (tx_content t))"
    by (simp add: NewRawTbTransaction_def ex_gateway_fresh)
  have b: "br_transactionsFromNode (h_bridge ex_handler) = make_chan transactionBacklog"
    by (simp add: ex_handler_def NewHandler_def NewTurboBridge_def)
  have c: "g_Connections ?g ! 0 = TbConn ?s" "0 < length (g_Connections ?g)" by (simp_all add: ex_gateway_def)
  from peer_txs_reach_relays [OF conv _ b f c(2,1), of ex_endpoint] show ?thesis
    by (auto simp: NewRawTbTransaction_def NewSSLConnection_def simp del: gw_step.simps)
qed

section \<open>Closed connections\<close>

lemma while_absent:
  "dropWhile (\<lambda>c. f c \<noteq> k) xs = [] \<longleftrightarrow> k \<notin> f ` set xs"
  "k \<notin> f ` set xs \<Longrightarrow> takeWhile (\<lambda>c. f c \<noteq> k) xs = xs"
  by (induction xs) auto

lemma remove_conn_eq:
  "remove_conn i conns = (if i \<in> conn_ID ` set conns
     then Some (takeWhile (\<lambda>c. conn_ID c \<noteq> i) conns @ tl (dropWhile (\<lambda>c. conn_ID c \<noteq> i) conns)) else None)"
  by (induction conns) auto

text \<open>
  \<open>OnConnClosed\<close> is the removal of the first connection with the same socket: what stands before and
  after it stays in order, and when there is none the list stays and an error is returned. As sockets
  are the identities, two connections that are not connected yet share theirs, and closing one
  removes whichever was registered first.
\<close>

lemma conn_closed_removes_first:
  "OnConnClosed g conn =
     (let same = (\<lambda>c. conn_ID c = conn_ID conn); before = takeWhile (Not \<circ> same) (g_Connections g);
          rest = dropWhile (Not \<circ> same) (g_Connections g)
      in if rest = [] then (g, Some ConnNotFound) else (g\<lparr>g_Connections := before @ tl rest\<rparr>, None)) \<and>
   (conn_ID conn \<notin> conn_ID ` set (g_Connections g) \<longrightarrow> OnConnClosed (OnConnEstablished g conn) conn = (g, None))"
  by (auto simp: OnConnClosed_def OnConnEstablished_def remove_conn_eq comp_def while_absent takeWhile_append dropWhile_append)
    (metis imageI)

lemma conn_closed_removes_first_example:
  "OnConnClosed (connectRelay (NewGateway NewTurboBridge [] 0 [] :: (nat, unit) gateway) ''r'' 443) (TbConn (NewSSLConnection ''r'' 443 100000)) =
     (NewGateway NewTurboBridge [] 0 [], None)"
  using conn_closed_removes_first [of "NewGateway NewTurboBridge [] 0 [] :: (nat, unit) gateway" "TbConn (NewSSLConnection ''r'' 443 100000)"]
  by (simp add: NewGateway_def connectRelay_def)

end
