(* ===== verification/Relay_Node.thy ===== *)
theory Relay_Node
  imports Gateway_Flow
begin

text \<open>
  The relay of \<^verbatim>\<open>cmd/relay/main.go\<close>, the other end of the connections of a gateway: it frames the stream
  as the gateway does and prints the hashes of the transactions and blocks it receives.
\<close>

section \<open>The relay\<close>

text \<open>What the relay prints for a message. The errors of unpacking are dropped.\<close>

datatype relay_output = ReceivedTransaction hash | ReceivedBlock hash

definition empty_broadcast :: broadcast where
  "empty_broadcast = \<lparr>msgType = [], bh_hash = zero_hash, bh_networkNum = 0, bh_sourceID = replicate SourceIDLen 0,
     broadcastType = replicate BroadcastTypeLen 0, encrypted = False, bc_block = [], bc_txIDs = []\<rparr>"

definition relay_processMsg :: "instant \<Rightarrow> byte list \<Rightarrow> relay_output list go" where
  "relay_processMsg now msg =
     gbind (TbType msg) (\<lambda>msgType.
       if msgType = TxType then gbind (Tx_Unpack now empty_tx_message msg) (\<lambda>(tx, err). Inr [ReceivedTransaction (bh_hash tx)])
       else if msgType = BroadcastType then gbind (Broadcast_Unpack empty_broadcast msg) (\<lambda>(block, err). Inr [ReceivedBlock (bh_hash block)])
       else Inr [])"

fun relay_process_all :: "instant \<Rightarrow> byte list list \<Rightarrow> relay_output list \<Rightarrow> relay_output list go" where
  "relay_process_all now [] out = Inr out"
| "relay_process_all now (msg # msgs) out = gbind (relay_processMsg now msg) (\<lambda>o1. relay_process_all now msgs (out @ o1))"

text \<open>
  \<open>handleConnection\<close>, for the results of a sequence of reads: the bytes read and the error, which is
  ignored. The loop has no exit of its own: after the last read it waits for the next. \<open>now\<close> is the clock
  while a read is processed.
\<close>

fun handleConnection ::
  "byte list \<Rightarrow> relay_output list \<Rightarrow> (instant \<times> byte list \<times> string option) list \<Rightarrow> (relay_output list \<times> byte list) go option" where
  "handleConnection buf out [] = Some (Inr (out, buf))"
| "handleConnection buf out ((now, packet, err) # reads) =
     (case frames_loop HeaderLen tb_payload_len (buf @ packet) [] of
        None \<Rightarrow> None
      | Some (Inl p) \<Rightarrow> Some (Inl p)
      | Some (Inr (msgs, rest)) \<Rightarrow>
          (case relay_process_all now msgs out of
             Inl p \<Rightarrow> Some (Inl p)
           | Inr out' \<Rightarrow> handleConnection rest out' reads))"

section \<open>Messages that can be sent\<close>

text \<open>Fixed array lengths, sizes within 32 bits, and enough content to be unpacked without a panic.\<close>

definition sendable :: "node_msg \<Rightarrow> bool" where
  "sendable msg = (case msg of
       TxMsg tx \<Rightarrow> length (bh_hash tx) = 32 \<and> length (bh_sourceID tx) = 16 \<and> length (tm_sender tx) = 20 \<and>
         8 \<le> length (tm_content tx) \<and> length (tm_content tx) < 2 ^ 32 - 93
     | BroadcastMsg None \<Rightarrow> False
     | BroadcastMsg (Some b) \<Rightarrow> length (bh_hash b) = 32 \<and> length (bh_sourceID b) = 16 \<and> length (broadcastType b) = 4 \<and>
         90 + length (bc_block b) + 4 * length (bc_txIDs b) < 2 ^ 32)"

definition printed :: "node_msg \<Rightarrow> relay_output" where
  "printed msg = (case msg of
       TxMsg tx \<Rightarrow> ReceivedTransaction (bh_hash tx)
     | BroadcastMsg b \<Rightarrow> ReceivedBlock (case b of None \<Rightarrow> [] | Some b \<Rightarrow> bh_hash b))"

definition msg_bytes :: "node_msg \<Rightarrow> byte list" where
  "msg_bytes msg = (case msg of TxMsg tx \<Rightarrow> packed_tx tx | BroadcastMsg b \<Rightarrow> (case b of None \<Rightarrow> [] | Some b \<Rightarrow> packed_broadcast b))"

lemma sendable_frame:
  assumes "sendable msg"
  shows "node_msg_Pack msg = Inr (Inr (msg_bytes msg))" "HeaderLen \<le> length (msg_bytes msg)"
    "tb_payload_len (msg_bytes msg) = Inr (length (msg_bytes msg) - HeaderLen)"
    "relay_processMsg now (msg_bytes msg) = Inr [printed msg]"
proof -
  have empty: "bh_ok empty_tx_message" "length (tm_sender empty_tx_message) = 20" "bh_ok empty_broadcast"
    "length (broadcastType empty_broadcast) = 4"
    by (simp_all add: bh_ok_def empty_tx_message_def empty_broadcast_def zero_hash_def layout_defs)
  have "node_msg_Pack msg = Inr (Inr (msg_bytes msg)) \<and> HeaderLen \<le> length (msg_bytes msg) \<and>
    tb_payload_len (msg_bytes msg) = Inr (length (msg_bytes msg) - HeaderLen) \<and>
    relay_processMsg now (msg_bytes msg) = Inr [printed msg]"
  proof (cases msg)
    case (TxMsg tx)
    with assms have ok: "bh_ok tx" "length (tm_sender tx) = 20" "8 \<le> length (tm_content tx)" "length (tm_content tx) < 2 ^ 32 - 93"
      "tm_content tx \<noteq> []" by (auto simp: sendable_def bh_ok_def)
    have len: "length (packed_tx tx) = 93 + length (tm_content tx)" using ok by (simp add: packed_tx_def TxType_def)
    have "tb_payload_len (packed_tx tx) = Inr (73 + length (tm_content tx))"
      unfolding tb_payload_len_def packed_tx_def using ok(4) by (intro payload_len_layout) (auto simp: TxType_def)
    moreover have "TbType (packed_tx tx) = Inr TxType" unfolding packed_tx_def by (rule TbType_layout) simp
    ultimately show ?thesis
      using TxMsg Tx_Pack_layout [OF ok(1,2,5,4)] Tx_Unpack_layout [OF ok(1-4) empty(1,2), of now] len
      by (simp add: node_msg_Pack_def msg_bytes_def relay_processMsg_def printed_def HeaderLen_def)
  next
    case (BroadcastMsg ob)
    with assms obtain b where b: "ob = Some b" and ok: "bh_ok b" "length (broadcastType b) = 4" "broadcast_len b < 2 ^ 32"
      by (cases ob) (auto simp: sendable_def bh_ok_def broadcast_len_def)
    have "TbType (packed_broadcast b) = Inr BroadcastType" unfolding packed_broadcast_def by (rule TbType_layout) simp
    moreover have "TxType \<noteq> BroadcastType" by (simp add: TxType_def BroadcastType_def bytes_of_def)
    ultimately show ?thesis
      using BroadcastMsg b Broadcast_Pack_layout [OF ok] packed_broadcast_frame [OF ok] Broadcast_Unpack_layout [OF ok empty(3,4)]
      by (simp add: node_msg_Pack_def msg_bytes_def relay_processMsg_def printed_def)
  qed
  then show "node_msg_Pack msg = Inr (Inr (msg_bytes msg))" "HeaderLen \<le> length (msg_bytes msg)"
    "tb_payload_len (msg_bytes msg) = Inr (length (msg_bytes msg) - HeaderLen)"
    "relay_processMsg now (msg_bytes msg) = Inr [printed msg]" by simp_all
qed

section \<open>From the queue of the gateway to the relay\<close>

context framing
begin

text \<open>The messages delivered do not depend on those delivered before.\<close>

lemma loop_acc:
  "frames_loop headerLen payload buf msgs = Some (Inr (m, r)) \<Longrightarrow>
     \<exists>m'. m = msgs @ m' \<and> frames_loop headerLen payload buf [] = Some (Inr (m', r))"
proof (induction "length buf" arbitrary: buf msgs m r rule: less_induct)
  case less
  note eq = frames_loop.simps [of headerLen payload buf]
  show ?case
  proof (cases "length buf < headerLen")
    case True
    then have "m = msgs \<and> r = buf" using less.prems by (simp add: eq)
    with True show ?thesis by (simp add: eq)
  next
    case False
    then obtain n where n: "payload buf = Inr n" using payload_total [of buf] by auto
    show ?thesis
    proof (cases "length buf < headerLen + n")
      case True
      then have "m = msgs \<and> r = buf" using False n less.prems by (simp add: eq)
      with True False n show ?thesis by (simp add: eq)
    next
      case enough: False
      let ?rest = "drop (headerLen + n) buf" and ?f = "take (headerLen + n) buf"
      have step: "frames_loop headerLen payload buf ms = frames_loop headerLen payload ?rest (ms @ [?f])" for ms
        using False n enough by (simp add: eq)
      have len: "length ?rest < length buf" using enough header_pos by simp
      from loop_returns [of ?rest "[?f]"] obtain m2 r2 where two: "frames_loop headerLen payload ?rest [?f] = Some (Inr (m2, r2))" by blast
      from less.hyps [OF len two] obtain m3 where m3: "m2 = [?f] @ m3" "frames_loop headerLen payload ?rest [] = Some (Inr (m3, r2))" by blast
      from less.hyps [OF len less.prems [unfolded step]] m3 obtain "m = msgs @ ?f # m3" "r = r2" by auto
      then show ?thesis using m3 two by (simp add: step)
    qed
  qed
qed

lemma feed_returns: "\<exists>m r. feed headerLen payload buf msgs packets = Some (Inr (msgs @ m, r))"
proof (induction packets arbitrary: buf msgs)
  case Nil
  then show ?case by simp
next
  case (Cons p ps)
  from loop_returns [of "buf @ p" msgs] obtain m r where mr: "frames_loop headerLen payload (buf @ p) msgs = Some (Inr (m, r))" by blast
  from loop_acc [OF mr] obtain m' where m': "m = msgs @ m'" by blast
  from Cons.IH [of r m] m' show ?case by (auto simp: mr)
qed

end

text \<open>The bytes of a read.\<close>

definition read_bytes :: "instant \<times> byte list \<times> string option \<Rightarrow> byte list" where
  "read_bytes rd = fst (snd rd)"

lemma read_bytes_simp [simp]: "read_bytes (now, packet, err) = packet"
  by (simp add: read_bytes_def)

lemma relay_process_all_printed:
  "\<forall>f \<in> set fs. \<forall>now. relay_processMsg now f = Inr [q f] \<Longrightarrow> relay_process_all now fs out = Inr (out @ map q fs)"
  by (induction fs arbitrary: out) simp_all

lemma handleConnection_feed:
  assumes "feed HeaderLen tb_payload_len buf msgs (map read_bytes reads) = Some (Inr (msgs @ fs, rest))"
    and "\<forall>f \<in> set fs. \<forall>now. relay_processMsg now f = Inr [q f]"
  shows "handleConnection buf out reads = Some (Inr (out @ map q fs, rest))"
  using assms
proof (induction reads arbitrary: buf msgs fs out)
  case Nil
  then show ?case by simp
next
  case (Cons rd reads)
  obtain now p err where rd: "rd = (now, p, err)" by (cases rd)
  from tb.loop_returns [of "buf @ p" msgs] obtain m r where mr: "frames_loop HeaderLen tb_payload_len (buf @ p) msgs = Some (Inr (m, r))" by blast
  from tb.loop_acc [OF mr] obtain m1 where m1: "m = msgs @ m1" "frames_loop HeaderLen tb_payload_len (buf @ p) [] = Some (Inr (m1, r))" by blast
  have f: "feed HeaderLen tb_payload_len r m (map read_bytes reads) = Some (Inr (msgs @ fs, rest))"
    using Cons.prems(1) by (simp add: rd mr)
  with tb.feed_returns [of r m "map read_bytes reads"] m1(1) obtain fs' where fs: "fs = m1 @ fs'" by auto
  have "handleConnection r (out @ map q m1) reads = Some (Inr ((out @ map q m1) @ map q fs', rest))"
    by (rule Cons.IH [of r m fs']) (use f m1(1) fs Cons.prems(2) in auto)
  moreover have "relay_process_all now m1 out = Inr (out @ map q m1)"
    using Cons.prems(2) fs by (intro relay_process_all_printed) auto
  ultimately show ?case by (simp add: rd m1(2) fs)
qed

lemma queue_drains:
  assumes "c_connectionOpen s" "c_written s = []" "\<forall>msg \<in> set (c_sendMessages s). sendable msg"
  shows "\<exists>s'. conn_step (TbConn s) (CDrain []) = Inr (TbConn s') \<and> c_sendMessages s' = [] \<and>
    (\<forall>reads. concat (map read_bytes reads) = c_written s' \<longrightarrow>
       handleConnection [] [] reads = Some (Inr (map printed (c_sendMessages s), [])))"
proof -
  let ?ms = "c_sendMessages s"
  let ?s' = "s\<lparr>c_sendMessages := [], c_written := concat (map msg_bytes ?ms)\<rparr>"
  have "sendLoop_round node_msg_Pack s ?ms [] = Inr ?s'"
    using send_loop_in_order [of s ?ms "[]" node_msg_Pack msg_bytes] assms sendable_frame(1) by simp
  then have drain: "conn_step (TbConn s) (CDrain []) = Inr (TbConn ?s')" by simp
  { fix reads :: "(instant \<times> byte list \<times> string option) list"
    assume cut: "concat (map read_bytes reads) = c_written ?s'"
    have "frames_loop HeaderLen tb_payload_len [] [] = Some (Inr ([], []))"
      by (subst frames_loop.simps) (simp add: HeaderLen_def)
    then have "feed HeaderLen tb_payload_len [] [] (map read_bytes reads) = frames_loop HeaderLen tb_payload_len (c_written ?s') []"
      using tb.feed_concat [of "[]" "[]" "map read_bytes reads"] cut by simp
    also have "\<dots> = Some (Inr ([] @ map msg_bytes ?ms, []))"
      using tb.loop_frames [of "map msg_bytes ?ms" "[]" "[]"] assms(3) sendable_frame(2,3) by (auto simp: HeaderLen_def)
    finally have fed: "feed HeaderLen tb_payload_len [] [] (map read_bytes reads) = Some (Inr ([] @ map msg_bytes ?ms, []))" .
    define q where "q = (\<lambda>f. case relay_processMsg 0 f of Inr [x] \<Rightarrow> x | _ \<Rightarrow> ReceivedBlock [])"
    have q: "q (msg_bytes m) = printed m" if "m \<in> set ?ms" for m
      using sendable_frame(4) assms(3) that by (simp add: q_def)
    have "handleConnection [] [] reads = Some (Inr ([] @ map q (map msg_bytes ?ms), []))"
      by (rule handleConnection_feed [OF fed]) (use assms(3) sendable_frame(4) q in auto)
    then have "handleConnection [] [] reads = Some (Inr (map printed ?ms, []))" using q by (simp cong: map_cong) }
  with drain show ?thesis by (intro exI [of _ ?s']) simp
qed

text \<open>
  C8. Composition. The messages in the send queue of an open connection of the gateway are written by one
  round of the send loop, and however the stream is cut into packets, with errors on reads or
  without, the relay at the other end prints exactly the hashes of these messages, in order, and keeps
  nothing back. The conditions are that nothing was written to the connection before, that no write fails, and that every
  queued message can be sent: fields of the fixed lengths, no broadcast that is nil (C36 shows one), a transaction with
  at least 8 bytes of content (C34 and C37 show what becomes of a shorter one), and a packed size below 4 GB.
\<close>

theorem queue_reaches_relay:
  assumes "c_connectionOpen s" "c_written s = []" "\<forall>msg \<in> set (c_sendMessages s). sendable msg"
  shows "\<exists>s'. conn_step (TbConn s) (CDrain []) = Inr (TbConn s') \<and> c_sendMessages s' = [] \<and>
    (\<forall>reads. concat (map read_bytes reads) = c_written s' \<longrightarrow>
       handleConnection [] [] reads = Some (Inr (map printed (c_sendMessages s), [])))"
  using assms by (rule queue_drains)

theorem queue_reaches_relay_witness:
  "\<exists>s' :: (unit, node_msg) ssl_conn. conn_step (TbConn ((NewSSLConnection ''r'' 443 9)\<lparr>c_connectionOpen := True,
       c_sendMessages := [BroadcastMsg (Some (ex_broadcast [7] [])), TxMsg (ex_tx [1, 2, 3, 4, 5, 6, 7, 8])]\<rparr>)) (CDrain []) = Inr (TbConn s') \<and>
     handleConnection [] [] [(0, take 5 (c_written s'), None), (1, [], Some ''timeout''), (2, drop 5 (c_written s'), None)] =
       Some (Inr ([ReceivedBlock zero_hash, ReceivedTransaction zero_hash], []))"
proof -
  let ?ms = "[BroadcastMsg (Some (ex_broadcast [7] [])), TxMsg (ex_tx [1, 2, 3, 4, 5, 6, 7, 8])]"
  let ?s = "(NewSSLConnection ''r'' 443 9)\<lparr>c_connectionOpen := True, c_sendMessages := ?ms\<rparr> :: (unit, node_msg) ssl_conn"
  have "\<forall>msg \<in> set (c_sendMessages ?s). sendable msg" by (simp add: sendable_def ex_broadcast_fields ex_tx_fields)
  from queue_reaches_relay [OF _ _ this] obtain s' where s': "conn_step (TbConn ?s) (CDrain []) = Inr (TbConn s')"
    "\<forall>reads. concat (map read_bytes reads) = c_written s' \<longrightarrow> handleConnection [] [] reads = Some (Inr (map printed ?ms, []))"
    by (auto simp: NewSSLConnection_def simp del: conn_step.simps)
  have "map printed ?ms = [ReceivedBlock zero_hash, ReceivedTransaction zero_hash]"
    by (simp add: printed_def ex_broadcast_def NewBlockBroadcast_def ex_tx_def Messages.NewTx_def)
  with s'(1) s'(2) [rule_format, of "[(0, take 5 (c_written s'), None), (1, [], Some ''timeout''), (2, drop 5 (c_written s'), None)]"]
  show ?thesis by (intro exI [of _ s']) (simp del: conn_step.simps)
qed

end
