(* ===== verification/Eth_Transaction.thy ===== *)
theory Eth_Transaction
  imports Blocks
begin

text \<open>
  The readable form of Ethereum transactions, \<^verbatim>\<open>types/ethtransaction.go\<close>: conversion from go-ethereum's
  transactions, fee caps and comparisons, selection of fields, filter values, and the JSON object.
\<close>

section \<open>Values\<close>

text \<open>
  Pointers are option values; the address \<open>&nullEthAddress\<close> is told apart from an address with the same
  bytes, as the code compares pointers. \<open>'al\<close> is the access list of go-ethereum.
\<close>

datatype eth_address = NilAddress | NullEthAddress | Address "byte list"

definition addr_bytes :: "eth_address \<Rightarrow> byte list option" where
  "addr_bytes a = (case a of NilAddress \<Rightarrow> None | NullEthAddress \<Rightarrow> Some (replicate 20 0) | Address bs \<Rightarrow> Some bs)"

record 'al eth_transaction =
  et_TxType :: byte
  et_From :: eth_address
  et_GasPrice :: "int option"
  et_GasLimit :: u64
  et_Hash :: hash
  et_Input :: "byte slice"
  et_Nonce :: u64
  et_Value :: "int option"
  et_V :: "int option"
  et_R :: "int option"
  et_S :: "int option"
  et_To :: eth_address
  et_ChainID :: "int option"
  et_AccessList :: "'al option"
  et_GasFeeCap :: "int option"
  et_GasTipCap :: "int option"

definition NilTransactionType :: byte where "NilTransactionType = 255"
definition LegacyTransactionType :: byte where "LegacyTransactionType = 0"
definition AccessListTransactionType :: byte where "AccessListTransactionType = 1"
definition DynamicFeeTransactionType :: byte where "DynamicFeeTransactionType = 2"
definition nilNonceValue :: u64 where "nilNonceValue = 0xFFFFFFFFFFFFFFFF"

lemmas tx_type_defs = NilTransactionType_def LegacyTransactionType_def AccessListTransactionType_def DynamicFeeTransactionType_def

text \<open>The zero value of the struct.\<close>

definition zero_eth_transaction :: "'al eth_transaction" where
  "zero_eth_transaction = \<lparr>et_TxType = 0, et_From = NilAddress, et_GasPrice = None, et_GasLimit = 0, et_Hash = zero_hash,
     et_Input = None, et_Nonce = 0, et_Value = None, et_V = None, et_R = None, et_S = None, et_To = NilAddress, et_ChainID = None,
     et_AccessList = None, et_GasFeeCap = None, et_GasTipCap = None\<rparr>"

subsection \<open>Comparisons\<close>

text \<open>\<open>Cmp\<close> of \<open>big.Int\<close>: equal pointers compare equal, also two nil pointers; otherwise nil is dereferenced.\<close>

definition big_Cmp :: "int option \<Rightarrow> int option \<Rightarrow> int go" where
  "big_Cmp x y =
     (case (x, y) of
        (None, None) \<Rightarrow> Inr 0
      | (Some a, Some b) \<Rightarrow> Inr (if a < b then -1 else if a = b then 0 else 1)
      | _ \<Rightarrow> Inl NilDereference)"

definition big_LessThan :: "int option \<Rightarrow> int option \<Rightarrow> bool go" where
  "big_LessThan bi other = gbind (big_Cmp bi other) (\<lambda>c. Inr (c = -1))"

definition big_GreaterThan :: "int option \<Rightarrow> int option \<Rightarrow> bool go" where
  "big_GreaterThan bi other = gbind (big_Cmp bi other) (\<lambda>c. Inr (c = 1))"

definition big_GreaterThanOrEqualTo :: "int option \<Rightarrow> int option \<Rightarrow> bool go" where
  "big_GreaterThanOrEqualTo bi other = gbind (big_Cmp bi other) (\<lambda>c. Inr (c \<noteq> -1))"

definition u64_LessThan :: "u64 \<Rightarrow> u64 \<Rightarrow> bool" where
  "u64_LessThan ui other \<longleftrightarrow> ui < other"

definition u64_GreaterThan :: "u64 \<Rightarrow> u64 \<Rightarrow> bool" where
  "u64_GreaterThan ui other \<longleftrightarrow> ui > other"

definition u8_LessThan :: "byte \<Rightarrow> byte \<Rightarrow> bool" where
  "u8_LessThan ui other \<longleftrightarrow> ui < other"

definition u8_GreaterThan :: "byte \<Rightarrow> byte \<Rightarrow> bool" where
  "u8_GreaterThan ui other \<longleftrightarrow> ui > other"

section \<open>Conversion\<close>

text \<open>What the methods of go-ethereum's transaction return; an address of \<^term>\<open>None\<close> is a contract creation.\<close>

record 'al raw_eth_tx =
  rt_Type :: byte
  rt_Gas :: u64
  rt_Data :: "byte slice"
  rt_Nonce :: u64
  rt_Value :: int
  rt_V :: int
  rt_R :: int
  rt_S :: int
  rt_To :: "byte list option"
  rt_ChainId :: int
  rt_GasPrice :: int
  rt_AccessList :: "'al option"
  rt_GasFeeCap :: int
  rt_GasTipCap :: int

datatype eth_tx_error = CouldNotParseSender string | CouldNotDecodeTx string

text \<open>\<open>Sender\<close> recovers the signer of a transaction.\<close>

definition NewEthTransaction ::
  "('al raw_eth_tx \<Rightarrow> string + byte list) \<Rightarrow> hash \<Rightarrow> 'al raw_eth_tx \<Rightarrow> bool \<Rightarrow> eth_tx_error + 'al eth_transaction" where
  "NewEthTransaction Sender' h raw extractSender =
     (case (if extractSender then Sender' raw else Inr (replicate 20 0)) of
        Inl err \<Rightarrow> Inl (CouldNotParseSender err)
      | Inr sender \<Rightarrow> Inr
          \<lparr>et_TxType = rt_Type raw, et_From = Address sender, et_GasPrice = Some (rt_GasPrice raw), et_GasLimit = rt_Gas raw,
           et_Hash = h, et_Input = rt_Data raw, et_Nonce = rt_Nonce raw, et_Value = Some (rt_Value raw), et_V = Some (rt_V raw),
           et_R = Some (rt_R raw), et_S = Some (rt_S raw),
           et_To = (case rt_To raw of None \<Rightarrow> NilAddress | Some a \<Rightarrow> Address a), et_ChainID = Some (rt_ChainId raw),
           et_AccessList = rt_AccessList raw, et_GasFeeCap = Some (rt_GasFeeCap raw), et_GasTipCap = Some (rt_GasTipCap raw)\<rparr>)"

definition EthTransactionFromBytes ::
  "(byte list \<Rightarrow> string + 'al raw_eth_tx) \<Rightarrow> ('al raw_eth_tx \<Rightarrow> string + byte list) \<Rightarrow> hash \<Rightarrow> byte list \<Rightarrow> bool \<Rightarrow>
     eth_tx_error + 'al eth_transaction" where
  "EthTransactionFromBytes Decode Sender' h tc extractSender =
     (case Decode tc of Inl err \<Rightarrow> Inl (CouldNotDecodeTx err) | Inr raw \<Rightarrow> NewEthTransaction Sender' h raw extractSender)"

definition EffectiveGasFeeCap :: "'al eth_transaction \<Rightarrow> int option" where
  "EffectiveGasFeeCap et = (if et_TxType et = DynamicFeeTransactionType then et_GasFeeCap et else et_GasPrice et)"

definition EffectiveGasTipCap :: "'al eth_transaction \<Rightarrow> int option" where
  "EffectiveGasTipCap et = (if et_TxType et = DynamicFeeTransactionType then et_GasTipCap et else et_GasPrice et)"

section \<open>Routing flags\<close>

text \<open>The flags of \<^verbatim>\<open>types/txflags.go\<close>, one bit each, and their combinations.\<close>

type_synonym tx_flags = "16 word"

definition TFStatusMonitoring :: tx_flags where "TFStatusMonitoring = push_bit 0 1"
definition TFPaidTx :: tx_flags where "TFPaidTx = push_bit 1 1"
definition TFNonceMonitoring :: tx_flags where "TFNonceMonitoring = push_bit 2 1"
definition TFRePropagate :: tx_flags where "TFRePropagate = push_bit 3 1"
definition TFEnterpriseSender :: tx_flags where "TFEnterpriseSender = push_bit 4 1"
definition TFLocalRegion :: tx_flags where "TFLocalRegion = push_bit 5 1"
definition TFPrivateTx :: tx_flags where "TFPrivateTx = push_bit 6 1"
definition TFEliteSender :: tx_flags where "TFEliteSender = push_bit 7 1"
definition TFDeliverToNode :: tx_flags where "TFDeliverToNode = push_bit 8 1"
definition TFValidatorsOnly :: tx_flags where "TFValidatorsOnly = push_bit 9 1"
definition TFReusedNonce :: tx_flags where "TFReusedNonce = push_bit 10 1"
definition TFStatusTrack :: tx_flags where "TFStatusTrack = or TFStatusMonitoring TFPaidTx"
definition TFNonceTrack :: tx_flags where "TFNonceTrack = or TFNonceMonitoring TFStatusTrack"

section \<open>Selections of fields\<close>

text \<open>
  The formatting functions of go-ethereum are arguments: addresses, byte strings and numbers as text, and
  the JSON of an access list.
\<close>

datatype json = JNull | JString string | JOther string

record 'al eth_format =
  f_addr_String :: "byte list \<Rightarrow> string"
  f_Encode :: "byte list \<Rightarrow> string"
  f_EncodeBig :: "int \<Rightarrow> string"
  f_EncodeUint64 :: "u64 \<Rightarrow> string"
  f_access_list :: "'al \<Rightarrow> json"

text \<open>\<open>strings.ToLower\<close> on ASCII text.\<close>

definition ToLower :: "string \<Rightarrow> string" where
  "ToLower s = map (\<lambda>c. if 65 \<le> (of_char c :: nat) \<and> (of_char c :: nat) \<le> 90
                        then char_of ((of_char c :: nat) + 32) else c) s"

text \<open>\<open>FloatOf n\<close> is the 64 bit floating point number nearest to \<open>n\<close>.\<close>

datatype filter_value = FloatOf int | IntVal int | StrVal string

definition filter_address :: "'al eth_format \<Rightarrow> eth_address \<Rightarrow> filter_value" where
  "filter_address F a = (case addr_bytes a of Some bs \<Rightarrow> StrVal (ToLower (f_addr_String F bs)) | None \<Rightarrow> StrVal [])"

definition digit_char :: "nat \<Rightarrow> char" where
  "digit_char n = char_of (48 + n)"

definition Itoa_byte :: "byte \<Rightarrow> string" where
  "Itoa_byte b = (let n = unat b in
     (if n \<ge> 100 then [digit_char (n div 100)] else []) @ (if n \<ge> 10 then [digit_char (n div 10 mod 10)] else []) @ [digit_char (n mod 10)])"

text \<open>One case of the switch in \<open>Filters\<close>: the value stored for a parameter, if any.\<close>

definition filter_case :: "'al eth_format \<Rightarrow> 'al eth_transaction \<Rightarrow> string \<Rightarrow> filter_value option go" where
  "filter_case F et param =
     (if param = ''value'' then (case et_Value et of None \<Rightarrow> Inl NilDereference | Some v \<Rightarrow> Inr (Some (FloatOf v)))
      else if param = ''gas'' then Inr (Some (FloatOf (uint (et_GasLimit et))))
      else if param = ''gas_price'' then
        Inr (Some (case et_GasPrice et of
            Some p \<Rightarrow> if et_TxType et \<noteq> DynamicFeeTransactionType then FloatOf p else IntVal (-1) | None \<Rightarrow> IntVal (-1)))
      else if param = ''to'' then Inr (Some (filter_address F (et_To et)))
      else if param = ''from'' then Inr (Some (filter_address F (et_From et)))
      else if param = ''method_id'' then
        (let methodID = ToLower (f_Encode F (slice_elems (et_Input et)))
         in Inr (Some (StrVal (if length methodID \<ge> 10 then ''0x'' @ take 8 (drop 2 methodID) else methodID))))
      else if param = ''type'' then Inr (Some (StrVal (Itoa_byte (et_TxType et))))
      else if param = ''chain_id'' then Inr (map_option (\<lambda>c. IntVal (big_Int64 c)) (et_ChainID et))
      else if param = ''max_fee_per_gas'' then
        Inr (Some (case et_GasFeeCap et of
            Some p \<Rightarrow> if et_TxType et = DynamicFeeTransactionType then IntVal (big_Int64 p) else IntVal (-1) | None \<Rightarrow> IntVal (-1)))
      else if param = ''max_priority_fee_per_gas'' then
        Inr (Some (case et_GasTipCap et of
            Some p \<Rightarrow> if et_TxType et = DynamicFeeTransactionType then IntVal (big_Int64 p) else IntVal (-1) | None \<Rightarrow> IntVal (-1)))
      else Inr None)"

fun Filters_loop :: "'al eth_format \<Rightarrow> 'al eth_transaction \<Rightarrow> string list \<Rightarrow> (string \<rightharpoonup> filter_value) \<Rightarrow> (string \<rightharpoonup> filter_value) go" where
  "Filters_loop F et [] m = Inr m"
| "Filters_loop F et (param # filters) m =
     gbind (filter_case F et param) (\<lambda>v.
       Filters_loop F et filters (case v of None \<Rightarrow> m | Some x \<Rightarrow> m(param \<mapsto> x)))"

definition Filters :: "'al eth_format \<Rightarrow> 'al eth_transaction \<Rightarrow> string list \<Rightarrow> (string \<rightharpoonup> filter_value) go" where
  "Filters F et filters = Filters_loop F et filters Map.empty"

text \<open>One case of the switch in \<open>WithFields\<close>.\<close>

definition field_case :: "'al eth_transaction \<Rightarrow> 'al eth_transaction \<Rightarrow> string \<Rightarrow> 'al eth_transaction" where
  "field_case et tc param =
     (if param = ''tx_contents.tx_hash'' then tc\<lparr>et_Hash := et_Hash et\<rparr>
      else if param = ''tx_contents.nonce'' then tc\<lparr>et_Nonce := et_Nonce et\<rparr>
      else if param = ''tx_contents.gas_price'' then (if et_TxType et \<noteq> DynamicFeeTransactionType then tc\<lparr>et_GasPrice := et_GasPrice et\<rparr> else tc)
      else if param = ''tx_contents.gas'' then tc\<lparr>et_GasLimit := et_GasLimit et\<rparr>
      else if param = ''tx_contents.to'' then tc\<lparr>et_To := (if et_To et = NilAddress then NullEthAddress else et_To et)\<rparr>
      else if param = ''tx_contents.value'' then tc\<lparr>et_Value := et_Value et\<rparr>
      else if param = ''tx_contents.input'' then tc\<lparr>et_Input := et_Input et\<rparr>
      else if param = ''tx_contents.v'' then tc\<lparr>et_V := et_V et\<rparr>
      else if param = ''tx_contents.r'' then tc\<lparr>et_R := et_R et\<rparr>
      else if param = ''tx_contents.s'' then tc\<lparr>et_S := et_S et\<rparr>
      else if param = ''tx_contents.from'' then tc\<lparr>et_From := et_From et\<rparr>
      else if param = ''tx_contents.type'' then tc\<lparr>et_TxType := et_TxType et\<rparr>
      else if param = ''tx_contents.access_list'' then tc\<lparr>et_AccessList := et_AccessList et\<rparr>
      else if param = ''tx_contents.chain_id'' then tc\<lparr>et_ChainID := et_ChainID et\<rparr>
      else if param = ''tx_contents.max_fee_per_gas'' then (if et_TxType et = DynamicFeeTransactionType then tc\<lparr>et_GasFeeCap := et_GasFeeCap et\<rparr> else tc)
      else if param = ''tx_contents.max_priority_fee_per_gas'' then (if et_TxType et = DynamicFeeTransactionType then tc\<lparr>et_GasTipCap := et_GasTipCap et\<rparr> else tc)
      else tc)"

definition WithFields :: "'al eth_transaction \<Rightarrow> string list \<Rightarrow> 'al eth_transaction" where
  "WithFields et params =
     foldl (field_case et) (zero_eth_transaction\<lparr>et_TxType := NilTransactionType, et_Nonce := nilNonceValue\<rparr>) params"

section \<open>JSON\<close>

text \<open>
  The values the \<open>MarshalJSON\<close> methods of the fields make are all strings. A JSON object is the map of its
  keys; unmarshalling into a map and marshalling it again gives the same object.
\<close>

definition addr_json :: "'al eth_format \<Rightarrow> eth_address \<Rightarrow> json" where
  "addr_json F a = (case addr_bytes a of None \<Rightarrow> JString ''0x'' | Some bs \<Rightarrow> JString (ToLower (f_addr_String F bs)))"

definition big_json :: "'al eth_format \<Rightarrow> int option \<Rightarrow> json" where
  "big_json F b = (case b of None \<Rightarrow> JString [] | Some n \<Rightarrow> JString (ToLower (f_EncodeBig F n)))"

definition u64_json :: "'al eth_format \<Rightarrow> u64 \<Rightarrow> json" where
  "u64_json F u = JString (ToLower (f_EncodeUint64 F u))"

definition u8_json :: "'al eth_format \<Rightarrow> byte \<Rightarrow> json" where
  "u8_json F u = JString (ToLower (f_EncodeUint64 F (ucast u)))"

definition bytes_json :: "'al eth_format \<Rightarrow> byte slice \<Rightarrow> json" where
  "bytes_json F b = JString (ToLower (f_Encode F (slice_elems b)))"

definition hash_json :: "hash \<Rightarrow> json" where
  "hash_json h = JString (ToLower (hash_Format h True))"

text \<open>\<open>ethTxJSON\<close>: a nil pointer is omitted, except for the gas price, which is then null.\<close>

record json_fields =
  j_type :: "json option"
  j_nonce :: "json option"
  j_gas :: "json option"
  j_value :: "json option"
  j_input :: "json option"
  j_v :: "json option"
  j_r :: "json option"
  j_s :: "json option"
  j_to :: "json option"
  j_from :: "json option"
  j_gasPrice :: "json option"
  j_hash :: "json option"
  j_chainId :: "json option"
  j_accessList :: "json option"
  j_maxFeePerGas :: "json option"
  j_maxPriorityFeePerGas :: "json option"

definition marshal_fields :: "json_fields \<Rightarrow> (string \<rightharpoonup> json)" where
  "marshal_fields enc = map_of (
     [(''gasPrice'', case j_gasPrice enc of None \<Rightarrow> JNull | Some j \<Rightarrow> j)] @
     List.map_filter (\<lambda>(k, v). map_option (Pair k) v)
       [(''type'', j_type enc), (''nonce'', j_nonce enc), (''gas'', j_gas enc), (''value'', j_value enc), (''input'', j_input enc),
        (''v'', j_v enc), (''r'', j_r enc), (''s'', j_s enc), (''to'', j_to enc), (''from'', j_from enc), (''hash'', j_hash enc),
        (''chainId'', j_chainId enc), (''accessList'', j_accessList enc), (''maxFeePerGas'', j_maxFeePerGas enc),
        (''maxPriorityFeePerGas'', j_maxPriorityFeePerGas enc)])"

definition encode_fields :: "'al eth_format \<Rightarrow> 'al eth_transaction \<Rightarrow> json_fields" where
  "encode_fields F et =
     \<lparr>j_type = (if et_TxType et \<noteq> NilTransactionType then Some (u8_json F (et_TxType et)) else None),
      j_nonce = (if et_Nonce et \<noteq> nilNonceValue then Some (u64_json F (et_Nonce et)) else None),
      j_gas = (if et_GasLimit et \<noteq> 0 then Some (u64_json F (et_GasLimit et)) else None),
      j_value = (if et_Value et \<noteq> None then Some (big_json F (et_Value et)) else None),
      j_input = (if et_Input et \<noteq> None then Some (bytes_json F (et_Input et)) else None),
      j_v = (if et_V et \<noteq> None then Some (big_json F (et_V et)) else None),
      j_r = (if et_R et \<noteq> None then Some (big_json F (et_R et)) else None),
      j_s = (if et_S et \<noteq> None then Some (big_json F (et_S et)) else None),
      j_to = (if et_To et \<noteq> NilAddress then Some (addr_json F (et_To et)) else None),
      j_from = (if et_From et \<noteq> NilAddress then Some (addr_json F (et_From et)) else None),
      j_gasPrice = (if et_GasPrice et \<noteq> None then Some (big_json F (et_GasPrice et)) else None),
      j_hash = (if et_Hash et \<noteq> replicate 32 0 then Some (hash_json (et_Hash et)) else None),
      j_chainId = (if et_TxType et \<noteq> LegacyTransactionType then Some (big_json F (et_ChainID et)) else None),
      j_accessList = map_option (f_access_list F) (et_AccessList et),
      j_maxFeePerGas = (if et_GasFeeCap et \<noteq> None then Some (big_json F (et_GasFeeCap et)) else None),
      j_maxPriorityFeePerGas = (if et_GasTipCap et \<noteq> None then Some (big_json F (et_GasTipCap et)) else None)\<rparr>"

definition MarshalJSON :: "'al eth_format \<Rightarrow> 'al eth_transaction \<Rightarrow> (string \<rightharpoonup> json)" where
  "MarshalJSON F et =
     (let marshalled = marshal_fields (encode_fields F et)
      in if et_To et \<noteq> NilAddress \<and> et_To et \<noteq> NullEthAddress then marshalled else marshalled(''to'' \<mapsto> JNull))"

section \<open>Properties\<close>

definition selected :: "string list \<Rightarrow> string \<Rightarrow> bool" where
  "selected params f \<longleftrightarrow> ''tx_contents.'' @ f \<in> set params"

text \<open>The fields a selection keeps, written down without a loop.\<close>

definition select_fields :: "'al eth_transaction \<Rightarrow> string list \<Rightarrow> 'al eth_transaction" where
  "select_fields et params =
      \<lparr>et_TxType = (if selected params ''type'' then et_TxType et else NilTransactionType),
        et_From = (if selected params ''from'' then et_From et else NilAddress),
        et_GasPrice = (if selected params ''gas_price'' \<and> et_TxType et \<noteq> DynamicFeeTransactionType then et_GasPrice et else None),
        et_GasLimit = (if selected params ''gas'' then et_GasLimit et else 0),
        et_Hash = (if selected params ''tx_hash'' then et_Hash et else zero_hash),
        et_Input = (if selected params ''input'' then et_Input et else None),
        et_Nonce = (if selected params ''nonce'' then et_Nonce et else nilNonceValue),
        et_Value = (if selected params ''value'' then et_Value et else None),
        et_V = (if selected params ''v'' then et_V et else None),
        et_R = (if selected params ''r'' then et_R et else None),
        et_S = (if selected params ''s'' then et_S et else None),
        et_To = (if selected params ''to'' then (if et_To et = NilAddress then NullEthAddress else et_To et) else NilAddress),
        et_ChainID = (if selected params ''chain_id'' then et_ChainID et else None),
        et_AccessList = (if selected params ''access_list'' then et_AccessList et else None),
        et_GasFeeCap = (if selected params ''max_fee_per_gas'' \<and> et_TxType et = DynamicFeeTransactionType then et_GasFeeCap et else None),
        et_GasTipCap = (if selected params ''max_priority_fee_per_gas'' \<and> et_TxType et = DynamicFeeTransactionType then et_GasTipCap et else None)\<rparr>"

text \<open>Each case writes its own field only.\<close>

lemma field_case_writes:
  "et_Hash (field_case et tc f) = (if f = ''tx_contents.tx_hash'' then et_Hash et else et_Hash tc)"
  "et_Nonce (field_case et tc f) = (if f = ''tx_contents.nonce'' then et_Nonce et else et_Nonce tc)"
  "et_GasPrice (field_case et tc f) = (if f = ''tx_contents.gas_price'' \<and> et_TxType et \<noteq> DynamicFeeTransactionType then et_GasPrice et else et_GasPrice tc)"
  "et_GasLimit (field_case et tc f) = (if f = ''tx_contents.gas'' then et_GasLimit et else et_GasLimit tc)"
  "et_To (field_case et tc f) = (if f = ''tx_contents.to'' then (if et_To et = NilAddress then NullEthAddress else et_To et) else et_To tc)"
  "et_Value (field_case et tc f) = (if f = ''tx_contents.value'' then et_Value et else et_Value tc)"
  "et_Input (field_case et tc f) = (if f = ''tx_contents.input'' then et_Input et else et_Input tc)"
  "et_V (field_case et tc f) = (if f = ''tx_contents.v'' then et_V et else et_V tc)"
  "et_R (field_case et tc f) = (if f = ''tx_contents.r'' then et_R et else et_R tc)"
  "et_S (field_case et tc f) = (if f = ''tx_contents.s'' then et_S et else et_S tc)"
  "et_From (field_case et tc f) = (if f = ''tx_contents.from'' then et_From et else et_From tc)"
  "et_TxType (field_case et tc f) = (if f = ''tx_contents.type'' then et_TxType et else et_TxType tc)"
  "et_AccessList (field_case et tc f) = (if f = ''tx_contents.access_list'' then et_AccessList et else et_AccessList tc)"
  "et_ChainID (field_case et tc f) = (if f = ''tx_contents.chain_id'' then et_ChainID et else et_ChainID tc)"
  "et_GasFeeCap (field_case et tc f) = (if f = ''tx_contents.max_fee_per_gas'' \<and> et_TxType et = DynamicFeeTransactionType then et_GasFeeCap et else et_GasFeeCap tc)"
  "et_GasTipCap (field_case et tc f) = (if f = ''tx_contents.max_priority_fee_per_gas'' \<and> et_TxType et = DynamicFeeTransactionType then et_GasTipCap et else et_GasTipCap tc)"
  unfolding field_case_def by (simp_all add: if_distrib [of et_Hash] if_distrib [of et_Nonce] if_distrib [of et_GasPrice] if_distrib [of et_GasLimit]
      if_distrib [of et_To] if_distrib [of et_Value] if_distrib [of et_Input] if_distrib [of et_V] if_distrib [of et_R] if_distrib [of et_S]
      if_distrib [of et_From] if_distrib [of et_TxType] if_distrib [of et_AccessList] if_distrib [of et_ChainID]
      if_distrib [of et_GasFeeCap] if_distrib [of et_GasTipCap] cong: if_cong)

lemma selected_snoc: "selected (fs @ [f]) x \<longleftrightarrow> selected fs x \<or> f = ''tx_contents.'' @ x"
  by (auto simp: selected_def)

lemma field_case_select:
  "field_case et (select_fields et fs) f = select_fields et (fs @ [f])"
  by (rule eth_transaction.equality) (simp_all add: field_case_writes, simp_all add: select_fields_def selected_snoc)

lemma WithFields_select: "WithFields et fs = select_fields et fs"
proof (induction fs rule: rev_induct)
  case Nil
  then show ?case by (simp add: WithFields_def select_fields_def selected_def zero_eth_transaction_def)
next
  case (snoc f fs)
  then show ?case by (simp add: WithFields_def field_case_select)
qed

text \<open>
  Equivalence. The loop of \<open>WithFields\<close> computes the selection given field by field: each
  selected field is copied, the fee fields only where the type of the transaction has them, a missing
  receiver becomes the null address, and fields not selected have the values that are left out
  of the JSON. In particular order and repetition of the parameters do not matter.
\<close>

lemma with_fields_selects:
  "WithFields et params = select_fields et params \<and>
   (set params = set params' \<longrightarrow> WithFields et params = WithFields et params')"
  by (simp add: WithFields_select select_fields_def selected_def)

definition ex_eth_tx :: "unit eth_transaction" where
  "ex_eth_tx = \<lparr>et_TxType = 2, et_From = Address [1], et_GasPrice = Some 5, et_GasLimit = 21000, et_Hash = [7], et_Input = Some [1, 2],
     et_Nonce = 3, et_Value = Some 9, et_V = Some 0, et_R = Some 1, et_S = Some 2, et_To = NilAddress, et_ChainID = Some 1,
     et_AccessList = None, et_GasFeeCap = Some 30, et_GasTipCap = Some 2\<rparr>"

lemma with_fields_selects_example:
  "WithFields ex_eth_tx [''tx_contents.to'', ''tx_contents.nonce''] = WithFields ex_eth_tx [''tx_contents.nonce'', ''tx_contents.to''] \<and>
   et_To (WithFields ex_eth_tx [''tx_contents.to'', ''tx_contents.nonce'']) = NullEthAddress"
proof -
  note w = with_fields_selects [of ex_eth_tx "[''tx_contents.to'', ''tx_contents.nonce'']" "[''tx_contents.nonce'', ''tx_contents.to'']"]
  have "et_To (select_fields ex_eth_tx [''tx_contents.to'', ''tx_contents.nonce'']) = NullEthAddress"
    by (simp add: select_fields_def selected_def ex_eth_tx_def)
  with w show ?thesis by auto
qed

lemma map_of_map_filter:
  "distinct (map fst kvs) \<Longrightarrow> map_of (List.map_filter (\<lambda>(k, v). map_option (Pair k) v) kvs) k = Option.bind (map_of kvs k) id"
proof (induction kvs)
  case Nil
  then show ?case by (simp add: List.map_filter_simps)
next
  case (Cons kv kvs)
  obtain k' v where kv: "kv = (k', v)" by (cases kv)
  have "map_of kvs k' = None" using Cons.prems by (simp add: kv map_of_eq_None_iff)
  with Cons show ?case by (cases v) (auto simp: kv List.map_filter_simps)
qed

text \<open>The keys of the JSON object.\<close>

lemma marshal_fields_lookup:
  "marshal_fields enc k =
     (if k = ''gasPrice'' then Some (case j_gasPrice enc of None \<Rightarrow> JNull | Some j \<Rightarrow> j)
      else Option.bind (map_of
       [(''type'', j_type enc), (''nonce'', j_nonce enc), (''gas'', j_gas enc), (''value'', j_value enc), (''input'', j_input enc),
        (''v'', j_v enc), (''r'', j_r enc), (''s'', j_s enc), (''to'', j_to enc), (''from'', j_from enc), (''hash'', j_hash enc),
        (''chainId'', j_chainId enc), (''accessList'', j_accessList enc), (''maxFeePerGas'', j_maxFeePerGas enc),
        (''maxPriorityFeePerGas'', j_maxPriorityFeePerGas enc)] k) id)"
  unfolding marshal_fields_def append_Cons append_Nil map_of.simps(2) fst_conv snd_conv fun_upd_apply
  by (subst map_of_map_filter) simp_all

text \<open>
  The JSON of a selection. A selected field appears under its key when it has a value, others do not
  appear, with three exceptions that no selection turns off: the gas price is null and the receiver is
  null unless they are selected and present, and the chain ID appears, as an empty string when not selected,
  unless the type is selected and is the legacy type.
\<close>

lemma selection_json:
  "MarshalJSON F (WithFields et ps) ''to'' = Some (case et_To et of
     Address a \<Rightarrow> if selected ps ''to'' then JString (ToLower (f_addr_String F a)) else JNull | _ \<Rightarrow> JNull) \<and>
   MarshalJSON F (WithFields et ps) ''gasPrice'' = Some (case et_GasPrice et of
     Some p \<Rightarrow> if selected ps ''gas_price'' \<and> et_TxType et \<noteq> DynamicFeeTransactionType then big_json F (Some p) else JNull | None \<Rightarrow> JNull) \<and>
   MarshalJSON F (WithFields et ps) ''chainId'' =
     (if selected ps ''type'' \<and> et_TxType et = LegacyTransactionType then None
      else Some (big_json F (if selected ps ''chain_id'' then et_ChainID et else None))) \<and>
   MarshalJSON F (WithFields et ps) ''nonce'' =
     (if selected ps ''nonce'' \<and> et_Nonce et \<noteq> nilNonceValue then Some (u64_json F (et_Nonce et)) else None) \<and>
   MarshalJSON F (WithFields et ps) ''value'' =
     (if selected ps ''value'' then map_option (\<lambda>v. big_json F (Some v)) (et_Value et) else None) \<and>
   MarshalJSON F (WithFields et ps) ''hash'' =
     (if selected ps ''tx_hash'' \<and> et_Hash et \<noteq> zero_hash then Some (hash_json (et_Hash et)) else None) \<and>
   MarshalJSON F (WithFields et ps) ''maxFeePerGas'' =
     (if selected ps ''max_fee_per_gas'' \<and> et_TxType et = DynamicFeeTransactionType
      then map_option (\<lambda>v. big_json F (Some v)) (et_GasFeeCap et) else None)"
proof -
  let ?w = "WithFields et ps"
  have at: "MarshalJSON F ?w k = (if k = ''to'' \<and> \<not> (\<exists>a. et_To ?w = Address a) then Some JNull
      else marshal_fields (encode_fields F ?w) k)" for k
    by (cases "et_To ?w") (auto simp: MarshalJSON_def)
  have "MarshalJSON F ?w ''to'' = Some (case et_To et of
     Address a \<Rightarrow> if selected ps ''to'' then JString (ToLower (f_addr_String F a)) else JNull | _ \<Rightarrow> JNull)"
    unfolding at marshal_fields_lookup
    by (simp add: WithFields_select select_fields_def encode_fields_def addr_json_def addr_bytes_def split: eth_address.split)
  moreover have "MarshalJSON F ?w ''gasPrice'' = Some (case et_GasPrice et of
     Some p \<Rightarrow> if selected ps ''gas_price'' \<and> et_TxType et \<noteq> DynamicFeeTransactionType then big_json F (Some p) else JNull | None \<Rightarrow> JNull)"
    unfolding at marshal_fields_lookup by (simp add: WithFields_select select_fields_def encode_fields_def split: option.split)
  moreover have "MarshalJSON F ?w ''chainId'' =
     (if selected ps ''type'' \<and> et_TxType et = LegacyTransactionType then None
      else Some (big_json F (if selected ps ''chain_id'' then et_ChainID et else None)))"
    unfolding at marshal_fields_lookup by (simp add: WithFields_select select_fields_def encode_fields_def tx_type_defs)
  moreover have "MarshalJSON F ?w ''nonce'' =
     (if selected ps ''nonce'' \<and> et_Nonce et \<noteq> nilNonceValue then Some (u64_json F (et_Nonce et)) else None)"
    "MarshalJSON F ?w ''hash'' =
     (if selected ps ''tx_hash'' \<and> et_Hash et \<noteq> zero_hash then Some (hash_json (et_Hash et)) else None)"
    unfolding at marshal_fields_lookup
    by (simp_all add: WithFields_select select_fields_def encode_fields_def zero_hash_def)
  moreover have "MarshalJSON F ?w ''value'' = (if selected ps ''value'' then map_option (\<lambda>v. big_json F (Some v)) (et_Value et) else None)"
    "MarshalJSON F ?w ''maxFeePerGas'' = (if selected ps ''max_fee_per_gas'' \<and> et_TxType et = DynamicFeeTransactionType
      then map_option (\<lambda>v. big_json F (Some v)) (et_GasFeeCap et) else None)"
    unfolding at marshal_fields_lookup
    by (cases "et_Value et"; cases "et_GasFeeCap et"; simp add: WithFields_select select_fields_def encode_fields_def)+
  ultimately show ?thesis by blast
qed

section \<open>Filter values\<close>

text \<open>
  The map of \<open>Filters\<close> holds the value of every requested parameter, whatever the order; it panics only when
  the value of a transaction without value is asked for.
\<close>

lemma filter_case_returns: "(p = ''value'' \<longrightarrow> et_Value et \<noteq> None) \<Longrightarrow> \<exists>v. filter_case F et p = Inr v"
proof -
  assume "p = ''value'' \<longrightarrow> et_Value et \<noteq> None"
  then have "\<not> isl (filter_case F et p)"
    unfolding filter_case_def Let_def if_distrib [of isl] by (cases "et_Value et"; cases "p = ''value''"; simp)
  then show ?thesis by (cases "filter_case F et p") simp_all
qed

lemma Filters_loop_spec:
  "(''value'' \<in> set ps \<longrightarrow> et_Value et \<noteq> None) \<Longrightarrow>
     \<exists>m'. Filters_loop F et ps m = Inr m' \<and>
       (\<forall>p. m' p = (if p \<in> set ps \<and> filter_case F et p \<noteq> Inr None then (case filter_case F et p of Inr v \<Rightarrow> v | Inl x \<Rightarrow> None) else m p))"
proof (induction ps arbitrary: m)
  case Nil
  then show ?case by simp
next
  case (Cons p ps)
  have "\<exists>v. filter_case F et p = Inr v" using Cons.prems by (intro filter_case_returns) auto
  then obtain v where v: "filter_case F et p = Inr v" by blast
  from Cons.IH [of "case v of None \<Rightarrow> m | Some x \<Rightarrow> m(p \<mapsto> x)"] Cons.prems obtain m' where
    m': "Filters_loop F et ps (case v of None \<Rightarrow> m | Some x \<Rightarrow> m(p \<mapsto> x)) = Inr m'"
    "\<forall>q. m' q = (if q \<in> set ps \<and> filter_case F et q \<noteq> Inr None then (case filter_case F et q of Inr v \<Rightarrow> v | Inl x \<Rightarrow> None)
        else (case v of None \<Rightarrow> m | Some x \<Rightarrow> m(p \<mapsto> x)) q)" by auto
  then show ?case using v by (cases v) auto
qed

lemma filters_hold_requested:
  assumes "''value'' \<in> set ps \<longrightarrow> et_Value et \<noteq> None"
  shows "\<exists>m. Filters F et ps = Inr m \<and> (\<forall>p \<in> set ps. filter_case F et p = Inr (m p)) \<and> dom m \<subseteq> set ps"
proof -
  from Filters_loop_spec [OF assms, of F Map.empty] obtain m where m: "Filters F et ps = Inr m"
    "\<And>p. m p = (if p \<in> set ps \<and> filter_case F et p \<noteq> Inr None then (case filter_case F et p of Inr v \<Rightarrow> v | Inl x \<Rightarrow> None) else None)"
    by (auto simp: Filters_def)
  have "\<exists>v. filter_case F et p = Inr v" if "p \<in> set ps" for p
    using assms that by (intro filter_case_returns) auto
  then have "\<forall>p \<in> set ps. filter_case F et p = Inr (m p)" by (force simp: m(2))
  moreover have "dom m \<subseteq> set ps" by (auto simp: m(2) split: if_splits)
  ultimately show ?thesis using m(1) by blast
qed

end
