(* ===== verification/Text.thy ===== *)
theory Text
  imports Eth_Config
begin

text \<open>
  Text the program prints and file names it builds: decimal numbers (\<^verbatim>\<open>strconv\<close>, the verb \<^verbatim>\<open>%v\<close> of an
  integer), \<^verbatim>\<open>path.Join\<close>, and the places that use them (\<^verbatim>\<open>types/common.go\<close>, \<^verbatim>\<open>blockchain/eth/peer.go\<close>,
  \<^verbatim>\<open>connections\<close>).
\<close>

section \<open>Decimal numbers\<close>

fun digits :: "nat \<Rightarrow> string" where
  "digits n = (if n < 10 then [char_of (48 + n)] else digits (n div 10) @ [char_of (48 + n mod 10)])"

declare digits.simps [simp del]

definition strconv_Itoa :: "int \<Rightarrow> string" where
  "strconv_Itoa i = (if i < 0 then CHR ''-'' # digits (nat (- i)) else digits (nat i))"

text \<open>The number a sequence of digits stands for.\<close>

definition decimal :: "string \<Rightarrow> nat" where
  "decimal s = foldl (\<lambda>v c. 10 * v + (of_char c - 48)) 0 s"

lemma decimal_snoc: "decimal (s @ [c]) = 10 * decimal s + (of_char c - 48)"
  by (simp add: decimal_def)

lemma decimal_digits: "decimal (digits n) = n"
proof (induction n rule: digits.induct)
  case (1 n)
  show ?case
  proof (cases "n < 10")
    case True
    then show ?thesis by (simp add: digits.simps [of n] decimal_def of_char_of)
  next
    case False
    with 1 show ?thesis by (simp add: digits.simps [of n] decimal_snoc of_char_of)
  qed
qed

lemma digits_inj [simp]: "digits m = digits n \<longleftrightarrow> m = n"
  by (metis decimal_digits)

lemma digits_set: "set (digits n) \<subseteq> char_of ` {48 :: nat..57}"
proof (induction n rule: digits.induct)
  case (1 n)
  show ?case
  proof (cases "n < 10")
    case True
    then show ?thesis by (auto simp: digits.simps [of n])
  next
    case False
    then have "48 + n mod 10 \<in> {48..57}" by simp
    with 1 [OF False] False show ?thesis by (auto simp: digits.simps [of n])
  qed
qed

lemma of_char_digit: "c \<in> set (digits n) \<Longrightarrow> (of_char c :: nat) \<in> {48..57}"
  using digits_set [of n] by (auto simp: of_char_of)

lemma minus_not_digit: "CHR ''-'' \<notin> set (digits n)"
  using of_char_digit [of "CHR ''-''" n] by auto

lemma strconv_Itoa_inj [simp]: "strconv_Itoa i = strconv_Itoa j \<longleftrightarrow> i = j"
  using minus_not_digit by (auto simp: strconv_Itoa_def split: if_splits) (metis list.set_intros(1))+

text \<open>
  The keys of the queues of responses, which the model of a peer has as numbers: different requests have
  different keys.
\<close>

definition convertRequestIDKey :: "u64 \<Rightarrow> string" where
  "convertRequestIDKey requestID = digits (unat requestID)"

lemma convertRequestIDKey_inj: "inj convertRequestIDKey"
  by (rule injI) (simp add: convertRequestIDKey_def word_unat_eq_iff)

section \<open>Addresses\<close>

definition endpoint_String :: "node_endpoint \<Rightarrow> string" where
  "endpoint_String e = ep_IP e @ '' '' @ strconv_Itoa (ep_Port e) @ '' '' @ ep_PublicKey e"

definition IPPort :: "node_endpoint \<Rightarrow> string" where
  "IPPort e = ep_IP e @ '' '' @ strconv_Itoa (ep_Port e)"

definition blockchain_conn_String :: "node_endpoint \<Rightarrow> string" where
  "blockchain_conn_String e = ''Blockchain '' @ endpoint_String e"

text \<open>
  A TLS connection is printed as the address it dials until it has a socket, then as the remote address, which may
  panic.
\<close>

definition ssl_String :: "('k \<Rightarrow> string go) \<Rightarrow> ('k, 'm) ssl_conn \<Rightarrow> string go" where
  "ssl_String RemoteAddr s =
     (case c_Socket s of None \<Rightarrow> Inr (c_ip s @ '':'' @ strconv_Itoa (c_port s)) | Some k \<Rightarrow> RemoteAddr k)"

lemma prefix_without_unique:
  "x \<notin> set a \<Longrightarrow> x \<notin> set b \<Longrightarrow> a @ x # s = b @ x # t \<longleftrightarrow> a = b \<and> s = t"
proof (induction a arbitrary: b)
  case Nil
  then show ?case by (cases b) auto
next
  case (Cons y a)
  then show ?case by (cases b) auto
qed

text \<open>IP addresses have no spaces, so endpoints with the same address and port print differently only by their key.\<close>

lemma IPPort_inj:
  assumes "CHR '' '' \<notin> set (ep_IP e)" "CHR '' '' \<notin> set (ep_IP e')"
  shows "IPPort e = IPPort e' \<longleftrightarrow> ep_IP e = ep_IP e' \<and> ep_Port e = ep_Port e'"
  using prefix_without_unique [OF assms] by (simp add: IPPort_def)

section \<open>Paths\<close>

text \<open>\<open>path.Clean\<close>: the elements that remain, the last one first.\<close>

fun clean_elems :: "bool \<Rightarrow> string list \<Rightarrow> string list \<Rightarrow> string list" where
  "clean_elems rooted [] out = out"
| "clean_elems rooted (e # es) out =
     (if e = [] \<or> e = ''.'' then clean_elems rooted es out
      else if e = ''..''
      then (case out of
              [] \<Rightarrow> clean_elems rooted es (if rooted then [] else [''..''])
            | o1 # out1 \<Rightarrow> clean_elems rooted es (if o1 = ''..'' then ''..'' # out else out1))
      else clean_elems rooted es (e # out))"

fun strings_Join :: "string list \<Rightarrow> string \<Rightarrow> string" where
  "strings_Join [] sep = []"
| "strings_Join [s] sep = s"
| "strings_Join (s # t # ss) sep = s @ sep @ strings_Join (t # ss) sep"

definition path_Clean :: "string \<Rightarrow> string" where
  "path_Clean p =
     (if p = [] then ''.''
      else (let rooted = (hd p = CHR ''/'');
                s = strings_Join (rev (clean_elems rooted (strings_Split p CHR ''/'') [])) ''/''
            in if rooted then ''/'' @ s else if s = [] then ''.'' else s))"

definition path_Join :: "string list \<Rightarrow> string" where
  "path_Join elems =
     (let es = filter (\<lambda>e. e \<noteq> []) elems in if es = [] then [] else path_Clean (strings_Join es ''/''))"

lemma path_Join_examples:
  "path_Join [''datadir'', ''gateway'', ''private''] = ''datadir/gateway/private''"
  "path_Join ['''', ''.gatewaykey''] = ''.gatewaykey''"
  "path_Join [''/a//b'', ''../c'', ''.''] = ''/a/c''"
  "path_Join [''a'', ''../../b''] = ''../b''"
  by code_simp+

end
