(* ===== verification/Logger.thy ===== *)
theory Logger
  imports Text Bridge "HOL-Library.Sublist"
begin

text \<open>
  The logger of \<^verbatim>\<open>logger/\<close>: the levels and the hooks that send lines to the console and to a file
  (\<^verbatim>\<open>log.go\<close>), and the channel of lines with the goroutine that writes them (\<^verbatim>\<open>nonblocking.go\<close>), with the
  functions in front of it (\<^verbatim>\<open>exported.go\<close>, \<^verbatim>\<open>entry.go\<close>). Formatting a line and the file itself are
  logrus's and lumberjack's; logrus hands a line whose level is enabled to every hook for that level.
\<close>

section \<open>Levels and hooks\<close>

type_synonym level = u32

definition PanicLevel :: level where "PanicLevel = 0"
definition FatalLevel :: level where "FatalLevel = 1"
definition ErrorLevel :: level where "ErrorLevel = 2"
definition WarnLevel :: level where "WarnLevel = 3"
definition InfoLevel :: level where "InfoLevel = 4"
definition DebugLevel :: level where "DebugLevel = 5"
definition TraceLevel :: level where "TraceLevel = 6"

lemmas level_defs = PanicLevel_def FatalLevel_def ErrorLevel_def WarnLevel_def InfoLevel_def DebugLevel_def TraceLevel_def

definition AllLevels :: "level list" where
  "AllLevels = [PanicLevel, FatalLevel, ErrorLevel, WarnLevel, InfoLevel, DebugLevel, TraceLevel]"

text \<open>\<open>xs[lo:hi]\<close> of a slice whose capacity is its length.\<close>

definition reslice :: "'a list \<Rightarrow> nat \<Rightarrow> nat \<Rightarrow> 'a list go" where
  "reslice xs lo hi = (if lo \<le> hi \<and> hi \<le> length xs then Inr (take (hi - lo) (drop lo xs)) else Inl SliceBounds)"

datatype log_sink = Stdout | Stderr | LogFile string

record writer_hook =
  wh_writer :: log_sink
  wh_logLevels :: "level list"

definition stdoutWriter :: "level \<Rightarrow> writer_hook go" where
  "stdoutWriter level =
     gbind (if InfoLevel \<le> level then reslice AllLevels (unat InfoLevel) (unat (level + 1)) else Inr []) (\<lambda>levels.
       Inr \<lparr>wh_writer = Stdout, wh_logLevels = levels\<rparr>)"

definition stderrWriter :: "level \<Rightarrow> writer_hook go" where
  "stderrWriter level =
     (let level1 = (if InfoLevel \<le> level then WarnLevel else level)
      in gbind (reslice AllLevels 0 (unat (level1 + 1))) (\<lambda>levels. Inr \<lparr>wh_writer = Stderr, wh_logLevels = levels\<rparr>))"

text \<open>\<open>Fire\<close>: the formatted entry goes to the writer; \<open>writeErr\<close> is what the writer reports.\<close>

definition hook_Fire :: "writer_hook \<Rightarrow> string + string \<Rightarrow> string option \<Rightarrow> (log_sink \<times> string) list \<times> string option" where
  "hook_Fire hook entryBytes writeErr =
     (case entryBytes of Inl err \<Rightarrow> ([], Some err) | Inr line \<Rightarrow> ([(wh_writer hook, line)], writeErr))"

section \<open>Setting up\<close>

record log_config =
  lc_AppName :: string
  lc_FileName :: string
  lc_FileLevel :: level
  lc_ConsoleLevel :: level
  lc_MaxSize :: int
  lc_MaxBackups :: int
  lc_MaxAge :: int

record log_file =
  lf_Filename :: string
  lf_MaxSize :: int
  lf_MaxBackups :: int
  lf_MaxAge :: int
  lf_Compress :: bool
  lf_LocalTime :: bool

record text_formatter =
  tf_TimestampFormat :: string
  tf_FullTimestamp :: bool
  tf_DisableColors :: bool

text \<open>A logrus logger: its level, its own output (none after \<open>SetOutput(ioutil.Discard)\<close>), hooks and formatter.\<close>

record std_logger =
  sl_level :: level
  sl_discards :: bool
  sl_hooks :: "writer_hook list"
  sl_formatter :: text_formatter

text \<open>\<open>NewHook\<close> is lumberjackrus's: a hook on a file for a level, or an error.\<close>

definition createLogFileHook ::
  "(log_file \<Rightarrow> level \<Rightarrow> string + writer_hook) \<Rightarrow> string \<Rightarrow> int \<Rightarrow> int \<Rightarrow> int \<Rightarrow> level \<Rightarrow> (string + writer_hook) \<times> text_formatter" where
  "createLogFileHook NewHook fileName maxSize maxBackups maxAge logFileLevel =
     (NewHook \<lparr>lf_Filename = fileName, lf_MaxSize = maxSize, lf_MaxBackups = maxBackups, lf_MaxAge = maxAge,
        lf_Compress = False, lf_LocalTime = False\<rparr> logFileLevel,
      \<lparr>tf_TimestampFormat = ''2006-01-02T15:04:05.000000'', tf_FullTimestamp = True, tf_DisableColors = True\<rparr>)"

text \<open>The value of \<open>log_Init\<close> is the logger with the error that is returned; two lines are logged at the end.\<close>

definition log_Init ::
  "(log_file \<Rightarrow> level \<Rightarrow> string + writer_hook) \<Rightarrow> log_config \<Rightarrow> std_logger \<Rightarrow> (std_logger \<times> string option) go" where
  "log_Init NewHook cfg std =
     (case createLogFileHook NewHook (lc_FileName cfg) (lc_MaxSize cfg) (lc_MaxBackups cfg) (lc_MaxAge cfg) (lc_FileLevel cfg) of
        (Inl err, formatter) \<Rightarrow> Inr (std, Some err)
      | (Inr fileHook, formatter) \<Rightarrow>
          gbind (stdoutWriter (lc_ConsoleLevel cfg)) (\<lambda>outHook.
          gbind (stderrWriter (lc_ConsoleLevel cfg)) (\<lambda>errHook.
            Inr (std\<lparr>sl_formatter := formatter, sl_level := TraceLevel, sl_discards := True,
                   sl_hooks := sl_hooks std @ [outHook, errHook, fileHook]\<rparr>, None))))"

definition CreateCustomLogger ::
  "(log_file \<Rightarrow> level \<Rightarrow> string + writer_hook) \<Rightarrow> std_logger \<Rightarrow> string \<Rightarrow> int \<Rightarrow> string \<Rightarrow> int \<Rightarrow> int \<Rightarrow> int \<Rightarrow> level \<Rightarrow> string + std_logger" where
  "CreateCustomLogger NewHook logrus_New appName port fileName maxSize maxBackups maxAge logFileLevel =
     (case createLogFileHook NewHook (''logs/'' @ fileName @ ''-'' @ appName @ ''-'' @ strconv_Itoa port @ ''.log'')
            maxSize maxBackups maxAge logFileLevel of
        (Inl err, formatter) \<Rightarrow> Inl err
      | (Inr fileHook, formatter) \<Rightarrow>
          Inr (logrus_New\<lparr>sl_formatter := formatter, sl_level := logFileLevel, sl_discards := True,
                 sl_hooks := sl_hooks logrus_New @ [fileHook]\<rparr>))"

definition IsLevelEnabled :: "level \<Rightarrow> level \<Rightarrow> bool" where
  "IsLevelEnabled current level \<longleftrightarrow> level \<le> current"

text \<open>Where a line of a level ends up: the writers of the hooks for its level, if it is enabled.\<close>

definition sinks_of :: "std_logger \<Rightarrow> level \<Rightarrow> log_sink list" where
  "sinks_of std level =
     (if IsLevelEnabled (sl_level std) level
      then map wh_writer (filter (\<lambda>h. level \<in> set (wh_logLevels h)) (sl_hooks std)) else [])"

subsection \<open>What goes where\<close>

lemma level_cases:
  assumes "(l :: level) \<le> TraceLevel"
  obtains "l = PanicLevel" | "l = FatalLevel" | "l = ErrorLevel" | "l = WarnLevel" | "l = InfoLevel" | "l = DebugLevel" | "l = TraceLevel"
proof -
  have "unat l \<le> 6" using assms by (simp add: word_le_nat_alt TraceLevel_def)
  then consider "unat l = 0" | "unat l = 1" | "unat l = 2" | "unat l = 3" | "unat l = 4" | "unat l = 5" | "unat l = 6" by linarith
  then show ?thesis
    using that by cases (simp_all add: level_defs word_unat_eq_iff)
qed

lemma stdoutWriter_levels:
  assumes "level \<le> TraceLevel"
  shows "\<exists>ls. stdoutWriter level = Inr \<lparr>wh_writer = Stdout, wh_logLevels = ls\<rparr> \<and> set ls = {l. InfoLevel \<le> l \<and> l \<le> level}"
proof -
  have "\<exists>ls. stdoutWriter level = Inr \<lparr>wh_writer = Stdout, wh_logLevels = ls\<rparr> \<and>
      ls = filter (\<lambda>l. InfoLevel \<le> l \<and> l \<le> level) AllLevels"
    using assms by (rule level_cases)
      (simp_all add: stdoutWriter_def reslice_def AllLevels_def level_defs word_le_nat_alt)
  moreover have "l \<in> set AllLevels" if "l \<le> TraceLevel" for l
    using that by (rule level_cases) (simp_all add: AllLevels_def)
  ultimately show ?thesis using assms by (auto intro: order_trans)
qed

lemma stderrWriter_levels:
  assumes "level \<le> TraceLevel"
  shows "\<exists>ls. stderrWriter level = Inr \<lparr>wh_writer = Stderr, wh_logLevels = ls\<rparr> \<and> set ls = {l. l \<le> level \<and> l \<le> WarnLevel}"
proof -
  have "\<exists>ls. stderrWriter level = Inr \<lparr>wh_writer = Stderr, wh_logLevels = ls\<rparr> \<and>
      ls = filter (\<lambda>l. l \<le> level \<and> l \<le> WarnLevel) AllLevels"
    using assms by (rule level_cases)
      (simp_all add: stderrWriter_def reslice_def AllLevels_def level_defs word_le_nat_alt)
  moreover have "l \<in> set AllLevels" if "l \<le> TraceLevel" for l
    using that by (rule level_cases) (simp_all add: AllLevels_def)
  ultimately show ?thesis using assms by (auto intro: order_trans)
qed

text \<open>
  After the set-up a line goes to standard output exactly when it is informational or more verbose and
  within the level of the console, to standard error exactly when it is a warning or worse and within the
  level, never to both, and to the file when the file's hook has its level; no line within the
  level of the console gets lost.
\<close>

lemma init_routes_lines:
  assumes "lc_ConsoleLevel cfg \<le> TraceLevel" "sl_hooks std = []"
    and "NewHook \<lparr>lf_Filename = lc_FileName cfg, lf_MaxSize = lc_MaxSize cfg, lf_MaxBackups = lc_MaxBackups cfg,
      lf_MaxAge = lc_MaxAge cfg, lf_Compress = False, lf_LocalTime = False\<rparr> (lc_FileLevel cfg) = Inr fileHook"
  shows "\<exists>std'. log_Init NewHook cfg std = Inr (std', None) \<and> sl_discards std' \<and>
    (\<forall>l \<le> TraceLevel. sinks_of std' l =
       (if l \<le> lc_ConsoleLevel cfg then [if InfoLevel \<le> l then Stdout else Stderr] else []) @
       (if l \<in> set (wh_logLevels fileHook) then [wh_writer fileHook] else []))"
proof -
  obtain os es where w: "stdoutWriter (lc_ConsoleLevel cfg) = Inr \<lparr>wh_writer = Stdout, wh_logLevels = os\<rparr>"
    "set os = {l. InfoLevel \<le> l \<and> l \<le> lc_ConsoleLevel cfg}"
    "stderrWriter (lc_ConsoleLevel cfg) = Inr \<lparr>wh_writer = Stderr, wh_logLevels = es\<rparr>"
    "set es = {l. l \<le> lc_ConsoleLevel cfg \<and> l \<le> WarnLevel}"
    using stdoutWriter_levels [OF assms(1)] stderrWriter_levels [OF assms(1)] by blast
  have "l \<le> WarnLevel \<longleftrightarrow> \<not> InfoLevel \<le> l" if "l \<le> TraceLevel" for l
    using that by (rule level_cases) (simp_all add: level_defs word_le_nat_alt)
  with w assms(2,3) show ?thesis
    by (auto simp: log_Init_def createLogFileHook_def sinks_of_def IsLevelEnabled_def)
qed

definition ex_log_config :: log_config where
  "ex_log_config = \<lparr>lc_AppName = ''gateway'', lc_FileName = ''logs/gateway-1809.log'', lc_FileLevel = InfoLevel,
     lc_ConsoleLevel = InfoLevel, lc_MaxSize = 100, lc_MaxBackups = 10, lc_MaxAge = 10\<rparr>"

definition ex_std_logger :: std_logger where
  "ex_std_logger = \<lparr>sl_level = InfoLevel, sl_discards = False, sl_hooks = [],
     sl_formatter = \<lparr>tf_TimestampFormat = [], tf_FullTimestamp = False, tf_DisableColors = False\<rparr>\<rparr>"

text \<open>A hook on the file for the levels up to a given one.\<close>

definition ex_NewHook :: "log_file \<Rightarrow> level \<Rightarrow> string + writer_hook" where
  "ex_NewHook f level = Inr \<lparr>wh_writer = LogFile (lf_Filename f), wh_logLevels = filter (\<lambda>l. l \<le> level) AllLevels\<rparr>"

lemma init_routes_lines_example:
  "\<exists>std'. log_Init ex_NewHook ex_log_config ex_std_logger = Inr (std', None) \<and>
     sinks_of std' WarnLevel = [Stderr, LogFile ''logs/gateway-1809.log''] \<and>
     sinks_of std' InfoLevel = [Stdout, LogFile ''logs/gateway-1809.log''] \<and> sinks_of std' DebugLevel = []"
proof -
  let ?h = "\<lparr>wh_writer = LogFile ''logs/gateway-1809.log'', wh_logLevels = filter (\<lambda>l. l \<le> InfoLevel) AllLevels\<rparr>"
  have le: "lc_ConsoleLevel ex_log_config \<le> TraceLevel" "sl_hooks ex_std_logger = []"
    by (simp_all add: ex_log_config_def ex_std_logger_def level_defs)
  obtain std' where std': "log_Init ex_NewHook ex_log_config ex_std_logger = Inr (std', None)"
    "\<forall>l \<le> TraceLevel. sinks_of std' l = (if l \<le> InfoLevel then [if InfoLevel \<le> l then Stdout else Stderr] else []) @
       (if l \<in> set (wh_logLevels ?h) then [LogFile ''logs/gateway-1809.log''] else [])"
    using init_routes_lines [OF le, of ex_NewHook ?h] by (auto simp: ex_NewHook_def ex_log_config_def)
  have "WarnLevel \<le> TraceLevel" "InfoLevel \<le> TraceLevel" "DebugLevel \<le> TraceLevel" by (simp_all add: level_defs)
  with std'(2) have "sinks_of std' WarnLevel = [Stderr, LogFile ''logs/gateway-1809.log'']"
    "sinks_of std' InfoLevel = [Stdout, LogFile ''logs/gateway-1809.log'']" "sinks_of std' DebugLevel = []"
    by (simp_all add: AllLevels_def level_defs word_le_nat_alt)
  with std'(1) show ?thesis by blast
qed


section \<open>The channel of lines\<close>

text \<open>
  A line with the fields of its entry (of type \<^typ>\<open>'f\<close>). The state of the logger: the channel, the flag
  \<open>avoidChannel\<close>, whether the context was cancelled, where the writing goroutine stands, the level of the
  standard logger, the lines handed to its hooks, and the lines of callers that have read the flag as
  false and not yet sent to the channel.
\<close>

record 'f log_line =
  ln_data :: "'f option"
  ln_msg :: string
  ln_level :: level
  ln_time :: instant

datatype writer_phase = Selecting | Draining | Returned

primrec phase_rank :: "writer_phase \<Rightarrow> nat" where
  "phase_rank Selecting = 0"
| "phase_rank Draining = 1"
| "phase_rank Returned = 2"

instantiation writer_phase :: linorder
begin

definition less_eq_writer_phase :: "writer_phase \<Rightarrow> writer_phase \<Rightarrow> bool" where
  "less_eq_writer_phase p q \<longleftrightarrow> phase_rank p \<le> phase_rank q"

definition less_writer_phase :: "writer_phase \<Rightarrow> writer_phase \<Rightarrow> bool" where
  "less_writer_phase p q \<longleftrightarrow> phase_rank p < phase_rank q"

instance
proof
  fix p q :: writer_phase
  show "p = q" if "p \<le> q" "q \<le> p"
    using that by (cases p; cases q) (simp_all add: less_eq_writer_phase_def)
qed (auto simp: less_eq_writer_phase_def less_writer_phase_def)

end

record 'f nb_logger =
  nb_lines :: "'f log_line chan"
  nb_avoidChannel :: bool
  nb_cancelled :: bool
  nb_writer :: writer_phase
  nb_level :: level
  nb_output :: "'f log_line list"
  nb_pending :: "'f log_line list"

definition backLog :: nat where "backLog = 100000"

definition newNonBlockingLogger :: "level \<Rightarrow> 'f nb_logger" where
  "newNonBlockingLogger level = \<lparr>nb_lines = make_chan backLog, nb_avoidChannel = False, nb_cancelled = False,
     nb_writer = Selecting, nb_level = level, nb_output = [], nb_pending = []\<rparr>"

text \<open>\<open>panics\<close> tells for which levels logrus panics after it has logged.\<close>

definition logOneLine :: "(level \<Rightarrow> bool) \<Rightarrow> 'f nb_logger \<Rightarrow> 'f log_line \<Rightarrow> 'f nb_logger go" where
  "logOneLine panics s oneline =
     (if \<not> IsLevelEnabled (nb_level s) (ln_level oneline) then Inr s
      else if panics (ln_level oneline) then Inl (ExplicitPanic (ln_msg oneline))
      else Inr (s\<lparr>nb_output := nb_output s @ [oneline]\<rparr>))"

definition unable_line :: "instant \<Rightarrow> 'f log_line" where
  "unable_line now = \<lparr>ln_data = None, ln_msg = ''Unable to use FastLogger properly'', ln_level = ErrorLevel, ln_time = now\<rparr>"

text \<open>
  \<open>Logf\<close> without an interruption; \<open>msg\<close> is the formatted text, \<open>now\<close> and \<open>later\<close> are the clock when the line is
  made and when the channel was found full. \<open>Log\<close> differs in the formatting only.
\<close>

definition nb_Logf ::
  "(level \<Rightarrow> bool) \<Rightarrow> 'f nb_logger \<Rightarrow> level \<Rightarrow> 'f option \<Rightarrow> string \<Rightarrow> instant \<Rightarrow> instant \<Rightarrow> 'f nb_logger go" where
  "nb_Logf panics l level lfields msg now later =
     (if \<not> IsLevelEnabled (nb_level l) level then Inr l
      else (let oneLine = \<lparr>ln_data = lfields, ln_msg = msg, ln_level = level, ln_time = now\<rparr>
            in if nb_avoidChannel l then logOneLine panics l oneLine
               else (case try_send (nb_lines l) oneLine of
                       Some c \<Rightarrow> Inr (l\<lparr>nb_lines := c\<rparr>)
                     | None \<Rightarrow> logOneLine panics l (unable_line later))))"

definition nb_Log ::
  "(level \<Rightarrow> bool) \<Rightarrow> 'f nb_logger \<Rightarrow> level \<Rightarrow> 'f option \<Rightarrow> string \<Rightarrow> instant \<Rightarrow> instant \<Rightarrow> 'f nb_logger go" where
  "nb_Log panics l level lfields sprint now later = nb_Logf panics l level lfields sprint now later"

definition AvoidChannel :: "'f nb_logger \<Rightarrow> 'f nb_logger" where
  "AvoidChannel l = l\<lparr>nb_avoidChannel := True\<rparr>"

subsection \<open>The functions in front\<close>

text \<open>What an exported function does: log through the channel, log directly, or flush first and log directly.\<close>

datatype log_path = ThroughChannel level | DirectLog level | FlushThenLog level

datatype log_function = Fn_Tracef | Fn_Debugf | Fn_Printf | Fn_Infof | Fn_Warnf | Fn_Warningf | Fn_Errorf | Fn_Panicf
  | Fn_Fatalf | Fn_Trace | Fn_Debug | Fn_Info | Fn_Warn | Fn_Error | Fn_Panic | Fn_Fatal

fun log_function_path :: "log_function \<Rightarrow> log_path" where
  "log_function_path Fn_Tracef = ThroughChannel TraceLevel"
| "log_function_path Fn_Debugf = ThroughChannel DebugLevel"
| "log_function_path Fn_Printf = DirectLog InfoLevel"
| "log_function_path Fn_Infof = ThroughChannel InfoLevel"
| "log_function_path Fn_Warnf = ThroughChannel WarnLevel"
| "log_function_path Fn_Warningf = ThroughChannel WarnLevel"
| "log_function_path Fn_Errorf = ThroughChannel ErrorLevel"
| "log_function_path Fn_Panicf = ThroughChannel PanicLevel"
| "log_function_path Fn_Fatalf = ThroughChannel FatalLevel"
| "log_function_path Fn_Trace = ThroughChannel TraceLevel"
| "log_function_path Fn_Debug = ThroughChannel DebugLevel"
| "log_function_path Fn_Info = ThroughChannel InfoLevel"
| "log_function_path Fn_Warn = ThroughChannel WarnLevel"
| "log_function_path Fn_Error = ThroughChannel ErrorLevel"
| "log_function_path Fn_Panic = FlushThenLog PanicLevel"
| "log_function_path Fn_Fatal = FlushThenLog FatalLevel"

text \<open>An entry holds fields; its methods check the level, then log its fields through the channel.\<close>

definition entry_Logf ::
  "(level \<Rightarrow> bool) \<Rightarrow> 'f nb_logger \<Rightarrow> 'f \<Rightarrow> level \<Rightarrow> string \<Rightarrow> instant \<Rightarrow> instant \<Rightarrow> 'f nb_logger go" where
  "entry_Logf panics l entryData level msg now later =
     (if \<not> IsLevelEnabled (nb_level l) level then Inr l else nb_Logf panics l level (Some entryData) msg now later)"

definition entry_Log ::
  "(level \<Rightarrow> bool) \<Rightarrow> 'f nb_logger \<Rightarrow> 'f \<Rightarrow> level \<Rightarrow> string \<Rightarrow> instant \<Rightarrow> instant \<Rightarrow> 'f nb_logger go" where
  "entry_Log panics l entryData level sprint now later =
     (if \<not> IsLevelEnabled (nb_level l) level then Inr l else nb_Log panics l level (Some entryData) sprint now later)"

datatype entry_method = En_Tracef | En_Debugf | En_Infof | En_Warnf | En_Warningf | En_Errorf | En_Panicf | En_Trace | En_Debug | En_Error

fun entry_method_level :: "entry_method \<Rightarrow> level" where
  "entry_method_level En_Tracef = TraceLevel"
| "entry_method_level En_Debugf = DebugLevel"
| "entry_method_level En_Infof = InfoLevel"
| "entry_method_level En_Warnf = WarnLevel"
| "entry_method_level En_Warningf = WarnLevel"
| "entry_method_level En_Errorf = ErrorLevel"
| "entry_method_level En_Panicf = PanicLevel"
| "entry_method_level En_Trace = TraceLevel"
| "entry_method_level En_Debug = DebugLevel"
| "entry_method_level En_Error = ErrorLevel"

lemma entry_Logf_eq: "entry_Logf panics l d level msg now later = nb_Logf panics l level (Some d) msg now later"
  by (simp add: entry_Logf_def nb_Logf_def)

subsection \<open>Interleaved steps\<close>

text \<open>
  The steps of the callers, of the goroutine, and of \<open>Exit\<close> (which avoids the channel, cancels the context
  and waits until the goroutine has returned). A caller that finds the flag unset sends in a step of its own;
  the goroutine may take either case of its select when both are ready. Nobody closes the channel. A step
  that panics ends the program and is not a step of the relation.
\<close>

datatype 'f nb_act = Called "'f log_line" | Direct "'f log_line" | Accepted "'f log_line" | Refused "'f log_line" instant
  | Taken "'f log_line" | DrainStarts | WriterReturns | Avoids | Cancels | LevelSet level

inductive nb_step :: "(level \<Rightarrow> bool) \<Rightarrow> 'f nb_logger \<Rightarrow> 'f nb_act \<Rightarrow> 'f nb_logger \<Rightarrow> bool" for panics where
  called: "IsLevelEnabled (nb_level s) (ln_level l) \<Longrightarrow> \<not> nb_avoidChannel s \<Longrightarrow>
    nb_step panics s (Called l) (s\<lparr>nb_pending := l # nb_pending s\<rparr>)"
| direct: "IsLevelEnabled (nb_level s) (ln_level l) \<Longrightarrow> nb_avoidChannel s \<Longrightarrow> logOneLine panics s l = Inr s' \<Longrightarrow>
    nb_step panics s (Direct l) s'"
| accepted: "l \<in> set (nb_pending s) \<Longrightarrow> try_send (nb_lines s) l = Some c \<Longrightarrow>
    nb_step panics s (Accepted l) (s\<lparr>nb_lines := c, nb_pending := remove1 l (nb_pending s)\<rparr>)"
| refused: "l \<in> set (nb_pending s) \<Longrightarrow> try_send (nb_lines s) l = None \<Longrightarrow>
    logOneLine panics (s\<lparr>nb_pending := remove1 l (nb_pending s)\<rparr>) (unable_line now) = Inr s' \<Longrightarrow>
    nb_step panics s (Refused l now) s'"
| taken: "nb_writer s \<noteq> Returned \<Longrightarrow> ch_recv (nb_lines s) = Some (l, c) \<Longrightarrow> logOneLine panics (s\<lparr>nb_lines := c\<rparr>) l = Inr s' \<Longrightarrow>
    nb_step panics s (Taken l) s'"
| drain_starts: "nb_writer s = Selecting \<Longrightarrow> nb_cancelled s \<Longrightarrow> nb_step panics s DrainStarts (s\<lparr>nb_writer := Draining\<rparr>)"
| returns: "nb_writer s = Draining \<Longrightarrow> ch_recv (nb_lines s) = None \<Longrightarrow>
    nb_step panics s WriterReturns (s\<lparr>nb_writer := Returned\<rparr>)"
| avoids: "nb_step panics s Avoids (AvoidChannel s)"
| cancels: "nb_step panics s Cancels (s\<lparr>nb_cancelled := True\<rparr>)"
| level_set: "nb_step panics s (LevelSet level) (s\<lparr>nb_level := level\<rparr>)"

inductive_cases nb_stepE [elim]: "nb_step panics s a s'"

inductive_simps nb_step_simps:
  "nb_step panics s (Called l) s'" "nb_step panics s (Accepted l) s'" "nb_step panics s (Taken l) s'"
  "nb_step panics s DrainStarts s'" "nb_step panics s WriterReturns s'" "nb_step panics s Avoids s'" "nb_step panics s Cancels s'"

inductive nb_run :: "(level \<Rightarrow> bool) \<Rightarrow> 'f nb_logger \<Rightarrow> 'f nb_act list \<Rightarrow> 'f nb_logger \<Rightarrow> bool" for panics where
  start: "nb_run panics s [] s"
| step: "nb_run panics s as t \<Longrightarrow> nb_step panics t a u \<Longrightarrow> nb_run panics s (as @ [a]) u"

lemma nb_run_append: "nb_run panics t bs u \<Longrightarrow> nb_run panics s as t \<Longrightarrow> nb_run panics s (as @ bs) u"
  by (induction rule: nb_run.induct) (auto simp flip: append_assoc intro: nb_run.intros)

lemma nb_run_Cons: "nb_step panics s a t \<Longrightarrow> nb_run panics t as u \<Longrightarrow> nb_run panics s (a # as) u"
  using nb_run_append [of panics t as u s "[a]"] nb_run.step [OF nb_run.start] by fastforce

lemma nb_run_Nil: "nb_run panics s [] t \<longleftrightarrow> s = t"
  by (auto intro: nb_run.start elim: nb_run.cases)

lemma nb_run_snoc: "nb_run panics s (as @ [a]) u \<longleftrightarrow> (\<exists>t. nb_run panics s as t \<and> nb_step panics t a u)"
  by (auto intro: nb_run.step elim: nb_run.cases)

lemma nb_run_split: "nb_run panics s (as @ bs) u \<longleftrightarrow> (\<exists>t. nb_run panics s as t \<and> nb_run panics t bs u)"
proof (induction bs arbitrary: u rule: rev_induct)
  case Nil
  then show ?case by (simp add: nb_run_Nil)
next
  case (snoc b bs)
  then show ?case by (simp add: nb_run_snoc flip: append_assoc) blast
qed

text \<open>A call without interruption is a sequence of these steps.\<close>

lemma nb_Logf_steps:
  assumes "nb_Logf panics s level lfields msg now later = Inr s'"
  shows "\<exists>as. nb_run panics s as s'"
proof -
  let ?l = "\<lparr>ln_data = lfields, ln_msg = msg, ln_level = level, ln_time = now\<rparr>"
  let ?t = "s\<lparr>nb_pending := ?l # nb_pending s\<rparr>"
  consider (off) "\<not> IsLevelEnabled (nb_level s) level" | (direct) "IsLevelEnabled (nb_level s) level" "nb_avoidChannel s"
    | (chan) "IsLevelEnabled (nb_level s) level" "\<not> nb_avoidChannel s" by blast
  then show ?thesis
  proof cases
    case off
    with assms show ?thesis by (auto simp: nb_Logf_def intro: nb_run.start)
  next
    case direct
    with assms have "nb_step panics s (Direct ?l) s'" by (auto simp: nb_Logf_def intro: nb_step.direct)
    then show ?thesis using nb_run_Cons nb_run.start by blast
  next
    case chan
    then have c: "nb_step panics s (Called ?l) ?t" by (intro nb_step.called) simp_all
    have "\<exists>a. nb_step panics ?t a s'"
    proof (cases "try_send (nb_lines s) ?l")
      case None
      then have "nb_step panics ?t (Refused ?l later) s'"
        using assms chan by (intro nb_step.refused) (simp_all add: nb_Logf_def logOneLine_def split: if_splits)
      then show ?thesis ..
    next
      case (Some c)
      then have "nb_step panics ?t (Accepted ?l) s'"
        using assms chan nb_step.accepted [of ?l ?t c panics] by (simp add: nb_Logf_def)
      then show ?thesis ..
    qed
    with c show ?thesis using nb_run_Cons nb_run.start by blast
  qed
qed

subsection \<open>What is written\<close>

text \<open>The lines accepted by the channel and taken from it, in order.\<close>

definition accepted_lines :: "'f nb_act list \<Rightarrow> 'f log_line list" where
  "accepted_lines as = concat (map (\<lambda>a. case a of Accepted l \<Rightarrow> [l] | _ \<Rightarrow> []) as)"

definition taken_lines :: "'f nb_act list \<Rightarrow> 'f log_line list" where
  "taken_lines as = concat (map (\<lambda>a. case a of Taken l \<Rightarrow> [l] | _ \<Rightarrow> []) as)"

lemma act_lines_simps [simp]:
  "accepted_lines [] = []" "taken_lines [] = []"
  "accepted_lines (as @ bs) = accepted_lines as @ accepted_lines bs"
  "taken_lines (as @ bs) = taken_lines as @ taken_lines bs"
  "accepted_lines (a # as) = (case a of Accepted l \<Rightarrow> [l] | _ \<Rightarrow> []) @ accepted_lines as"
  "taken_lines (a # as) = (case a of Taken l \<Rightarrow> [l] | _ \<Rightarrow> []) @ taken_lines as"
  by (simp_all add: accepted_lines_def taken_lines_def)

lemma logOneLine_frame:
  "logOneLine panics s l = Inr s' \<Longrightarrow> nb_lines s' = nb_lines s \<and> nb_writer s' = nb_writer s \<and> nb_level s' = nb_level s \<and>
     nb_pending s' = nb_pending s \<and> nb_cancelled s' = nb_cancelled s \<and> nb_avoidChannel s' = nb_avoidChannel s"
  by (auto simp: logOneLine_def split: if_splits)

lemma nb_step_fifo:
  "nb_step panics s a s' \<Longrightarrow>
     ch_items (nb_lines s) @ accepted_lines [a] = taken_lines [a] @ ch_items (nb_lines s')"
  by (erule nb_stepE) (auto simp: AvoidChannel_def ch.send_items ch.recv_items dest!: logOneLine_frame)

lemma nb_run_fifo:
  "nb_run panics s as s' \<Longrightarrow> ch_items (nb_lines s) @ accepted_lines as = taken_lines as @ ch_items (nb_lines s')"
proof (induction rule: nb_run.induct)
  case (start s)
  show ?case by simp
next
  case (step s as t a u)
  from nb_step_fifo [OF step.hyps(2)] step.IH show ?case by (metis act_lines_simps(3,4) append_assoc)
qed

lemma nb_step_phase: "nb_step panics s a s' \<Longrightarrow> nb_writer s \<le> nb_writer s'"
  by (erule nb_stepE) (auto simp: AvoidChannel_def less_eq_writer_phase_def dest!: logOneLine_frame)

lemma nb_run_phase: "nb_run panics s as s' \<Longrightarrow> nb_writer s \<le> nb_writer s'"
  by (induction rule: nb_run.induct) (auto intro: order_trans nb_step_phase)

lemma nb_run_returned:
  assumes "nb_run panics s as s'" "nb_writer s = Returned"
  shows "taken_lines as = []"
  using assms
proof (induction rule: nb_run.induct)
  case (start s)
  show ?case by simp
next
  case (step s as t a u)
  have "Returned \<le> nb_writer t" using nb_run_phase [OF step.hyps(1)] step.prems by simp
  then have "nb_writer t = Returned" by (cases "nb_writer t") (simp_all add: less_eq_writer_phase_def)
  with step.hyps(2) have "taken_lines [a] = []" by (auto elim!: nb_stepE)
  with step show ?case by simp
qed

text \<open>While the level stays, every line that waits is enabled, and what is taken is written in order.\<close>

definition waiting_enabled :: "'f nb_logger \<Rightarrow> bool" where
  "waiting_enabled s \<longleftrightarrow> (\<forall>l \<in> set (ch_items (nb_lines s)) \<union> set (nb_pending s). IsLevelEnabled (nb_level s) (ln_level l))"

lemma nb_step_enabled:
  assumes "nb_step panics s a s'" "waiting_enabled s" "\<forall>lv. a \<noteq> LevelSet lv"
  shows "waiting_enabled s'"
  using assms
  by (cases rule: nb_stepE)
    (auto simp: waiting_enabled_def AvoidChannel_def ch.send_items ch.recv_items dest!: logOneLine_frame dest: notin_set_remove1)

lemma nb_step_output:
  "nb_step panics s a s' \<Longrightarrow> \<exists>out. nb_output s' = nb_output s @ out \<and> (waiting_enabled s \<longrightarrow> subseq (taken_lines [a]) out)"
  by (erule nb_stepE)
    (auto simp: AvoidChannel_def logOneLine_def waiting_enabled_def ch.recv_items split: if_splits)

lemma nb_run_output:
  assumes "nb_run panics s as s'"
  shows "\<exists>out. nb_output s' = nb_output s @ out \<and>
    (waiting_enabled s \<and> (\<forall>lv. LevelSet lv \<notin> set as) \<longrightarrow> waiting_enabled s' \<and> subseq (taken_lines as) out)"
  using assms
proof (induction rule: nb_run.induct)
  case (start s)
  show ?case by simp
next
  case (step s as t a u)
  from step.IH obtain o1 where o1: "nb_output t = nb_output s @ o1"
    "waiting_enabled s \<and> (\<forall>lv. LevelSet lv \<notin> set as) \<longrightarrow> waiting_enabled t \<and> subseq (taken_lines as) o1" by blast
  from nb_step_output [OF step.hyps(2)] obtain o2 where o2: "nb_output u = nb_output t @ o2"
    "waiting_enabled t \<longrightarrow> subseq (taken_lines [a]) o2" by blast
  show ?case
  proof (intro exI conjI impI)
    show "nb_output u = nb_output s @ (o1 @ o2)" using o1(1) o2(1) by simp
    assume a: "waiting_enabled s \<and> (\<forall>lv. LevelSet lv \<notin> set (as @ [a]))"
    then have t: "waiting_enabled t" "subseq (taken_lines as) o1" using o1(2) by auto
    from a have "\<forall>lv. a \<noteq> LevelSet lv" by auto
    then show "waiting_enabled u" using nb_step_enabled [OF step.hyps(2) t(1)] by blast
    show "subseq (taken_lines (as @ [a])) (o1 @ o2)"
      using t o2(2) by (simp add: list_emb_append_mono del: act_lines_simps(5,6))
  qed
qed

text \<open>
  C18. When \<open>Exit\<close> has waited for the goroutine, the log is complete up to there: every line the channel
  accepted before the goroutine returned was taken from it and, as long as the level was not changed,
  stands in the output, in the order of acceptance. What a caller that had read the flag
  before \<open>Exit\<close> sends afterwards is accepted by the channel and never written.
\<close>

theorem exit_flushes_log:
  assumes "nb_run panics (newNonBlockingLogger level) (as @ WriterReturns # bs) s"
    and "\<forall>lv. LevelSet lv \<notin> set as"
  shows "taken_lines as = accepted_lines as \<and> subseq (accepted_lines as) (nb_output s) \<and>
    taken_lines bs = [] \<and> ch_items (nb_lines s) = accepted_lines bs"
proof -
  let ?s0 = "newNonBlockingLogger level"
  from assms(1) [unfolded nb_run_split] obtain t where t: "nb_run panics ?s0 as t"
    and "nb_run panics t ([WriterReturns] @ bs) s" by auto
  from this(2) [unfolded nb_run_split] obtain u where "nb_run panics t ([] @ [WriterReturns]) u" and s: "nb_run panics u bs s" by auto
  then have ret: "nb_step panics t WriterReturns u" by (simp only: nb_run_snoc nb_run_Nil) blast
  then have u: "nb_writer u = Returned" "nb_lines u = nb_lines t" "nb_output u = nb_output t" "ch_items (nb_lines t) = []"
    by (auto simp: nb_step_simps ch.recv_none)
  have fifo: "accepted_lines as = taken_lines as"
    using nb_run_fifo [OF t] u(4) by (simp add: newNonBlockingLogger_def make_chan_def)
  have "waiting_enabled ?s0" by (simp add: waiting_enabled_def newNonBlockingLogger_def make_chan_def)
  with nb_run_output [OF t] assms(2) have "subseq (taken_lines as) (nb_output t)"
    by (auto simp: newNonBlockingLogger_def)
  moreover obtain out where "nb_output s = nb_output t @ out" using nb_run_output [OF s] u(3) by auto
  ultimately have "subseq (accepted_lines as) (nb_output s)"
    using fifo list_emb_append_mono [of "(=)" "taken_lines as" "nb_output t" "[]" out] by simp
  moreover have none: "taken_lines bs = []" using nb_run_returned [OF s u(1)] .
  moreover have "ch_items (nb_lines s) = accepted_lines bs" using nb_run_fifo [OF s] none u(2,4) by simp
  ultimately show ?thesis using fifo by simp
qed

lemma nb_run_Cons_iff: "nb_run panics s (a # as) u \<longleftrightarrow> (\<exists>t. nb_step panics s a t \<and> nb_run panics t as u)"
  using nb_run_split [of panics s "[a]" as u] nb_run_snoc [of panics s "[]" a] by (simp add: nb_run_Nil)

definition ex_line :: "string \<Rightarrow> unit log_line" where
  "ex_line msg = \<lparr>ln_data = None, ln_msg = msg, ln_level = InfoLevel, ln_time = 0\<rparr>"

theorem exit_flushes_log_witness:
  "\<exists>s. nb_run (\<lambda>l. l = PanicLevel) (newNonBlockingLogger TraceLevel)
       ([Called (ex_line ''a''), Accepted (ex_line ''a''), Called (ex_line ''b''), Avoids, Cancels, DrainStarts, Taken (ex_line ''a'')] @
        WriterReturns # [Accepted (ex_line ''b'')]) s \<and>
     nb_output s = [ex_line ''a''] \<and> subseq [ex_line ''a''] (nb_output s) \<and> ch_items (nb_lines s) = [ex_line ''b'']"
proof -
  let ?as = "[Called (ex_line ''a''), Accepted (ex_line ''a''), Called (ex_line ''b''), Avoids, Cancels, DrainStarts, Taken (ex_line ''a'')]"
  obtain s where s: "nb_run (\<lambda>l. l = PanicLevel) (newNonBlockingLogger TraceLevel) (?as @ WriterReturns # [Accepted (ex_line ''b'')]) s"
    "nb_output s = [ex_line ''a'']"
    by (simp add: nb_run_Cons_iff nb_run_Nil nb_step_simps newNonBlockingLogger_def IsLevelEnabled_def ex_line_def level_defs
        make_chan_def try_send_def ch_room_def ch_recv_def backLog_def AvoidChannel_def logOneLine_def)
  from exit_flushes_log [OF s(1)] s show ?thesis by (intro exI [of _ s]) simp
qed

text \<open>
  \<open>Exit\<close> does return: after it cancelled the context the goroutine writes what is in the channel and ends, in as
  many steps as there are lines, if none of them panics.
\<close>

lemma writer_drains:
  assumes "nb_writer s = Draining" "\<forall>l \<in> set (ch_items (nb_lines s)). \<not> panics (ln_level l)"
  shows "\<exists>s'. nb_run panics s (map Taken (ch_items (nb_lines s)) @ [WriterReturns]) s' \<and> nb_writer s' = Returned"
  using assms
proof (induction "ch_items (nb_lines s)" arbitrary: s)
  case Nil
  then have "nb_step panics s WriterReturns (s\<lparr>nb_writer := Returned\<rparr>)"
    by (intro nb_step.returns) (simp_all add: ch.recv_none)
  then show ?case using Nil(1) [symmetric] by (auto simp: nb_run_Cons_iff nb_run_Nil)
next
  case (Cons l ls)
  obtain c where c: "ch_recv (nb_lines s) = Some (l, c)" "ch_items c = ls"
    using Cons.hyps(2) [symmetric] by (simp add: ch_recv_def)
  obtain t where t: "logOneLine panics (s\<lparr>nb_lines := c\<rparr>) l = Inr t"
    using Cons.prems(2) Cons.hyps(2) [symmetric]
    by (cases "IsLevelEnabled (nb_level s) (ln_level l)") (auto simp: logOneLine_def)
  have "nb_step panics s (Taken l) t" using Cons.prems(1) by (intro nb_step.taken [OF _ c(1) t]) simp
  moreover from logOneLine_frame [OF t] c(2) have f: "nb_writer t = Draining" "ch_items (nb_lines t) = ls" using Cons.prems(1) by auto
  from Cons.hyps(1) [OF f(2) [symmetric] f(1)] Cons.prems(2) Cons.hyps(2) [symmetric] f(2) obtain s' where
    "nb_run panics t (map Taken ls @ [WriterReturns]) s'" "nb_writer s' = Returned" by auto
  ultimately show ?case using Cons.hyps(2) [symmetric] by (auto simp: nb_run_Cons_iff)
qed

text \<open>Neither the channel nor the callers that log ever block: the channel holds at most its capacity.\<close>

lemma nb_step_buffered: "nb_step panics s a s' \<Longrightarrow> buffered backLog (nb_lines s) \<Longrightarrow> buffered backLog (nb_lines s')"
  by (erule nb_stepE) (auto simp: AvoidChannel_def dest!: logOneLine_frame intro: buffered_ops)

lemma nb_run_buffered: "nb_run panics s as s' \<Longrightarrow> buffered backLog (nb_lines s) \<Longrightarrow> buffered backLog (nb_lines s')"
  by (induction rule: nb_run.induct) (auto intro: nb_step_buffered)

end
