(* ===== verification/Node_Config.thy ===== *)
theory Node_Config
  imports Logger
begin

text \<open>
  The configuration of a node (\<^verbatim>\<open>config/\<close>) from the flags of the command line, and the default values of the
  flags (\<^verbatim>\<open>utils/flags.go\<close>).
\<close>

section \<open>Environment\<close>

record env =
  env_DataDir :: string
  env_Environment :: string

definition Mainnet :: string where "Mainnet = ''mainnet''"

definition MainnetEnv :: env where
  "MainnetEnv = \<lparr>env_DataDir = ''datadir'', env_Environment = ''mainnet''\<rparr>"

definition NewEnv :: "string \<Rightarrow> config_error + env" where
  "NewEnv e = (if e = Mainnet then Inr MainnetEnv else Inl (UnrecognizedEnv e))"

definition NewEnvFromCLI :: "string \<Rightarrow> config_error + env" where
  "NewEnvFromCLI e = (case NewEnv e of Inl err \<Rightarrow> Inl err | Inr gatewayEnv \<Rightarrow> Inr gatewayEnv)"

section \<open>Log configuration\<close>

record tx_trace_log =
  tt_Enabled :: bool
  tt_MaxFileSize :: int
  tt_MaxBackupFiles :: int

text \<open>\<open>ParseLevel\<close> is logrus's.\<close>

definition NewLogFromCLI :: "(string \<Rightarrow> string + level) \<Rightarrow> cli_flags \<Rightarrow> config_error + (log_config \<times> tx_trace_log)" where
  "NewLogFromCLI ParseLevel ctx =
     (case ParseLevel (fl_LogLevel ctx) of Inl err \<Rightarrow> Inl (LevelError err)
      | Inr consoleLevel \<Rightarrow>
          (case ParseLevel (fl_LogFileLevel ctx) of Inl err \<Rightarrow> Inl (LevelError err)
           | Inr fileLevel \<Rightarrow>
               Inr (\<lparr>lc_AppName = fl_AppName ctx,
                     lc_FileName = ''logs/'' @ fl_AppName ctx @ ''-'' @ strconv_Itoa (fl_Port ctx) @ ''.log'',
                     lc_FileLevel = fileLevel, lc_ConsoleLevel = consoleLevel, lc_MaxSize = fl_LogMaxSize ctx,
                     lc_MaxBackups = fl_LogMaxBackups ctx, lc_MaxAge = fl_LogMaxAge ctx\<rparr>,
                    \<lparr>tt_Enabled = fl_TxTraceEnabled ctx, tt_MaxFileSize = fl_TxTraceMaxFileSize ctx,
                     tt_MaxBackupFiles = fl_TxTraceMaxBackupFiles ctx\<rparr>)))"

section \<open>Node configuration\<close>

record turbo_config =
  tc_NodeType :: node_type
  tc_Env :: env
  tc_Config :: log_config
  tc_TxTraceLog :: tx_trace_log

definition NewTurboConfigFromCLI :: "(string \<Rightarrow> string + level) \<Rightarrow> cli_flags \<Rightarrow> config_error + turbo_config" where
  "NewTurboConfigFromCLI ParseLevel ctx =
     (case NewEnvFromCLI (fl_Env ctx) of Inl err \<Rightarrow> Inl err
      | Inr e \<Rightarrow>
          (case NewLogFromCLI ParseLevel ctx of Inl err \<Rightarrow> Inl err
           | Inr (log, txTraceLog) \<Rightarrow>
               (case FromStringToNodeType (fl_NodeType ctx) of Inl err \<Rightarrow> Inl (UnknownNodeType err)
                | Inr nodeType \<Rightarrow>
                    Inr \<lparr>tc_NodeType = nodeType, tc_Env = e, tc_Config = log, tc_TxTraceLog = txTraceLog\<rparr>)))"

section \<open>Default values\<close>

text \<open>
  The values without any flag on the command line of the program \<open>app\<close>; the last four flags have no value
  unless they are set. \<open>data-dir\<close> is not a flag of the gateway program, so its value there is the empty
  string and not the default of the flag.
\<close>

definition default_flags :: "string \<Rightarrow> cli_flags" where
  "default_flags app = \<lparr>fl_AppName = app, fl_Port = 1809, fl_Env = ''mainnet'', fl_BlockchainNetwork = ''ethereum-mainnet'',
     fl_DisableProfiling = False, fl_DataDir = ''datadir'', fl_LogLevel = ''info'', fl_LogFileLevel = ''info'',
     fl_LogMaxSize = 100, fl_LogMaxAge = 10, fl_LogMaxBackups = 10, fl_TxTraceEnabled = False, fl_TxTraceMaxFileSize = 100,
     fl_TxTraceMaxBackupFiles = 3, fl_NodeType = ''gateway'', fl_Enodes = None, fl_PrivateKey = None, fl_EthWsUri = None,
     fl_MultiNode = None\<rparr>"

definition gateway_flags :: "cli_flags \<Rightarrow> cli_flags" where
  "gateway_flags ctx = ctx\<lparr>fl_DataDir := [], fl_EthWsUri := None\<rparr>"

text \<open>A configuration is made exactly from the known environment, levels that parse, and a known node type.\<close>

lemma NewTurboConfigFromCLI_ok:
  "(\<exists>c. NewTurboConfigFromCLI ParseLevel ctx = Inr c) \<longleftrightarrow>
     fl_Env ctx = ''mainnet'' \<and> isl (ParseLevel (fl_LogLevel ctx)) = False \<and> isl (ParseLevel (fl_LogFileLevel ctx)) = False \<and>
     isl (FromStringToNodeType (fl_NodeType ctx)) = False"
  by (auto simp: NewTurboConfigFromCLI_def NewEnvFromCLI_def NewEnv_def NewLogFromCLI_def Mainnet_def split: sum.splits)

lemma node_type_gateway: "FromStringToNodeType ''gateway'' = Inr Gateway"
  unfolding node_type_defs by code_simp

lemma digits_1809: "strconv_Itoa 1809 = ''1809''"
  by code_simp

lemma default_config:
  assumes "ParseLevel ''info'' = Inr InfoLevel"
  shows "NewTurboConfigFromCLI ParseLevel (default_flags ''gateway'') =
    Inr \<lparr>tc_NodeType = Gateway, tc_Env = MainnetEnv, tc_Config = ex_log_config,
      tc_TxTraceLog = \<lparr>tt_Enabled = False, tt_MaxFileSize = 100, tt_MaxBackupFiles = 3\<rparr>\<rparr>"
  using assms by (simp add: NewTurboConfigFromCLI_def NewEnvFromCLI_def NewEnv_def NewLogFromCLI_def Mainnet_def default_flags_def
      node_type_gateway digits_1809 ex_log_config_def)

end
