(* ===== verification/Certificates.thy ===== *)
theory Certificates
  imports Node_Config Blocks
begin

text \<open>
  Keys and certificates: the TLS certificates of a node (\<^verbatim>\<open>utils/ssl.go\<close>, \<^verbatim>\<open>utils/sslextension.go\<close>), the socket
  that is dialled with them (\<^verbatim>\<open>connections/socket.go\<close>), and the key of the Ethereum side
  (\<^verbatim>\<open>blockchain/eth/util.go\<close>).
\<close>

section \<open>Files and cryptography\<close>

text \<open>
  The files with their contents; a file that cannot be read counts as absent. What the operating system reports
  for a write is an argument. \<open>crypto/x509\<close>, \<open>crypto/tls\<close> and \<open>encoding/pem\<close> work on private keys (\<^typ>\<open>'k\<close>),
  certificates (\<^typ>\<open>'c\<close>) and key pairs (\<^typ>\<open>'p\<close>); \<open>pem_Decode\<close> has no value when there is no PEM block.
\<close>

type_synonym files = "string \<rightharpoonup> byte list"

record ('k, 'c, 'p) crypto =
  cr_pem_Decode :: "byte list \<Rightarrow> byte list option"
  cr_EncodeToMemory :: "string \<Rightarrow> byte list \<Rightarrow> byte list"
  cr_ParseECPrivateKey :: "byte list \<Rightarrow> string + 'k"
  cr_MarshalECPrivateKey :: "'k \<Rightarrow> string + byte list"
  cr_ParseCertificate :: "byte list \<Rightarrow> string + 'c"
  cr_X509KeyPair :: "byte list \<Rightarrow> byte list \<Rightarrow> string + 'p"

section \<open>Certificates\<close>

record ('k, 'c, 'p) ssl_certs =
  sc_privateCertFile :: string
  sc_privateKeyFile :: string
  sc_privateCert :: "'c option"
  sc_privateKey :: 'k
  sc_privateKeyPair :: "'p option"

text \<open>The directory is also created; the error of that is dropped.\<close>

definition GetCertDir :: "string \<Rightarrow> string \<Rightarrow> string \<times> string" where
  "GetCertDir privateBaseURL certName =
     (let privateDir = path_Join [privateBaseURL, certName, ''private'']
      in (path_Join [privateDir, certName @ ''_cert.pem''], path_Join [privateDir, certName @ ''_key.pem'']))"

text \<open>A file without a PEM block makes the block nil, and its bytes are accessed.\<close>

definition parsePEMPrivateKey :: "('k, 'c, 'p) crypto \<Rightarrow> byte list \<Rightarrow> (string + 'k) go" where
  "parsePEMPrivateKey C block =
     (case cr_pem_Decode C block of None \<Rightarrow> Inl NilDereference | Some keyBytes \<Rightarrow> Inr (cr_ParseECPrivateKey C keyBytes))"

definition parsePEMCert :: "('k, 'c, 'p) crypto \<Rightarrow> byte list \<Rightarrow> (string + 'c) go" where
  "parsePEMCert C block =
     (case cr_pem_Decode C block of None \<Rightarrow> Inl NilDereference | Some certBytes \<Rightarrow> Inr (cr_ParseCertificate C certBytes))"

text \<open>\<open>panic(fmt.Errorf(...))\<close> for an error.\<close>

definition or_panic :: "string \<Rightarrow> string + 'a \<Rightarrow> 'a go" where
  "or_panic what r = (case r of Inl err \<Rightarrow> Inl (ExplicitPanic (what @ '': '' @ err)) | Inr a \<Rightarrow> Inr a)"

lemma or_panic_simps [simp]:
  "or_panic what (Inl err) = Inl (ExplicitPanic (what @ '': '' @ err))" "or_panic what (Inr a) = Inr a"
  by (simp_all add: or_panic_def)

text \<open>
  The constructor, with the result of generating a key and of writing the key file. The new key is encoded, but the
  bytes that are written are those of the certificate, which are nil in that branch. The texts of the panics
  are shortened.
\<close>

definition NewSSLCertsFromFiles ::
  "('k, 'c, 'p) crypto \<Rightarrow> string + 'k \<Rightarrow> string option \<Rightarrow> files \<Rightarrow> string \<Rightarrow> string \<Rightarrow> (files \<times> ('k, 'c, 'p) ssl_certs) go" where
  "NewSSLCertsFromFiles C generated writeErr fs privateCertFile privateKeyFile =
     (let certs = (\<lambda>cert key pair. \<lparr>sc_privateCertFile = privateCertFile, sc_privateKeyFile = privateKeyFile,
            sc_privateCert = cert, sc_privateKey = key, sc_privateKeyPair = pair\<rparr>)
      in case (fs privateKeyFile, fs privateCertFile) of
           (None, None) \<Rightarrow>
             gbind (or_panic ''could not generate private key'' generated) (\<lambda>privateKey.
             gbind (or_panic ''could not marshal generated private key'' (cr_MarshalECPrivateKey C privateKey)) (\<lambda>privateKeyBytes.
               let privateKeyBlock = cr_EncodeToMemory C ''EC PRIVATE KEY'' privateKeyBytes;
                   written = slice_elems None
               in gbind (or_panic ''could not write new private key to file'' (case writeErr of None \<Rightarrow> Inr () | Some err \<Rightarrow> Inl err)) (\<lambda>_.
                    Inr (fs(privateKeyFile \<mapsto> written), certs None privateKey None))))
         | (Some privateKeyBlock, Some privateCertBlock) \<Rightarrow>
             gbind (parsePEMPrivateKey C privateKeyBlock) (\<lambda>r.
             gbind (or_panic ''could not parse private key from file'' r) (\<lambda>privateKey.
             gbind (parsePEMCert C privateCertBlock) (\<lambda>r.
             gbind (or_panic ''could not parse private cert from file'' r) (\<lambda>privateCert.
             gbind (or_panic ''could not load private key pair'' (cr_X509KeyPair C privateCertBlock privateKeyBlock)) (\<lambda>pair.
               Inr (fs, certs (Some privateCert) privateKey (Some pair)))))))
         | (Some privateKeyBlock, None) \<Rightarrow>
             gbind (parsePEMPrivateKey C privateKeyBlock) (\<lambda>r.
             gbind (or_panic ''could not parse private key from file'' r) (\<lambda>privateKey.
               Inr (fs, certs None privateKey None)))
         | (None, Some privateCertBlock) \<Rightarrow> Inl (ExplicitPanic ''found a certificate with no matching private key''))"

record 'p tls_config =
  tls_Certificates :: "'p list"
  tls_InsecureSkipVerify :: bool

definition LoadPrivateConfig :: "('k, 'c, 'p) ssl_certs \<Rightarrow> string + 'p tls_config" where
  "LoadPrivateConfig s =
     (case sc_privateKeyPair s of
        None \<Rightarrow> Inl ''private key pair has not been loaded''
      | Some pair \<Rightarrow> Inr \<lparr>tls_Certificates = [pair], tls_InsecureSkipVerify = True\<rparr>)"

text \<open>\<open>ParseSSLCertificate\<close> is not implemented: it panics.\<close>

record tb_ssl_properties =
  sp_NodeType :: node_type
  sp_NodeID :: string

definition ParseSSLCertificate :: "'c \<Rightarrow> (tb_ssl_properties \<times> string option) go" where
  "ParseSSLCertificate certificate = Inl (ExplicitPanic ''not implemented'')"

section \<open>Sockets\<close>

text \<open>
  A socket is a pointer to a TLS connection; the nil pointer is a value of its own, as the interface that holds it is
  not nil. \<open>NewTLS\<close> takes what dialling an address and the handshake with a configuration give; its value
  is what \<open>Connect\<close> of the connection receives, the socket and the error.
\<close>

datatype 's tls_socket = NilTLS | TLSSocket 's

definition dialTimeout :: duration where "dialTimeout = 30 * Second"

definition NewTLS ::
  "(string \<Rightarrow> duration \<Rightarrow> string + 'x) \<Rightarrow> ('x \<Rightarrow> 'p tls_config \<Rightarrow> string + 's) \<Rightarrow> string \<Rightarrow> int \<Rightarrow> ('k, 'c, 'p) ssl_certs \<Rightarrow>
     's tls_socket option \<times> string option" where
  "NewTLS DialTimeout Handshake ip port certs =
     (case LoadPrivateConfig certs of Inl err \<Rightarrow> (Some NilTLS, Some err)
      | Inr config \<Rightarrow>
          (case DialTimeout (ip @ '':'' @ strconv_Itoa port) dialTimeout of Inl err \<Rightarrow> (Some NilTLS, Some err)
           | Inr ipConn \<Rightarrow>
               (case Handshake ipConn config of Inl err \<Rightarrow> (Some NilTLS, Some err)
                | Inr tlsClient \<Rightarrow> (Some (TLSSocket tlsClient), None))))"

text \<open>The loop of \<open>Properties\<close> over the certificates of the other side, with the values so far.\<close>

fun tls_Properties :: "'c list \<Rightarrow> tb_ssl_properties \<times> string option \<Rightarrow> (tb_ssl_properties \<times> string option) go" where
  "tls_Properties [] result = Inr result"
| "tls_Properties (peerCertificate # peerCertificates) result =
     gbind (ParseSSLCertificate peerCertificate) (\<lambda>(tbSSLExtensions, err).
       if err = None then Inr (tbSSLExtensions, err) else tls_Properties peerCertificates (tbSSLExtensions, err))"

text \<open>So the properties of a connection with a certificate can not be asked for; \<open>Connect\<close> has the call commented out.\<close>

lemma tls_Properties_panics: "tls_Properties certs r = (if certs = [] then Inr r else Inl (ExplicitPanic ''not implemented''))"
  by (cases certs) (simp_all add: ParseSSLCertificate_def)

section \<open>The key of the Ethereum side\<close>

text \<open>
  The outcome of \<open>crypto.LoadECDSA\<close>: no file, another error (unreadable, or not a key), or a key. \<open>FromECDSA\<close> is the
  text \<open>SaveECDSA\<close> writes for a pointer to a key.
\<close>

datatype 'k load_result = LoadNotExist | LoadError string | LoadedKey 'k

definition LoadECDSA :: "(byte list \<Rightarrow> string + 'k) \<Rightarrow> files \<Rightarrow> string \<Rightarrow> 'k load_result" where
  "LoadECDSA parse fs keyPath =
     (case fs keyPath of None \<Rightarrow> LoadNotExist
      | Some content \<Rightarrow> (case parse content of Inl err \<Rightarrow> LoadError err | Inr k \<Rightarrow> LoadedKey k))"

datatype key_error = GenerateError string | KeyWriteError string

definition SaveECDSA :: "('k option \<Rightarrow> byte list) \<Rightarrow> string option \<Rightarrow> files \<Rightarrow> string \<Rightarrow> 'k option \<Rightarrow> files \<times> string option" where
  "SaveECDSA FromECDSA writeErr fs keyPath key =
     (case writeErr of Some err \<Rightarrow> (fs, Some err) | None \<Rightarrow> (fs(keyPath \<mapsto> FromECDSA key), None))"

text \<open>The results are the key (nil as \<^term>\<open>None\<close>), whether it was generated, and the error.\<close>

definition LoadOrGeneratePrivateKey ::
  "(byte list \<Rightarrow> string + 'k) \<Rightarrow> ('k option \<Rightarrow> byte list) \<Rightarrow> string + 'k \<Rightarrow> string option \<Rightarrow> files \<Rightarrow> string \<Rightarrow>
     files \<times> 'k option \<times> bool \<times> key_error option" where
  "LoadOrGeneratePrivateKey parse FromECDSA generated writeErr fs keyPath =
     (let save = (\<lambda>privateKey.
            case SaveECDSA FromECDSA writeErr fs keyPath privateKey of
              (fs', Some err) \<Rightarrow> (fs', privateKey, False, Some (KeyWriteError err))
            | (fs', None) \<Rightarrow> (fs', privateKey, True, None))
      in case LoadECDSA parse fs keyPath of
           LoadedKey privateKey \<Rightarrow> (fs, Some privateKey, False, None)
         | LoadNotExist \<Rightarrow> (case generated of Inl err \<Rightarrow> (fs, None, False, Some (GenerateError err)) | Inr privateKey \<Rightarrow> save (Some privateKey))
         | LoadError err \<Rightarrow> save None)"

section \<open>Properties\<close>

text \<open>The files of the gateway are those the relay reads.\<close>

lemma GetCertDir_gateway:
  "GetCertDir ''datadir'' ''gateway'' =
     (''datadir/gateway/private/gateway_cert.pem'', ''datadir/gateway/private/gateway_key.pem'')"
  by code_simp

text \<open>What the constructor does on success.\<close>

lemma NewSSLCertsFromFiles_pair:
  assumes "NewSSLCertsFromFiles C generated writeErr fs certFile keyFile = Inr (fs', certs)"
  shows "(\<exists>pair. sc_privateKeyPair certs = Some pair) \<longleftrightarrow> (\<exists>key cert. fs keyFile = Some key \<and> fs certFile = Some cert)"
  using assms
  by (auto simp: NewSSLCertsFromFiles_def gbind_Inr_iff Let_def split: option.splits)

lemma LoadPrivateConfig_ok: "(\<exists>c. LoadPrivateConfig certs = Inr c) \<longleftrightarrow> sc_privateKeyPair certs \<noteq> None"
  by (auto simp: LoadPrivateConfig_def split: option.split)

text \<open>
  C20. The first start without certificate files leaves the node unable to connect and to start again: the constructor
  returns, but without a pair of certificate and key, so that every attempt to connect fails; and the
  key file it wrote is empty, so that every later start that finds these files panics, whatever key is
  generated then.
\<close>

theorem first_start_spoils_next:
  assumes "fs certFile = None" "fs keyFile = None" "certFile \<noteq> keyFile"
    and "cr_MarshalECPrivateKey C key = Inr keyBytes" "cr_pem_Decode C [] = None"
  shows "\<exists>fs' certs. NewSSLCertsFromFiles C (Inr key) None fs certFile keyFile = Inr (fs', certs) \<and>
    (\<forall>Dial Handshake ip port. \<exists>err. NewTLS Dial Handshake ip port certs = (Some NilTLS, Some err)) \<and>
    (\<forall>generated writeErr. NewSSLCertsFromFiles C generated writeErr fs' certFile keyFile = Inl NilDereference)"
  using assms by (simp add: NewSSLCertsFromFiles_def NewTLS_def LoadPrivateConfig_def parsePEMPrivateKey_def Let_def)

text \<open>A small cryptography: a block is what follows the byte 45, a key is its bytes, and a pair needs equal bytes.\<close>

definition ex_crypto :: "(byte list, byte list, byte list) crypto" where
  "ex_crypto = \<lparr>cr_pem_Decode = (\<lambda>bs. case bs of b # rest \<Rightarrow> if b = 45 then Some rest else None | [] \<Rightarrow> None),
     cr_EncodeToMemory = (\<lambda>kind bs. 45 # bs), cr_ParseECPrivateKey = Inr, cr_MarshalECPrivateKey = Inr,
     cr_ParseCertificate = Inr, cr_X509KeyPair = (\<lambda>c k. if c = k then Inr c else Inl ''mismatch'')\<rparr>"

theorem first_start_spoils_next_witness:
  "\<exists>fs' certs. NewSSLCertsFromFiles ex_crypto (Inr [7]) None Map.empty ''cert'' ''key'' = Inr (fs', certs) \<and>
     (\<forall>(Dial :: string \<Rightarrow> duration \<Rightarrow> string + unit) (Handshake :: unit \<Rightarrow> byte list tls_config \<Rightarrow> string + unit) ip port.
        \<exists>err. NewTLS Dial Handshake ip port certs = (Some NilTLS, Some err)) \<and>
     (\<forall>generated writeErr. NewSSLCertsFromFiles ex_crypto generated writeErr fs' ''cert'' ''key'' = Inl NilDereference)"
  by (rule first_start_spoils_next [of _ _ _ _ _ "[7]"]) (simp_all add: ex_crypto_def)

text \<open>With both files and matching contents the constructor returns the pair, and nothing is written.\<close>

lemma matching_files_give_pair:
  assumes "fs certFile = Some cert" "fs keyFile = Some key"
    and "cr_pem_Decode C key = Some keyBlock" "cr_ParseECPrivateKey C keyBlock = Inr k"
    and "cr_pem_Decode C cert = Some certBlock" "cr_ParseCertificate C certBlock = Inr c" "cr_X509KeyPair C cert key = Inr pair"
  shows "\<exists>certs. NewSSLCertsFromFiles C generated writeErr fs certFile keyFile = Inr (fs, certs) \<and>
    LoadPrivateConfig certs = Inr \<lparr>tls_Certificates = [pair], tls_InsecureSkipVerify = True\<rparr>"
  using assms by (simp add: NewSSLCertsFromFiles_def parsePEMPrivateKey_def parsePEMCert_def LoadPrivateConfig_def Let_def)

text \<open>
  A key file of the Ethereum side that exists but does not hold a key is destroyed: its content is replaced by the
  encoding of a nil key, and the function reports a generated key and no error while the key it returns is nil. On all
  other paths a result without an error is a key, and the file holds it or is unchanged.
\<close>

lemma corrupt_key_overwritten:
  "(fs keyPath = Some content \<and> parse content = Inl err \<and> writeErr = None \<longrightarrow>
      LoadOrGeneratePrivateKey parse FromECDSA generated writeErr fs keyPath = (fs(keyPath \<mapsto> FromECDSA None), None, True, None)) \<and>
   (\<not> (\<exists>content err. fs keyPath = Some content \<and> parse content = Inl err) \<longrightarrow>
      (case LoadOrGeneratePrivateKey parse FromECDSA generated writeErr fs keyPath of (fs', key, wasGenerated, e) \<Rightarrow>
         e = None \<longrightarrow> (\<exists>k. key = Some k \<and> fs' = (if wasGenerated then fs(keyPath \<mapsto> FromECDSA (Some k)) else fs))))"
  by (auto simp: LoadOrGeneratePrivateKey_def LoadECDSA_def SaveECDSA_def Let_def split: option.splits sum.splits load_result.splits)

lemma corrupt_key_overwritten_example:
  "LoadOrGeneratePrivateKey (\<lambda>c. if c = [1] then Inr () else Inl ''bad'') (\<lambda>k. case k of None \<Rightarrow> [] | Some _ \<Rightarrow> [1]) (Inr ()) None
     [''k'' \<mapsto> [9, 9]] ''k'' = ([''k'' \<mapsto> []], None, True, None)"
  using corrupt_key_overwritten [of "[''k'' \<mapsto> [9, 9]]" "''k''" "[9, 9]" "\<lambda>c. if c = [1] then Inr () else Inl ''bad''" "''bad''" None
      "\<lambda>k. case k of None \<Rightarrow> [] | Some _ \<Rightarrow> [1]" "Inr ()"]
  by simp

end
