(* ===== verification/Program.thy ===== *)
theory Program
  imports Certificates Gateway_Flow Eth_Transaction
begin

text \<open>
  The gateway program: the start of the gateway node (\<^verbatim>\<open>nodes/gateway.go\<close>), of the p2p server
  (\<^verbatim>\<open>blockchain/eth/server.go\<close>, \<^verbatim>\<open>blockchain/eth/protocol.go\<close>) and the main function
  (\<^verbatim>\<open>cmd/gateway/main.go\<close>). Goroutines are started, not run: what they do are the steps of the machines of the other
  theories.
\<close>

section \<open>Relays\<close>

datatype conn_instruction_type = ConnectInstruction | DisconnectInstruction

record relay_instruction =
  ri_IP :: string
  ri_Type :: conn_instruction_type
  ri_Port :: int

text \<open>One round of \<open>handleRelayConnections\<close>: an instruction to disconnect has no case.\<close>

definition handleRelayInstruction :: "('k, 'cfg) gateway \<Rightarrow> relay_instruction \<Rightarrow> ('k, 'cfg) gateway" where
  "handleRelayInstruction g instruction =
     (case ri_Type instruction of
        ConnectInstruction \<Rightarrow> connectRelay g (ri_IP instruction) (ri_Port instruction)
      | DisconnectInstruction \<Rightarrow> g)"

text \<open>
  \<open>Run\<close> up to the point where it waits for its goroutines: it loads the certificates, starts the loop over the bridge
  and the clean-up of the store, and sends one instruction.
\<close>

definition gateway_Run ::
  "('k, 'c, 'p) crypto \<Rightarrow> string + 'k \<Rightarrow> string option \<Rightarrow> files \<Rightarrow> turbo_config \<Rightarrow> ('s tls_socket, 'cfg) gateway \<Rightarrow>
     (files \<times> ('k, 'c, 'p) ssl_certs \<times> ('s tls_socket, 'cfg) gateway) go" where
  "gateway_Run C generated writeErr fs config g =
     (let privateCertDir = path_Join [env_DataDir (tc_Env config)];
          gatewayType = tc_NodeType config;
          (privateCertFile, privateKeyFile) = GetCertDir privateCertDir (ToLower (node_type_String gatewayType))
      in gbind (NewSSLCertsFromFiles C generated writeErr fs privateCertFile privateKeyFile) (\<lambda>(fs', sslCerts).
           Inr (fs', sslCerts, handleRelayInstruction g
             \<lparr>ri_IP = ''127.0.0.1'', ri_Type = ConnectInstruction, ri_Port = 443\<rparr>)))"

section \<open>The p2p server\<close>

record p2p_protocol =
  pr_Name :: string
  pr_Version :: nat
  pr_Length :: u64

definition SupportedProtocols :: "nat list" where
  "SupportedProtocols = [65, 66]"

definition ProtocolLengths :: "nat \<rightharpoonup> u64" where
  "ProtocolLengths = [65 \<mapsto> 17, 66 \<mapsto> 17]"

text \<open>The functions \<open>Run\<close> of the protocols are modelled in \<open>Eth_Handlers\<close>; a version without an entry has length 0.\<close>

definition makeProtocol :: "nat \<Rightarrow> u64 \<Rightarrow> p2p_protocol" where
  "makeProtocol version versionLength = \<lparr>pr_Name = ''eth'', pr_Version = version, pr_Length = versionLength\<rparr>"

definition MakeProtocols :: "p2p_protocol list" where
  "MakeProtocols = map (\<lambda>version. makeProtocol version (case ProtocolLengths version of None \<Rightarrow> 0 | Some l \<Rightarrow> l)) SupportedProtocols"

text \<open>The configuration of the server; the fields that are nil or empty are left out.\<close>

record ('n, 'k) p2p_config =
  ps_PrivateKey :: "'k option"
  ps_MaxPeers :: int
  ps_MaxPendingPeers :: int
  ps_DialRatio :: int
  ps_NoDiscovery :: bool
  ps_DiscoveryV5 :: bool
  ps_Name :: string
  ps_StaticNodes :: "'n list"
  ps_Protocols :: "p2p_protocol list"
  ps_NoDial :: bool
  ps_EnableMsgEvents :: bool

datatype server_warning = CouldNotWriteKey string | GeneratedKey string

text \<open>The key functions, a generated key and the result of writing the key file are those of \<open>LoadOrGeneratePrivateKey\<close>.\<close>

definition NewServer ::
  "(byte list \<Rightarrow> string + 'k) \<Rightarrow> ('k option \<Rightarrow> byte list) \<Rightarrow> string + 'k \<Rightarrow> string option \<Rightarrow> files \<Rightarrow> ('n, 'k) eth_config \<Rightarrow>
     (tb_transaction, tb_block, ('n, 'k) eth_config) turbo_bridge \<Rightarrow> string \<Rightarrow>
     files \<times> server_warning list \<times> (key_error + ('n, 'k) p2p_config \<times> ('t, 'x, 'n, 'k) handler)" where
  "NewServer parse FromECDSA generated writeErr fs config bridge dataDir =
     (let server = (\<lambda>privateKey.
            (\<lparr>ps_PrivateKey = privateKey, ps_MaxPeers = int (length (cf_StaticPeers config)), ps_MaxPendingPeers = 1,
              ps_DialRatio = 1, ps_NoDiscovery = True, ps_DiscoveryV5 = False, ps_Name = ''Turbo Gateway v0.1.0'',
              ps_StaticNodes = StaticEnodes config, ps_Protocols = MakeProtocols, ps_NoDial = False,
              ps_EnableMsgEvents = False\<rparr>, NewHandler bridge config))
      in case cf_PrivateKey config of
           Some key \<Rightarrow> (fs, [], Inr (server (Some key)))
         | None \<Rightarrow>
             (let privateKeyPath = path_Join [dataDir, ''.gatewaykey''];
                  (fs', privateKeyFromFile, wasGenerated, err) =
                    LoadOrGeneratePrivateKey parse FromECDSA generated writeErr fs privateKeyPath;
                  warned = (if wasGenerated then [GeneratedKey privateKeyPath] else [])
              in case err of
                   Some (GenerateError e) \<Rightarrow> (fs', [], Inl (GenerateError e))
                 | Some (KeyWriteError e) \<Rightarrow> (fs', CouldNotWriteKey e # warned, Inr (server privateKeyFromFile))
                 | None \<Rightarrow> (fs', warned, Inr (server privateKeyFromFile))))"

section \<open>The main function\<close>

text \<open>What go-ethereum knows of a node; \<open>nd_Pubkey\<close> is the uncompressed encoding of its public key.\<close>

record 'n node_data =
  nd_IP :: "'n \<Rightarrow> string"
  nd_TCP :: "'n \<Rightarrow> int"
  nd_Pubkey :: "'n \<Rightarrow> byte list"
  nd_String :: "'n \<Rightarrow> string"

fun blockchain_peers :: "'n node_data \<Rightarrow> 'n peer_info list \<Rightarrow> node_endpoint list \<Rightarrow> node_endpoint list go" where
  "blockchain_peers N [] blockchainPeers = Inr blockchainPeers"
| "blockchain_peers N (peer # peers) blockchainPeers =
     (let blockchainPeer = pi_Enode peer
      in gbind (reslice (nd_Pubkey N blockchainPeer) 1 (length (nd_Pubkey N blockchainPeer))) (\<lambda>key.
           blockchain_peers N peers (blockchainPeers @
             [\<lparr>ep_IP = nd_IP N blockchainPeer, ep_Port = nd_TCP N blockchainPeer, ep_PublicKey = hex_EncodeToString key\<rparr>])))"

text \<open>
  What the program takes from outside: the parsers of go-ethereum and logrus, files, cryptography, generated
  keys, the results of writes and of starting the p2p server, and the clock.
\<close>

record ('n, 'e, 'k, 'c, 'p) world =
  wd_Parse :: "string \<Rightarrow> string + 'n"
  wd_HexToECDSA :: "string \<Rightarrow> string + 'e"
  wd_ParseLevel :: "string \<Rightarrow> string + level"
  wd_NewHook :: "log_file \<Rightarrow> level \<Rightarrow> string + writer_hook"
  wd_nodes :: "'n node_data"
  wd_crypto :: "('k, 'c, 'p) crypto"
  wd_files :: files
  wd_tlsKey :: "string + 'k"
  wd_tlsWrite :: "string option"
  wd_parseKey :: "byte list \<Rightarrow> string + 'e"
  wd_FromECDSA :: "'e option \<Rightarrow> byte list"
  wd_ethKey :: "string + 'e"
  wd_ethWrite :: "string option"
  wd_Start :: "('n, 'e) p2p_config \<Rightarrow> string option"
  wd_now :: instant

datatype main_error = BadConfig config_error | BadLog string | BadServer key_error

text \<open>
  The program ends with an error, ends without one, or waits for a signal with its gateway and, if it has peers, its
  server.
\<close>

datatype ('n, 'e, 'k, 'c, 'p, 's, 't, 'x) program_outcome =
    EndsWith main_error
  | EndsQuietly files
  | Serves files "('k, 'c, 'p) ssl_certs" "('s tls_socket, ('n, 'e) eth_config) gateway"
      "(('n, 'e) p2p_config \<times> ('t, 'x, 'n, 'e) handler) option"

definition runGateway ::
  "('n, 'e, 'k, 'c, 'p) world \<Rightarrow> std_logger \<Rightarrow> cli_flags \<Rightarrow> ('n, 'e, 'k, 'c, 'p, 's, 't, 'x) program_outcome go" where
  "runGateway W std flags =
     (let c = gateway_flags flags in
      case NewTurboConfigFromCLI (wd_ParseLevel W) c of Inl err \<Rightarrow> Inr (EndsWith (BadConfig err))
      | Inr turboConfig \<Rightarrow>
          (case NewPresetEthConfigFromCLI (wd_Parse W) (wd_HexToECDSA W) c of Inl err \<Rightarrow> Inr (EndsWith (BadConfig err))
           | Inr ethConfig \<Rightarrow>
               gbind (blockchain_peers (wd_nodes W) (cf_StaticPeers ethConfig) []) (\<lambda>blockchainPeers.
               gbind (log_Init (wd_NewHook W) (tc_Config turboConfig) std) (\<lambda>(std', logErr).
                 case logErr of Some err \<Rightarrow> Inr (EndsWith (BadLog err))
                 | None \<Rightarrow>
                     (let bridge = NewTurboBridge;
                          gateway = NewGateway bridge blockchainPeers (wd_now W)
                            (generatePeers (nd_String (wd_nodes W)) (cf_StaticPeers ethConfig))
                      in gbind (gateway_Run (wd_crypto W) (wd_tlsKey W) (wd_tlsWrite W) (wd_files W) turboConfig gateway)
                           (\<lambda>(fs, certs, running).
                         if blockchainPeers = [] then Inr (Serves fs certs running None)
                         else (case NewServer (wd_parseKey W) (wd_FromECDSA W) (wd_ethKey W) (wd_ethWrite W) fs ethConfig bridge
                                      (fl_DataDir c) of
                                 (fs', warnings, Inl err) \<Rightarrow> Inr (EndsWith (BadServer err))
                               | (fs', warnings, Inr server) \<Rightarrow>
                                   (case wd_Start W (fst server) of
                                      Some err \<Rightarrow> Inr (EndsQuietly fs')
                                    | None \<Rightarrow> Inr (Serves fs' certs running (Some server))))))))))"

lemma log_Init_returns:
  assumes "lc_ConsoleLevel cfg \<le> TraceLevel" "\<And>f l. \<exists>h. NewHook f l = Inr h"
  shows "\<exists>std'. log_Init NewHook cfg std = Inr (std', None)"
proof -
  obtain h where "NewHook \<lparr>lf_Filename = lc_FileName cfg, lf_MaxSize = lc_MaxSize cfg, lf_MaxBackups = lc_MaxBackups cfg,
      lf_MaxAge = lc_MaxAge cfg, lf_Compress = False, lf_LocalTime = False\<rparr> (lc_FileLevel cfg) = Inr h"
    using assms(2) by blast
  with stdoutWriter_levels [OF assms(1)] stderrWriter_levels [OF assms(1)] show ?thesis
    by (auto simp: log_Init_def createLogFileHook_def)
qed

section \<open>The start\<close>

text \<open>The files of the certificate and of the key of a configuration.\<close>

definition cert_files :: "turbo_config \<Rightarrow> string \<times> string" where
  "cert_files config = GetCertDir (path_Join [env_DataDir (tc_Env config)]) (ToLower (node_type_String (tc_NodeType config)))"

lemma gateway_Run_eq:
  "gateway_Run C generated writeErr fs config g =
     gbind (NewSSLCertsFromFiles C generated writeErr fs (fst (cert_files config)) (snd (cert_files config)))
       (\<lambda>(fs', sslCerts). Inr (fs', sslCerts, connectRelay g ''127.0.0.1'' 443))"
  by (simp add: gateway_Run_def cert_files_def handleRelayInstruction_def split: prod.split)

definition default_config_value :: turbo_config where
  "default_config_value = \<lparr>tc_NodeType = Gateway, tc_Env = MainnetEnv, tc_Config = ex_log_config,
      tc_TxTraceLog = \<lparr>tt_Enabled = False, tt_MaxFileSize = 100, tt_MaxBackupFiles = 3\<rparr>\<rparr>"

lemma ToLower_GATEWAY: "ToLower (node_type_String Gateway) = ''gateway''"
  unfolding node_type_defs by code_simp

lemma path_datadir: "path_Join [''datadir''] = ''datadir''"
  by code_simp

lemma default_cert_files:
  "cert_files default_config_value = (''datadir/gateway/private/gateway_cert.pem'', ''datadir/gateway/private/gateway_key.pem'')"
  by (simp add: cert_files_def default_config_value_def MainnetEnv_def ToLower_GATEWAY path_datadir GetCertDir_gateway)

lemma gateway_flags_default: "gateway_flags (default_flags app) = (default_flags app)\<lparr>fl_DataDir := []\<rparr>"
  by (simp add: gateway_flags_def default_flags_def)

lemma NewLogFromCLI_DataDir [simp]: "NewLogFromCLI ParseLevel (ctx\<lparr>fl_DataDir := d\<rparr>) = NewLogFromCLI ParseLevel ctx"
  by (auto simp: NewLogFromCLI_def split: sum.split)

lemma NewTurboConfig_DataDir [simp]:
  "NewTurboConfigFromCLI ParseLevel (ctx\<lparr>fl_DataDir := d\<rparr>) = NewTurboConfigFromCLI ParseLevel ctx"
  by (auto simp: NewTurboConfigFromCLI_def split: sum.split)

text \<open>An outside for the examples: a node is its text, with an address and a key of its own.\<close>

definition ex_world :: "files \<Rightarrow> (string, unit, byte list, byte list, byte list) world" where
  "ex_world fs = \<lparr>wd_Parse = Inr, wd_HexToECDSA = (\<lambda>s. Inr ()), wd_ParseLevel = (\<lambda>s. if s = ''info'' then Inr InfoLevel else Inl s),
     wd_NewHook = ex_NewHook, wd_nodes = \<lparr>nd_IP = (\<lambda>n. ''10.0.0.2''), nd_TCP = (\<lambda>n. 30303), nd_Pubkey = (\<lambda>n. [4, 255]), nd_String = id\<rparr>,
     wd_crypto = ex_crypto, wd_files = fs, wd_tlsKey = Inr [7], wd_tlsWrite = None,
     wd_parseKey = (\<lambda>c. if c = [1] then Inr () else Inl ''bad''), wd_FromECDSA = (\<lambda>k. case k of None \<Rightarrow> [] | Some _ \<Rightarrow> [1]),
     wd_ethKey = Inr (), wd_ethWrite = None,
     wd_Start = (\<lambda>c. if ps_PrivateKey c = None then Some ''no key'' else None), wd_now = 0\<rparr>"

text \<open>
  Without any flag and with a certificate and its key in the data directory the program serves: it is a gateway of
  the main network without a p2p server, it holds the pair, changes no file, and its only connection is the
  one to the local relay, still to be dialled.
\<close>

lemma default_start:
  assumes "wd_ParseLevel W ''info'' = Inr InfoLevel" "\<And>f l. \<exists>h. wd_NewHook W f l = Inr h"
    and "wd_files W ''datadir/gateway/private/gateway_cert.pem'' = Some cert"
      "wd_files W ''datadir/gateway/private/gateway_key.pem'' = Some key"
    and "cr_pem_Decode (wd_crypto W) key = Some keyBlock" "cr_ParseECPrivateKey (wd_crypto W) keyBlock = Inr k"
    and "cr_pem_Decode (wd_crypto W) cert = Some certBlock" "cr_ParseCertificate (wd_crypto W) certBlock = Inr c"
    and "cr_X509KeyPair (wd_crypto W) cert key = Inr pair"
  shows "\<exists>certs g. runGateway W std (default_flags ''gateway'') = Inr (Serves (wd_files W) certs g None) \<and>
    LoadPrivateConfig certs = Inr \<lparr>tls_Certificates = [pair], tls_InsecureSkipVerify = True\<rparr> \<and>
    g_Connections g = [TbConn (NewSSLConnection ''127.0.0.1'' 443 100000)] \<and> gateway_ok g"
proof -
  have cfg: "NewTurboConfigFromCLI (wd_ParseLevel W) (default_flags ''gateway'') = Inr default_config_value"
    using default_config [of "wd_ParseLevel W"] assms(1) by (simp add: default_config_value_def)
  have eth: "NewPresetEthConfigFromCLI (wd_Parse W) (wd_HexToECDSA W) (default_flags ''gateway''\<lparr>fl_DataDir := []\<rparr>) = Inr newEthereumMainnetConfig"
    by (simp add: NewPresetEthConfigFromCLI_def NewEthereumPreset_def cli_peers_def default_flags_def newEthereumMainnetConfig_def unknownConfig_def)
  have peers: "cf_StaticPeers newEthereumMainnetConfig = []" by (simp add: newEthereumMainnetConfig_def unknownConfig_def)
  have "lc_ConsoleLevel (tc_Config default_config_value) \<le> TraceLevel"
    by (simp add: default_config_value_def ex_log_config_def level_defs)
  with log_Init_returns obtain std' where log: "log_Init (wd_NewHook W) (tc_Config default_config_value) std = Inr (std', None)"
    using assms(2) by metis
  obtain certs where certs: "NewSSLCertsFromFiles (wd_crypto W) (wd_tlsKey W) (wd_tlsWrite W) (wd_files W)
      (fst (cert_files default_config_value)) (snd (cert_files default_config_value)) = Inr (wd_files W, certs)"
    "LoadPrivateConfig certs = Inr \<lparr>tls_Certificates = [pair], tls_InsecureSkipVerify = True\<rparr>"
    using matching_files_give_pair [of "wd_files W" "''datadir/gateway/private/gateway_cert.pem''" cert
        "''datadir/gateway/private/gateway_key.pem''" key "wd_crypto W", OF assms(3-9)] unfolding default_cert_files fst_conv snd_conv by blast
  let ?g = "connectRelay (NewGateway NewTurboBridge [] (wd_now W) (generatePeers (nd_String (wd_nodes W)) [])) ''127.0.0.1'' 443"
  have "runGateway W std (default_flags ''gateway'') = Inr (Serves (wd_files W) certs ?g None)"
    by (simp add: runGateway_def gateway_flags_default cfg eth peers log gateway_Run_eq certs(1))
  moreover have "g_Connections ?g = [TbConn (NewSSLConnection ''127.0.0.1'' 443 100000)]"
    by (simp add: connectRelay_def OnConnEstablished_def NewGateway_def)
  ultimately show ?thesis using certs(2) gateway_ok_relay [OF gateway_ok_new] by blast
qed

lemma default_start_example:
  "\<exists>certs g. let fs = [''datadir/gateway/private/gateway_cert.pem'' \<mapsto> [45, 3], ''datadir/gateway/private/gateway_key.pem'' \<mapsto> [45, 3]] in
     runGateway (ex_world fs) ex_std_logger (default_flags ''gateway'') =
       Inr (Serves fs certs (g :: (unit tls_socket, (string, unit) eth_config) gateway)
         (None :: ((string, unit) p2p_config \<times> (unit, unit, string, unit) handler) option)) \<and>
     LoadPrivateConfig certs = Inr \<lparr>tls_Certificates = [[45, 3]], tls_InsecureSkipVerify = True\<rparr> \<and> length (g_Connections g) = 1"
proof -
  let ?fs = "[''datadir/gateway/private/gateway_cert.pem'' \<mapsto> [45, 3], ''datadir/gateway/private/gateway_key.pem'' \<mapsto> [45, 3]] :: files"
  have "\<exists>certs (g :: (unit tls_socket, (string, unit) eth_config) gateway).
      runGateway (ex_world ?fs) ex_std_logger (default_flags ''gateway'') =
        Inr (Serves (wd_files (ex_world ?fs)) certs g (None :: ((string, unit) p2p_config \<times> (unit, unit, string, unit) handler) option)) \<and>
      LoadPrivateConfig certs = Inr \<lparr>tls_Certificates = [[45, 3]], tls_InsecureSkipVerify = True\<rparr> \<and>
      g_Connections g = [TbConn (NewSSLConnection ''127.0.0.1'' 443 100000)] \<and> gateway_ok g"
    by (rule default_start [of _ "[45, 3]" "[45, 3]" "[3]" "[3]" "[3]" "[3]"]) (simp_all add: ex_world_def ex_crypto_def ex_NewHook_def)
  then show ?thesis by (auto simp: ex_world_def Let_def)
qed

section \<open>Without a certificate\<close>

text \<open>The results \<open>NewTLS\<close> can have with given certificates, and the events in which connections dial with them.\<close>

definition tls_result_ok :: "('k, 'c, 'p) ssl_certs \<Rightarrow> 's tls_socket option \<times> string option \<Rightarrow> bool" where
  "tls_result_ok certs r =
     (case r of
        (Some NilTLS, Some err) \<Rightarrow> True
      | (Some (TLSSocket s), None) \<Rightarrow> sc_privateKeyPair certs \<noteq> None
      | _ \<Rightarrow> False)"

lemma NewTLS_result_ok: "tls_result_ok certs (NewTLS D H ip port certs)"
  by (auto simp: NewTLS_def tls_result_ok_def LoadPrivateConfig_def split: sum.split option.split)

fun dials_with :: "('k, 'c, 'p) ssl_certs \<Rightarrow> ('s tls_socket, 'cfg) gateway \<Rightarrow> ('s tls_socket, 'cfg) gw_event \<Rightarrow> bool" where
  "dials_with certs g (GConn i (CConnect result now)) = tls_result_ok certs result"
| "dials_with certs g e = True"

definition all_closed :: "('k, 'cfg) gateway \<Rightarrow> bool" where
  "all_closed g \<longleftrightarrow> (\<forall>conn \<in> set (g_Connections g). \<not> conn_IsOpen conn)"

lemma all_closed_broadcast:
  assumes "all_closed g"
  shows "fst (gateway_broadcast cl g msg source to) = g" "SentPeers (snd (gateway_broadcast cl g msg source to)) = 0"
proof -
  have "\<not> addressed source to conn" if "conn \<in> set (g_Connections g)" for conn
    using assms that by (simp add: all_closed_def addressed_def)
  then have "map (\<lambda>c. if addressed source to c then with_msg msg c else c) (g_Connections g) = g_Connections g"
    "filter (\<lambda>c. addressed source to c \<and> has_socket c) (g_Connections g) = []"
    by (simp_all add: map_idI filter_empty_conv)
  then show "fst (gateway_broadcast cl g msg source to) = g" "SentPeers (snd (gateway_broadcast cl g msg source to)) = 0"
    by (simp_all add: broadcast_eq count_results_def zero_results_def)
qed

lemma sendLoop_round_closed:
  "sendLoop_round Pack s msgs env = Inr s' \<Longrightarrow> \<not> c_connectionOpen s \<Longrightarrow> \<not> c_connectionOpen s'"
  by (induction msgs arbitrary: s env) (auto simp: gbind_Inr_iff packAndWrite_def split: list.splits prod.splits)

lemma conn_step_closed:
  assumes "conn_step conn ev = Inr conn'" "\<not> conn_IsOpen conn" "\<And>r now. ev = CConnect r now \<Longrightarrow> snd r \<noteq> None"
  shows "\<not> conn_IsOpen conn'"
  using assms
  by (cases "(conn, ev)" rule: conn_step.cases)
    (auto simp: conn_IsOpen_def ssl_Connect_def ssl_Disable_def ssl_close_def Let_def gbind_Inr_iff split: option.splits
      dest: sendLoop_round_closed)

text \<open>Relaying leaves the connections of such a gateway alone.\<close>

lemma all_closed_update [simp]:
  "all_closed (g\<lparr>g_TxStore := st\<rparr>) = all_closed g" "all_closed (g\<lparr>g_bridge := br\<rparr>) = all_closed g"
  "all_closed (g\<lparr>g_asyncMsgChannel := c\<rparr>) = all_closed g" "all_closed (g\<lparr>g_blockProcessor := bp\<rparr>) = all_closed g"
  by (simp_all add: all_closed_def)

lemma all_closed_relay_tx: "all_closed g \<Longrightarrow> all_closed (relay_tx rd g tx source r)"
  by (simp add: relay_tx_def Let_def all_closed_broadcast)

lemma all_closed_step:
  assumes "all_closed g" "sc_privateKeyPair certs = None" "dials_with certs g e" "gw_step G g e = Inr g'"
  shows "all_closed g'"
  using assms(4,1)
proof (rule gw_step_keeps)
  show "all_closed g'" if "processTransaction rd g tx source = Inr g'" "all_closed g" for rd g tx source g'
    using that by (auto simp: processTransaction_def gbind_Inr_iff Let_def all_closed_relay_tx split: if_splits)
  show "all_closed (processBlockFromBlockchain G rd g b source)" if "all_closed g" for g rd b source
    using that by (simp add: processBlockFromBlockchain_def Let_def all_closed_broadcast split: prod.split)
  show "all_closed (g\<lparr>g_Connections := (g_Connections g)[i := conn']\<rparr>)"
    if "e = GConn i ev" "all_closed g" "i < length (g_Connections g)" "conn_step (g_Connections g ! i) ev = Inr conn'" for i ev conn'
  proof -
    have "snd r \<noteq> None" if "ev = CConnect r now" for r now
      using assms(2,3) \<open>e = GConn i ev\<close> that by (auto simp: tls_result_ok_def split: prod.splits option.splits tls_socket.splits)
    then have "\<not> conn_IsOpen conn'"
      using conn_step_closed [OF that(4)] that(2,3) by (auto simp: all_closed_def)
    then show ?thesis using that(2) set_update_subset_insert [of "g_Connections g" i conn'] by (auto simp: all_closed_def)
  qed
qed (auto simp: all_closed_def OnConnClosed_def connectRelay_def OnConnEstablished_def conn_IsOpen_def NewSSLConnection_def
    split: option.splits dest: remove_conn_set)

lemma all_closed_started: "all_closed (connectRelay (NewGateway bridge peers now text) ip port)"
  by (simp add: all_closed_def connectRelay_def OnConnEstablished_def NewGateway_def conn_IsOpen_def NewSSLConnection_def)

interpretation isolated: step_machine "connectRelay (NewGateway bridge peers now text) ip port" "gw_step G"
  "\<lambda>g e. sc_privateKeyPair certs = None \<and> dials_with certs g e" all_closed
  using all_closed_started all_closed_step by unfold_locales blast+

text \<open>
  C19. A gateway that starts without a certificate file is cut off: whatever happens afterwards, in whatever order, as long
  as its connections dial with the certificates it loaded, none of its connections is ever open, and a broadcast
  of any message changes nothing and is sent to nobody.
\<close>

theorem no_certificate_no_relay:
  assumes "gateway_Run C generated writeErr fs config (NewGateway bridge peers now text) = Inr (fs', certs, g)"
    and "fs (fst (cert_files config)) = None"
    and "go_admitted (gw_step G) (dials_with certs) g es" "go_run (gw_step G) g es = Inr g'"
  shows "(\<forall>conn \<in> set (g_Connections g'). \<not> conn_IsOpen conn) \<and>
    fst (gateway_broadcast cl g' msg source to) = g' \<and> SentPeers (snd (gateway_broadcast cl g' msg source to)) = 0"
proof -
  from assms(1) obtain files where new: "NewSSLCertsFromFiles C generated writeErr fs (fst (cert_files config)) (snd (cert_files config)) =
      Inr (files, certs)" and g: "g = connectRelay (NewGateway bridge peers now text) ''127.0.0.1'' 443"
    by (auto simp: gateway_Run_eq gbind_Inr_iff)
  have none: "sc_privateKeyPair certs = None"
    using NewSSLCertsFromFiles_pair [OF new] assms(2) by (cases "sc_privateKeyPair certs") auto
  have "go_admitted (gw_step G) (\<lambda>g e. sc_privateKeyPair certs = None \<and> dials_with certs g e) g es"
    using assms(3) none by (induction es arbitrary: g) (auto split: sum.split)
  then have "all_closed g'" using assms(4) unfolding g by (rule isolated.inv_reachable)
  with all_closed_broadcast show ?thesis by (auto simp: all_closed_def)
qed

theorem no_certificate_no_relay_witness:
  "\<exists>certs g g'. gateway_Run ex_crypto (Inr [7]) None Map.empty default_config_value (NewGateway NewTurboBridge [] 0 [] :: (unit tls_socket, unit) gateway) =
       Inr ([''datadir/gateway/private/gateway_key.pem'' \<mapsto> []], certs, g) \<and>
     go_run (gw_step ex_geth) g [GConn 0 (CConnect (NewTLS (\<lambda>addr d. Inr ()) (\<lambda>x c. Inr ()) ''127.0.0.1'' 443 certs) 5), GRelay ''10.0.0.1'' 443] = Inr g' \<and>
     length (g_Connections g') = 2 \<and> (\<forall>conn \<in> set (g_Connections g'). \<not> conn_IsOpen conn)"
proof -
  let ?start = "NewGateway NewTurboBridge [] 0 [] :: (unit tls_socket, unit) gateway"
  let ?certs = "\<lparr>sc_privateCertFile = ''datadir/gateway/private/gateway_cert.pem'', sc_privateKeyFile = ''datadir/gateway/private/gateway_key.pem'',
     sc_privateCert = None, sc_privateKey = [7], sc_privateKeyPair = None\<rparr> :: (byte list, byte list, byte list) ssl_certs"
  let ?g = "connectRelay ?start ''127.0.0.1'' 443"
  let ?es = "[GConn 0 (CConnect (NewTLS (\<lambda>addr d. Inr ()) (\<lambda>x c. Inr ()) ''127.0.0.1'' 443 ?certs) 5), GRelay ''10.0.0.1'' 443]"
  have run: "gateway_Run ex_crypto (Inr [7]) None Map.empty default_config_value ?start =
      Inr ([''datadir/gateway/private/gateway_key.pem'' \<mapsto> []], ?certs, ?g)"
    by (simp add: gateway_Run_eq default_cert_files NewSSLCertsFromFiles_def ex_crypto_def Let_def)
  have adm: "go_admitted (gw_step ex_geth) (dials_with ?certs) ?g ?es"
    using NewTLS_result_ok by (auto split: sum.split)
  obtain g' where g': "go_run (gw_step ex_geth) ?g ?es = Inr g'" "length (g_Connections g') = 2"
    by (simp add: with_conn_def connectRelay_def OnConnEstablished_def NewGateway_def)
  from no_certificate_no_relay [OF run _ adm g'(1)] have "\<forall>conn \<in> set (g_Connections g'). \<not> conn_IsOpen conn"
    by (simp add: default_cert_files)
  with run g' show ?thesis by blast
qed

text \<open>
  C38. A damaged key file ends the program without a word: with a peer, no key on the command line, and a key file of the
  Ethereum side that does not hold a key, a program that got that far overwrites the file with the encoding of
  a nil key, fails to start its server, which needs a key, and ends with success.
\<close>

theorem corrupt_key_quits:
  fixes W :: "('n, 'e, 'k, 'c, 'p) world"
  assumes "NewTurboConfigFromCLI (wd_ParseLevel W) (gateway_flags flags) = Inr cfg"
    and "NewPresetEthConfigFromCLI (wd_Parse W) (wd_HexToECDSA W) (gateway_flags flags) = Inr ec"
    and "cf_PrivateKey ec = None" "blockchain_peers (wd_nodes W) (cf_StaticPeers ec) [] = Inr (e # es)"
    and "log_Init (wd_NewHook W) (tc_Config cfg) std = Inr (std', None)"
    and "NewSSLCertsFromFiles (wd_crypto W) (wd_tlsKey W) (wd_tlsWrite W) (wd_files W) (fst (cert_files cfg)) (snd (cert_files cfg)) =
      Inr (fs, certs)"
    and "fs ''.gatewaykey'' = Some content" "wd_parseKey W content = Inl err" "wd_ethWrite W = None"
    and "\<And>config. ps_PrivateKey config = None \<Longrightarrow> \<exists>e. wd_Start W config = Some e"
  shows "runGateway W std flags = (Inr (EndsQuietly (fs(''.gatewaykey'' \<mapsto> wd_FromECDSA W None))) ::
    ('n, 'e, 'k, 'c, 'p, 's, 't, 'x) program_outcome go)"
proof -
  have dir: "path_Join [fl_DataDir (gateway_flags flags), ''.gatewaykey''] = ''.gatewaykey''"
    using path_Join_examples(2) by (simp add: gateway_flags_def)
  obtain config and h :: "('t, 'x, 'n, 'e) handler" where server: "NewServer (wd_parseKey W) (wd_FromECDSA W) (wd_ethKey W) (wd_ethWrite W) fs ec NewTurboBridge
      (fl_DataDir (gateway_flags flags)) = (fs(''.gatewaykey'' \<mapsto> wd_FromECDSA W None), [GeneratedKey ''.gatewaykey''], Inr (config, h))"
    "ps_PrivateKey config = None"
    using assms(3,7-9) by (simp add: NewServer_def LoadOrGeneratePrivateKey_def LoadECDSA_def SaveECDSA_def dir Let_def)
  obtain e where "wd_Start W config = Some e" using assms(10) server(2) by blast
  with assms(1,2,4-6) server(1) show ?thesis by (simp add: runGateway_def gateway_Run_eq)
qed

theorem corrupt_key_quits_witness:
  "runGateway (ex_world [''.gatewaykey'' \<mapsto> [9, 9]]) ex_std_logger (default_flags ''gateway''\<lparr>fl_Enodes := Some ''enode''\<rparr>) =
     Inr (EndsQuietly [''.gatewaykey'' \<mapsto> [], ''datadir/gateway/private/gateway_key.pem'' \<mapsto> []] ::
       (string, unit, byte list, byte list, byte list, unit, unit, unit) program_outcome)"
proof -
  let ?W = "ex_world [''.gatewaykey'' \<mapsto> [9, 9]]" and ?flags = "default_flags ''gateway''\<lparr>fl_Enodes := Some ''enode''\<rparr>"
  let ?fs = "[''.gatewaykey'' \<mapsto> [9, 9], ''datadir/gateway/private/gateway_key.pem'' \<mapsto> []] :: files"
  let ?ec = "newEthereumMainnetConfig\<lparr>cf_StaticPeers := [\<lparr>pi_Enode = ''enode'', pi_EthWsURI = []\<rparr>]\<rparr> :: (string, unit) eth_config"
  have flags: "gateway_flags ?flags = ?flags\<lparr>fl_DataDir := []\<rparr>" by (simp add: gateway_flags_def default_flags_def)
  have "NewTurboConfigFromCLI (wd_ParseLevel ?W) ?flags = NewTurboConfigFromCLI (wd_ParseLevel ?W) (default_flags ''gateway'')"
    by (auto simp: NewTurboConfigFromCLI_def NewLogFromCLI_def split: sum.split)
  then have cfg: "NewTurboConfigFromCLI (wd_ParseLevel ?W) (gateway_flags ?flags) = Inr default_config_value"
    using default_config [of "wd_ParseLevel ?W"] by (simp add: flags ex_world_def default_config_value_def)
  have ec: "NewPresetEthConfigFromCLI (wd_Parse ?W) (wd_HexToECDSA ?W) (gateway_flags ?flags) = Inr ?ec"
    by (simp add: gateway_flags_def NewPresetEthConfigFromCLI_def NewEthereumPreset_def cli_peers_def default_flags_def
        newEthereumMainnetConfig_def unknownConfig_def ex_world_def)
  have peers: "blockchain_peers (wd_nodes ?W) (cf_StaticPeers ?ec) [] =
      Inr [\<lparr>ep_IP = ''10.0.0.2'', ep_Port = 30303, ep_PublicKey = hex_EncodeToString [255]\<rparr>]"
    by (simp add: ex_world_def reslice_def)
  have "lc_ConsoleLevel (tc_Config default_config_value) \<le> TraceLevel"
    by (simp add: default_config_value_def ex_log_config_def level_defs)
  then obtain std' where log: "log_Init (wd_NewHook ?W) (tc_Config default_config_value) ex_std_logger = Inr (std', None)"
    using log_Init_returns [of "tc_Config default_config_value" "wd_NewHook ?W"] by (auto simp: ex_world_def ex_NewHook_def)
  have certs: "\<exists>certs. NewSSLCertsFromFiles (wd_crypto ?W) (wd_tlsKey ?W) (wd_tlsWrite ?W) (wd_files ?W)
      (fst (cert_files default_config_value)) (snd (cert_files default_config_value)) = Inr (?fs, certs)"
    by (simp add: default_cert_files NewSSLCertsFromFiles_def ex_world_def ex_crypto_def Let_def)
  then obtain certs where c: "NewSSLCertsFromFiles (wd_crypto ?W) (wd_tlsKey ?W) (wd_tlsWrite ?W) (wd_files ?W)
      (fst (cert_files default_config_value)) (snd (cert_files default_config_value)) = Inr (?fs, certs)" by blast
  have "cf_PrivateKey ?ec = None" by (simp add: newEthereumMainnetConfig_def unknownConfig_def)
  from corrupt_key_quits [OF cfg ec this peers log c, of "[9, 9]"] show ?thesis
    by (simp add: ex_world_def fun_upd_twist)
qed

end
