(* ===== verification/Gateway_Types.thy ===== *)
theory Gateway_Types
  imports Gateway_Flow
begin

text \<open>
  The types of what flows through the gateway. A Go array has its length by its type; here it is a list, and
  this theory shows that every hash, every source ID, every sender and every broadcast type the gateway stores or
  queues has the length of its array, whatever bytes arrive from relays. A message on a send queue of this type
  packs into a frame, unless it is the nil broadcast message.
\<close>

section \<open>Typed values\<close>

text \<open>
  A transaction message has a hash of 32 bytes, a source ID of 16 and a sender of 20, a broadcast message has a type of 4
  bytes. What stands on a send queue has a content as well.
\<close>

definition tx_message_typed :: "tx_message \<Rightarrow> bool" where
  "tx_message_typed m \<longleftrightarrow> bh_ok m \<and> length (tm_sender m) = SenderLen"

definition broadcast_typed :: "broadcast \<Rightarrow> bool" where
  "broadcast_typed b \<longleftrightarrow> bh_ok b \<and> length (broadcastType b) = BroadcastTypeLen"

definition msg_typed :: "node_msg \<Rightarrow> bool" where
  "msg_typed msg =
     (case msg of TxMsg m \<Rightarrow> tx_message_typed m | BroadcastMsg None \<Rightarrow> True | BroadcastMsg (Some b) \<Rightarrow> broadcast_typed b)"

definition queued_typed :: "node_msg \<Rightarrow> bool" where
  "queued_typed msg \<longleftrightarrow> msg_typed msg \<and> (\<forall>m. msg = TxMsg m \<longrightarrow> tm_content m \<noteq> [])"

definition conn_typed :: "'k node_conn \<Rightarrow> bool" where
  "conn_typed conn = (case conn of TbConn s \<Rightarrow> list_all queued_typed (c_sendMessages s) | BlockchainConn e \<Rightarrow> True)"

definition store_typed :: "'a tb_tx_store \<Rightarrow> bool" where
  "store_typed t \<longleftrightarrow> (\<forall>h tx. hashToContent t h = Some tx \<longrightarrow> hash_ok h \<and> hash_ok (tx_hash tx))"

definition chan_typed :: "('a \<Rightarrow> bool) \<Rightarrow> 'a chan \<Rightarrow> bool" where
  "chan_typed R c = list_all R (ch_items c)"

definition txs_typed :: "tb_transaction list \<Rightarrow> bool" where
  "txs_typed txs = list_all (\<lambda>t. hash_ok (tx_hash t)) txs"

definition block_typed :: "tb_block \<Rightarrow> bool" where
  "block_typed b = hash_ok (tb_hash b)"

definition bridge_typed :: "(tb_transaction, tb_block, 'cfg) turbo_bridge \<Rightarrow> bool" where
  "bridge_typed b \<longleftrightarrow>
     chan_typed (\<lambda>i. txs_typed (tf_Transactions i)) (br_transactionsFromNode b) \<and>
     chan_typed txs_typed (br_transactionsFromBDN b) \<and>
     chan_typed (\<lambda>i. list_all hash_ok (ta_Hashes i)) (br_transactionHashesFromNode b) \<and>
     chan_typed (\<lambda>i. list_all hash_ok (ta_Hashes i)) (br_transactionHashesRequests b) \<and>
     chan_typed (\<lambda>i. block_typed (bf_Block i)) (br_blocksFromNode b) \<and>
     chan_typed block_typed (br_blocksFromBDN b) \<and>
     chan_typed (\<lambda>i. block_typed (bf_Block i)) (br_confirmedBlockFromNode b)"

definition gateway_typed :: "('k, 'cfg) gateway \<Rightarrow> bool" where
  "gateway_typed g \<longleftrightarrow> store_typed (g_TxStore g) \<and> bridge_typed (g_bridge g) \<and>
     chan_typed (\<lambda>(msg, source). msg_typed msg) (g_asyncMsgChannel g) \<and> list_all conn_typed (g_Connections g)"

text \<open>The inputs that are Go values and so have their types: what is sent on the bridge or to the background.\<close>

fun bridge_event_typed :: "(tb_transaction, tb_block, 'cfg) bridge_event \<Rightarrow> bool" where
  "bridge_event_typed (EvAnnounceTransactionHashes p hs) = list_all hash_ok hs"
| "bridge_event_typed (EvRequestTransactionsFromNode p hs) = list_all hash_ok hs"
| "bridge_event_typed (EvSendTransactionsFromBDN txs) = txs_typed txs"
| "bridge_event_typed (EvSendTransactionsToBDN txs e) = txs_typed txs"
| "bridge_event_typed (EvSendConfirmedBlockToGateway k e) = block_typed k"
| "bridge_event_typed (EvSendBlockToBDN k e) = block_typed k"
| "bridge_event_typed (EvSendBlockToNode k) = block_typed k"
| "bridge_event_typed _ = True"

fun event_typed :: "('k, 'cfg) gw_event \<Rightarrow> bool" where
  "event_typed (GBridge e) = bridge_event_typed e"
| "event_typed (GBackground rd msg i) = msg_typed msg"
| "event_typed _ = True"

lemmas message_types = tx_message_typed_def broadcast_typed_def bh_ok_def SenderLen_def BroadcastTypeLen_def

section \<open>Channels, the bridge and the store\<close>

lemma chan_typed_ops:
  "chan_typed R (make_chan n)"
  "chan_typed R c \<Longrightarrow> R x \<Longrightarrow> try_send c x = Some c' \<Longrightarrow> chan_typed R c'"
  "chan_typed R c \<Longrightarrow> ch_recv c = Some (y, c') \<Longrightarrow> chan_typed R c'"
  "chan_typed R c \<Longrightarrow> ch_recv c = Some (y, c') \<Longrightarrow> R y"
  by (auto simp: chan_typed_def make_chan_def try_send_def ch_recv_def split: if_splits list.splits)

lemma bridge_typed_new: "bridge_typed NewTurboBridge"
  by (simp add: bridge_typed_def NewTurboBridge_def chan_typed_ops(1))

lemma chan_typed_send: "try_send c x = Some c' \<Longrightarrow> chan_typed R c' = (chan_typed R c \<and> R x)"
  by (auto simp: chan_typed_def try_send_def split: if_splits)

lemma chan_typed_recv: "ch_recv c = Some (y, c') \<Longrightarrow> chan_typed R c \<Longrightarrow> chan_typed R c'"
  by (rule chan_typed_ops(3))

lemma bridge_typed_step: "bridge_typed b \<Longrightarrow> bridge_event_typed e \<Longrightarrow> bridge_typed (bridge_step b e)"
  unfolding bridge_typed_def
  by (cases e; simp add: bridge_sends bridge_receives chan_typed_send split: option.split;
      auto dest: chan_typed_recv)

lemma txs_typed_recv:
  "bridge_typed b \<Longrightarrow> ReceiveNodeTransactions b = Some (item, br) \<Longrightarrow> t \<in> set (tf_Transactions item) \<Longrightarrow> hash_ok (tx_hash t)"
  by (auto simp: bridge_typed_def ReceiveNodeTransactions_def txs_typed_def list_all_iff dest: chan_typed_ops(4))

lemma block_typed_recv: "bridge_typed b \<Longrightarrow> ReceiveBlockFromNode b = Some (item, br) \<Longrightarrow> block_typed (bf_Block item)"
  by (auto simp: bridge_typed_def ReceiveBlockFromNode_def dest: chan_typed_ops(4))

lemma add_final_hash: "tx_hash (add_final Next t h content txID n ts) = tx_hash (add_base t h n ts)"
  by (simp add: add_final_def AddTxID_def SetContent_def)

lemma add_base_typed: "store_typed t \<Longrightarrow> hash_ok h \<Longrightarrow> hash_ok (tx_hash (add_base t h n ts))"
  by (auto simp: add_base_def store_typed_def split: option.split)

lemma store_typed_Add:
  assumes "Add Next t now ne na h content txID n ts = Inr (t', r)" "store_typed t" "hash_ok h"
  shows "store_typed t' \<and> (\<forall>tx. Transaction r = Some tx \<longrightarrow> hash_ok (tx_hash tx)) \<and> (NewContent r \<longrightarrow> slice_elems content \<noteq> [])"
  using assms(1)
proof (cases rule: Add_cases)
  case (inserted t0)
  then have "store_typed t0" using assms(2) by (simp add: store_typed_def)
  from add_base_typed [OF this assms(3)] have "hash_ok (tx_hash (add_final Next t0 h content txID n ts))" by (simp add: add_final_hash)
  with \<open>store_typed t0\<close> assms(3) inserted show ?thesis by (auto simp: store_simps store_typed_def zero_result_def)
qed (use assms in \<open>auto simp: zero_result_def store_typed_def\<close>)

section \<open>Messages\<close>

lemma length_copy_array [simp]: "length (copy_array arr src) = length arr"
  by (simp add: copy_array_def)

lemma Header_Unpack_keeps:
  "Header_Unpack b buf = Inr b' \<Longrightarrow> \<exists>t. b' = b\<lparr>msgType := t\<rparr>"
  by (auto simp: Header_Unpack_def gbind_Inr_iff)

lemma BroadcastHeader_Unpack_typed:
  fixes m :: tx_message
  shows "BroadcastHeader_Unpack m buf = Inr (m', e) \<Longrightarrow> tx_message_typed m \<Longrightarrow> tx_message_typed m'"
  by (auto simp: BroadcastHeader_Unpack_def gbind_Inr_iff Let_def message_types split: option.splits dest!: Header_Unpack_keeps)

lemma Tx_Unpack_typed: "Tx_Unpack now m buf = Inr (m', e) \<Longrightarrow> tx_message_typed m \<Longrightarrow> tx_message_typed m'"
  by (auto simp: Tx_Unpack_def gbind_Inr_iff Let_def message_types split: option.splits prod.splits
      dest!: BroadcastHeader_Unpack_typed)

lemma NewTx_typed [simp]: "tx_message_typed (Messages.NewTx h content n now) = hash_ok h"
  by (simp add: message_types Messages.NewTx_def hash_ok_def SourceIDLen_def)

lemma relay_ProcessMessage_typed: "relay_ProcessMessage now frame = Inr (Some tx) \<Longrightarrow> tx_message_typed tx"
  by (auto simp: relay_ProcessMessage_def gbind_Inr_iff empty_tx_message_def message_types zero_hash_def SHA256HashLen_def SourceIDLen_def
      split: if_splits dest!: Tx_Unpack_typed)

lemma BxBlockToBroadcast_typed:
  "BxBlockToBroadcast G bp ne na block n = (bp', Inr (m, ids)) \<Longrightarrow> block_typed block \<Longrightarrow> broadcast_typed m"
  by (auto simp: BxBlockToBroadcast_def Let_def NewBlockBroadcast_def block_typed_def hash_ok_def message_types SourceIDLen_def
      bytes_of_def split: if_splits sum.splits)

section \<open>The steps of the gateway\<close>

lemma conn_typed_with_msg: "conn_typed conn \<Longrightarrow> queued_typed msg \<Longrightarrow> conn_typed (with_msg msg conn)"
  by (auto simp: conn_typed_def with_msg_def split: node_conn.splits)

lemma gateway_typed_broadcast:
  "gateway_typed g \<Longrightarrow> queued_typed msg \<Longrightarrow> gateway_typed (fst (gateway_broadcast cl g msg source to))"
  by (auto simp: gateway_typed_def broadcast_eq list_all_iff conn_typed_with_msg)

lemma gateway_typed_bridge:
  "gateway_typed g \<Longrightarrow> bridge_event_typed ev \<Longrightarrow> gateway_typed (g\<lparr>g_bridge := bridge_step (g_bridge g) ev\<rparr>)"
  by (simp add: gateway_typed_def bridge_typed_step)

lemma relay_tx_typed:
  assumes "gateway_typed g" "tx_message_typed tx" "tm_content tx \<noteq> []" "\<And>t. Transaction r = Some t \<Longrightarrow> hash_ok (tx_hash t)"
  shows "gateway_typed (relay_tx rd g tx source r)"
proof -
  let ?m = "TxMsg ((SetSender tx (Sender r))\<lparr>tm_timestamp := tr_stamp rd\<rparr>)"
  let ?ts = "case Transaction r of None \<Rightarrow> [] | Some t \<Rightarrow> [t]"
  define g1 where "g1 = (if \<not> IsRelay (conn_Info source) then fst (gateway_broadcast (tr_close rd) g ?m (Some source) RelayTransaction) else g)"
  have "queued_typed ?m" using assms(2,3) by (simp add: queued_typed_def msg_typed_def message_types SetSender_def)
  then have g1: "gateway_typed g1" using assms(1) by (simp add: g1_def gateway_typed_broadcast)
  have "txs_typed ?ts" using assms(4) by (auto simp: txs_typed_def split: option.split)
  then have "gateway_typed (g1\<lparr>g_bridge := fst (SendTransactionsFromBDN (g_bridge g1) ?ts)\<rparr>)"
    using gateway_typed_bridge [OF g1, of "EvSendTransactionsFromBDN ?ts"] by simp
  with g1 show ?thesis by (simp add: relay_tx_def g1_def [symmetric] Let_def)
qed

lemma processTransaction_typed:
  assumes "processTransaction rd g tx source = Inr g'" "gateway_typed g" "tx_message_typed tx"
  shows "gateway_typed g'"
proof -
  from assms(1) obtain st r where
    a: "Add emptyTxIDAssigner_Next (g_TxStore g) (tr_age rd) (tr_exists rd) (tr_add rd) (bh_hash tx) (Some (tm_content tx))
      (tm_txID tx) (bh_networkNum tx) (tr_now rd) = Inr (st, r)" and
    g': "g' = (if NewContent r \<or> Reprocess r then relay_tx rd (g\<lparr>g_TxStore := st\<rparr>) tx source r else g\<lparr>g_TxStore := st\<rparr>)"
    by (auto simp: processTransaction_def gbind_Inr_iff Let_def split: if_splits)
  have h: "hash_ok (bh_hash tx)" using assms(3) by (simp add: message_types hash_ok_def)
  have s: "store_typed (g_TxStore g)" using assms(2) by (simp add: gateway_typed_def)
  note st = store_typed_Add [OF a s h]
  then have "gateway_typed (g\<lparr>g_TxStore := st\<rparr>)" using assms(2) by (simp add: gateway_typed_def)
  then show ?thesis using g' st assms(3) Add_not_Reprocess [OF a] by (auto intro: relay_tx_typed)
qed

lemma processBlock_typed:
  "gateway_typed g \<Longrightarrow> block_typed b \<Longrightarrow> gateway_typed (processBlockFromBlockchain G rd g b source)"
proof -
  assume g: "gateway_typed g" and b: "block_typed b"
  obtain bp r where x: "BxBlockToBroadcast G (g_blockProcessor g) (tr_exists rd) (tr_add rd) b 0 = (bp, r)" by fastforce
  have "queued_typed (BroadcastMsg (case r of Inl err \<Rightarrow> None | Inr (m, ids) \<Rightarrow> Some m))"
    using x b by (cases r) (auto simp: queued_typed_def msg_typed_def dest: BxBlockToBroadcast_typed)
  moreover have "gateway_typed (g\<lparr>g_blockProcessor := bp\<rparr>)" using g by (simp add: gateway_typed_def)
  ultimately show ?thesis by (simp add: processBlockFromBlockchain_def x gateway_typed_broadcast)
qed

lemma sendLoop_round_typed:
  assumes "sendLoop_round Pack s msgs env = Inr s'" "list_all R (c_sendMessages s)"
  shows "list_all R (c_sendMessages s')"
  using sendLoop_round_queue [OF assms(1)] assms(2) by (auto simp: list_all_iff dest: in_set_dropD)

lemma conn_step_typed: "conn_step conn ev = Inr conn' \<Longrightarrow> conn_typed conn \<Longrightarrow> conn_typed conn'"
  by (cases "(conn, ev)" rule: conn_step.cases)
    (auto simp: conn_typed_def ssl_Connect_def ssl_Disable_def ssl_close_def Let_def gbind_Inr_iff
      split: option.splits if_splits intro: sendLoop_round_typed)

lemma gateway_typed_conns:
  "gateway_typed g \<Longrightarrow> i < length (g_Connections g) \<Longrightarrow> conn_step (g_Connections g ! i) ev = Inr conn' \<Longrightarrow>
     gateway_typed (g\<lparr>g_Connections := (g_Connections g)[i := conn']\<rparr>)"
  "gateway_typed g \<Longrightarrow> gateway_typed (fst (OnConnClosed g conn))"
  "gateway_typed g \<Longrightarrow> gateway_typed (connectRelay g ip port)"
  by (auto simp: gateway_typed_def list_all_iff OnConnClosed_def connectRelay_def OnConnEstablished_def conn_typed_def
      NewSSLConnection_def dest!: set_update_subset_insert [THEN subsetD] remove_conn_set conn_step_typed split: option.splits)

lemma gateway_typed_step:
  assumes "gateway_typed g" "event_typed e" "gw_step G g e = Inr g'"
  shows "gateway_typed g'"
proof -
  have txs: "gateway_typed (g\<lparr>g_bridge := br\<rparr>)" if "ReceiveNodeTransactions (g_bridge g) = Some (x, br)" for x br
    using gateway_typed_bridge [OF assms(1), of EvReceiveNodeTransactions] that by (simp add: after_recv_def)
  have blk: "gateway_typed (g\<lparr>g_bridge := br\<rparr>)" if "ReceiveBlockFromNode (g_bridge g) = Some (x, br)" for x br
    using gateway_typed_bridge [OF assms(1), of EvReceiveBlockFromNode] that by (simp add: after_recv_def)
  have typed: "bridge_typed (g_bridge g)" "chan_typed (\<lambda>(msg, source). msg_typed msg) (g_asyncMsgChannel g)"
    using assms(1) by (simp_all add: gateway_typed_def)
  show ?thesis
  proof (rule gw_step_keeps_given [of G g e g' gateway_typed tx_message_typed, OF assms(3,1)])
    show "tx_message_typed tx" if "ch_recv (g_asyncMsgChannel g) = Some ((TxMsg tx, source), c)" for tx source c
      using chan_typed_ops(4) [OF typed(2) that] by (simp add: msg_typed_def)
    show "gateway_typed (g\<lparr>g_asyncMsgChannel := c\<rparr>)"
      if "e = GBackground rd msg i" "try_send (g_asyncMsgChannel g) (msg, source) = Some c" for rd msg i source c
      using chan_typed_ops(2) [OF typed(2) _ that(2)] assms(1,2) that(1) by (simp add: gateway_typed_def)
    show "gateway_typed (g\<lparr>g_asyncMsgChannel := c\<rparr>)" if "ch_recv (g_asyncMsgChannel g) = Some (x, c)" for c x
      using chan_typed_ops(3) [OF typed(2) that] assms(1) by (simp add: gateway_typed_def)
    show "gateway_typed (processBlockFromBlockchain G rd (g\<lparr>g_bridge := br\<rparr>) (bf_Block b) source)"
      if "ReceiveBlockFromNode (g_bridge g) = Some (b, br)" for rd b br source
      using blk [OF that] block_typed_recv [OF typed(1) that] by (rule processBlock_typed)
  qed (use assms(1,2) txs typed(1) in
      \<open>auto intro: processTransaction_typed txs_typed_recv relay_ProcessMessage_typed gateway_typed_bridge gateway_typed_conns\<close>)
qed

lemma gateway_typed_new: "gateway_typed (NewGateway NewTurboBridge peers now text)"
  by (simp add: gateway_typed_def NewGateway_def NewTbTxStore_def store_typed_def bridge_typed_new chan_typed_ops(1))

interpretation typed: step_machine "NewGateway NewTurboBridge peers now text" "gw_step G" "\<lambda>g e. event_typed e" gateway_typed
  by unfold_locales (auto intro: gateway_typed_new gateway_typed_step)

section \<open>Packing what is queued\<close>

definition frame_size :: "node_msg \<Rightarrow> nat" where
  "frame_size msg = (case msg of TxMsg m \<Rightarrow> 93 + length (tm_content m) | BroadcastMsg None \<Rightarrow> 0 | BroadcastMsg (Some b) \<Rightarrow> broadcast_len b)"

lemma queued_packs:
  assumes "queued_typed msg" "msg \<noteq> BroadcastMsg None" "frame_size msg < 2 ^ 32"
  shows "\<exists>frame. node_msg_Pack msg = Inr (Inr frame) \<and> length frame = frame_size msg"
proof (cases msg)
  case (TxMsg m)
  with assms have "Tx_Pack m = Inr (packed_tx m)"
    by (intro Tx_Pack_layout) (auto simp: queued_typed_def msg_typed_def message_types frame_size_def)
  then show ?thesis using TxMsg assms
    by (simp add: node_msg_Pack_def frame_size_def packed_tx_def queued_typed_def msg_typed_def message_types TxType_def)
next
  case (BroadcastMsg x)
  with assms(2) obtain b where x: "x = Some b" by (cases x) auto
  with BroadcastMsg assms have b: "bh_ok b" "length (broadcastType b) = 4" "broadcast_len b < 2 ^ 32"
    by (auto simp: queued_typed_def msg_typed_def message_types frame_size_def)
  have "length (packed_broadcast b) = broadcast_len b"
    using b by (simp add: packed_broadcast_def length_broadcast_bytes BroadcastType_def) (simp add: broadcast_len_def)
  then show ?thesis using BroadcastMsg x Broadcast_Pack_layout [OF b] by (simp add: node_msg_Pack_def frame_size_def)
qed

text \<open>
  C13. The gateway keeps its types: fed in any order with any bytes from relays, any connection events and typed
  transactions, blocks and messages, every hash in the store and on the bridge has 32 bytes, and every message on a send
  queue is nil or has all its arrays at full length and, if it is a transaction, a content. So a queued message that
  is not nil and has less than 4 GB always packs, into a frame of the size its kind and content determine.
\<close>

theorem gateway_types_preserved:
  assumes "go_admitted (gw_step G) (\<lambda>g e. event_typed e) (NewGateway NewTurboBridge peers now text) es"
    and "go_run (gw_step G) (NewGateway NewTurboBridge peers now text) es = Inr g"
  shows "gateway_typed g \<and>
    (\<forall>s msg. TbConn s \<in> set (g_Connections g) \<longrightarrow> msg \<in> set (c_sendMessages s) \<longrightarrow> msg \<noteq> BroadcastMsg None \<longrightarrow>
       frame_size msg < 2 ^ 32 \<longrightarrow> (\<exists>frame. node_msg_Pack msg = Inr (Inr frame) \<and> length frame = frame_size msg))"
proof -
  have t: "gateway_typed g" using assms by (rule typed.inv_reachable)
  have "queued_typed msg" if "TbConn s \<in> set (g_Connections g)" "msg \<in> set (c_sendMessages s)" for s msg
    using t that by (auto simp: gateway_typed_def list_all_iff conn_typed_def)
  with t queued_packs show ?thesis by blast
qed

text \<open>The number of the messages on the queues of the relays.\<close>

definition queue_lengths :: "('k, 'cfg) gateway \<Rightarrow> nat list" where
  "queue_lengths g = map (\<lambda>c. case c of TbConn s \<Rightarrow> length (c_sendMessages s) | BlockchainConn e \<Rightarrow> 0) (g_Connections g)"

theorem gateway_types_preserved_witness:
  "\<exists>g :: (unit, unit) gateway. go_run (gw_step ex_geth) (NewGateway NewTurboBridge [] 0 []) [GRelay ''r'' 443,
      GConn 0 (CConnect (Some (), None) 1), GBridge (EvSendBlockToBDN ex_tb_block ex_endpoint), GBlock ex_trd] = Inr g \<and>
     gateway_typed g \<and> queue_lengths g = [1]"
proof -
  let ?es = "[GRelay ''r'' 443, GConn 0 (CConnect (Some (), None) 1), GBridge (EvSendBlockToBDN ex_tb_block ex_endpoint), GBlock ex_trd] :: (unit, unit) gw_event list"
  let ?init = "NewGateway NewTurboBridge [] 0 [] :: (unit, unit) gateway"
  obtain g where g: "go_run (gw_step ex_geth) ?init ?es = Inr g" "queue_lengths g = [1]"
    by (simp add: connectRelay_def OnConnEstablished_def NewGateway_def with_conn_def settle_def bridge_block_case_def
        ReceiveBlockFromNode_def SendBlockToBDN_def NewTurboBridge_def make_chan_def try_send_def ch_room_def ch_recv_def
        blockBacklog_def processBlockFromBlockchain_def broadcast_eq Let_def queue_lengths_def with_msg_def addressed_def relevant_def
        conn_Info_def ssl_Info_def conn_IsOpen_def conn_ID_def ssl_Connect_def NewSSLConnection_def node_type_defs split: prod.split)
  have "go_admitted (gw_step ex_geth) (\<lambda>g e. event_typed e) s ?es" for s
    by (simp add: block_typed_def ex_tb_block_def NewRawTbBlock_def split: sum.split)
  from gateway_types_preserved [OF this g(1)] g show ?thesis by blast
qed

end
