(* ===== verification/Block_Path.thy ===== *)
theory Block_Path
  imports Relay_Node
begin

text \<open>
  The way of a block from the Ethereum node to a relay, through every component: the backend adds it to the
  chain and sends the new heads over the bridge, the gateway takes them off, turns each into a message and
  queues it for the relays, the send loop of a connection writes the queue to its socket, and the relay
  at the other end takes the stream apart and prints the hashes.
\<close>

section \<open>From the backend to the bridge\<close>

lemma send_heads_items:
  "convertible G HH heads \<Longrightarrow>
     length (ch_items (br_blocksFromNode (h_bridge h))) + length heads \<le> ch_cap (br_blocksFromNode (h_bridge h)) \<Longrightarrow>
     \<exists>ks. ch_items (br_blocksFromNode (h_bridge (send_heads G HH clk e heads h))) = ch_items (br_blocksFromNode (h_bridge h)) @ ks \<and>
       list_all2 (\<lambda>i k. \<exists>now. BlockBlockchainToBDN G HH now i = Inr (bf_Block k)) heads ks"
proof (induction heads arbitrary: h)
  case Nil
  then show ?case by simp
next
  case (Cons i heads)
  obtain tb where tb: "BlockBlockchainToBDN G HH (clk (length heads)) i = Inr tb" using Cons.prems(1) unfolding convertible_def by (meson list.set_intros(1))
  obtain br where br: "SendBlockToBDN (h_bridge h) tb e = (br, None)"
    "ch_items (br_blocksFromNode br) = ch_items (br_blocksFromNode (h_bridge h)) @ [\<lparr>bf_Block = tb, bf_PeerEndpoint = e\<rparr>]"
    "ch_cap (br_blocksFromNode br) = ch_cap (br_blocksFromNode (h_bridge h))"
    using SendBlockToBDN_room [of "h_bridge h" tb e] Cons.prems(2) by auto
  let ?h1 = "h\<lparr>h_bridge := br, h_chain := MarkSentToBDN (h_chain h) (block_Hash HH (bi_Block i))\<rparr>"
  obtain ks where "ch_items (br_blocksFromNode (h_bridge (send_heads G HH clk e heads ?h1))) = ch_items (br_blocksFromNode br) @ ks"
    "list_all2 (\<lambda>i k. \<exists>now. BlockBlockchainToBDN G HH now i = Inr (bf_Block k)) heads ks"
    using Cons.IH [of ?h1] Cons.prems br(2,3) by (auto simp: convertible_def)
  with tb br(1,2) show ?case by (intro exI [of _ "\<lparr>bf_Block = tb, bf_PeerEndpoint = e\<rparr> # ks"]) auto
qed

lemma sent_items:
  assumes "hash_binds HH" "chain_ok HH (h_chain h)" "unat (NumberU64 (bi_Block b)) < 2 ^ 63"
    and add: "AddBlock HH (h_chain h) b BSBlockchain = Inr (c', n)"
    and new: "GetNewHeadsForBDN HH c' n = Inr (heads, er)" "convertible G HH heads" and "cf_BlockConfirmationsCount (h_config h) = 0"
    and room: "int (length (ch_items (br_blocksFromNode (h_bridge h)))) + n \<le> int (ch_cap (br_blocksFromNode (h_bridge h)))"
  shows "\<exists>h' ks. sendConfirmedBlocksToBDN G HH rd (h\<lparr>h_chain := c'\<rparr>) n e = Inr h' \<and>
     ch_items (br_blocksFromNode (h_bridge h')) = ch_items (br_blocksFromNode (h_bridge h)) @ ks \<and>
     list_all2 (\<lambda>i k. \<exists>now. BlockBlockchainToBDN G HH now i = Inr (bf_Block k)) (rev heads) ks"
proof -
  note bs = new_heads_unsent [OF assms(1-4) new(1)]
  let ?h0 = "h\<lparr>h_chain := c'\<rparr>"
  let ?h1 = "send_heads G HH (rd_clk rd) e (rev heads) ?h0"
  have ok: "chain_ok HH c'" using chain_ok_AddBlock [OF assms(1-4)] .
  obtain ks where ks: "ch_items (br_blocksFromNode (h_bridge ?h1)) = ch_items (br_blocksFromNode (h_bridge h)) @ ks"
    "list_all2 (\<lambda>i k. \<exists>now. BlockBlockchainToBDN G HH now i = Inr (bf_Block k)) (rev heads) ks"
    using send_heads_items [of G HH "rev heads" ?h0 "rd_clk rd" e] new(2) room bs(2) by (auto simp: convertible_def)
  obtain h' where h': "send_confirmation G HH (rd_clk rd (length heads)) e ?h1 = Inr h'"
    using send_confirmation_returns [of HH ?h1 G "rd_clk rd (length heads)" e] send_heads_chain_ok [of HH ?h0 G] ok assms(7) by auto
  have "br_blocksFromNode (h_bridge h') = br_blocksFromNode (h_bridge ?h1)"
    using send_confirmation_cases [OF h'] by (auto simp: confirm_to_gateway_frame)
  then show ?thesis using new(1) bs(1) h' ks by (intro exI [of _ h'] exI [of _ ks]) (simp add: sendConfirmedBlocksToBDN_def)
qed

section \<open>From the bridge to the queues\<close>

text \<open>The message a block becomes, and the blocks the gateway can turn into one a relay can read.\<close>

definition rlp_of :: "tb_block \<Rightarrow> bx_block_rlp" where
  "rlp_of b = \<lparr>bx_Header = tb_Header b, bx_Txs = map (\<lambda>tx. \<lparr>IsFullTransaction = True, ct_Transaction = bt_content tx\<rparr>) (tb_Txs b),
     bx_Trailer = tb_Trailer b, bx_TotalDifficulty = tb_TotalDifficulty b, bx_Number = tb_Number b\<rparr>"

definition relayable :: "('t, 'x) geth \<Rightarrow> tb_block \<Rightarrow> bool" where
  "relayable G b \<longleftrightarrow> hash_ok (tb_hash b) \<and> (\<exists>e. enc_bx G (rlp_of b) = Inr e \<and> length e < 2 ^ 32 - 90)"

lemma BxBlockToBroadcast_new:
  assumes "ShouldProcess bp ne (tb_hash b)" "relayable G b"
  shows "\<exists>m. BxBlockToBroadcast G bp ne na b n = (markProcessed bp na (tb_hash b), Inr (m, [])) \<and>
    sendable (BroadcastMsg (Some m)) \<and> bh_hash m = tb_hash b"
  using assms by (auto simp: BxBlockToBroadcast_def Let_def relayable_def rlp_of_def NewBlockBroadcast_def sendable_def hash_ok_def
      SourceIDLen_def bytes_of_def)

lemma ShouldProcess_other: "h' \<noteq> h \<Longrightarrow> ShouldProcess (markProcessed bp na h) ne h' = ShouldProcess bp ne h'"
  by (simp add: ShouldProcess_def markProcessed_def hh_Exists_def hash_String_inj)

lemma deliver_block:
  assumes "c_connectionOpen s" "c_Socket s \<noteq> None" "length (c_sendMessages s) < c_sendChannelSize s"
  shows "deliver (Some (BlockchainConn e)) RelayBlock msg (TbConn s) = TbConn (s\<lparr>c_sendMessages := c_sendMessages s @ [msg]\<rparr>)"
  using assms by (auto simp: deliver_def addressed_def relevant_def conn_Info_def ssl_Info_def conn_IsOpen_def conn_ID_def
      with_msg_def node_type_defs)

lemma gw_step_block:
  assumes "ch_items (br_blocksFromNode (g_bridge g)) = k # ks"
    and "ShouldProcess (g_blockProcessor g) (tr_exists rd) (tb_hash (bf_Block k))" "relayable G (bf_Block k)"
  shows "\<exists>g' m. gw_step G g (GBlock rd) = Inr g' \<and> ch_items (br_blocksFromNode (g_bridge g')) = ks \<and>
    g_blockProcessor g' = markProcessed (g_blockProcessor g) (tr_add rd) (tb_hash (bf_Block k)) \<and>
    sendable (BroadcastMsg (Some m)) \<and> bh_hash m = tb_hash (bf_Block k) \<and>
    g_Connections g' = map (deliver (Some (BlockchainConn (bf_PeerEndpoint k))) RelayBlock (BroadcastMsg (Some m))) (g_Connections g)"
proof -
  obtain br where br: "ReceiveBlockFromNode (g_bridge g) = Some (k, br)" "ch_items (br_blocksFromNode br) = ks"
    using assms(1) by (auto simp: ReceiveBlockFromNode_def ch_recv_def)
  obtain m where m: "BxBlockToBroadcast G (g_blockProcessor g) (tr_exists rd) (tr_add rd) (bf_Block k) 0 =
      (markProcessed (g_blockProcessor g) (tr_add rd) (tb_hash (bf_Block k)), Inr (m, []))"
    "sendable (BroadcastMsg (Some m))" "bh_hash m = tb_hash (bf_Block k)"
    using BxBlockToBroadcast_new [OF assms(2,3)] by blast
  let ?g' = "processBlockFromBlockchain G rd (g\<lparr>g_bridge := br\<rparr>) (bf_Block k) (BlockchainConn (bf_PeerEndpoint k))"
  have "gw_step G g (GBlock rd) = Inr ?g'" by (simp add: bridge_block_case_def settle_def br(1))
  moreover have "ch_items (br_blocksFromNode (g_bridge ?g')) = ks" by (simp add: processBlockFromBlockchain_def m broadcast_eq br(2))
  ultimately show ?thesis using m
    by (intro exI [of _ ?g'] exI [of _ m]) (simp add: processBlockFromBlockchain_def broadcast_eq deliver_def [abs_def])
qed

lemma blocks_queued:
  assumes "ch_items (br_blocksFromNode (g_bridge g)) = ks" "distinct (map (\<lambda>k. tb_hash (bf_Block k)) ks)" "length rds = length ks"
    and "\<forall>k \<in> set ks. relayable G (bf_Block k) \<and> (\<forall>rd \<in> set rds. ShouldProcess (g_blockProcessor g) (tr_exists rd) (tb_hash (bf_Block k)))"
    and "i < length (g_Connections g)" "g_Connections g ! i = TbConn s"
    and "c_connectionOpen s" "c_Socket s \<noteq> None" "length (c_sendMessages s) + length ks \<le> c_sendChannelSize s"
  shows "\<exists>g' msgs. go_run (gw_step G) g (map GBlock rds) = Inr g' \<and> length (g_Connections g') = length (g_Connections g) \<and>
     ch_items (br_blocksFromNode (g_bridge g')) = [] \<and>
     g_Connections g' ! i = TbConn (s\<lparr>c_sendMessages := c_sendMessages s @ msgs\<rparr>) \<and>
     (\<forall>m \<in> set msgs. sendable m) \<and> map printed msgs = map (\<lambda>k. ReceivedBlock (tb_hash (bf_Block k))) ks"
  using assms
proof (induction ks arbitrary: rds g s)
  case Nil
  then show ?case by simp
next
  case (Cons k ks)
  obtain rd rds' where rds: "rds = rd # rds'" "length rds' = length ks" using Cons.prems(3) by (cases rds) auto
  obtain g1 m where g1: "gw_step G g (GBlock rd) = Inr g1" "ch_items (br_blocksFromNode (g_bridge g1)) = ks"
    "g_blockProcessor g1 = markProcessed (g_blockProcessor g) (tr_add rd) (tb_hash (bf_Block k))"
    "sendable (BroadcastMsg (Some m))" "bh_hash m = tb_hash (bf_Block k)"
    "g_Connections g1 = map (deliver (Some (BlockchainConn (bf_PeerEndpoint k))) RelayBlock (BroadcastMsg (Some m))) (g_Connections g)"
    using gw_step_block [OF Cons.prems(1), of rd G] Cons.prems(4) rds(1) by auto
  let ?s = "s\<lparr>c_sendMessages := c_sendMessages s @ [BroadcastMsg (Some m)]\<rparr>"
  have c: "g_Connections g1 ! i = TbConn ?s" using Cons.prems(5-9) by (simp add: g1(6) deliver_block)
  have new: "\<forall>k' \<in> set ks. relayable G (bf_Block k') \<and> (\<forall>rd \<in> set rds'. ShouldProcess (g_blockProcessor g1) (tr_exists rd) (tb_hash (bf_Block k')))"
  proof (intro ballI)
    fix k' assume k': "k' \<in> set ks"
    then have "tb_hash (bf_Block k') \<noteq> tb_hash (bf_Block k)" using Cons.prems(2) by (auto simp: image_iff)
    with k' Cons.prems(4) show "relayable G (bf_Block k') \<and> (\<forall>rd \<in> set rds'. ShouldProcess (g_blockProcessor g1) (tr_exists rd) (tb_hash (bf_Block k')))"
      by (simp add: g1(3) rds(1) ShouldProcess_other)
  qed
  obtain g' msgs where g': "go_run (gw_step G) g1 (map GBlock rds') = Inr g'" "length (g_Connections g') = length (g_Connections g1)"
    "ch_items (br_blocksFromNode (g_bridge g')) = []"
    "g_Connections g' ! i = TbConn (?s\<lparr>c_sendMessages := c_sendMessages ?s @ msgs\<rparr>)"
    "\<forall>m \<in> set msgs. sendable m" "map printed msgs = map (\<lambda>k. ReceivedBlock (tb_hash (bf_Block k))) ks"
    using Cons.IH [OF g1(2) _ rds(2) new _ c] Cons.prems(2,5-9) by (auto simp: g1(6))
  have "go_run (gw_step G) g (map GBlock rds) = Inr g'" using g1(1) g'(1) rds(1) by simp
  moreover have "printed (BroadcastMsg (Some m)) = ReceivedBlock (tb_hash (bf_Block k))" by (simp add: printed_def g1(5))
  ultimately show ?case
    using g1(4) g'(2-) by (intro exI [of _ g'] exI [of _ "BroadcastMsg (Some m) # msgs"]) (simp add: g1(6))
qed

section \<open>The whole way\<close>

text \<open>Heads whose BDN blocks can be relayed, whenever they are converted.\<close>

definition relayable_heads :: "('t, 'x) geth \<Rightarrow> 'x header_hash \<Rightarrow> ('t, 'x) block_info list \<Rightarrow> bool" where
  "relayable_heads G HH heads \<longleftrightarrow> (\<forall>i \<in> set heads. \<forall>now. \<exists>tb. BlockBlockchainToBDN G HH now i = Inr tb \<and> relayable G tb)"

text \<open>The relays of a gateway that are ready to take \<open>n\<close> messages: connected, with nothing queued or written yet.\<close>

definition idle_relay :: "('k, 'cfg) gateway \<Rightarrow> nat \<Rightarrow> nat \<Rightarrow> bool" where
  "idle_relay g i n \<longleftrightarrow> i < length (g_Connections g) \<and> (case g_Connections g ! i of
     TbConn s \<Rightarrow> c_connectionOpen s \<and> c_Socket s \<noteq> None \<and> c_sendMessages s = [] \<and> c_written s = [] \<and> n \<le> c_sendChannelSize s
   | BlockchainConn e \<Rightarrow> False)"

text \<open>What the relay prints that reads what connection \<open>i\<close> has written, however the stream is cut.\<close>

definition relay_prints :: "('k, 'cfg) gateway \<Rightarrow> nat \<Rightarrow> relay_output list \<Rightarrow> bool" where
  "relay_prints g i out \<longleftrightarrow> (\<exists>s. g_Connections g ! i = TbConn s \<and> c_sendMessages s = [] \<and>
     (\<forall>reads. concat (map read_bytes reads) = c_written s \<longrightarrow> handleConnection [] [] reads = Some (Inr (out, []))))"

lemma blocks_reach_relay:
  assumes "ch_items (br_blocksFromNode (g_bridge g)) = ks" "distinct (map (\<lambda>k. tb_hash (bf_Block k)) ks)" "length rds = length ks"
    and "\<forall>k \<in> set ks. relayable G (bf_Block k) \<and> (\<forall>rd \<in> set rds. ShouldProcess (g_blockProcessor g) (tr_exists rd) (tb_hash (bf_Block k)))"
    and "idle_relay g i (length ks)"
  shows "\<exists>g'. go_run (gw_step G) g (map GBlock rds @ [GConn i (CDrain [])]) = Inr g' \<and>
    ch_items (br_blocksFromNode (g_bridge g')) = [] \<and> relay_prints g' i (map (\<lambda>k. ReceivedBlock (tb_hash (bf_Block k))) ks)"
proof -
  obtain s where s: "i < length (g_Connections g)" "g_Connections g ! i = TbConn s" "c_connectionOpen s" "c_Socket s \<noteq> None"
    "c_sendMessages s = []" "c_written s = []" "length ks \<le> c_sendChannelSize s"
    using assms(5) by (auto simp: idle_relay_def split: node_conn.splits)
  obtain g1 msgs where g1: "go_run (gw_step G) g (map GBlock rds) = Inr g1" "length (g_Connections g1) = length (g_Connections g)"
    "ch_items (br_blocksFromNode (g_bridge g1)) = []" "g_Connections g1 ! i = TbConn (s\<lparr>c_sendMessages := msgs\<rparr>)"
    "\<forall>m \<in> set msgs. sendable m" "map printed msgs = map (\<lambda>k. ReceivedBlock (tb_hash (bf_Block k))) ks"
    using blocks_queued [OF assms(1-4) s(1-4)] s(5,7) by auto
  obtain s' where s': "conn_step (TbConn (s\<lparr>c_sendMessages := msgs\<rparr>)) (CDrain []) = Inr (TbConn s')" "c_sendMessages s' = []"
    "\<forall>reads. concat (map read_bytes reads) = c_written s' \<longrightarrow> handleConnection [] [] reads = Some (Inr (map printed msgs, []))"
    using queue_drains [of "s\<lparr>c_sendMessages := msgs\<rparr>"] s(3,6) g1(5) by auto
  let ?g' = "g1\<lparr>g_Connections := (g_Connections g1)[i := TbConn s']\<rparr>"
  have "gw_step G g1 (GConn i (CDrain [])) = Inr ?g'" using s(1) g1(2,4) s'(1) by (simp add: with_conn_def del: conn_step.simps)
  then have "go_run (gw_step G) g (map GBlock rds @ [GConn i (CDrain [])]) = Inr ?g'" by (simp add: go_run_append g1(1) del: gw_step.simps)
  then show ?thesis using s(1) s' g1(2,3,6) by (intro exI [of _ ?g']) (simp add: relay_prints_def)
qed

text \<open>
  C5. Composition, from the Ethereum node to a relay. A block of the node is added to the chain, the heads that are
  new (the unsent entries on top of the chain state) are sent over the bridge, the gateway makes a message of each and
  the send loop of a connection writes them: the relay at the other end prints the hashes of exactly these heads, all of
  them, from the lowest to the highest, however the stream is cut into packets. The conditions are: a linked
  chain with complete stores, a number that fits a signed integer and the depth of confirmation 0, which every preset
  has; nothing waiting in the channel to the BDN and room there for the heads; heads that differ, convert, can be
  encoded below 4 GB and are not remembered as processed by the gateway; and an open connection of a relay to which
  nothing was written yet, with an empty send queue that has room for the heads, and no error of a write.
\<close>

theorem new_heads_reach_relay:
  assumes "hash_binds HH" "chain_ok HH (h_chain h)" "unat (NumberU64 (bi_Block b)) < 2 ^ 63"
    and add: "AddBlock HH (h_chain h) b BSBlockchain = Inr (c', n)"
    and new: "GetNewHeadsForBDN HH c' n = Inr (heads, er)" "relayable_heads G HH heads" and "cf_BlockConfirmationsCount (h_config h) = 0"
    and room: "ch_items (br_blocksFromNode (h_bridge h)) = []" "n \<le> int (ch_cap (br_blocksFromNode (h_bridge h)))"
    and fresh: "distinct (map ref_hash (unsent_heads c' n))" "length rds = length heads"
      "\<forall>r \<in> set (unsent_heads c' n). \<forall>rd \<in> set rds. ShouldProcess (g_blockProcessor g) (tr_exists rd) (ref_hash r)"
    and "idle_relay g i (length heads)"
  shows "\<exists>h' g'. sendConfirmedBlocksToBDN G HH rd (h\<lparr>h_chain := c'\<rparr>) n e = Inr h' \<and>
    go_run (gw_step G) (g\<lparr>g_bridge := h_bridge h'\<rparr>) (map GBlock rds @ [GConn i (CDrain [])]) = Inr g' \<and>
    ch_items (br_blocksFromNode (g_bridge g')) = [] \<and>
    relay_prints g' i (map (\<lambda>r. ReceivedBlock (ref_hash r)) (rev (unsent_heads c' n)))"
proof -
  let ?top = "rev (unsent_heads c' n)"
  let ?to = "\<lambda>i k. \<exists>now. BlockBlockchainToBDN G HH now i = Inr (bf_Block k)"
  have conv: "convertible G HH heads" using new(2) by (auto simp: relayable_heads_def convertible_def)
  obtain h' ks where h': "sendConfirmedBlocksToBDN G HH rd (h\<lparr>h_chain := c'\<rparr>) n e = Inr h'"
    "ch_items (br_blocksFromNode (h_bridge h')) = ks" "list_all2 ?to (rev heads) ks"
    using sent_items [OF assms(1-5) conv assms(7), of rd e] room by auto
  note uns = new_heads_unsent [OF assms(1-4) new(1)]
  have "map ref_hash ?top = map (\<lambda>i. block_Hash HH (bi_Block i)) (rev heads)" using uns(4) by (simp add: rev_map [symmetric])
  also have "\<dots> = map (\<lambda>k. tb_hash (bf_Block k)) ks"
    using h'(3) by (induction rule: list_all2_induct) (auto dest: BlockBlockchainToBDN_hash)
  finally have hashes: "map (\<lambda>k. tb_hash (bf_Block k)) ks = map ref_hash ?top" by simp
  have len: "length ks = length heads" using list_all2_lengthD [OF h'(3)] by simp
  have rel: "relayable G (bf_Block k)" if k: "k \<in> set ks" for k
  proof -
    obtain i where "i \<in> set (rev heads)" "?to i k" using list_all2_right [OF h'(3) k] by blast
    then show ?thesis using new(2) by (auto simp: relayable_heads_def) (metis Inr_inject)
  qed
  have "tb_hash (bf_Block k) \<in> set (map ref_hash ?top)" if "k \<in> set ks" for k
    using that by (auto simp flip: hashes)
  with rel fresh(3) have ks: "\<forall>k \<in> set ks. relayable G (bf_Block k) \<and>
      (\<forall>rd \<in> set rds. ShouldProcess (g_blockProcessor (g\<lparr>g_bridge := h_bridge h'\<rparr>)) (tr_exists rd) (tb_hash (bf_Block k)))"
    by fastforce
  have d: "distinct (map (\<lambda>k. tb_hash (bf_Block k)) ks)" using fresh(1) by (simp add: hashes rev_map [symmetric])
  have idle: "idle_relay (g\<lparr>g_bridge := h_bridge h'\<rparr>) i (length ks)" using assms(13) by (simp add: idle_relay_def len)
  have out: "map (\<lambda>k. ReceivedBlock (tb_hash (bf_Block k))) ks = map (\<lambda>r. ReceivedBlock (ref_hash r)) ?top"
    using arg_cong [OF hashes, of "map ReceivedBlock"] by (simp add: comp_def)
  have "length rds = length ks" using fresh(2) len by simp
  from blocks_reach_relay [OF _ d this ks idle] h'(2) obtain g' where
    "go_run (gw_step G) (g\<lparr>g_bridge := h_bridge h'\<rparr>) (map GBlock rds @ [GConn i (CDrain [])]) = Inr g'"
    "ch_items (br_blocksFromNode (g_bridge g')) = []" "relay_prints g' i (map (\<lambda>r. ReceivedBlock (ref_hash r)) ?top)"
    unfolding out by auto
  with h'(1) show ?thesis by blast
qed

text \<open>The block of the examples at height 30, where the hash of the examples has the length of a hash.\<close>

definition ex_block30 :: "(byte list, unit) eth_block" where
  "ex_block30 = ex_body\<lparr>blk_header := (blk_header ex_body)\<lparr>Number := 30\<rparr>\<rparr>"

definition ex_geth_hashed :: "(byte list, unit) geth" where
  "ex_geth_hashed = ex_geth\<lparr>txn_Hash := \<lambda>t. [1]\<rparr>"

lemma ex_relayable_heads:
  assumes "\<And>i. i \<in> set heads \<Longrightarrow> hash_ok (toy_hash (Some (blk_header (bi_Block i)))) \<and> length (concat (Transactions (blk_body (bi_Block i)))) \<le> 2"
  shows "relayable_heads ex_geth_hashed toy_hash heads"
  unfolding relayable_heads_def
proof (intro ballI allI)
  fix i now assume i: "i \<in> set heads"
  let ?b = "bi_Block i"
  let ?txs = "map (\<lambda>tx. NewTbBlockTransaction [1] tx) (Transactions (blk_body ?b))"
  have enc: "convert_txs ex_geth_hashed (Transactions (blk_body ?b)) [] = Inr ?txs"
    using convert_txs_map [of "Transactions (blk_body ?b)" ex_geth_hashed id "[]"] by (simp add: ex_geth_hashed_def ex_geth_def)
  have "[1] \<noteq> zero_hash" by (simp add: zero_hash_def numeral_eq_Suc)
  then have h: "all_have_hashes ?txs" by (simp add: all_have_hashes_iff NewTbBlockTransaction_def)
  obtain d where tb: "BlockBlockchainToBDN ex_geth_hashed toy_hash now i =
      Inr (NewRawTbBlock now (block_Hash toy_hash ?b) [of_int (Number (blk_header ?b))] ?txs [] d (Some (Number (blk_header ?b))) 100)"
  proof -
    have f: "enc_header ex_geth_hashed x = Inr [of_int (Number x)]" "enc_uncles ex_geth_hashed us = Inr []" "block_Size ex_geth_hashed y = 100" for x us y
      by (simp_all add: ex_geth_hashed_def ex_geth_def)
    show ?thesis using that h by (simp add: BlockBlockchainToBDN_def Let_def enc f NewTbBlock_def)
  qed
  have "relayable ex_geth_hashed (NewRawTbBlock now (block_Hash toy_hash ?b) [of_int (Number (blk_header ?b))] ?txs [] d (Some (Number (blk_header ?b))) 100)"
    using assms [OF i] by (simp add: relayable_def rlp_of_def NewRawTbBlock_def block_Hash_def ex_geth_hashed_def ex_geth_def comp_def
        NewTbBlockTransaction_def)
  with tb show "\<exists>tb. BlockBlockchainToBDN ex_geth_hashed toy_hash now i = Inr tb \<and> relayable ex_geth_hashed tb" by blast
qed

theorem new_heads_reach_relay_witness:
  "\<exists>c' h' (g' :: (unit, (unit, unit) eth_config) gateway).
     AddBlock toy_hash (h_chain ex_handler) (NewBlockInfo ex_block30 None) BSBlockchain = Inr (c', 1) \<and>
     sendConfirmedBlocksToBDN ex_geth_hashed toy_hash (ex_rd []) (ex_handler\<lparr>h_chain := c'\<rparr>) 1 ex_endpoint = Inr h' \<and>
     go_run (gw_step ex_geth_hashed) (ex_gateway\<lparr>g_bridge := h_bridge h'\<rparr>) [GBlock ex_trd, GConn 0 (CDrain [])] = Inr g' \<and>
     relay_prints g' 0 [ReceivedBlock (block_Hash toy_hash ex_block30)]"
proof -
  let ?small = "\<lambda>i. length (toy_hash (Some (blk_header (bi_Block i)))) = 32 \<and> length (concat (Transactions (blk_body (bi_Block i)))) \<le> 2"
  have ev: "(case AddBlock toy_hash (h_chain ex_handler) (NewBlockInfo ex_block30 None) BSBlockchain of
      Inr (c', n) \<Rightarrow> n = 1 \<and> map ref_hash (chainState c') = [block_Hash toy_hash ex_block30] \<and>
        (case GetNewHeadsForBDN toy_hash c' 1 of Inr (bs, er) \<Rightarrow> length bs = 1 \<and> list_all ?small bs | _ \<Rightarrow> False) | _ \<Rightarrow> False)"
    by code_simp
  then obtain c' heads er where c: "AddBlock toy_hash (h_chain ex_handler) (NewBlockInfo ex_block30 None) BSBlockchain = Inr (c', 1)"
    "map ref_hash (chainState c') = [block_Hash toy_hash ex_block30]" "GetNewHeadsForBDN toy_hash c' 1 = Inr (heads, er)"
    "length heads = 1" "list_all ?small heads"
    by (auto split: sum.splits prod.splits)
  obtain r where r: "chainState c' = [r]" "ref_hash r = block_Hash toy_hash ex_block30" using c(2) by (auto simp: map_eq_Cons_conv)
  have small: "unat (NumberU64 (bi_Block (NewBlockInfo ex_block30 None))) < 2 ^ 63"
    by (simp add: ex_block30_def ex_body_def NumberU64_def big_Uint64_def)
  have rel: "relayable_heads ex_geth_hashed toy_hash heads"
    using c(5) by (intro ex_relayable_heads) (auto simp: list_all_iff hash_ok_def)
  have h: "cf_BlockConfirmationsCount (h_config ex_handler) = 0" "ch_items (br_blocksFromNode (h_bridge ex_handler)) = []"
    "1 \<le> int (ch_cap (br_blocksFromNode (h_bridge ex_handler)))"
    by (simp_all add: ex_handler_def NewHandler_def newEthereumMainnetConfig_def unknownConfig_def NewTurboBridge_def
        make_chan_def blockBacklog_def)
  let ?g = "ex_gateway :: (unit, (unit, unit) eth_config) gateway"
  have idle: "idle_relay ?g 0 (length heads)" by (simp add: idle_relay_def ex_gateway_def NewSSLConnection_def c(4))
  have uns: "unsent_heads c' 1 = [r]"
    using new_heads_unsent(3) [OF toy_hash_binds ex_handler_ok small c(1,3)] c(4) r(1) by simp
  have fresh: "distinct (map ref_hash (unsent_heads c' 1))" "length [ex_trd] = length heads"
    "\<forall>r \<in> set (unsent_heads c' 1). \<forall>rd \<in> set [ex_trd]. ShouldProcess (g_blockProcessor ?g) (tr_exists rd) (ref_hash r)"
    by (simp_all add: c(4) uns ex_gateway_def NewGateway_def ShouldProcess_def NewRLPBlockProcessor_def hh_Exists_new)
  from new_heads_reach_relay [OF toy_hash_binds ex_handler_ok small c(1,3) rel h fresh idle, where rd = "ex_rd []" and e = ex_endpoint]
  show ?thesis using c(1,4) r uns by (simp del: gw_step.simps) blast
qed

end
