(* ===== verification/To_Peers.thy ===== *)
theory To_Peers
  imports Gateway_Flow
begin

text \<open>
  The way of a transaction from a relay to the Ethereum peers: a frame is unpacked by the gateway, which puts the
  transaction on the bridge, and the backend takes it off, decodes it and sends it to its peers.
\<close>

lemma broadcastTransactions_spec:
  "distinct order \<Longrightarrow> broadcastTransactions W order txs ps = (\<lambda>pid. if pid \<in> set order
     then map_option (\<lambda>ep. fst (SendTransactions (W pid) ep txs)) (ps pid) else ps pid)"
  by (induction order arbitrary: ps) (auto simp: fun_eq_iff split: option.split)

lemma broadcastTransactions_all:
  "distinct order \<Longrightarrow> set order = dom ps \<Longrightarrow>
     broadcastTransactions W order txs ps = (\<lambda>pid. map_option (\<lambda>ep. fst (SendTransactions (W pid) ep txs)) (ps pid))"
  by (auto simp: broadcastTransactions_spec fun_eq_iff domIff)

text \<open>The transactions the backend decodes from one content.\<close>

definition decoded :: "('t, 'x) geth \<Rightarrow> byte list \<Rightarrow> 't list" where
  "decoded G content = (case dec_tx G content of Inl err \<Rightarrow> [] | Inr tx \<Rightarrow> [tx])"

text \<open>One message on the bridge, and the round of the backend that takes it off.\<close>

lemma bridge_one_tx:
  assumes "br_transactionsFromBDN br = make_chan transactionBacklog"
  shows "ReceiveBDNTransactions (fst (SendTransactionsFromBDN br [e])) = Some ([e], br)"
  using assms
  by (simp add: SendTransactionsFromBDN_def ReceiveBDNTransactions_def try_send_def ch_recv_def make_chan_def ch_room_def
      transactionBacklog_def)

lemma round_one_tx:
  assumes "br_transactionsFromBDN br = make_chan transactionBacklog" "distinct (rd_order rd)" "set (rd_order rd) = dom (h_peers h)"
  shows "handleBDNBridge_round G HH W rd (h\<lparr>h_bridge := fst (SendTransactionsFromBDN br [e])\<rparr>) CaseTransactions =
    returns (h\<lparr>h_bridge := br, h_peers := \<lambda>pid. map_option (\<lambda>ep. fst (SendTransactions (W pid) ep (decoded G (slice_elems (tx_content e)))))
      (h_peers h pid)\<rparr>)"
proof -
  have "decode_transactions G [e] [] = decoded G (slice_elems (tx_content e))"
    by (simp add: decoded_def TransactionBDNToBlockchain_def split: sum.split)
  then show ?thesis using assms
    by (simp add: handleBDNBridge_round_def bridge_one_tx processBDNTransactions_def broadcastTransactions_all)
qed

text \<open>
  C7. Composition, from a relay to the Ethereum peers. A transaction packed by another node and received over any
  relay connection, if its hash is new to the gateway, is stored and put on the bridge, no relay gets it again,
  and one round of the backend's loop \<open>handleBDNBridge\<close> sends it to every registered peer. What the peers get is what
  go-ethereum decodes from the content without its last 8 bytes, which packing has cut off: nothing, where that
  does not decode. The conditions are: fields of the fixed lengths and a content of more than 8 bytes and less than 4 GB;
  a hash neither stored nor remembered as removed, and an age within the limit of the store; an empty channel of
  transactions to the backend, so that the round takes this one (the programs never start that loop, so the channel
  fills up: C11); and an iteration over the peers that gives each one once.
\<close>

theorem relay_tx_reaches_peers:
  assumes "length (bh_hash m) = 32" "length (bh_sourceID m) = 16" "length (tm_sender m) = 20" "length (tm_content m) < 2 ^ 32 - 93"
    and "8 < length (tm_content m)" "content = take (length (tm_content m) - 8) (tm_content m)"
    and "fresh_tx rd (g_TxStore g) (bh_hash m) content"
    and "i < length (g_Connections g)" "g_Connections g ! i = TbConn s"
    and "br_transactionsFromBDN (g_bridge g) = make_chan transactionBacklog"
    and "distinct (rd_order brd)" "set (rd_order brd) = dom (h_peers h)"
  shows "\<exists>frame g' h'. Tx_Pack m = Inr frame \<and> gw_step G g (GFrame rd frame i) = Inr g' \<and> g_Connections g' = g_Connections g \<and>
    known_tx (bh_hash m) (g_TxStore g') \<and>
    handleBDNBridge_round G HH W brd (h\<lparr>h_bridge := g_bridge g'\<rparr>) CaseTransactions = returns h' \<and> h_bridge h' = g_bridge g \<and>
    h_peers h' = (\<lambda>pid. map_option (\<lambda>ep. fst (SendTransactions (W pid) ep (decoded G content))) (h_peers h pid))"
proof -
  have ok: "bh_ok m" "tm_content m \<noteq> []" "bh_ok empty_tx_message" "length (tm_sender empty_tx_message) = 20"
    using assms(1,2,5) by (auto simp: bh_ok_def empty_tx_message_def zero_hash_def layout_defs)
  note pack = Tx_Pack_layout [OF ok(1) assms(3) ok(2) assms(4)]
  have "TbType (packed_tx m) = Inr TxType" unfolding packed_tx_def by (rule TbType_layout) simp
  then obtain m' where m': "relay_ProcessMessage (tr_new rd) (packed_tx m) = Inr (Some m')" "bh_hash m' = bh_hash m" "tm_content m' = content"
    using Tx_Unpack_layout [OF ok(1) assms(3) less_imp_le [OF assms(5)] assms(4) ok(3,4), of "tr_new rd"]
    by (simp add: relay_ProcessMessage_def assms(6))
  have "fresh_tx rd (g_TxStore g) (bh_hash m') (tm_content m')" using assms(7) m' by simp
  from processTransaction_fresh [OF this, of "TbConn s"] obtain st e r where
    p: "processTransaction rd g m' (TbConn s) = Inr (relay_tx rd (g\<lparr>g_TxStore := st\<rparr>) m' (TbConn s) r)" and
    e: "Transaction r = Some e" "tx_content e = Some content" and
    st: "hashToContent st = (hashToContent (g_TxStore g))(bh_hash m \<mapsto> e)"
    using m' by auto
  let ?g' = "g\<lparr>g_TxStore := st, g_bridge := fst (SendTransactionsFromBDN (g_bridge g) [e])\<rparr>"
  have step: "gw_step G g (GFrame rd (packed_tx m) i) = Inr ?g'"
    using assms(8,9) p by (simp add: with_conn_def settle_def relay_frame_def m'(1) HandleMsg_def relay_tx_from_relay [OF e(1)])
  have "content \<noteq> []" using assms(5,6) by (auto simp: take_eq_Nil)
  then have "known_tx (bh_hash m) st" by (simp add: known_tx_def st tx_HasContent_def e(2))
  moreover note round_one_tx [OF assms(10-12), of G HH W e]
  ultimately show ?thesis using pack step by (intro exI [of _ "packed_tx m"] exI [of _ ?g']) (simp add: e(2))
qed

text \<open>A peer of the backend, for the example.\<close>

definition ex_eth_peer :: "(byte list, unit) peer" where
  "ex_eth_peer = newPeer ''a'' ex_endpoint 65"

theorem relay_tx_reaches_peers_witness:
  "\<exists>frame (g' :: (unit, (unit, unit) eth_config) gateway) h'. Tx_Pack (ex_tx [7, 1, 2, 3, 4, 5, 6, 7, 8]) = Inr frame \<and>
     gw_step ex_geth ex_gateway (GFrame ex_trd frame 0) = Inr g' \<and>
     handleBDNBridge_round ex_geth toy_hash (\<lambda>p ms m. None) (ex_rd [''a'']) (ex_handler\<lparr>h_peers := [''a'' \<mapsto> ex_eth_peer], h_bridge := g_bridge g'\<rparr>)
       CaseTransactions = returns h' \<and>
     h_peers h' = [''a'' \<mapsto> fst (SendTransactions (\<lambda>ms m. None) ex_eth_peer [[7]])]"
proof -
  let ?m = "ex_tx [7, 1, 2, 3, 4, 5, 6, 7, 8]"
  let ?g = "ex_gateway :: (unit, (unit, unit) eth_config) gateway"
  let ?s = "(NewSSLConnection ''r'' 443 100000)\<lparr>c_Socket := Some (), c_connectionOpen := True\<rparr> :: (unit, node_msg) ssl_conn"
  have fresh: "fresh_tx ex_trd (g_TxStore ?g) (bh_hash ?m) [7]" by (intro ex_gateway_fresh) simp
  have c: "0 < length (g_Connections ?g)" "g_Connections ?g ! 0 = TbConn ?s" "br_transactionsFromBDN (g_bridge ?g) = make_chan transactionBacklog"
    by (simp_all add: ex_gateway_def NewGateway_def NewTurboBridge_def)
  have "decoded ex_geth [7] = [[7]]" by (simp add: decoded_def ex_geth_def)
  with relay_tx_reaches_peers [OF _ _ _ _ _ _ fresh c, of "ex_rd [''a'']" "ex_handler\<lparr>h_peers := [''a'' \<mapsto> ex_eth_peer]\<rparr>" ex_geth toy_hash "\<lambda>p ms m. None"]
  show ?thesis by (auto simp: ex_tx_fields ex_rd_def fun_eq_iff simp del: gw_step.simps)
qed

end
