(* ===== verification/Node_Parts.thy ===== *)
theory Node_Parts
  imports Program Relay_Node
begin

text \<open>
  The smaller parts around the nodes: connections of relays from either side and their methods
  (\<^verbatim>\<open>connections/handler/relay.go\<close>, \<^verbatim>\<open>connections/sslconn.go\<close>, \<^verbatim>\<open>connections/blockchain.go\<close>), the base of a node
  (\<^verbatim>\<open>nodes/base.go\<close>), the main function of the relay (\<^verbatim>\<open>cmd/relay/main.go\<close>), and the texts that blocks, headers and
  results are printed as.
\<close>

section \<open>Relay connections\<close>

text \<open>
  A new connection, with the function that gives it its socket: dialling for an outbound relay (here what \<open>NewTLS\<close>
  returns), the accepted socket for an inbound one. The constructor registers it with the node.
\<close>

record ('s, 'cfg) new_relay =
  nr_connect :: "'s tls_socket option \<times> string option"
  nr_conn :: "'s tls_socket node_conn"
  nr_node :: "('s tls_socket, 'cfg) gateway"

definition newRelay ::
  "('s tls_socket, 'cfg) gateway \<Rightarrow> 's tls_socket option \<times> string option \<Rightarrow> string \<Rightarrow> int \<Rightarrow> ('s, 'cfg) new_relay" where
  "newRelay node connect relayIP relayPort =
     (let conn = TbConn (NewSSLConnection relayIP relayPort 100000)
      in \<lparr>nr_connect = connect, nr_conn = conn, nr_node = OnConnEstablished node conn\<rparr>)"

definition NewOutboundRelay ::
  "(string \<Rightarrow> duration \<Rightarrow> string + 'x) \<Rightarrow> ('x \<Rightarrow> 'p tls_config \<Rightarrow> string + 's) \<Rightarrow> ('s tls_socket, 'cfg) gateway \<Rightarrow>
     ('k, 'c, 'p) ssl_certs \<Rightarrow> string \<Rightarrow> int \<Rightarrow> ('s, 'cfg) new_relay" where
  "NewOutboundRelay DialTimeout TLSHandshake node sslCerts relayIP relayPort =
     newRelay node (NewTLS DialTimeout TLSHandshake relayIP relayPort sslCerts) relayIP relayPort"

definition NewInboundRelay :: "('s tls_socket, 'cfg) gateway \<Rightarrow> 's tls_socket \<Rightarrow> string \<Rightarrow> ('s, 'cfg) new_relay" where
  "NewInboundRelay node socket relayIP = newRelay node (Some socket, None) relayIP RemoteInitiatedPort"

text \<open>The gateway makes outbound relays; an inbound one is no initiator, so its read loop ends after the first failure.\<close>

lemma connectRelay_outbound: "nr_node (NewOutboundRelay D H g certs ip port) = connectRelay g ip port"
  by (simp add: NewOutboundRelay_def newRelay_def connectRelay_def Let_def)

lemma inbound_not_initiator:
  "\<exists>s. nr_conn (NewInboundRelay g socket ip) = TbConn s \<and> \<not> isInitiator s \<and> conn_IsOpen (TbConn (fst (ssl_Connect s (nr_connect (NewInboundRelay g socket ip)) now)))"
  by (simp add: NewInboundRelay_def newRelay_def NewSSLConnection_def isInitiator_def RemoteInitiatedPort_def ssl_Connect_def conn_IsOpen_def Let_def)

subsection \<open>The methods of a connection\<close>

text \<open>
  \<open>SendWithDelay\<close> without a delay is \<open>Send\<close>; with a delay it returns at once, and the second value tells that a goroutine
  was started that calls \<open>Send\<close> when the delay has passed and drops its error.
\<close>

definition ssl_SendWithDelay ::
  "('k, 'm) ssl_conn \<Rightarrow> 'm \<Rightarrow> duration \<Rightarrow> string option \<Rightarrow> (('k, 'm) ssl_conn \<times> conn_error option) \<times> bool" where
  "ssl_SendWithDelay s msg delay closeErr = (if delay = 0 then (ssl_Send s msg closeErr, False) else ((s, None), True))"

definition delayed_Send :: "('k, 'm) ssl_conn \<Rightarrow> 'm \<Rightarrow> string option \<Rightarrow> ('k, 'm) ssl_conn" where
  "delayed_Send s msg closeErr = fst (ssl_Send s msg closeErr)"

definition conn_IsDisabled :: "'k node_conn \<Rightarrow> bool" where
  "conn_IsDisabled conn = (case conn of TbConn s \<Rightarrow> c_disabled s | BlockchainConn e \<Rightarrow> False)"

definition conn_SendWithDelay ::
  "'k node_conn \<Rightarrow> node_msg \<Rightarrow> duration \<Rightarrow> string option \<Rightarrow> ('k node_conn \<times> conn_error option) \<times> bool" where
  "conn_SendWithDelay conn msg delay closeErr =
     (case conn of
        TbConn s \<Rightarrow> map_prod (map_prod TbConn id) id (ssl_SendWithDelay s msg delay closeErr)
      | BlockchainConn e \<Rightarrow> ((conn, None), False))"

definition conn_Close :: "'k node_conn \<Rightarrow> string option \<Rightarrow> 'k node_conn \<times> conn_error option" where
  "conn_Close conn closeErr =
     (case conn of TbConn s \<Rightarrow> map_prod TbConn id (ssl_close s closeErr) | BlockchainConn e \<Rightarrow> (conn, None))"

definition conn_Disable :: "'k node_conn \<Rightarrow> 'k node_conn" where
  "conn_Disable conn = (case conn of TbConn s \<Rightarrow> TbConn (ssl_Disable s) | BlockchainConn e \<Rightarrow> conn)"

definition conn_Connect :: "'k node_conn \<Rightarrow> 'k option \<times> string option \<Rightarrow> instant \<Rightarrow> 'k node_conn \<times> conn_error option" where
  "conn_Connect conn result now =
     (case conn of TbConn s \<Rightarrow> map_prod TbConn id (ssl_Connect s result now) | BlockchainConn e \<Rightarrow> (conn, None))"

text \<open>
  Closing is idempotent, and it takes back a call to disable; a closed connection reports an error on sending
  or, without a socket, that it is not connected.
\<close>

lemma conn_Close_twice: "conn_Close (fst (conn_Close conn ce)) ce' = (fst (conn_Close conn ce), None)"
  by (cases conn) (auto simp: conn_Close_def ssl_close_def Let_def split: option.split)

lemma conn_Close_enables:
  "conn_IsOpen conn \<Longrightarrow> \<not> conn_IsDisabled (fst (conn_Close (conn_Disable conn) ce)) \<and> \<not> conn_IsOpen (fst (conn_Close conn ce))"
  by (cases conn) (auto simp: conn_Close_def conn_Disable_def conn_IsDisabled_def conn_IsOpen_def ssl_close_def ssl_Disable_def Let_def
      split: option.split)

text \<open>A delayed message is queued on whatever the connection is when the delay has passed.\<close>

lemma delayed_Send_eq:
  "TbConn (delayed_Send s msg ce) = (if c_connectionOpen s then with_msg msg (TbConn s) else TbConn s)"
  using conn_Send_eq [of "TbConn s" msg ce]
  by (auto simp: delayed_Send_def conn_Send_def conn_IsOpen_def ssl_Send_def)

section \<open>The base of a node\<close>

text \<open>
  The connections a node holds, its configuration and its directory; the lock is held by each operation
  on the connections for its whole length. The generic \<open>HandleMsg\<close> has no cases. The abstract node at the bottom does
  not run.
\<close>

record 'k node_base =
  base_Config :: turbo_config
  base_Connections :: "'k node_conn list"
  base_dataDir :: string

definition NewBase :: "turbo_config \<Rightarrow> string \<Rightarrow> 'k node_base" where
  "NewBase config dataDir = \<lparr>base_Config = config, base_Connections = [], base_dataDir = dataDir\<rparr>"

definition ValidateConnection :: "'k node_base \<Rightarrow> 'k node_conn \<Rightarrow> string option" where
  "ValidateConnection b conn = None"

definition Base_HandleMsg :: "'k node_base \<Rightarrow> node_msg \<Rightarrow> 'k node_conn \<Rightarrow> string option" where
  "Base_HandleMsg b msg source = None"

definition notImplError :: "string \<Rightarrow> string" where
  "notImplError funcName = ''func '' @ funcName @ '' not implemented''"

definition Abstract_Run :: "string option" where
  "Abstract_Run = Some (notImplError ''Run'')"

text \<open>The channel of messages for the background comes with the goroutine that handles them (\<^term>\<open>HandleMsgAsync\<close>).\<close>

definition NewAsyncMsgChannel :: "(node_msg \<times> 'k node_conn) chan" where
  "NewAsyncMsgChannel = make_chan AsyncMsgChannelSize"

lemma NewGateway_parts:
  "g_Connections (NewGateway br peers now text) = base_Connections (NewBase cfg dir)"
  "g_asyncMsgChannel (NewGateway br peers now text) = NewAsyncMsgChannel"
  by (simp_all add: NewGateway_def NewBase_def NewAsyncMsgChannel_def)

section \<open>The main function of the relay\<close>

text \<open>
  The relay loads its pair from the files of the gateway, listens on port 443, and starts a goroutine for each
  connection it accepts (\<^term>\<open>handleConnection\<close>). The result is the error that is printed, or the connections
  accepted from a sequence of results of \<open>Accept\<close>; an error there is printed and the loop goes on.
\<close>

definition LoadX509KeyPair :: "('k, 'c, 'p) crypto \<Rightarrow> files \<Rightarrow> string \<Rightarrow> string \<Rightarrow> string + 'p" where
  "LoadX509KeyPair C fs certFile keyFile =
     (case fs certFile of None \<Rightarrow> Inl (''open '' @ certFile)
      | Some cert \<Rightarrow> (case fs keyFile of None \<Rightarrow> Inl (''open '' @ keyFile) | Some key \<Rightarrow> cr_X509KeyPair C cert key))"

fun accept_loop :: "(string + 'x) list \<Rightarrow> 'x list" where
  "accept_loop [] = []"
| "accept_loop (Inl err # results) = accept_loop results"
| "accept_loop (Inr conn # results) = conn # accept_loop results"

definition relay_main ::
  "('k, 'c, 'p) crypto \<Rightarrow> files \<Rightarrow> (string \<Rightarrow> 'p tls_config \<Rightarrow> string option) \<Rightarrow> (string + 'x) list \<Rightarrow> string + 'p tls_config \<times> 'x list" where
  "relay_main C fs Listen accepts =
     (case LoadX509KeyPair C fs ''datadir/gateway/private/gateway_cert.pem'' ''datadir/gateway/private/gateway_key.pem'' of
        Inl err \<Rightarrow> Inl err
      | Inr cer \<Rightarrow>
          (let config = \<lparr>tls_Certificates = [cer], tls_InsecureSkipVerify = False\<rparr>
           in case Listen '':443'' config of Some err \<Rightarrow> Inl err | None \<Rightarrow> Inr (config, accept_loop accepts)))"

lemma accept_loop_eq: "accept_loop results = [c. Inr c \<leftarrow> results]"
  by (induction results rule: accept_loop.induct) auto

lemma or_panic_Inr_iff: "or_panic what r = Inr a \<longleftrightarrow> r = Inr a"
  by (simp add: or_panic_def split: sum.split)

lemma certs_for_relay:
  assumes "NewSSLCertsFromFiles C generated writeErr fs certFile keyFile = Inr (fs', certs)" "certFile \<noteq> keyFile"
  shows "case sc_privateKeyPair certs of
      Some pair \<Rightarrow> LoadX509KeyPair C fs' certFile keyFile = Inr pair
    | None \<Rightarrow> LoadX509KeyPair C fs' certFile keyFile = Inl (''open '' @ certFile)"
  using assms by (auto simp: NewSSLCertsFromFiles_def gbind_Inr_iff Let_def LoadX509KeyPair_def or_panic_Inr_iff split: option.splits)

lemma default_flags_config:
  assumes "NewTurboConfigFromCLI P (default_flags app) = Inr cfg"
  shows "cert_files cfg = (''datadir/gateway/private/gateway_cert.pem'', ''datadir/gateway/private/gateway_key.pem'')"
proof -
  have "tc_Env cfg = MainnetEnv" "tc_NodeType cfg = Gateway"
    using assms by (auto simp: NewTurboConfigFromCLI_def NewEnvFromCLI_def NewEnv_def default_flags_def node_type_gateway
        split: sum.splits prod.splits if_splits)
  then show ?thesis using default_cert_files by (simp add: cert_files_def default_config_value_def)
qed

lemma serves_certs:
  assumes "runGateway W std (default_flags app) = Inr (Serves fs certs g srv)"
  shows "NewSSLCertsFromFiles (wd_crypto W) (wd_tlsKey W) (wd_tlsWrite W) (wd_files W)
    ''datadir/gateway/private/gateway_cert.pem'' ''datadir/gateway/private/gateway_key.pem'' = Inr (fs, certs)"
proof -
  have eth: "NewPresetEthConfigFromCLI (wd_Parse W) (wd_HexToECDSA W) (default_flags app\<lparr>fl_DataDir := []\<rparr>) = Inr newEthereumMainnetConfig"
    by (simp add: NewPresetEthConfigFromCLI_def NewEthereumPreset_def cli_peers_def default_flags_def newEthereumMainnetConfig_def unknownConfig_def)
  have peers: "cf_StaticPeers newEthereumMainnetConfig = []" by (simp add: newEthereumMainnetConfig_def unknownConfig_def)
  obtain cfg where cfg: "NewTurboConfigFromCLI (wd_ParseLevel W) (default_flags app) = Inr cfg"
    using assms by (cases "NewTurboConfigFromCLI (wd_ParseLevel W) (default_flags app)") (simp_all add: runGateway_def gateway_flags_default Let_def)
  show ?thesis
    using assms default_flags_config [OF cfg]
    by (auto simp: runGateway_def gateway_flags_default cfg eth peers gbind_Inr_iff gateway_Run_eq Let_def split: option.splits)
qed

text \<open>
  C21. Gateway and relay on one machine share the pair. If the gateway, started without flags, serves with a pair of
  certificate and key, then the relay that is started on the files it leaves listens with the same pair, as
  soon as the port is free, and accepts every connection that is offered; if it serves without one, the
  relay ends with an error before it listens.
\<close>

theorem relay_shares_pair:
  assumes "runGateway W std (default_flags app) = Inr (Serves fs certs g srv)"
  shows "case sc_privateKeyPair certs of
      Some pair \<Rightarrow> Listen '':443'' \<lparr>tls_Certificates = [pair], tls_InsecureSkipVerify = False\<rparr> = None \<longrightarrow>
        relay_main (wd_crypto W) fs Listen accepts =
          Inr (\<lparr>tls_Certificates = [pair], tls_InsecureSkipVerify = False\<rparr>, [c. Inr c \<leftarrow> accepts])
    | None \<Rightarrow> \<exists>err. relay_main (wd_crypto W) fs Listen accepts = Inl err"
  using certs_for_relay [OF serves_certs [OF assms]] by (auto simp: relay_main_def accept_loop_eq split: option.splits)

theorem relay_shares_pair_witness:
  "\<exists>fs certs (g :: (unit tls_socket, (string, unit) eth_config) gateway).
     runGateway (ex_world [''datadir/gateway/private/gateway_cert.pem'' \<mapsto> [45, 3], ''datadir/gateway/private/gateway_key.pem'' \<mapsto> [45, 3]])
         ex_std_logger (default_flags ''gateway'') =
       Inr (Serves fs certs g (None :: ((string, unit) p2p_config \<times> (unit, unit, string, unit) handler) option)) \<and>
     relay_main ex_crypto fs (\<lambda>a c. None) [Inl ''reset'', Inr CHR ''a'', Inr CHR ''b''] =
       Inr (\<lparr>tls_Certificates = [[45, 3]], tls_InsecureSkipVerify = False\<rparr>, ''ab'')"
proof -
  let ?W = "ex_world [''datadir/gateway/private/gateway_cert.pem'' \<mapsto> [45, 3], ''datadir/gateway/private/gateway_key.pem'' \<mapsto> [45, 3]]"
  obtain certs and g :: "(unit tls_socket, (string, unit) eth_config) gateway" where
    r: "runGateway ?W ex_std_logger (default_flags ''gateway'') = Inr (Serves (wd_files ?W) certs g (None :: ((string, unit) p2p_config \<times> (unit, unit, string, unit) handler) option))"
    "LoadPrivateConfig certs = Inr \<lparr>tls_Certificates = [[45, 3]], tls_InsecureSkipVerify = True\<rparr>"
    using default_start [of ?W "[45, 3]" "[45, 3]" "[3]" "[3]" "[3]" "[3]" "[45, 3]" ex_std_logger] by (auto simp: ex_world_def ex_crypto_def ex_NewHook_def)
  then have "sc_privateKeyPair certs = Some [45, 3]" by (auto simp: LoadPrivateConfig_def split: option.splits)
  with relay_shares_pair [OF r(1), of "\<lambda>a c. None" "[Inl ''reset'', Inr CHR ''a'', Inr CHR ''b'']"] r(1) show ?thesis
    by (auto simp: ex_world_def)
qed

end
