(* ===== verification/Printing.thy ===== *)
theory Printing
  imports Text Gateway Eth_Transaction
begin

text \<open>
  The texts the program makes of its values: hashes and senders in hexadecimal, headers and packed messages,
  references of the chain state, the counters of a broadcast, and the JSON text of a block. The main fact is that
  the text of a block decides whether two blocks are equal.
\<close>

section \<open>Numbers and hashes\<close>

definition sender_String :: "byte list \<Rightarrow> string" where
  "sender_String s = hex_EncodeToString s"

definition HashString :: "tx_message \<Rightarrow> bool \<Rightarrow> string" where
  "HashString m prefix = hash_Format (bh_hash m) prefix"

text \<open>The Keccak hash is go-ethereum's; it is copied into the array.\<close>

definition NewSHA256FromKeccak :: "(byte list \<Rightarrow> byte list) \<Rightarrow> byte list \<Rightarrow> hash" where
  "NewSHA256FromKeccak Keccak256 b = copy_array zero_hash (Keccak256 b)"

definition eth_NewSHA256Hash :: "byte list \<Rightarrow> hash" where
  "eth_NewSHA256Hash h = copy_array zero_hash h"

lemma eth_NewSHA256Hash_id: "hash_ok h \<Longrightarrow> eth_NewSHA256Hash h = h"
  by (simp add: eth_NewSHA256Hash_def copy_array_def hash_ok_def zero_hash_def)

text \<open>The source ID as text; \<open>FromBytes\<close> and its text are the UUID library's, and an error gives the empty text.\<close>

definition SourceID :: "(byte list \<Rightarrow> string option) \<Rightarrow> 'z broadcast_header_scheme \<Rightarrow> string" where
  "SourceID uuid_text b = (case uuid_text (bh_sourceID b) of None \<Rightarrow> [] | Some s \<Rightarrow> s)"

text \<open>A library that reads back what it prints gives a header its source ID back.\<close>

lemma SetSourceID_SourceID:
  assumes "length (bh_sourceID b) = 16" "length u = 16" "FromString s = Some u" "uuid_text u = Some s"
  shows "SourceID uuid_text (fst (SetSourceID FromString b s)) = s"
  using assms by (simp add: SourceID_def SetSourceID_def copy_array_def)

text \<open>\<open>big.Int.String\<close>, of a nil pointer too.\<close>

definition big_String :: "int option \<Rightarrow> string" where
  "big_String n = (case n of None \<Rightarrow> ''<nil>'' | Some i \<Rightarrow> strconv_Itoa i)"

section \<open>Messages, references, counters\<close>

definition string_of :: "byte list \<Rightarrow> string" where
  "string_of bs = map (\<lambda>b. char_of (unat b)) bs"

definition header_String :: "'z broadcast_header_scheme \<Rightarrow> string" where
  "header_String h = ''Message<type: '' @ string_of (msgType h) @ ''>''"

text \<open>Packed bytes print as their type and all of them; with less than a header that panics.\<close>

definition bytes_String :: "byte list \<Rightarrow> string go" where
  "bytes_String mb = gbind (TbType mb) (\<lambda>t. Inr (string_of t @ ''[0x'' @ hex_EncodeToString mb @ '']''))"

text \<open>\<open>TerminalString\<close> is go-ethereum's short form of a hash; a nil reference prints as such.\<close>

definition ref_String :: "(hash \<Rightarrow> string) \<Rightarrow> block_ref \<Rightarrow> string" where
  "ref_String TerminalString b = digits (unat (ref_height b)) @ ''['' @ TerminalString (ref_hash b) @ '']''"

definition ref_chain_String :: "(hash \<Rightarrow> string) \<Rightarrow> block_ref list \<Rightarrow> string" where
  "ref_chain_String TerminalString bc =
     ''chain state(best: '' @ ref_String TerminalString (chain_head bc) @ '', oldest: '' @
     (case chain_tail bc of None \<Rightarrow> ''<nil>'' | Some b \<Rightarrow> ref_String TerminalString b) @ '')''"

definition results_String :: "broadcast_results \<Rightarrow> string" where
  "results_String br =
     ''relevant '' @ strconv_Itoa (RelevantPeers br) @ '', excluded '' @ strconv_Itoa (ExcludedPeers br) @
     '', disabled '' @ strconv_Itoa (DisabledPeers br) @ '', sent '' @ strconv_Itoa (SentPeers br) @
     '', gateways '' @ strconv_Itoa (SentGatewayPeers br) @ '', errored '' @ strconv_Itoa (NotOpenPeers br + ErrorPeers br)"

text \<open>After a broadcast the printed counters add up: what is relevant was sent or counts as errored.\<close>

lemma results_add_up:
  "gateway_broadcast cl g msg source to = (g', r) \<Longrightarrow>
     results_String r = ''relevant '' @ strconv_Itoa (SentPeers r + (NotOpenPeers r + ErrorPeers r)) @ '', excluded 0, disabled 0, sent '' @
       strconv_Itoa (SentPeers r) @ '', gateways '' @ strconv_Itoa (SentGatewayPeers r) @ '', errored '' @ strconv_Itoa (NotOpenPeers r + ErrorPeers r)"
proof -
  assume b: "gateway_broadcast cl g msg source to = (g', r)"
  let ?cs = "g_Connections g"
  have sub: "filter (\<lambda>c. relevant to c \<and> addressed source to c) ?cs = filter (addressed source to) ?cs"
    by (intro filter_cong) (auto simp: addressed_def)
  have "RelevantPeers r = SentPeers r + (NotOpenPeers r + ErrorPeers r)" "ExcludedPeers r = 0" "DisabledPeers r = 0"
    using b length_filter_split [of "relevant to" ?cs "addressed source to"] length_filter_split [of "addressed source to" ?cs has_socket]
    by (auto simp: broadcast_eq count_results_def zero_results_def sub)
  moreover have "strconv_Itoa 0 = ''0''" by code_simp
  ultimately show ?thesis by (simp add: results_String_def)
qed

section \<open>Transactions\<close>

text \<open>The blockchain's form of a stored transaction; decoding and recovering the sender are go-ethereum's.\<close>

definition parseTransaction ::
  "(byte list \<Rightarrow> string + 'al raw_eth_tx) \<Rightarrow> ('al raw_eth_tx \<Rightarrow> string + byte list) \<Rightarrow> tb_transaction \<Rightarrow> bool \<Rightarrow>
     eth_tx_error + 'al eth_transaction" where
  "parseTransaction Decode Sender' bt extractSender =
     EthTransactionFromBytes Decode Sender' (tx_hash bt) (slice_elems (tx_content bt)) extractSender"

definition BlockchainTransaction ::
  "(byte list \<Rightarrow> string + 'al raw_eth_tx) \<Rightarrow> ('al raw_eth_tx \<Rightarrow> string + byte list) \<Rightarrow> tb_transaction \<Rightarrow> bool \<Rightarrow>
     eth_tx_error + 'al eth_transaction" where
  "BlockchainTransaction Decode Sender' bt extractSender = parseTransaction Decode Sender' bt extractSender"

section \<open>Blocks\<close>

text \<open>
  \<open>json.Marshal\<close> of the map sorts the keys and escapes angle brackets; the values are texts and one list of texts.
\<close>

definition json_char :: "char \<Rightarrow> string" where
  "json_char c = (if c = CHR ''<'' then CHR 0x5C # ''u003c'' else if c = CHR ''>'' then CHR 0x5C # ''u003e'' else [c])"

definition json_string :: "string \<Rightarrow> string" where
  "json_string s = CHR 0x22 # concat (map json_char s) @ [CHR 0x22]"

definition json_member :: "string \<Rightarrow> string \<Rightarrow> string" where
  "json_member key value = json_string key @ '':'' @ value"

definition tb_Serialize :: "tb_block \<Rightarrow> string" where
  "tb_Serialize b =
     ''{'' @ strings_Join
       [json_member ''header'' (json_string (hex_EncodeToString (tb_Header b))),
        json_member ''number'' (json_string (big_String (tb_Number b))),
        json_member ''totalDifficulty'' (json_string (big_String (tb_TotalDifficulty b))),
        json_member ''trailer'' (json_string (hex_EncodeToString (tb_Trailer b))),
        json_member ''txs'' (''['' @ strings_Join (map (\<lambda>tx. json_string (hex_EncodeToString (bt_content tx))) (tb_Txs b)) '','' @ '']'')]
       '','' @ ''}''"


subsection \<open>Reading the text of a block back\<close>

lemma unat_byte: "unat (b :: byte) < 256"
  using unsigned_less [of b, where ?'a = nat] by simp

lemma hex_digits: "set (hex_EncodeToString bs) \<subseteq> set ''0123456789abcdef''"
proof -
  define D where "D = set ''0123456789abcdef''"
  have d: "hex_digit n \<in> D" if "n < 16" for n
    unfolding hex_digit_def D_def using that by (intro nth_mem) simp
  have "unat b div 16 < 16" "unat b mod 16 < 16" for b :: byte
    using unat_byte [of b] by (simp_all add: less_mult_imp_div_less)
  then have "set (hex_EncodeToString bs) \<subseteq> D" by (auto simp: hex_EncodeToString_def intro: d)
  then show ?thesis by (simp only: D_def)
qed

lemma json_plain: "CHR ''<'' \<notin> set s \<Longrightarrow> CHR ''>'' \<notin> set s \<Longrightarrow> concat (map json_char s) = s"
  by (induction s) (auto simp: json_char_def)

lemma json_hex: "json_string (hex_EncodeToString bs) = CHR 0x22 # hex_EncodeToString bs @ [CHR 0x22]"
  using hex_digits [of bs] by (auto simp: json_string_def intro!: json_plain)

lemma Itoa_chars: "c \<in> set (strconv_Itoa i) \<Longrightarrow> c = CHR ''-'' \<or> (of_char c :: nat) \<in> {48..57}"
  using of_char_digit by (auto simp: strconv_Itoa_def split: if_splits)

lemma json_big:
  "concat (map json_char (big_String n)) = (case n of None \<Rightarrow> CHR 0x5C # ''u003cnil'' @ CHR 0x5C # ''u003e'' | Some i \<Rightarrow> strconv_Itoa i)"
proof (cases n)
  case None
  then show ?thesis by (simp add: big_String_def json_char_def)
next
  case (Some i)
  then show ?thesis using Itoa_chars [of _ i] by (auto simp: big_String_def intro!: json_plain dest!: Itoa_chars)
qed

text \<open>No quotation mark stands inside a value, and numbers print differently.\<close>

lemma no_quotes:
  "CHR 0x22 \<notin> set (hex_EncodeToString bs)" "CHR 0x22 \<notin> set (concat (map json_char (big_String n)))"
  using hex_digits [of bs] by (auto simp: json_big split: option.splits dest!: Itoa_chars)

lemma json_big_inj: "concat (map json_char (big_String m)) = concat (map json_char (big_String n)) \<longleftrightarrow> m = n"
proof -
  have "strconv_Itoa i \<noteq> CHR 0x5C # s" for i s
    using Itoa_chars [of "CHR 0x5C" i] by (auto dest: arg_cong [of _ _ hd])
  then show ?thesis by (auto simp: json_big split: option.splits) (metis)+
qed

lemma hex_inj: "hex_EncodeToString a = hex_EncodeToString b \<longleftrightarrow> a = b"
  using hash_String_inj [of a b] by (simp add: hash_String_def)

lemma join_inj:
  "strings_Join (map (\<lambda>c. CHR 0x22 # hex_EncodeToString c @ [CHR 0x22]) xs) '','' =
   strings_Join (map (\<lambda>c. CHR 0x22 # hex_EncodeToString c @ [CHR 0x22]) ys) '','' \<longleftrightarrow> xs = ys"
proof (induction xs arbitrary: ys)
  case Nil
  show ?case by (cases ys rule: remdups_adj.cases) auto
next
  case (Cons x xs)
  have u: "hex_EncodeToString a @ CHR 0x22 # s = hex_EncodeToString b @ CHR 0x22 # t \<longleftrightarrow> a = b \<and> s = t" for a b s t
    using prefix_without_unique [OF no_quotes(1) no_quotes(1)] by (simp add: hex_inj)
  show ?case
  proof (cases ys)
    case Nil
    then show ?thesis by (cases xs) auto
  next
    case (Cons y ys')
    with Cons.IH [of ys'] show ?thesis by (cases xs; cases ys') (auto simp: u hex_inj)
  qed
qed

text \<open>The text of a block as its values between fixed texts.\<close>

definition frame0 :: string where "frame0 = ''{'' @ json_string ''header'' @ '':'' @ [CHR 0x22]"
definition frame1 :: string where "frame1 = '','' @ json_string ''number'' @ '':'' @ [CHR 0x22]"
definition frame2 :: string where "frame2 = '','' @ json_string ''totalDifficulty'' @ '':'' @ [CHR 0x22]"
definition frame3 :: string where "frame3 = '','' @ json_string ''trailer'' @ '':'' @ [CHR 0x22]"
definition frame4 :: string where "frame4 = '','' @ json_string ''txs'' @ '':['' "

lemma tb_Serialize_frame:
  "tb_Serialize b =
     frame0 @ hex_EncodeToString (tb_Header b) @ CHR 0x22 # frame1 @ concat (map json_char (big_String (tb_Number b))) @ CHR 0x22 #
     frame2 @ concat (map json_char (big_String (tb_TotalDifficulty b))) @ CHR 0x22 # frame3 @ hex_EncodeToString (tb_Trailer b) @ CHR 0x22 #
     frame4 @ strings_Join (map (\<lambda>c. CHR 0x22 # hex_EncodeToString c @ [CHR 0x22]) (map bt_content (tb_Txs b))) '','' @ '']}''"
  by (simp add: tb_Serialize_def json_member_def frame0_def frame1_def frame2_def frame3_def frame4_def json_hex comp_def)
    (simp add: json_string_def)

lemma tb_Serialize_inj:
  "tb_Serialize b = tb_Serialize b' \<longleftrightarrow>
     tb_Header b = tb_Header b' \<and> tb_Number b = tb_Number b' \<and> tb_TotalDifficulty b = tb_TotalDifficulty b' \<and>
     tb_Trailer b = tb_Trailer b' \<and> map bt_content (tb_Txs b) = map bt_content (tb_Txs b')"
  unfolding tb_Serialize_frame
  by (simp only: same_append_eq append_same_eq list.inject prefix_without_unique [OF no_quotes(1) no_quotes(1)]
      prefix_without_unique [OF no_quotes(2) no_quotes(2)] hex_inj json_big_inj join_inj)

lemma equal_txs_iff:
  "length txs = length others \<Longrightarrow> equal_txs txs others = Inr (map bt_content txs = map bt_content others)"
  by (induction txs others rule: equal_txs.induct) auto

lemma big_eq_iff: "big_eq m n = Inr True \<longleftrightarrow> m = n"
  by (auto simp: big_eq_def split: option.splits)

text \<open>
  C32. The text of a block decides equality: two blocks have the same text exactly when they have the same number of
  transactions and \<open>Equals\<close> returns true. (Between blocks with different numbers of transactions \<open>Equals\<close> panics or
  passes over the rest.)
\<close>

theorem serialize_decides_equality:
  "tb_Serialize b = tb_Serialize b' \<longleftrightarrow> length (tb_Txs b) = length (tb_Txs b') \<and> tb_Equals b b' = Inr True"
proof (cases "length (tb_Txs b) = length (tb_Txs b')")
  case True
  then show ?thesis
    by (auto simp: tb_Serialize_inj tb_Equals_def equal_txs_iff gbind_Inr_iff big_eq_iff split: if_splits)
next
  case False
  then have "map bt_content (tb_Txs b) \<noteq> map bt_content (tb_Txs b')" by (metis length_map)
  with False show ?thesis by (simp add: tb_Serialize_inj)
qed

lemma tb_Serialize_example:
  "tb_Serialize ((NewRawTbBlock 0 [] [1] [NewTbBlockTransaction [] [255], NewTbBlockTransaction [] []] [] None (Some 7) 0)) =
     frame0 @ ''01'' @ CHR 0x22 # frame1 @ ''7'' @ CHR 0x22 # frame2 @ CHR 0x5C # ''u003cnil'' @ CHR 0x5C # ''u003e'' @ CHR 0x22 # frame3 @ CHR 0x22 #
     frame4 @ [CHR 0x22] @ ''ff'' @ [CHR 0x22] @ '','' @ [CHR 0x22, CHR 0x22] @ '']}''"
  by code_simp

end
