(* ===== verification/Clock.thy ===== *)
theory Clock
  imports Bridge
begin

text \<open>
  The clock of the program (\<^verbatim>\<open>utils/clock.go\<close>): timers and tickers of package \<^verbatim>\<open>time\<close> as \<^verbatim>\<open>RealClock\<close> wraps
  them, and the loops that wait for the ticks of a ticker. A timer belongs to the runtime: it is set to an
  instant, and when the clock has reached it the runtime fires it, which puts the time on its channel
  if there is room.
\<close>

section \<open>Timers of the runtime\<close>

text \<open>
  \<open>ti_period\<close> is 0 for a timer that fires once. The channel has room for one instant; the timer of
  \<open>AfterFunc\<close> has no channel, which is a channel without room here.
\<close>

record timer =
  ti_when :: instant
  ti_period :: duration
  ti_active :: bool
  ti_C :: "instant chan"

text \<open>The instant a duration from now; a sum beyond 64 bits is the last instant there is.\<close>

definition when_after :: "instant \<Rightarrow> duration \<Rightarrow> instant" where
  "when_after now d = (if d \<le> 0 then now else min (now + d) (2 ^ 63 - 1))"

definition timer_fire :: "instant \<Rightarrow> timer \<Rightarrow> timer" where
  "timer_fire now t =
     (if ti_active t \<and> ti_when t \<le> now
      then (let t1 = t\<lparr>ti_C := (case try_send (ti_C t) now of None \<Rightarrow> ti_C t | Some c \<Rightarrow> c)\<rparr>
            in if ti_period t > 0
               then t1\<lparr>ti_when := ti_when t + ti_period t * (1 + (now - ti_when t) div ti_period t)\<rparr>
               else t1\<lparr>ti_active := False\<rparr>)
      else t)"

section \<open>The clock\<close>

definition RealClock_Timer :: "instant \<Rightarrow> duration \<Rightarrow> timer" where
  "RealClock_Timer now d = \<lparr>ti_when = when_after now d, ti_period = 0, ti_active = True, ti_C = make_chan 1\<rparr>"

text \<open>The instant from which on a sleeping goroutine runs again.\<close>

definition RealClock_Sleep :: "instant \<Rightarrow> duration \<Rightarrow> instant" where
  "RealClock_Sleep now d = when_after now d"

definition RealClock_Ticker :: "instant \<Rightarrow> duration \<Rightarrow> timer go" where
  "RealClock_Ticker now d =
     (if d \<le> 0 then Inl (ExplicitPanic ''non-positive interval for NewTicker'')
      else Inr \<lparr>ti_when = when_after now d, ti_period = d, ti_active = True, ti_C = make_chan 1\<rparr>)"

text \<open>The function runs in a goroutine of its own when this timer fires.\<close>

definition RealClock_AfterFunc :: "instant \<Rightarrow> duration \<Rightarrow> timer" where
  "RealClock_AfterFunc now d = \<lparr>ti_when = when_after now d, ti_period = 0, ti_active = True, ti_C = make_chan 0\<rparr>"

text \<open>
  The methods of timers and tickers. \<open>Reset\<close> and \<open>Stop\<close> of a timer tell whether it was active; neither takes
  an instant off the channel.
\<close>

definition realTimer_Alert :: "timer \<Rightarrow> instant chan" where
  "realTimer_Alert r = ti_C r"

definition realTimer_Reset :: "instant \<Rightarrow> timer \<Rightarrow> duration \<Rightarrow> timer \<times> bool" where
  "realTimer_Reset now r d = (r\<lparr>ti_when := when_after now d, ti_active := True\<rparr>, ti_active r)"

definition realTimer_Stop :: "timer \<Rightarrow> timer \<times> bool" where
  "realTimer_Stop r = (r\<lparr>ti_active := False\<rparr>, ti_active r)"

definition realTicker_Alert :: "timer \<Rightarrow> instant chan" where
  "realTicker_Alert r = ti_C r"

definition realTicker_Reset :: "instant \<Rightarrow> timer \<Rightarrow> duration \<Rightarrow> timer go" where
  "realTicker_Reset now r d =
     (if d \<le> 0 then Inl (ExplicitPanic ''non-positive interval for Ticker.Reset'')
      else Inr (r\<lparr>ti_when := when_after now d, ti_period := d, ti_active := True\<rparr>))"

definition realTicker_Stop :: "timer \<Rightarrow> timer" where
  "realTicker_Stop r = r\<lparr>ti_active := False\<rparr>"

lemmas timer_defs = RealClock_Timer_def RealClock_Ticker_def RealClock_AfterFunc_def realTimer_Reset_def
  realTimer_Stop_def realTicker_Reset_def realTicker_Stop_def realTimer_Alert_def realTicker_Alert_def

subsection \<open>What firing does\<close>

text \<open>Firing before the time or after a stop does nothing; firing puts one instant on an empty channel.\<close>

lemma timer_fire_early: "now < ti_when t \<or> \<not> ti_active t \<Longrightarrow> timer_fire now t = t"
  by (auto simp: timer_fire_def)

lemma timer_fire_buffered: "buffered n (ti_C t) \<Longrightarrow> buffered n (ti_C (timer_fire now t))"
  by (auto simp: timer_fire_def Let_def split: option.split intro: buffered_ops)

lemma timer_fire_items:
  assumes "ti_active t" "ti_when t \<le> now" "buffered 1 (ti_C t)"
  shows "ch_items (ti_C (timer_fire now t)) = (if ch_items (ti_C t) = [] then [now] else ch_items (ti_C t))"
  using assms by (auto simp: timer_fire_def Let_def try_send_def ch_room_def buffered_def split: option.split)

text \<open>A one-shot timer fires once; a ticker is set to the next point of its grid that lies ahead.\<close>

lemma timer_fire_once: "ti_period t = 0 \<Longrightarrow> timer_fire now' (timer_fire now t) = timer_fire now t \<or> now < ti_when t"
  by (auto simp: timer_fire_def Let_def)

lemma ticker_fire_next:
  assumes "ti_active t" "ti_when t \<le> now" "0 < ti_period t"
  shows "now < ti_when (timer_fire now t)" "ti_when (timer_fire now t) \<le> now + ti_period t"
    "\<exists>j > 0. ti_when (timer_fire now t) = ti_when t + j * ti_period t"
proof -
  let ?d = "ti_period t" and ?w = "ti_when t"
  let ?q = "(now - ?w) div ?d"
  have nw: "ti_when (timer_fire now t) = ?w + (1 + ?q) * ?d"
    using assms by (simp add: timer_fire_def Let_def algebra_simps)
  have split: "now = ?w + ?q * ?d + (now - ?w) mod ?d" using div_mult_mod_eq [of "now - ?w" ?d] by linarith
  have "0 \<le> (now - ?w) mod ?d" "(now - ?w) mod ?d < ?d" using assms(3) by simp_all
  then show "now < ti_when (timer_fire now t)" "ti_when (timer_fire now t) \<le> now + ti_period t"
    using split unfolding nw distrib_right by linarith+
  have "0 \<le> ?q" using assms by (simp add: pos_imp_zdiv_nonneg_iff)
  then show "\<exists>j > 0. ti_when (timer_fire now t) = ?w + j * ?d"
    unfolding nw by (intro exI [of _ "1 + ?q"]) simp
qed

section \<open>Loops over a ticker\<close>

text \<open>
  A goroutine that makes a ticker and does a round of work per tick, until its context is done. The rounds are counted.
  \<open>TkPass\<close> lets time pass (it does not run backwards), \<open>TkFire\<close> is the runtime firing the ticker, \<open>TkRound\<close> the goroutine receiving a tick, with
  what the round reads, \<open>TkDone\<close> its receiving that the context is done, when it returns (with a tick waiting as well,
  either may come first), and \<open>TkOther\<close> what other goroutines do to the state.
\<close>

record 's ticking =
  lo_now :: instant
  lo_ticker :: timer
  lo_done :: bool
  lo_rounds :: nat
  lo_state :: 's

datatype ('i, 'e) tick_event = TkPass duration | TkFire | TkRound 'i | TkDone | TkOther 'e

definition tick_start :: "instant \<Rightarrow> duration \<Rightarrow> 's \<Rightarrow> 's ticking go" where
  "tick_start now interval s =
     gbind (RealClock_Ticker now interval) (\<lambda>ticker.
       Inr \<lparr>lo_now = now, lo_ticker = ticker, lo_done = False, lo_rounds = 0, lo_state = s\<rparr>)"

fun tick_step ::
  "(instant \<Rightarrow> 's \<Rightarrow> 'i \<Rightarrow> 's go) \<Rightarrow> ('s \<Rightarrow> 'e \<Rightarrow> 's go) \<Rightarrow> 's ticking \<Rightarrow> ('i, 'e) tick_event \<Rightarrow> 's ticking go" where
  "tick_step body other l (TkPass d) = Inr (l\<lparr>lo_now := lo_now l + max 0 d\<rparr>)"
| "tick_step body other l TkFire = Inr (l\<lparr>lo_ticker := timer_fire (lo_now l) (lo_ticker l)\<rparr>)"
| "tick_step body other l (TkRound i) =
     (case ch_recv (realTicker_Alert (lo_ticker l)) of
        Some (t, c) \<Rightarrow>
          if lo_done l then Inr l
          else gbind (body (lo_now l) (lo_state l) i) (\<lambda>s.
                 Inr (l\<lparr>lo_ticker := (lo_ticker l)\<lparr>ti_C := c\<rparr>, lo_rounds := Suc (lo_rounds l), lo_state := s\<rparr>))
      | None \<Rightarrow> Inr l)"
| "tick_step body other l TkDone = Inr (l\<lparr>lo_done := True\<rparr>)"
| "tick_step body other l (TkOther e) = gbind (other (lo_state l) e) (\<lambda>s. Inr (l\<lparr>lo_state := s\<rparr>))"

text \<open>
  The ticker of a loop that started at \<open>t0\<close> is set to a point of the grid of its interval, at most one ahead, and each
  round and each tick on the channel belongs to a point that has passed.
\<close>

definition on_grid :: "instant \<Rightarrow> duration \<Rightarrow> 's ticking \<Rightarrow> bool" where
  "on_grid t0 d l \<longleftrightarrow> ti_period (lo_ticker l) = d \<and> buffered 1 (ti_C (lo_ticker l)) \<and>
     (\<exists>m. ti_when (lo_ticker l) = t0 + m * d \<and> t0 + (m - 1) * d \<le> lo_now l \<and>
        int (lo_rounds l + length (ch_items (ti_C (lo_ticker l)))) \<le> m - 1)"

lemma on_grid_start:
  assumes "tick_start t0 d s = Inr l" "t0 + d < 2 ^ 63"
  shows "on_grid t0 d l"
proof -
  from assms have "l = \<lparr>lo_now = t0, lo_ticker = \<lparr>ti_when = t0 + d, ti_period = d, ti_active = True, ti_C = make_chan 1\<rparr>,
      lo_done = False, lo_rounds = 0, lo_state = s\<rparr>"
    by (auto simp: tick_start_def RealClock_Ticker_def when_after_def split: if_splits)
  then have "ti_when (lo_ticker l) = t0 + 1 * d \<and> t0 + (1 - 1) * d \<le> lo_now l \<and>
      int (lo_rounds l + length (ch_items (ti_C (lo_ticker l)))) \<le> 1 - 1" "ti_period (lo_ticker l) = d"
    "buffered 1 (ti_C (lo_ticker l))" using buffered_ops(1) [of 1] by (simp_all add: make_chan_def)
  then show ?thesis unfolding on_grid_def by blast
qed

lemma on_grid_fire:
  assumes "on_grid t0 d l" "0 < d"
  shows "on_grid t0 d (l\<lparr>lo_ticker := timer_fire (lo_now l) (lo_ticker l)\<rparr>)"
proof (cases "ti_active (lo_ticker l) \<and> ti_when (lo_ticker l) \<le> lo_now l")
  case True
  let ?t = "lo_ticker l" and ?now = "lo_now l"
  let ?t' = "timer_fire ?now ?t"
  from assms(1) obtain m where m: "ti_when ?t = t0 + m * d" "int (lo_rounds l + length (ch_items (ti_C ?t))) \<le> m - 1"
    and p: "ti_period ?t = d" "buffered 1 (ti_C ?t)" by (auto simp: on_grid_def)
  obtain j where j: "j > 0" "ti_when ?t' = ti_when ?t + j * d" and le: "ti_when ?t' \<le> ?now + d"
    using ticker_fire_next [of ?t ?now] True assms(2) p(1) by auto
  have "length (ch_items (ti_C ?t')) \<le> Suc (length (ch_items (ti_C ?t)))"
    using timer_fire_items [of ?t ?now] True p(2) by simp
  then have "int (lo_rounds l + length (ch_items (ti_C ?t'))) \<le> (m + j) - 1" using m(2) j(1) by linarith
  moreover have "ti_when ?t' = t0 + (m + j) * d" "t0 + (m + j - 1) * d \<le> ?now"
    using m(1) j(2) le by (simp_all add: algebra_simps)
  moreover have "ti_period ?t' = d" using p(1) by (simp add: timer_fire_def Let_def)
  ultimately show ?thesis using timer_fire_buffered [OF p(2)] by (auto simp: on_grid_def)
qed (use assms(1) timer_fire_early in \<open>auto simp: not_le\<close>)

lemma on_grid_recv:
  assumes "on_grid t0 d l" "ch_recv (ti_C (lo_ticker l)) = Some (t, c)"
  shows "on_grid t0 d (l\<lparr>lo_ticker := (lo_ticker l)\<lparr>ti_C := c\<rparr>, lo_rounds := Suc (lo_rounds l), lo_state := s\<rparr>)"
proof -
  have "buffered 1 c" using assms buffered_ops(3) [of 1 "ti_C (lo_ticker l)"] by (simp add: on_grid_def)
  moreover have "length (ch_items (ti_C (lo_ticker l))) = Suc (length (ch_items c))"
    using assms(2) by (auto simp: ch_recv_def split: list.splits)
  ultimately show ?thesis using assms(1) by (simp add: on_grid_def add_ac)
qed

lemma on_grid_cong:
  "on_grid t0 d l \<Longrightarrow> lo_ticker l' = lo_ticker l \<Longrightarrow> lo_rounds l' = lo_rounds l \<Longrightarrow> lo_now l \<le> lo_now l' \<Longrightarrow> on_grid t0 d l'"
  by (fastforce simp: on_grid_def)

lemma on_grid_step:
  assumes "on_grid t0 d l" "0 < d" "tick_step body other l e = Inr l'"
  shows "on_grid t0 d l'"
proof (cases e)
  case TkFire
  then show ?thesis using on_grid_fire [OF assms(1,2)] assms(3) by simp
next
  case (TkRound i)
  then show ?thesis using assms(1,3) on_grid_recv [OF assms(1)]
    by (auto simp: gbind_Inr_iff realTicker_Alert_def split: option.splits if_splits)
qed (use assms(3) in \<open>auto simp: gbind_Inr_iff intro: on_grid_cong [OF assms(1)]\<close>)

lemma on_grid_rate:
  assumes "on_grid t0 d l" "0 < d"
  shows "int (lo_rounds l) * d \<le> lo_now l - t0"
proof -
  obtain m where m: "t0 + (m - 1) * d \<le> lo_now l" "int (lo_rounds l) \<le> m - 1"
    using assms(1) by (auto simp: on_grid_def)
  have "int (lo_rounds l) * d \<le> (m - 1) * d" using m(2) assms(2) by (intro mult_right_mono) simp_all
  with m(1) show ?thesis by linarith
qed

fun tick_allowed :: "(instant \<Rightarrow> 's \<Rightarrow> 'i \<Rightarrow> bool) \<Rightarrow> ('s \<Rightarrow> 'e \<Rightarrow> bool) \<Rightarrow> 's ticking \<Rightarrow> ('i, 'e) tick_event \<Rightarrow> bool" where
  "tick_allowed reads admits l (TkRound i) = reads (lo_now l) (lo_state l) i"
| "tick_allowed reads admits l (TkOther e) = admits (lo_state l) e"
| "tick_allowed reads admits l _ = True"

text \<open>When its context is done, the goroutine returns: no round follows. Its ticker keeps running; nothing stops it.\<close>

lemma done_ends_rounds:
  "lo_done l \<Longrightarrow> go_run (tick_step body other) l es = Inr l' \<Longrightarrow>
     lo_rounds l' = lo_rounds l \<and> (ti_active (lo_ticker l) \<and> 0 < ti_period (lo_ticker l) \<longrightarrow> ti_active (lo_ticker l'))"
proof (induction es arbitrary: l)
  case (Cons e es)
  then obtain k where k: "tick_step body other l e = Inr k" "go_run (tick_step body other) k es = Inr l'"
    by (auto simp: gbind_Inr_iff)
  have "lo_done k \<and> lo_rounds k = lo_rounds l \<and> ti_period (lo_ticker k) = ti_period (lo_ticker l) \<and>
      (ti_active (lo_ticker l) \<and> 0 < ti_period (lo_ticker l) \<longrightarrow> ti_active (lo_ticker k))"
    using Cons.prems(1) k(1) by (cases e) (auto simp: gbind_Inr_iff timer_fire_def Let_def split: option.splits)
  with Cons.IH k(2) show ?case by auto
qed simp

text \<open>A loop whose round and whose environment keep an invariant of the state.\<close>

locale ticker_loop =
  fixes body :: "instant \<Rightarrow> 's \<Rightarrow> 'i \<Rightarrow> 's go"
    and other :: "'s \<Rightarrow> 'e \<Rightarrow> 's go"
    and reads :: "instant \<Rightarrow> 's \<Rightarrow> 'i \<Rightarrow> bool"
    and admits :: "'s \<Rightarrow> 'e \<Rightarrow> bool"
    and inv :: "'s \<Rightarrow> bool"
  assumes body_inv: "inv s \<Longrightarrow> reads now s i \<Longrightarrow> body now s i = Inr s' \<Longrightarrow> inv s'"
    and other_inv: "inv s \<Longrightarrow> admits s e \<Longrightarrow> other s e = Inr s' \<Longrightarrow> inv s'"
begin

lemma step_inv:
  assumes "inv (lo_state l)" "tick_allowed reads admits l e" "tick_step body other l e = Inr l'"
  shows "inv (lo_state l')"
proof (cases e)
  case (TkRound i)
  show ?thesis
  proof (cases "lo_state l' = lo_state l")
    case False
    then have "body (lo_now l) (lo_state l) i = Inr (lo_state l')"
      using TkRound assms(3) by (auto simp: gbind_Inr_iff split: option.splits if_splits)
    with assms(1,2) TkRound show ?thesis by (auto intro: body_inv)
  qed (use assms(1) in simp)
next
  case (TkOther e)
  then show ?thesis using assms other_inv by (auto simp: gbind_Inr_iff)
qed (use assms in auto)

text \<open>The state keeps its invariant, and the rounds are no more than the intervals that have passed.\<close>

lemma loop_run:
  assumes "on_grid t0 d l" "0 < d" "inv (lo_state l)"
    and "go_admitted (tick_step body other) (tick_allowed reads admits) l es" "go_run (tick_step body other) l es = Inr l'"
  shows "inv (lo_state l')" "int (lo_rounds l') * d \<le> lo_now l' - t0"
proof -
  have "inv (lo_state l') \<and> on_grid t0 d l'"
    using assms(1,3-)
  proof (induction es arbitrary: l)
    case (Cons e es)
    then obtain k where k: "tick_step body other l e = Inr k" "go_run (tick_step body other) k es = Inr l'"
      by (auto simp: gbind_Inr_iff)
    have "inv (lo_state k)" "on_grid t0 d k" "go_admitted (tick_step body other) (tick_allowed reads admits) k es"
      using Cons.prems k(1) step_inv [OF _ _ k(1)] on_grid_step [OF _ assms(2) k(1)] by auto
    with Cons.IH k(2) show ?case by blast
  qed simp
  then show "inv (lo_state l')" "int (lo_rounds l') * d \<le> lo_now l' - t0" using on_grid_rate assms(2) by blast+
qed

end

end
