(* ===== verification/Goroutines.thy ===== *)
theory Goroutines
  imports Clock Chain_Queries Tx_Store Eth_Peer
begin

text \<open>
  The goroutines that work by the ticks of a ticker: those that clean up the chain (\<^verbatim>\<open>cleanBlockStorage\<close>), the
  transaction store and the hash history, and those of a peer that wait for the confirmation of a block. The clean-ups are
  instances of the loop of theory \<open>Clock\<close>, so each keeps the invariant of its component and does at most one
  round per interval.
\<close>

section \<open>The chain\<close>

definition defaultCleanInterval :: duration where
  "defaultCleanInterval = 30 * Minute"

definition cleanBlockStorage ::
  "'x header_hash \<Rightarrow> int \<Rightarrow> ('t, 'x) chain ticking \<Rightarrow>
     ((u64 \<times> 'x header_entry list) list, ('t, 'x) chain_event) tick_event \<Rightarrow> ('t, 'x) chain ticking go" where
  "cleanBlockStorage HH maxSize =
     tick_step (\<lambda>now c items. gbind (chain_clean items c maxSize) (\<lambda>(c', counts). Inr c')) (chain_step HH)"

definition running_chain :: "instant \<Rightarrow> ('t, 'x) chain ticking go" where
  "running_chain now = tick_start now defaultCleanInterval NewChain"

definition cleaning_allowed ::
  "'x header_hash \<Rightarrow> int \<Rightarrow> ('t, 'x) chain ticking \<Rightarrow>
     ((u64 \<times> 'x header_entry list) list, ('t, 'x) chain_event) tick_event \<Rightarrow> bool" where
  "cleaning_allowed HH maxSize = tick_allowed (\<lambda>now c items. chain_admits HH c (EvClean items maxSize)) (chain_admits HH)"

text \<open>
  The invariant of the chain is one for each set \<open>K\<close> of exempt hashes; the other operations may store no status hash
  outside of it.
\<close>

interpretation chain_cleaner: ticker_loop
    "\<lambda>now c items. gbind (chain_clean items c maxSize) (\<lambda>(c', counts). Inr c')" "chain_step HH"
    "\<lambda>now c items. chain_admits HH c (EvClean items maxSize)" "\<lambda>c e. chain_admits HH c e \<and> status_hash e \<subseteq> K"
    "chain_inv K HH" for HH maxSize K
proof unfold_locales
  fix c items now c'
  assume "chain_inv K HH c" "chain_admits HH c (EvClean items maxSize)"
    "gbind (chain_clean items c maxSize) (\<lambda>(c', counts). Inr c') = Inr c'"
  then show "chain_inv K HH c'" using chain_inv_step [of K HH c "EvClean items maxSize" c'] by (auto simp: gbind_Inr_iff)
qed (blast intro: chain_inv_step)

fun other_event :: "('i, 'e) tick_event \<Rightarrow> 'e list" where
  "other_event (TkOther e) = [e]"
| "other_event _ = []"

text \<open>The hashes of the status messages among the other operations of a run.\<close>

definition tick_hashes :: "('i, ('t, 'x) chain_event) tick_event list \<Rightarrow> hash set" where
  "tick_hashes es = status_hashes (concat (map other_event es))"

lemma cleaning_allowed_hashes:
  assumes "go_admitted (cleanBlockStorage HH n) (cleaning_allowed HH n) l es"
  shows "go_admitted (cleanBlockStorage HH n)
     (tick_allowed (\<lambda>now c items. chain_admits HH c (EvClean items n)) (\<lambda>c e. chain_admits HH c e \<and> status_hash e \<subseteq> tick_hashes es)) l es"
proof (rule go_admitted_mono [OF go_admitted_and [OF assms]])
  show "\<forall>e \<in> set es. status_hashes (other_event e) \<subseteq> tick_hashes es"
    by (auto simp: tick_hashes_def status_hashes_def)
qed (simp add: cleaning_allowed_def status_hashes_def, elim conjE tick_allowed.elims, auto)

text \<open>
  C28. The clean-up of a running chain. However the ticks, the clean-ups and the other operations interleave,
  the chain stays linked, its stores stay complete but for the hashes of status messages, whose metadata and bodies a
  clean-up may remove, and it is cleaned at most once per half hour that has passed. Once the goroutine has seen that the
  context is done it is never cleaned again. The conditions are that header hashes do not collide, that the
  numbers of added blocks fit a signed integer, that a clean-up iterates over the stored heights, and that the clock is
  half an hour from the end of its range when the chain starts.
\<close>

theorem chain_cleaned_per_interval:
  assumes "running_chain t0 = Inr l0" "t0 + defaultCleanInterval < 2 ^ 63"
    and "go_admitted (cleanBlockStorage HH defaultMaxSize) (cleaning_allowed HH defaultMaxSize) l0 es"
    and "go_run (cleanBlockStorage HH defaultMaxSize) l0 es = Inr l"
  shows "chain_ok_but (tick_hashes es) HH (lo_state l) \<and> int (lo_rounds l) * defaultCleanInterval \<le> lo_now l - t0 \<and>
    (lo_done l \<longrightarrow> go_run (cleanBlockStorage HH defaultMaxSize) l es' = Inr l' \<longrightarrow> lo_rounds l' = lo_rounds l)"
proof -
  have grid: "on_grid t0 defaultCleanInterval l0"
    using assms(1,2) unfolding running_chain_def by (rule on_grid_start)
  have new: "chain_inv (tick_hashes es) HH (lo_state l0)"
    using assms(1) by (auto simp: running_chain_def tick_start_def gbind_Inr_iff NewChain_def chain_inv_newChain)
  have pos: "0 < defaultCleanInterval" by (simp add: defaultCleanInterval_def duration_defs)
  note run = chain_cleaner.loop_run [OF grid pos new]
  have "chain_inv (tick_hashes es) HH (lo_state l)" "int (lo_rounds l) * defaultCleanInterval \<le> lo_now l - t0"
    using run cleaning_allowed_hashes [OF assms(3)] assms(4) unfolding cleanBlockStorage_def by blast+
  then show ?thesis using done_ends_rounds unfolding cleanBlockStorage_def chain_inv_def by blast
qed

definition ex_cleaning :: "((u64 \<times> unit header_entry list) list, (unit, unit) chain_event) tick_event list" where
  "ex_cleaning = [TkPass (40 * Minute), TkFire, TkRound [], TkRound [], TkPass (5 * Minute), TkFire] @ map TkOther ex_run @ [TkDone]"

theorem chain_cleaned_per_interval_witness:
  "\<exists>l0 l. running_chain 100 = Inr l0 \<and> go_run (cleanBlockStorage toy_hash defaultMaxSize) l0 ex_cleaning = Inr l \<and>
     chain_ok_but {} toy_hash (lo_state l) \<and> lo_rounds l = 1 \<and> map ref_height (chainState (lo_state l)) = [2, 2, 1] \<and>
     int (lo_rounds l) * defaultCleanInterval \<le> lo_now l - 100"
proof -
  obtain l0 :: "(unit, unit) chain ticking" where l0: "running_chain 100 = Inr l0" "lo_state l0 = NewChain"
    by (simp add: running_chain_def tick_start_def RealClock_Ticker_def defaultCleanInterval_def duration_defs)
  have "case running_chain 100 of Inl p \<Rightarrow> False | Inr l0 \<Rightarrow>
      (case go_run (cleanBlockStorage toy_hash defaultMaxSize) l0 ex_cleaning of Inl p \<Rightarrow> False
       | Inr l \<Rightarrow> lo_rounds l = 1 \<and> map ref_height (chainState (lo_state l)) = [2, 2, 1])" by code_simp
  then obtain l where l: "go_run (cleanBlockStorage toy_hash defaultMaxSize) l0 ex_cleaning = Inr l" "lo_rounds l = 1"
    "map ref_height (chainState (lo_state l)) = [2, 2, 1]" using l0(1) by (auto split: sum.splits)
  have "go_admitted (cleanBlockStorage toy_hash defaultMaxSize) (cleaning_allowed toy_hash defaultMaxSize) l0 ex_cleaning"
  proof -
    have fresh: "chain_admits toy_hash (NewChain :: (unit, unit) chain) (EvClean [] defaultMaxSize)"
      by (simp add: toy_hash_binds NewChain_def newChain_def defaultMaxSize_def)
    have clean: "chain_clean [] (NewChain :: (unit, unit) chain) defaultMaxSize = Inr (NewChain, 0, 0, 0)"
      by (simp add: chain_clean_def NewChain_def newChain_def)
    show ?thesis
      unfolding ex_cleaning_def go_admitted_append
    proof (intro conjI allI impI)
      show "go_admitted (cleanBlockStorage toy_hash defaultMaxSize) (cleaning_allowed toy_hash defaultMaxSize) l0
          [TkPass (40 * Minute), TkFire, TkRound [], TkRound [], TkPass (5 * Minute), TkFire]"
        by (rule go_admitted_while [of "\<lambda>l. lo_state l = NewChain"])
          (use l0(2) fresh clean in \<open>auto simp: cleanBlockStorage_def cleaning_allowed_def simp del: chain_admits.simps split: option.splits if_splits\<close>)
    qed (rule go_admitted_while [of "\<lambda>_. True"],
        auto simp: cleaning_allowed_def ex_run_def toy_hash_binds ex_block_fields split: sum.split)+
  qed
  moreover have "tick_hashes ex_cleaning = {}" by (simp add: tick_hashes_def ex_cleaning_def ex_run_def status_hashes_def)
  ultimately show ?thesis using chain_cleaned_per_interval [OF l0(1), of toy_hash ex_cleaning l] l l0(1)
    by (auto simp: defaultCleanInterval_def duration_defs)
qed

section \<open>The transaction store\<close>

definition store_cleaner ::
  "('a \<Rightarrow> tx_id \<times> 'a) \<Rightarrow> 'a tb_tx_store ticking \<Rightarrow>
     ((hash \<Rightarrow> instant) \<times> (hash \<times> tb_transaction) list \<times> (hash \<times> tb_transaction) list, txstore_event) tick_event \<Rightarrow>
     'a tb_tx_store ticking go" where
  "store_cleaner Next =
     tick_step (\<lambda>now t (clk, items1, items2). gbind (CleanNow now clk items1 items2 t) (\<lambda>(t', sent). Inr t')) (txstore_step Next)"

interpretation store_cleaner: ticker_loop
    "\<lambda>now t (clk, items1, items2). gbind (CleanNow now clk items1 items2 t) (\<lambda>(t', sent). Inr t')" "txstore_step Next"
    "\<lambda>now t i. True" "\<lambda>t e. True" store_ok for Next
  by unfold_locales (auto simp: gbind_Inr_iff intro: store_ok_CleanNow store_ok_step)

section \<open>The hash history\<close>

text \<open>A mark on a hash that lasts until \<open>T\<close> outlives every clean-up before.\<close>

definition history_cleaner ::
  "'k hash_history ticking \<Rightarrow> (('k \<times> int) list, 'k hh_event) tick_event \<Rightarrow> 'k hash_history ticking go" where
  "history_cleaner = tick_step (\<lambda>now hh items. Inr (fst (hh_clean items hh now))) (\<lambda>hh e. Inr (hh_step hh e))"

interpretation history_cleaner: ticker_loop
    "\<lambda>now hh items. Inr (fst (hh_clean items hh now))" "\<lambda>hh e. Inr (hh_step hh e)"
    "\<lambda>now hh items. int64_range T \<and> hh_quiet k T hh (HClean items now)" "\<lambda>hh e. int64_range T \<and> hh_quiet k T hh e"
    "\<lambda>hh. hh_Exists hh T k" for k T
proof unfold_locales
  fix hh hh' :: "'a hash_history" and items now
  assume "hh_Exists hh T k" "int64_range T \<and> hh_quiet k T hh (HClean items now)" "Inr (fst (hh_clean items hh now)) = Inr hh'"
  then show "hh_Exists hh' T k" using hh_quiet_step [of T k hh "HClean items now"] by simp
qed (auto simp: hh_quiet_step)

lemma mark_outlives_cleaning:
  assumes "on_grid t0 d l" "0 < d" "hh_Exists (lo_state l) T k"
    and "go_admitted history_cleaner
      (tick_allowed (\<lambda>now hh items. int64_range T \<and> hh_quiet k T hh (HClean items now)) (\<lambda>hh e. int64_range T \<and> hh_quiet k T hh e)) l es"
    and "go_run history_cleaner l es = Inr l'"
  shows "hh_Exists (lo_state l') T k"
  using history_cleaner.loop_run(1) [OF assms(1-3)] assms(4,5) unfolding history_cleaner_def .

section \<open>Confirmations of a peer\<close>

text \<open>The ticks of the \<open>i\<close>-th confirmation goroutine, with the request ID drawn at each; \<^term>\<open>None\<close> when one waits.\<close>

fun confirmer_ticks :: "('t, 'x) wire \<Rightarrow> ('t, 'x) peer \<Rightarrow> nat \<Rightarrow> u64 list \<Rightarrow> ('t, 'x) peer option" where
  "confirmer_ticks W ep i [] = Some ep"
| "confirmer_ticks W ep i (rid # rids) =
     (case confirmer_tick W ep i rid of None \<Rightarrow> None | Some ep1 \<Rightarrow> confirmer_ticks W ep1 i rids)"

text \<open>
  C35. A confirmation goroutine outlives its peer. Once a peer of version 66 is disconnected, sending reports success
  without sending, so a goroutine that waits for a block above the confirmed head asks again at every tick for ever:
  it never ends, nothing is written, and every request leaves one more entry in the table of awaited responses.
\<close>

theorem confirmer_outlives_peer:
  assumes "p_disconnected ep" "isVersion66 ep" "i < length (p_confirmers ep)" "p_confirmers ep ! i = (block, n)"
    and "ref_height (p_confirmedHead ep) < ref_height block"
  shows "\<exists>ep'. confirmer_ticks W ep i rids = Some ep' \<and> p_confirmers ep' = (p_confirmers ep)[i := (block, n + length rids)] \<and>
    p_written ep' = p_written ep \<and> dom (p_responseQueue66 ep') = dom (p_responseQueue66 ep) \<union> set rids"
  using assms
proof (induction rids arbitrary: ep n)
  case Nil
  then have "(p_confirmers ep)[i := (block, n)] = p_confirmers ep" by (metis list_update_id)
  then show ?case by simp
next
  case (Cons rid rids)
  let ?ep1 = "(registerForResponse66 ep rid None)\<lparr>p_confirmers := (p_confirmers ep)[i := (block, Suc n)]\<rparr>"
  have "confirmer_tick W ep i rid = Some ?ep1"
    using Cons.prems
    by (simp add: confirmer_tick_def RequestBlockHeader_def RequestBlockHeaderRaw_def peer_send_def
        registerForResponse66_def Let_def not_le [symmetric])
  moreover have "\<exists>ep'. confirmer_ticks W ?ep1 i rids = Some ep' \<and> p_confirmers ep' = (p_confirmers ?ep1)[i := (block, Suc n + length rids)] \<and>
      p_written ep' = p_written ?ep1 \<and> dom (p_responseQueue66 ep') = dom (p_responseQueue66 ?ep1) \<union> set rids"
    using Cons.prems by (intro Cons.IH) (simp_all add: isVersion66_def registerForResponse66_def)
  ultimately show ?case by (auto simp: registerForResponse66_def)
qed

text \<open>The three ticks of a goroutine whose peer has left.\<close>

definition ex_left_peer :: "(byte list, unit) peer" where
  "ex_left_peer = (newPeer ''p'' \<lparr>ep_IP = ''1.2.3.4'', ep_Port = 30303, ep_PublicKey = []\<rparr> 66)
     \<lparr>p_disconnected := True, p_confirmers := [(\<lparr>ref_height = 7, ref_hash = [9]\<rparr>, 0)]\<rparr>"

theorem confirmer_outlives_peer_witness:
  "\<exists>ep'. confirmer_ticks (\<lambda>ms m. None) ex_left_peer 0 [5, 6, 7] = Some ep' \<and>
     p_confirmers ep' = [(\<lparr>ref_height = 7, ref_hash = [9]\<rparr>, 3)] \<and> dom (p_responseQueue66 ep') = {5, 6, 7}"
  using confirmer_outlives_peer [of ex_left_peer 0 "\<lparr>ref_height = 7, ref_hash = [9]\<rparr>" 0 "\<lambda>ms m. None" "[5, 6, 7]"]
  by (auto simp: ex_left_peer_def newPeer_def isVersion66_def ETH66_def zero_ref_def)

end
