(* ===== verification/Eth_Safety.thy ===== *)
theory Eth_Safety
  imports Gateway
begin

text \<open>
  The Ethereum side of the gateway as one machine: peers that connect, every message they send, the blocks
  that are fetched for announcements, the rounds of the loop that serves the BDN, the goroutines of the
  peers, the cleaning of the chain, and whatever the gateway does at the other end of the bridge. The
  theorem is that no interleaving of these makes it panic, outside a list of excluded events.
\<close>

section \<open>Results that hold and do not panic\<close>

text \<open>
  \<open>go_post P r\<close>: the call returns, with a value that satisfies \<open>P\<close>; \<open>act_post P r\<close>: the same for a call that
  may wait.
\<close>

definition go_post :: "('a \<Rightarrow> bool) \<Rightarrow> 'a go \<Rightarrow> bool" where
  "go_post P r = (case r of Inl p \<Rightarrow> False | Inr a \<Rightarrow> P a)"

definition act_post :: "('a \<Rightarrow> bool) \<Rightarrow> 'a act \<Rightarrow> bool" where
  "act_post P r = (case r of Inl p \<Rightarrow> False | Inr None \<Rightarrow> True | Inr (Some a) \<Rightarrow> P a)"

lemma go_post_simps [simp]:
  "go_post P (Inl p) = False" "go_post P (Inr a) = P a"
  "go_post P (gbind m f) = go_post (\<lambda>a. go_post P (f a)) m"
  by (simp_all add: go_post_def gbind_def split: sum.split)

lemma act_post_simps [simp]:
  "act_post P (Inl p) = False" "act_post P (Inr None) = True" "act_post P (returns a) = P a"
  "act_post P (abind m f) = act_post (\<lambda>a. act_post P (f a)) m"
  "act_post P (lift_go r) = go_post P r"
  by (simp_all add: act_post_def go_post_def abind_def lift_go_def split: sum.split option.split)

lemma go_post_mono: "go_post Q r \<Longrightarrow> (\<And>a. Q a \<Longrightarrow> P a) \<Longrightarrow> go_post P r"
  by (auto simp: go_post_def split: sum.splits)

lemma go_postD: "go_post P r \<Longrightarrow> \<exists>a. r = Inr a \<and> P a"
  by (auto simp: go_post_def split: sum.splits)

lemma go_run_post:
  fixes inv :: "'s \<Rightarrow> bool"
  assumes "\<And>s e. inv s \<Longrightarrow> admits s e \<Longrightarrow> go_post inv (step s e)" "inv s" "go_admitted step admits s es"
  shows "\<exists>s'. go_run step s es = Inr s' \<and> inv s'"
  using assms(2,3)
proof (induction es arbitrary: s)
  case (Cons e es)
  then have "go_post inv (step s e)" using assms(1) by simp
  then obtain t where "step s e = Inr t" "inv t" by (auto dest: go_postD)
  then show ?case using Cons by simp
qed simp

lemma act_post_mono: "act_post Q r \<Longrightarrow> (\<And>a. Q a \<Longrightarrow> P a) \<Longrightarrow> act_post P r"
  by (auto simp: act_post_def split: sum.splits option.splits)

lemma settle_post: "act_post P r \<Longrightarrow> P s \<Longrightarrow> go_post P (settle s r)"
  by (auto simp: settle_def act_post_def split: sum.splits option.splits)

section \<open>The chain\<close>

text \<open>
  The chain is safe when it satisfies its invariant, with the hashes of \<open>K\<close> exempt, no stored header names the hash of
  the nil header as its parent or has a height for which no slice can be made, its head is the highest entry, and its
  limits are those of \<open>NewChain\<close>.
\<close>

definition headers_safe :: "'x header_hash \<Rightarrow> ('t, 'x) chain \<Rightarrow> bool" where
  "headers_safe HH c \<longleftrightarrow> (\<forall>ht hdr. stored c ht hdr \<longrightarrow> ParentHash hdr \<noteq> HH None \<and> height_fits ht)"

definition head_highest :: "('t, 'x) chain \<Rightarrow> bool" where
  "head_highest c \<longleftrightarrow> (\<forall>r \<in> set (chainState c). ref_height r \<le> ref_height (hd (chainState c)))"

definition usual_limits :: "('t, 'x) chain \<Rightarrow> bool" where
  "usual_limits c \<longleftrightarrow> maxReorg c = maxReorgLength \<and> minValidChain c = minValidChainLength"

definition chain_safe :: "hash set \<Rightarrow> 'x header_hash \<Rightarrow> ('t, 'x) chain \<Rightarrow> bool" where
  "chain_safe K HH c \<longleftrightarrow> chain_inv K HH c \<and> headers_safe HH c \<and> head_highest c \<and> usual_limits c"

lemma chain_safeD:
  "chain_safe K HH c \<Longrightarrow> chain_ok_but K HH c" "chain_safe K HH c \<Longrightarrow> nil_hashes c \<subseteq> K"
  "chain_safe K HH c \<Longrightarrow> headers_safe HH c" "chain_safe K HH c \<Longrightarrow> head_highest c" "chain_safe K HH c \<Longrightarrow> usual_limits c"
  by (simp_all add: chain_safe_def chain_inv_def)

lemma headers_safeD:
  "headers_safe HH c \<Longrightarrow> \<forall>ht hdr. stored c ht hdr \<longrightarrow> ParentHash hdr \<noteq> HH None"
  "headers_safe HH c \<Longrightarrow> stored c ht hdr \<Longrightarrow> height_fits ht"
  by (simp_all add: headers_safe_def)

lemma usual_limits_cong:
  "maxReorg c' = maxReorg c \<Longrightarrow> minValidChain c' = minValidChain c \<Longrightarrow> usual_limits c' = usual_limits c"
  by (simp add: usual_limits_def)

lemma height_fits_signed: "height_fits ht \<Longrightarrow> unat ht < 2 ^ 63"
  by (simp add: height_fits_def make_ok_def blockRefSize_def maxAlloc_def uint_nat del: of_nat_unat)

lemma headers_safe_cong: "heightToBlockHeaders c' = heightToBlockHeaders c \<Longrightarrow> headers_safe HH c' = headers_safe HH c"
  by (simp add: headers_safe_def stored_cong [of c' c])

lemma head_highest_cong: "chainState c' = chainState c \<Longrightarrow> head_highest c' = head_highest c"
  by (simp add: head_highest_def)

lemma fill_missing_heights:
  assumes "fill_missing HH c bottom ht h ms = Inr e" "ht \<le> hi" "\<forall>r \<in> set ms. ref_height r \<le> hi"
  shows "case e of ReturnZero \<Rightarrow> True | NewState m k \<Rightarrow> k = [] \<and> (\<forall>r \<in> set m. ref_height r \<le> hi)
    | LoopExit ht' h' m \<Rightarrow> ht' \<le> hi \<and> (\<forall>r \<in> set m. ref_height r \<le> hi)"
  using assms
proof (induction HH c bottom ht h ms rule: fill_missing.induct)
  case (1 HH c bottom ht h ms)
  show ?case
  proof (cases "bottom < ht")
    case False
    with "1.prems" show ?thesis by (auto simp: fill_missing.simps [of HH c bottom])
  next
    case True
    then have less: "ht - 1 \<le> hi"
      using "1.prems"(2) unat_minus_one_less [of bottom ht] by (simp add: word_le_nat_alt)
    show ?thesis
    proof (cases "getBlockHeader HH c ht h")
      case None
      with True "1.prems"(1) show ?thesis by (auto simp: fill_missing.simps [of HH c bottom])
    next
      case (Some p)
      show ?thesis
      proof (cases p)
        case None
        with Some True "1.prems"(1) show ?thesis by (simp add: fill_missing.simps [of HH c bottom])
      next
        case (Some hdr)
        note h = \<open>getBlockHeader HH c ht h = Some p\<close> [unfolded Some]
        note IH = "1.IH" [OF True h refl refl _ _ less]
        show ?thesis using True h IH "1.prems"
          by (cases "minValidChain c \<le> int (length (ms @ [\<lparr>ref_height = ht, ref_hash = h\<rparr>]))")
            (auto simp: fill_missing.simps [of HH c bottom ht])
      qed
    qed
  qed
qed

lemma reorg_loop_heights:
  assumes "reorg_loop HH c cs i ht h ms = Inr e" "stores_ok_but K HH c"
    and "unat ht \<le> unat hi \<or> 2 ^ 63 \<le> unat ht" "\<forall>r \<in> set ms \<union> set cs. ref_height r \<le> hi"
  shows "case e of NewState m k \<Rightarrow> \<forall>r \<in> set (m @ k). ref_height r \<le> hi | _ \<Rightarrow> True"
  using assms
proof (induction HH c cs i ht h ms rule: reorg_loop.induct)
  case (2 HH c r rest i ht h ms)
  show ?case
  proof (cases "h = ref_hash r")
    case False
    note h = this
    show ?thesis
    proof (cases "getBlockHeader HH c ht h")
      case (Some p)
      show ?thesis
      proof (cases p)
        case (Some hdr)
        note hdr = \<open>getBlockHeader HH c ht h = Some p\<close> [unfolded Some]
        have "unat ht < 2 ^ 63" using stores_okD(2) [OF "2.prems"(2)] getBlockHeader_stored [OF hdr] by blast
        then have le: "ht \<le> hi" using "2.prems"(3) by (simp add: word_le_nat_alt)
        have "unat (ht - 1) \<le> unat hi \<or> 2 ^ 63 \<le> unat (ht - 1)"
          using le unat_minus_one_less [of 0 ht] by (cases "ht = 0") (auto simp: word_le_nat_alt word_gt_0 unsigned_minus_1_eq_mask mask_eq_exp_minus_1)
        note IH = "2.IH" [OF h hdr refl refl _ _ "2.prems"(2) this]
        show ?thesis using h hdr IH le "2.prems"(1,4) by (cases "maxReorg c \<le> i + 1") auto
      qed (use Some h "2.prems"(1) in auto)
    qed (use h "2.prems"(1) in auto)
  qed (use "2.prems" in auto)
qed auto

text \<open>What an update of the chain state does: nothing, or new entries on old ones.\<close>

lemma updateChainState_cases:
  assumes "updateChainState HH c height h p = Inr (c', n)"
  obtains "chainState c = []" "c' = c\<lparr>chainState := [\<lparr>ref_height = height, ref_hash = h\<rparr>]\<rparr>" "n = 1"
  | r rs c1 where "chainState c = r # rs" "c1 = c \<or> c1 = c\<lparr>chainState := \<lparr>ref_height = height, ref_hash = h\<rparr> # chainState c\<rparr>"
      "c1 = c \<or> ref_height r + 1 = height" "height \<le> ref_height r" "c' = c1" "n = 0"
  | r rs c1 e where "chainState c = r # rs" "c1 = c \<or> c1 = c\<lparr>chainState := \<lparr>ref_height = height, ref_hash = h\<rparr> # chainState c\<rparr>"
      "ref_height r < height" "(c', n) = install c1 e"
      "fill_missing HH c1 (ref_height r) height h [] = Inr e \<and> (\<forall>ht' h' m. e \<noteq> LoopExit ht' h' m) \<or>
       (\<exists>ht' h' m. fill_missing HH c1 (ref_height r) height h [] = Inr (LoopExit ht' h' m) \<and>
          (e = NewState m (chainState c1) \<or> reorg_loop HH c1 (chainState c1) 0 ht' h' m = Inr e))"
proof (cases "chainState c")
  case Nil
  with assms show ?thesis by (intro that(1)) (auto simp: updateChainState_def)
next
  case (Cons r rs)
  define c1 where "c1 = (if ref_height r + 1 = height \<and> ref_hash r = p
    then c\<lparr>chainState := \<lparr>ref_height = height, ref_hash = h\<rparr> # chainState c\<rparr> else c)"
  have c1: "c1 = c \<or> c1 = c\<lparr>chainState := \<lparr>ref_height = height, ref_hash = h\<rparr> # chainState c\<rparr>" "c1 = c \<or> ref_height r + 1 = height"
    by (auto simp: c1_def)
  note up = assms [unfolded updateChainState_def Let_def Cons list.case, folded c1_def [unfolded Cons]]
  show ?thesis
  proof (cases "height \<le> ref_height r")
    case True
    with up show ?thesis by (intro that(2) [OF Cons c1]) auto
  next
    case False
    with up obtain e where e: "fill_missing HH c1 (ref_height r) height h [] = Inr e" "(case e of
        LoopExit headHeight headHash missingEntries \<Rightarrow>
          if headHeight = ref_height r \<and> headHash = ref_hash r
          then Inr (install c1 (NewState missingEntries (chainState c1)))
          else gbind (reorg_loop HH c1 (chainState c1) 0 headHeight headHash missingEntries) (\<lambda>e'. Inr (install c1 e'))
      | _ \<Rightarrow> Inr (install c1 e)) = Inr (c', n)"
      by (auto simp: gbind_Inr_iff split: if_splits)
    have lt: "ref_height r < height" using False by simp
    show ?thesis
    proof (cases e)
      case (LoopExit ht' h' m)
      with e(2) obtain e' where "(c', n) = install c1 e'" "e' = NewState m (chainState c1) \<or> reorg_loop HH c1 (chainState c1) 0 ht' h' m = Inr e'"
      proof (cases "ht' = ref_height r \<and> h' = ref_hash r")
        case True
        with e(2) LoopExit show ?thesis by (intro that [of "NewState m (chainState c1)"]) auto
      next
        case False
        with e(2) LoopExit obtain e' where "reorg_loop HH c1 (chainState c1) 0 ht' h' m = Inr e'" "(c', n) = install c1 e'"
          by (auto simp: gbind_Inr_iff)
        then show ?thesis by (intro that [of e']) auto
      qed
      then show ?thesis using e(1) [unfolded LoopExit] by (intro that(3) [OF Cons c1(1) lt]) auto
    qed (use e in \<open>auto intro!: that(3) [OF Cons c1(1) lt]\<close>)
  qed
qed

text \<open>How many entries are new: never more than both limits together, for which a slice can be made.\<close>

lemma fill_missing_count:
  assumes "fill_missing HH c bottom ht h ms = Inr e" "int (length ms) < minValidChain c"
  shows "case e of NewState m k \<Rightarrow> int (length m) \<le> minValidChain c
    | LoopExit ht' h' m \<Rightarrow> int (length m) < minValidChain c | ReturnZero \<Rightarrow> True"
  using assms
proof (induction HH c bottom ht h ms rule: fill_missing.induct)
  case (1 HH c bottom ht h ms)
  then show ?case
    by (cases "bottom < ht"; cases "getBlockHeader HH c ht h";
        cases "minValidChain c \<le> int (length (ms @ [\<lparr>ref_height = ht, ref_hash = h\<rparr>]))")
      (auto simp: fill_missing.simps [of HH c bottom ht] split: option.splits)
qed

lemma reorg_loop_count:
  assumes "reorg_loop HH c cs i ht h ms = Inr e" "i < maxReorg c"
  shows "case e of NewState m k \<Rightarrow> int (length m) \<le> int (length ms) + (maxReorg c - i) | _ \<Rightarrow> True"
  using assms
proof (induction HH c cs i ht h ms rule: reorg_loop.induct)
  case (2 HH c r rest i ht h ms)
  then show ?case
    by (cases "h = ref_hash r"; cases "getBlockHeader HH c ht h"; cases "maxReorg c \<le> i + 1")
      (fastforce split: option.splits loop_end.splits)+
qed auto

lemma updateChainState_count:
  assumes "updateChainState HH c height h p = Inr (c', n)" "usual_limits c"
  shows "make_ok pointerSize n"
proof -
  have "0 \<le> n \<and> n \<le> 30" using assms(1)
  proof (cases rule: updateChainState_cases)
    case (3 r rs c1 e)
    have lim: "maxReorg c1 = 20" "minValidChain c1 = 10"
      using 3(2) assms(2) by (auto simp: usual_limits_def maxReorgLength_def minValidChainLength_def)
    note fill = fill_missing_count [of HH c1 "ref_height r" height h "[]"]
    have "case e of NewState m k \<Rightarrow> int (length m) \<le> 30 | _ \<Rightarrow> True"
      using 3(5)
    proof (elim disjE exE conjE)
      assume "fill_missing HH c1 (ref_height r) height h [] = Inr e"
      from fill [OF this] show ?thesis by (auto simp: lim split: loop_end.splits)
    next
      fix ht' h' m assume f: "fill_missing HH c1 (ref_height r) height h [] = Inr (LoopExit ht' h' m)"
      then have m: "int (length m) < 10" using fill [OF f] by (simp add: lim)
      { assume "e = NewState m (chainState c1)"
        with m show ?thesis by simp }
      { assume "reorg_loop HH c1 (chainState c1) 0 ht' h' m = Inr e"
        from reorg_loop_count [OF this] m show ?thesis by (auto simp: lim split: loop_end.splits) }
    qed
    with 3(4) show ?thesis by (auto simp: install_def split: loop_end.splits)
  qed auto
  then show ?thesis by (simp add: make_ok_def pointerSize_def maxAlloc_def)
qed

lemma updateChainState_stores:
  "updateChainState HH c height h p = Inr (c', n) \<Longrightarrow> heightToBlockHeaders c' = heightToBlockHeaders c"
  "updateChainState HH c height h p = Inr (c', n) \<Longrightarrow> usual_limits c' = usual_limits c"
  by (erule updateChainState_cases; auto simp: install_def usual_limits_def split: loop_end.splits)+

lemma updateChainState_heights:
  assumes up: "updateChainState HH c height h p = Inr (c', n)" and "stores_ok_but K HH c" "head_highest c"
    and lt: "chainState c = [] \<or> ref_height (hd (chainState c)) < height"
  shows "\<forall>r \<in> set (chainState c'). ref_height r \<le> height"
  using up
proof (cases rule: updateChainState_cases)
  case (3 r rs c1 e)
  have old: "\<forall>r \<in> set (chainState c1). ref_height r \<le> height"
    using 3(1-3) assms(3) less_imp_le [OF 3(3)] by (fastforce simp: head_highest_def)
  have st: "stores_ok_but K HH c1" using assms(2) 3(2) by auto
  note fill = fill_missing_heights [of HH c1 "ref_height r" height h "[]" _ height, simplified]
  have "case e of NewState m k \<Rightarrow> \<forall>r \<in> set (m @ k). ref_height r \<le> height | _ \<Rightarrow> True"
    using 3(5)
  proof (elim disjE exE conjE)
    assume "fill_missing HH c1 (ref_height r) height h [] = Inr e"
    from fill [OF this] show ?thesis by (auto split: loop_end.splits)
  next
    fix ht' h' m assume f: "fill_missing HH c1 (ref_height r) height h [] = Inr (LoopExit ht' h' m)"
    note m = fill [OF f, simplified]
    { assume "e = NewState m (chainState c1)"
      with m old show ?thesis by auto }
    { assume r: "reorg_loop HH c1 (chainState c1) 0 ht' h' m = Inr e"
      have "unat ht' \<le> unat height \<or> 2 ^ 63 \<le> unat ht'" using m by (simp add: word_le_nat_alt)
      from reorg_loop_heights [OF r st this] m old show ?thesis by auto }
  qed
  with 3(4) old show ?thesis by (auto simp: install_def split: loop_end.splits)
qed (use lt in auto)

lemma updateChainState_head_highest:
  assumes "chain_ok_but K HH c" "head_highest c" "getBlockHeader HH c height h = Some (Some hdr)"
    and up: "updateChainState HH c height h (ParentHash hdr) = Inr (c', n)"
  shows "head_highest c'"
  using updateChainState_updated [OF assms(1,3) refl up] updateChainState_heights [OF up chain_okD(1) [OF assms(1)] assms(2)] assms(2)
  by (auto simp: updated_def extends_def head_highest_def)

text \<open>An update with a stored header, in a safe chain.\<close>

lemma updateChainState_safe:
  assumes "hash_binds HH" "chain_safe K HH c" "getBlockHeader HH c ht h = Some (Some hdr)"
  shows "go_post (\<lambda>(c', n). chain_safe K HH c' \<and> make_ok pointerSize n) (updateChainState HH c ht h (ParentHash hdr))"
proof -
  note ok = chain_safeD [OF assms(2)]
  have st: "stored c ht hdr" "HH (Some hdr) = h" using getBlockHeader_stored [OF assms(3)] by auto
  then have "h \<noteq> HH None" using hash_bindsD(3) [OF assms(1)] by blast
  from updateChainState_returns [where HH = HH, OF headers_safeD(1) [OF ok(3)] this headers_safeD(2) [OF ok(3) st(1)]]
  obtain c' n where up: "updateChainState HH c ht h (ParentHash hdr) = Inr (c', n)" by blast
  note keep = updateChainState_stores [OF up]
  have "chain_safe K HH c'"
    using updated_chain_ok [OF updateChainState_updated [OF ok(1) assms(3) refl up] ok(1)]
      updateChainState_head_highest [OF ok(1,4) assms(3) up] ok headers_safe_cong [OF keep(1), of HH] keep(2) nil_hashes_cong [OF keep(1)]
    by (simp add: chain_safe_def chain_inv_def)
  then show ?thesis using up updateChainState_count [OF up ok(5)] by simp
qed

lemma AddBlock_post:
  assumes "hash_binds HH" "chain_safe K HH c" "height_fits (NumberU64 (bi_Block b))" "ParentHash (blk_header (bi_Block b)) \<noteq> HH None"
  shows "go_post (\<lambda>(c', n). chain_safe K HH c' \<and> make_ok pointerSize n) (AddBlock HH c b source)"
proof -
  let ?c1 = "AddBlock_store HH c b source"
  note ok = chain_safeD [OF assms(2)]
  have ok1: "chain_ok_but K HH ?c1" by (rule chain_ok_AddBlock_store [OF ok(1) height_fits_signed [OF assms(3)]])
  have "headers_safe HH ?c1"
    using ok(3) assms(3,4) stored_AddBlock_store [of HH c b source] stores_okD(1) [OF chain_okD(1) [OF ok1]]
    unfolding headers_safe_def NumberU64_def by blast
  moreover have "usual_limits ?c1 = usual_limits c"
    by (rule usual_limits_cong) (simp_all add: AddBlock_store_def storeBlock_def storeBlockHeader_def storeHeaderAtHeight_def
        storeEthHeaderAtHeight_def storeBlockMetadata_def storeBlockBody_def storeBlockDifficulty_def Let_def split: option.split)
  ultimately have safe: "chain_safe K HH ?c1"
    using ok ok1 by (simp add: chain_safe_def chain_inv_def head_highest_def)
  obtain hdr where hdr: "getBlockHeader HH ?c1 (NumberU64 (bi_Block b)) (block_Hash HH (bi_Block b)) = Some (Some hdr)"
    "ParentHash hdr = ParentHash (blk_header (bi_Block b))"
    using AddBlock_store_lookup [OF assms(1) chain_okD(1) [OF ok(1)]] by blast
  show ?thesis using updateChainState_safe [OF assms(1) safe hdr(1)] safe unfolding AddBlock_split hdr(2)
    by (cases "source = BSBDN") (simp_all add: make_ok_def maxAlloc_def)
qed

lemma ConfirmBlock_post:
  assumes "hash_binds HH" "chain_safe K HH c" "h \<noteq> HH None"
  shows "go_post (\<lambda>(c', n). chain_safe K HH c' \<and> make_ok pointerSize n) (ConfirmBlock HH c h)"
proof (cases "blockHashToMetadata c h")
  case None
  then show ?thesis using assms(2) by (simp add: ConfirmBlock_def make_ok_def maxAlloc_def)
next
  case (Some bm)
  let ?c1 = "c\<lparr>blockHashToMetadata := (blockHashToMetadata c)(h \<mapsto> bm\<lparr>confirmed := True\<rparr>)\<rparr>"
  have same: "heightToBlockHeaders ?c1 = heightToBlockHeaders c" "chainState ?c1 = chainState c" by simp_all
  note ok = chain_safeD [OF assms(2)]
  have "chain_ok_but K HH ?c1" by (rule chain_ok_same_headers [OF ok(1)]) auto
  then have safe: "chain_safe K HH ?c1"
    using ok headers_safe_cong [OF same(1)] head_highest_cong [OF same(2)] nil_hashes_cong [OF same(1)] usual_limits_cong [of ?c1 c]
    by (simp add: chain_safe_def chain_inv_def)
  from getBlockHeader_not_nil [where HH = HH, OF assms(3), of ?c1 "bm_height bm"] show ?thesis
  proof (elim disjE exE)
    assume "getBlockHeader HH ?c1 (bm_height bm) h = None"
    then show ?thesis using Some safe by (simp add: ConfirmBlock_def Let_def make_ok_def maxAlloc_def)
  next
    fix hdr assume hdr: "getBlockHeader HH ?c1 (bm_height bm) h = Some (Some hdr)"
    show ?thesis using updateChainState_safe [OF assms(1) safe hdr] Some hdr by (simp add: ConfirmBlock_def Let_def)
  qed
qed

lemma new_heads_loop_returns: "chain_ok_but K HH c \<Longrightarrow> \<exists>r. new_heads_loop HH c i n heads = Inr r"
proof (induction n arbitrary: i heads)
  case (Suc n)
  have "backed HH c (chainState c ! i)" if "i < length (chainState c)" using Suc.prems that by (intro chain_okD(2)) auto
  then have "getBlockHeader HH c (ref_height (chainState c ! i)) (ref_hash (chainState c ! i)) \<noteq> Some None" if "i < length (chainState c)"
    using that by (auto simp: backed_def)
  then show ?case using Suc.IH [OF Suc.prems] by (cases "length (chainState c) \<le> i") (auto simp: Let_def not_le split: option.split)
qed simp

lemma GetNewHeadsForBDN_returns: "chain_ok_but K HH c \<Longrightarrow> make_ok pointerSize n \<Longrightarrow> \<exists>r. GetNewHeadsForBDN HH c n = Inr r"
  using new_heads_loop_returns [where n = "nat n" and i = 0 and heads = "[]"] by (simp add: GetNewHeadsForBDN_def)

lemma BlockAtDepth_returns:
  assumes "hash_binds HH" "chain_safe K HH c" "0 \<le> d"
  shows "\<exists>r. BlockAtDepth HH c d = Inr r"
proof (cases "int (length (chainState c)) \<le> d")
  case False
  let ?ref = "chainState c ! nat d"
  have ok: "chain_ok_but K HH c" "head_highest c" using chain_safeD [OF assms(2)] by simp_all
  have r: "?ref \<in> set (chainState c)" using False assms(3) by auto
  obtain hd' tl' where cs: "chainState c = hd' # tl'" using r by (cases "chainState c") auto
  have small: "unat (ref_height hd') < 2 ^ 63" using backed_height [OF chain_okD(1,2) [OF ok(1)]] cs by simp
  have le: "ref_height ?ref \<le> ref_height hd'" using ok(2) r cs unfolding head_highest_def by force
  have "unat (ref_height hd' - ref_height ?ref) \<le> unat (ref_height hd')" using le by (simp add: unat_sub word_le_nat_alt)
  then have nn: "0 \<le> sint (ref_height hd' - ref_height ?ref)" using small sint_of_small [of "ref_height hd' - ref_height ?ref"] by simp
  have nb: "getBlockHeader HH c ht (ref_hash (chainState c ! j)) \<noteq> Some None" if "j < length (chainState c)" for ht j
  proof -
    have "backed HH c (chainState c ! j)" using chain_okD(2) [OF ok(1) nth_mem [OF that]] .
    then have "ref_hash (chainState c ! j) \<noteq> HH None" using getBlockHeader_stored hash_bindsD(3) [OF assms(1)] unfolding backed_def by metis
    then show ?thesis using getBlockHeader_not_nil [of "ref_hash (chainState c ! j)" HH c ht] by auto
  qed
  have get: "getHeaderAtHeight HH c ht = (let i = sint (ref_height hd' - ht) in if i < 0 then Inr None
      else if i \<ge> int (length (chainState c)) then Inl (NoHeaderAtHeight ht)
      else case getBlockHeader HH c ht (ref_hash (chainState c ! nat i)) of None \<Rightarrow> Inl (NoHeaderAtHeight ht) | Some hdr \<Rightarrow> Inr hdr)" for ht
    by (simp add: getHeaderAtHeight_def cs Let_def)
  have "getHeaderAtHeight HH c (ref_height ?ref) \<noteq> Inr None"
  proof
    let ?i = "sint (ref_height hd' - ref_height ?ref)"
    assume "getHeaderAtHeight HH c (ref_height ?ref) = Inr None"
    with nn have "nat ?i < length (chainState c)" "getBlockHeader HH c (ref_height ?ref) (ref_hash (chainState c ! nat ?i)) = Some None"
      unfolding get Let_def by (auto split: if_splits option.splits)
    with nb show False by blast
  qed
  then show ?thesis using False assms(3) by (auto simp: BlockAtDepth_def Let_def not_le split: option.split sum.split)
qed (simp add: BlockAtDepth_def)

lemma chain_safe_fields:
  assumes "chain_safe K HH c"
  shows "chain_safe K HH (MarkSentToBDN c h)" "chain_safe K HH (storeBlockMetadata c h ht cf cs)"
    "h \<in> K \<Longrightarrow> chain_safe K HH (InitializeDifficulty c h td)" "chain_safe K HH (fst (SetTotalDifficulty HH c info))"
proof -
  let ?set = "fst (SetTotalDifficulty HH c info)"
  note ok = chain_safeD [OF assms]
  have st: "stored (InitializeDifficulty c h td) = stored c"
    using stored_cong [of "InitializeDifficulty c h td" "storeEthHeaderAtHeight c 0 \<lparr>eh_Header = None, eh_hash = h\<rparr>"]
    by (simp add: InitializeDifficulty_def Let_def fun_eq_iff stored_storeEth storeEthHeaderAtHeight_headers)
  have f: "heightToBlockHeaders ?set = heightToBlockHeaders c" "chainState ?set = chainState c"
    "chainState (InitializeDifficulty c h td) = chainState c"
    by (simp_all add: SetTotalDifficulty_def InitializeDifficulty_def Let_def split: option.split)
  have lim: "usual_limits (MarkSentToBDN c h) = usual_limits c" "usual_limits (storeBlockMetadata c h ht cf cs) = usual_limits c"
    "usual_limits (InitializeDifficulty c h td) = usual_limits c" "usual_limits ?set = usual_limits c"
    by (rule usual_limits_cong; simp add: MarkSentToBDN_def storeBlockMetadata_def InitializeDifficulty_def SetTotalDifficulty_def
        storeBlockDifficulty_def storeEthHeaderAtHeight_def Let_def split: option.split)+
  show "chain_safe K HH (MarkSentToBDN c h)" "chain_safe K HH (storeBlockMetadata c h ht cf cs)"
    using ok lim(1,2) nil_hashes_cong [of "MarkSentToBDN c h" c]
    by (simp_all add: chain_safe_def chain_inv_def chain_ok_MarkSentToBDN chain_ok_storeBlockMetadata head_highest_def
        headers_safe_cong [of "MarkSentToBDN c h" c] headers_safe_cong [of "storeBlockMetadata c h ht cf cs" c])
  show "chain_safe K HH (InitializeDifficulty c h td)" if "h \<in> K"
    using ok f(3) lim(3) that
    by (simp add: chain_safe_def chain_inv_def chain_ok_InitializeDifficulty headers_safe_def head_highest_def st)
  show "chain_safe K HH ?set"
    using ok f lim(4) nil_hashes_cong [OF f(1)]
    by (simp add: chain_safe_def chain_inv_def chain_ok_SetTotalDifficulty_fst head_highest_def headers_safe_cong [of ?set c])
qed

lemma chain_safe_new: "chain_safe K HH NewChain"
  using chain_inv_newChain [of K HH maxReorgLength minValidChainLength]
  by (simp add: chain_safe_def NewChain_def headers_safe_def stored_def newChain_def head_highest_def usual_limits_def)

lemma chain_clean_post:
  assumes "chain_safe K HH c" "chain_admits HH c (EvClean items maxSize)"
  shows "go_post (\<lambda>x. chain_safe K HH (fst x)) (chain_clean items c maxSize)"
proof -
  note ok = chain_safeD [OF assms(1)]
  have adm: "1 \<le> maxSize" "maxSize < 2 ^ 63" using assms(2) by simp_all
  have "\<exists>x. chain_clean items c maxSize = Inr x"
    using adm(1) by (cases "chainState c") (simp_all add: chain_clean_def Let_def split: prod.split)
  then obtain c' cnt where c': "chain_clean items c maxSize = Inr (c', cnt)" by auto
  have "chain_inv K HH c'"
    using chain_inv_step [of K HH c "EvClean items maxSize" c'] ok(1,2) assms(2) c' by (simp add: chain_inv_def)
  have sub: "set (take k xs) \<subseteq> set xs" "0 < k \<Longrightarrow> hd (take k xs) = hd xs" for k and xs :: "block_ref list"
    by (auto simp: set_take_subset hd_take)
  note pr = chain_clean_pruned [OF ok(1) adm c']
  have "headers_safe HH c'" "head_highest c'"
    using pr ok(3,4) adm(1) sub [where xs = "chainState c"]
    by (auto simp: headers_safe_def head_highest_def stored_pruned subset_iff)
  moreover have "usual_limits c'" using pr ok(5) by (auto simp: usual_limits_def pruned_def)
  ultimately show ?thesis using \<open>chain_inv K HH c'\<close> c' by (simp add: chain_safe_def)
qed

section \<open>The peers\<close>

definition peers_ok :: "('t, 'x) peer_set \<Rightarrow> bool" where
  "peers_ok ps \<longleftrightarrow> (\<forall>pid ep. ps pid = Some ep \<longrightarrow> peer_ok ep)"

lemma peers_ok_upd [intro]: "peers_ok ps \<Longrightarrow> peer_ok ep \<Longrightarrow> peers_ok (ps(pid \<mapsto> ep))"
  by (simp add: peers_ok_def)

lemma peers_okD: "peers_ok ps \<Longrightarrow> ps pid = Some ep \<Longrightarrow> peer_ok ep"
  by (simp add: peers_ok_def)

lemma peer_ok_sends:
  assumes "peer_ok ep"
  shows "peer_ok (fst (peer_send W ep c d))" "peer_ok (fst (AnnounceBlock W ep h n))" "peer_ok (fst (SendTransactions W ep txs))"
    "peer_ok (fst (RequestTransactions W ep rid hs))" "peer_ok (fst (SendBlockHeaders W ep hdrs))"
    "peer_ok (fst (ReplyBlockHeaders W ep rid hdrs))" "peer_ok (fst (SendBlockBodies W ep bodies))"
    "peer_ok (fst (ReplyBlockBodies W ep rid bodies))" "peer_ok (Disconnect ep)"
  using assms
  by (simp_all add: peer_ok_send AnnounceBlock_def SendTransactions_def RequestTransactions_def SendBlockHeaders_def ReplyBlockHeaders_def
      SendBlockBodies_def ReplyBlockBodies_def) (simp add: Disconnect_def peer_ok_def)

lemma peer_ok_send_both: "send_both W ep p q = (ep', err) \<Longrightarrow> peer_ok ep \<Longrightarrow> peer_ok ep'"
  using peer_ok_sends(1) [of ep W GetBlockHeadersMsg p] peer_ok_sends(1) [of "fst (peer_send W ep GetBlockHeadersMsg p)" W GetBlockBodiesMsg q]
  by (cases "peer_send W ep GetBlockHeadersMsg p") (auto simp: send_both_def split: option.splits)

lemma peer_ok_QueueNewBlock: "peer_ok ep \<Longrightarrow> QueueNewBlock ep b td = Some ep' \<Longrightarrow> peer_ok ep'"
  using peer_ok_step [of ep "\<lambda>ms m. None" toy_hash "PvQueueNewBlock b td" ep'] by simp

lemma peer_ok_UpdateHead: "peer_ok ep \<Longrightarrow> UpdateHead ep ht h = Some ep' \<Longrightarrow> peer_ok ep'"
  using peer_ok_step [of ep "\<lambda>ms m. None" toy_hash "PvUpdateHead ht h" ep'] by simp

lemma peer_ok_NotifyResponse: "peer_ok ep \<Longrightarrow> NotifyResponse ep packet = Some (ep', r) \<Longrightarrow> peer_ok ep'"
  using peer_ok_step [of ep "\<lambda>ms m. None" toy_hash "PvNotifyResponse packet" ep'] by (cases r) simp

lemma peer_ok_NotifyResponse66: "peer_ok ep \<Longrightarrow> peer_ok (fst (NotifyResponse66 ep rid packet))"
  by (simp add: NotifyResponse66_def peer_ok_def split: option.split)

lemma broadcastBlock_post: "peers_ok ps \<Longrightarrow> act_post peers_ok (broadcastBlock order b td source ps)"
proof (induction order b td source ps rule: broadcastBlock.induct)
  case (2 pid order b td source ps)
  then show ?case
    by (auto split: option.split intro!: "2.IH" peers_ok_upd peer_ok_QueueNewBlock [OF peers_okD])
qed simp

lemma broadcastBlockAnnouncement_ok: "peers_ok ps \<Longrightarrow> peers_ok (broadcastBlockAnnouncement W HH order b ps)"
proof (induction W HH order b ps rule: broadcastBlockAnnouncement.induct)
  case (2 W HH pid order b ps)
  then show ?case by (auto split: option.split intro!: "2.IH" peers_ok_upd peer_ok_sends(2) [OF peers_okD])
qed simp

lemma broadcastTransactions_ok: "peers_ok ps \<Longrightarrow> peers_ok (broadcastTransactions W order txs ps)"
proof (induction W order txs ps rule: broadcastTransactions.induct)
  case (2 W pid order txs ps)
  then show ?case by (auto split: option.split intro!: "2.IH" peers_ok_upd peer_ok_sends(3) [OF peers_okD])
qed simp

lemma GetHeaders_returns: "make_ok pointerSize n \<Longrightarrow> \<exists>r. GetHeaders HH c origin n skip reverse = Inr r"
  using get_headers_bounded [of n HH c origin skip reverse] by auto

lemma highest_header_returns: "None \<notin> set hs \<Longrightarrow> \<exists>r. highest_header HH m x hs = Inr r"
  by (induction HH m x hs rule: highest_header.induct) auto

lemma updatePeerHeadFromHeaders_post:
  assumes "None \<notin> set hs" "peer_ok ep"
  shows "act_post peer_ok (updatePeerHeadFromHeaders HH hs ep)"
proof (cases hs)
  case (Cons hdr rest)
  then obtain h0 where h0: "hs = Some h0 # rest" using assms(1) by (cases hdr) auto
  with assms(1) have "None \<notin> set rest" by simp
  with highest_header_returns obtain m x where "highest_header HH (Number h0) (HH (Some h0)) rest = Inr (m, x)" by fastforce
  then show ?thesis
    by (cases "UpdateHead ep (big_Uint64 m) x") (auto simp: h0 updatePeerHeadFromHeaders_def intro: peer_ok_UpdateHead [OF assms(2)])
qed (simp add: updatePeerHeadFromHeaders_def assms(2))

lemma updatePeerHeadFromNewHashes_post: "peer_ok ep \<Longrightarrow> act_post peer_ok (updatePeerHeadFromNewHashes bs ep)"
proof (cases bs)
  case (Cons b rest)
  assume ok: "peer_ok ep"
  obtain h0 n0 where b: "b = (h0, n0)" by (cases b)
  obtain m x where "highest_announced n0 h0 rest = (m, x)" by (cases "highest_announced n0 h0 rest")
  then show ?thesis
    by (cases "UpdateHead ep m x") (auto simp: Cons b updatePeerHeadFromNewHashes_def intro: peer_ok_UpdateHead [OF ok])
qed (simp add: updatePeerHeadFromNewHashes_def)

section \<open>What is harmless\<close>

text \<open>
  A header is harmless when its parent hash is not the hash of the nil header and a slice of references can be made for
  its number: \<open>updateChainState\<close> makes one for the distance to the head, and above a head at height 0 no check
  bounds that. A packet is harmless when its header is, when a slice of pointers can be made for the amount of headers it
  asks for, and when no header in it is nil (a decoder of go-ethereum never leaves one).
\<close>

definition header_harmless :: "'x header_hash \<Rightarrow> 'x eth_header \<Rightarrow> bool" where
  "header_harmless HH hdr \<longleftrightarrow> height_fits (big_Uint64 (Number hdr)) \<and> ParentHash hdr \<noteq> HH None"

fun packet_harmless :: "'x header_hash \<Rightarrow> ('t, 'x) eth_packet \<Rightarrow> bool" where
  "packet_harmless HH (NewBlockPacket p) = header_harmless HH (blk_header (nb_Block p))"
| "packet_harmless HH (GetBlockHeadersPacket q) = (unat (gh_Amount q) \<le> 2 ^ 45)"
| "packet_harmless HH (GetBlockHeadersPacket66 rid q) = (unat (gh_Amount q) \<le> 2 ^ 45)"
| "packet_harmless HH (BlockHeadersPacket hs) = (None \<notin> set hs)"
| "packet_harmless HH (BlockHeadersPacket66 rid hs) = (None \<notin> set hs)"
| "packet_harmless HH _ = True"

definition response_harmless :: "'x header_hash \<Rightarrow> fetch_error + 'x eth_header option list \<times> ('t, 'x) eth_body list \<Rightarrow> bool" where
  "response_harmless HH fetched = (case fetched of Inl err \<Rightarrow> True
     | Inr (headers, bodies) \<Rightarrow> length headers \<noteq> 1 \<and> length bodies \<noteq> 1 \<or>
         (case (headers, bodies) of (Some hdr # hdrs, body # rest) \<Rightarrow> header_harmless HH hdr | _ \<Rightarrow> False))"

definition msg_harmless :: "'x header_hash \<Rightarrow> string + ('t, 'x) eth_raw \<Rightarrow> bool" where
  "msg_harmless HH r = (case r of Inl err \<Rightarrow> True | Inr msg \<Rightarrow>
     (case m_Decode msg of Inl err \<Rightarrow> True | Inr packet \<Rightarrow> packet_harmless HH packet))"

text \<open>A block of the BDN is harmless when what it decodes to is.\<close>

definition bdn_harmless :: "('t, 'x) geth \<Rightarrow> 'x header_hash \<Rightarrow> tb_block \<Rightarrow> bool" where
  "bdn_harmless G HH b = (case BlockBDNtoBlockchain G b of Inl err \<Rightarrow> True | Inr info \<Rightarrow> header_harmless HH (blk_header (bi_Block info)))"

text \<open>What a round of the loop may receive.\<close>

definition round_harmless :: "('t, 'x) geth \<Rightarrow> 'x header_hash \<Rightarrow> ('t, 'x, 'n, 'k) handler \<Rightarrow> bdn_case \<Rightarrow> bool" where
  "round_harmless G HH h k = (case k of
     CaseBlock \<Rightarrow> (case ReceiveBlockFromBDN (h_bridge h) of None \<Rightarrow> True | Some (b, br) \<Rightarrow> bdn_harmless G HH b)
   | CaseConfig \<Rightarrow> (case ReceiveNetworkConfigUpdates (h_bridge h) of None \<Rightarrow> True | Some (c, br) \<Rightarrow> 0 \<le> cf_BlockConfirmationsCount c)
   | _ \<Rightarrow> True)"

section \<open>The handler\<close>

text \<open>
  The invariant of the handler: a chain that is safe but for the hashes of \<open>K\<close>, a property \<open>B\<close> of the bridge, no queue of a peer beyond its capacity, and
  a depth of confirmation that is not negative.
\<close>

definition eth_ok ::
  "((tb_transaction, tb_block, ('n, 'k) eth_config) turbo_bridge \<Rightarrow> bool) \<Rightarrow> hash set \<Rightarrow> 'x header_hash \<Rightarrow>
     ('t, 'x, 'n, 'k) handler \<Rightarrow> bool" where
  "eth_ok B K HH h \<longleftrightarrow> chain_safe K HH (h_chain h) \<and> B (h_bridge h) \<and> peers_ok (h_peers h) \<and>
     0 \<le> cf_BlockConfirmationsCount (h_config h)"

text \<open>What a handler returns first is the new state.\<close>

abbreviation keeps_ok ::
  "((tb_transaction, tb_block, ('n, 'k) eth_config) turbo_bridge \<Rightarrow> bool) \<Rightarrow> hash set \<Rightarrow> 'x header_hash \<Rightarrow>
     (('t, 'x, 'n, 'k) handler \<times> 'a) act \<Rightarrow> bool" where
  "keeps_ok B K HH r \<equiv> act_post (\<lambda>x. eth_ok B K HH (fst x)) r"

subsection \<open>Steps that leave the bridge alone\<close>

lemma on_peer_post:
  assumes "eth_ok B K HH h" "\<And>ep. h_peers h pid = Some ep \<Longrightarrow> peer_ok ep \<Longrightarrow>
    act_post (\<lambda>(ep', a). peer_ok ep' \<and> (eth_ok B K HH (h\<lparr>h_peers := (h_peers h)(pid \<mapsto> ep')\<rparr>) \<longrightarrow> P (h\<lparr>h_peers := (h_peers h)(pid \<mapsto> ep')\<rparr>, a))) (f ep)"
  shows "act_post P (on_peer h pid f)"
proof (cases "h_peers h pid")
  case (Some ep)
  then have "peer_ok ep" using assms(1) by (auto simp: eth_ok_def dest: peers_okD)
  from assms(2) [OF Some this] show ?thesis unfolding on_peer_def Some option.case act_post_simps
    by (rule act_post_mono) (use assms(1) in \<open>auto simp: eth_ok_def\<close>)
qed (simp add: on_peer_def)

lemma request_block_post:
  fixes h :: "('t, 'x, 'n, 'k) handler"
  assumes "eth_ok B K HH h"
  shows "keeps_ok B K HH (request_block W rd h pid bh)"
proof -
  have r66: "peer_ok ep \<Longrightarrow> peer_ok (registerForResponse66 ep rid ch)" for ep :: "('t, 'x) peer" and rid ch
    by (simp add: registerForResponse66_def peer_ok_def)
  have r65: "peer_ok ep \<Longrightarrow> registerForResponse ep ch = Some ep' \<Longrightarrow> peer_ok ep'" for ep ep' :: "('t, 'x) peer" and ch
    using buffered_ops(2) [of responseQueueSize "p_responseQueue ep" ch] by (auto simp: registerForResponse_def peer_ok_def)
  have b: "act_post (\<lambda>(ep', a). peer_ok ep') (if isVersion66 ep then lift_go (RequestBlock66 W ep r1 r2 bh c1 c2) else RequestBlock W ep bh c1 c2)"
    if "peer_ok ep" for W r1 r2 bh c1 c2 and ep :: "('t, 'x) peer"
  proof (cases "isVersion66 ep")
    case True
    then show ?thesis using r66 [OF r66 [OF that]] by (auto simp: RequestBlock66_def Let_def elim: peer_ok_send_both)
  next
    case False
    show ?thesis
    proof (cases "registerForResponse ep c1")
      case (Some ep1)
      note ok = r65 [OF that Some]
      show ?thesis
        by (cases "registerForResponse ep1 c2") (use False Some r65 [OF ok] in \<open>auto simp: RequestBlock_def elim: peer_ok_send_both\<close>)
    qed (use False in \<open>simp add: RequestBlock_def\<close>)
  qed
  show ?thesis
    unfolding request_block_def Let_def act_post_simps
    by (rule on_peer_post [OF assms], rule act_post_mono [OF b]) (auto split: option.split)
qed

lemma serve_headers_post:
  fixes h :: "('t, 'x, 'n, 'k) handler"
  assumes "eth_ok B K HH h" "unat (gh_Amount q) \<le> 2 ^ 45"
  shows "keeps_ok B K HH (serve_headers HH W h pid rid q)"
proof -
  have n: "make_ok pointerSize (sint (gh_Amount q))" using assms(2) by (simp add: amount_make_ok)
  have a: "act_post (\<lambda>(ep', a). peer_ok ep') (lift_go (answerGetBlockHeaders HH c q ep))" if "peer_ok ep"
    for c :: "('t, 'x) chain" and ep :: "('t, 'x) peer"
    using that GetHeaders_returns [OF n, of HH c "gh_Origin q" "sint (gh_Skip q)" "gh_Reverse q"]
    by (auto simp: answerGetBlockHeaders_def peer_ok_def split: sum.split chain_error.split)
  have r: "keeps_ok B K HH (abind (on_peer h1 pid (\<lambda>peer. returns (case rid of
       None \<Rightarrow> SendBlockHeaders (W pid) peer hdrs | Some i \<Rightarrow> ReplyBlockHeaders (W pid) peer i hdrs))) sent)" if "eth_ok B K HH h1" for h1 hdrs
    unfolding act_post_simps
  proof (rule on_peer_post [OF that], goal_cases)
    case (1 ep)
    then show ?case using peer_ok_sends(5) [of ep "W pid" hdrs] peer_ok_sends(6) [of ep "W pid" _ hdrs]
      by (cases rid) (simp_all add: sent_def case_prod_unfold)
  qed
  show ?thesis
    unfolding serve_headers_def act_post_simps(4) [of _ "on_peer h pid _"]
    by (rule on_peer_post [OF assms(1)], rule act_post_mono [OF a]) (use r in \<open>auto split: sum.split\<close>)
qed

lemma on_peer_then:
  assumes "eth_ok B K HH h" "\<And>ep. peer_ok ep \<Longrightarrow> act_post (\<lambda>x. peer_ok (fst x)) (f ep)" "\<And>h1 a. eth_ok B K HH h1 \<Longrightarrow> keeps_ok B K HH (k (h1, a))"
  shows "keeps_ok B K HH (abind (on_peer h pid f) k)"
  unfolding act_post_simps
proof (rule on_peer_post [OF assms(1)], goal_cases)
  case (1 ep)
  show ?case by (rule act_post_mono [OF assms(2) [OF 1(2)]]) (auto intro: assms(3))
qed

lemma sent_post: "eth_ok B K HH h1 \<Longrightarrow> keeps_ok B K HH (sent (h1, a))"
  by (simp add: sent_def)

lemma queries_post:
  assumes "eth_ok B K HH h" "msg_harmless HH (Inr msg)"
  shows "keeps_ok B K HH (handleGetBlockHeaders HH W h pid msg)" "keeps_ok B K HH (handleGetBlockHeaders66 HH W h pid msg)"
    "keeps_ok B K HH (handleGetBlockBodies W h pid msg)" "keeps_ok B K HH (handleGetBlockBodies66 W h pid msg)"
proof -
  show "keeps_ok B K HH (handleGetBlockHeaders HH W h pid msg)" "keeps_ok B K HH (handleGetBlockHeaders66 HH W h pid msg)"
    using assms by (auto simp: eth_handlers msg_harmless_def intro!: serve_headers_post split: sum.split eth_packet.split)
  have "keeps_ok B K HH (abind (on_peer h pid (\<lambda>peer. returns (SendBlockBodies (W pid) peer bodies))) sent)"
    "keeps_ok B K HH (abind (on_peer h pid (\<lambda>peer. returns (ReplyBlockBodies (W pid) peer rid bodies))) sent)" for rid bodies
    by (rule on_peer_then [OF assms(1)], simp add: peer_ok_sends, rule sent_post, assumption)+
  then show "keeps_ok B K HH (handleGetBlockBodies W h pid msg)" "keeps_ok B K HH (handleGetBlockBodies66 W h pid msg)"
    using assms(1) unfolding eth_handlers by (auto simp del: act_post_simps(4) split: sum.split eth_packet.split)
qed

text \<open>The head a peer names in its handshake, which the chain stores as a status hash.\<close>

fun handshake_head :: "string + status_packet p2p_msg \<Rightarrow> hash set" where
  "handshake_head (Inl err) = {}"
| "handshake_head (Inr msg) = (case m_Decode msg of Inl err \<Rightarrow> {} | Inr status \<Rightarrow> {st_Head status})"

lemma run_start_post:
  fixes h :: "('t, 'x, 'n, 'k) handler"
  assumes "eth_ok B K (e_HH E) h" "handshake_head r \<subseteq> K"
  shows "eth_ok B K (e_HH E) (fst (run_start E h pid endpoint version r))"
proof -
  define ep0 :: "('t, 'x) peer" where "ep0 = newPeer pid endpoint version"
  define hs where "hs = Handshake (e_W E pid) ep0 r (of_nat version) (cf_Network (h_config h)) (cf_TotalDifficulty (h_config h)) (cf_Head (h_config h)) (cf_Genesis (h_config h))"
  have "peer_ok ep0" by (simp add: ep0_def peer_ok_new)
  then have "peer_ok (fst hs)"
    unfolding hs_def Handshake_def Let_def
    by (auto simp: peer_ok_def case_prod_unfold split: sum.split)
  moreover have "snd hs = Inr status \<Longrightarrow> st_Head status \<in> K" for status
    using assms(2) unfolding hs_def Handshake_def readStatus_def
    by (auto simp: Let_def split: sum.splits prod.splits if_splits)
  ultimately show ?thesis
    using assms by (auto simp: run_start_def Let_def hs_def ep0_def RunPeer_start_def ps_register_def eth_ok_def chain_safe_fields
        case_prod_unfold split: sum.split option.split)
qed

lemma RunPeer_end_ok: "eth_ok B K HH h \<Longrightarrow> eth_ok B K HH (RunPeer_end h pid)"
  by (auto simp: RunPeer_end_def ps_unregister_def eth_ok_def peers_ok_def split: option.split)

lemma checkpoint_timeout_ok: "eth_ok B K HH h \<Longrightarrow> eth_ok B K HH (checkpoint_timeout h pid)"
  by (auto simp: checkpoint_timeout_def eth_ok_def peers_ok_def peer_ok_def)

lemma ancient_request_post: "eth_ok B K HH h \<Longrightarrow> keeps_ok B K HH (ancient_request W rd h pid q)"
  unfolding ancient_request_def
proof (rule on_peer_post, assumption, goal_cases)
  case (1 ep)
  let ?r = "RequestBlockHeaderRaw (W pid) ep (rd_rid rd 0) (gh_Origin q) (gh_Amount q) (gh_Skip q) (gh_Reverse q) (Some (rd_ch rd))"
  show ?case by (cases ?r) (use peer_ok_RequestBlockHeaderRaw [OF 1(3)] in auto)
qed

lemma ancient_reply_post: "eth_ok B K HH h \<Longrightarrow> keeps_ok B K HH (ancient_reply W h pid rid (BlockHeadersPacket hdrs))"
  unfolding ancient_reply_def eth_packet.case
proof (rule on_peer_post, assumption, goal_cases)
  case (1 ep)
  then show ?case using peer_ok_sends(5) [of ep "W pid" hdrs] peer_ok_sends(6) [of ep "W pid" _ hdrs]
    by (cases rid) (simp_all add: case_prod_unfold)
qed

subsection \<open>Sends on the bridge\<close>

text \<open>
  What the handlers of messages do on the bridge, and what the loop that serves the BDN does in addition. Whatever property of
  the bridge these keep is an invariant of the handlers.
\<close>

fun backend_sends :: "('t, 'x) geth \<Rightarrow> (tb_transaction, tb_block, ('n, 'k) eth_config) bridge_event \<Rightarrow> bool" where
  "backend_sends G (EvSendTransactionsToBDN txs e) = (\<exists>ts. convert_transactions G ts [] = Inr txs)"
| "backend_sends G (EvSendConfirmedBlockToGateway b e) = True"
| "backend_sends G (EvSendBlockToBDN b e) = True"
| "backend_sends G _ = False"

fun backend_serves :: "(tb_transaction, tb_block, ('n, 'k) eth_config) bridge_event \<Rightarrow> bool" where
  "backend_serves (EvSendBlockchainStatusResponse es) = True"
| "backend_serves EvSendNoActiveBlockchainPeersAlert = True"
| "backend_serves EvReceiveBDNTransactions = True"
| "backend_serves EvReceiveTransactionHashesRequest = True"
| "backend_serves EvReceiveBlockFromBDN = True"
| "backend_serves EvReceiveNetworkConfigUpdates = True"
| "backend_serves EvReceiveBlockchainStatusRequest = True"
| "backend_serves _ = False"

locale backend_bridge =
  fixes G :: "('t, 'x) geth"
    and B :: "(tb_transaction, tb_block, ('n, 'k) eth_config) turbo_bridge \<Rightarrow> bool"
  assumes keeps_sends: "B b \<Longrightarrow> backend_sends G e \<Longrightarrow> B (bridge_step b e)"
begin

lemma keeps_send_ops:
  assumes "B b"
  shows "B (fst (SendBlockToBDN b k e))" "B (fst (SendConfirmedBlockToGateway b k e))"
    "convert_transactions G ts [] = Inr txs \<Longrightarrow> B (fst (SendTransactionsToBDN b txs e))"
  using keeps_sends [OF assms, of "EvSendBlockToBDN k e"] keeps_sends [OF assms, of "EvSendConfirmedBlockToGateway k e"]
    keeps_sends [OF assms, of "EvSendTransactionsToBDN txs e"] by auto

lemma send_heads_ok: "eth_ok B K HH h \<Longrightarrow> eth_ok B K HH (send_heads G' HH clk e heads h)"
proof (induction G' HH clk e heads h rule: send_heads.induct)
  case (2 G' HH clk e newHead rest h)
  have "eth_ok B K HH (h\<lparr>h_bridge := br\<rparr>)" "eth_ok B K HH (h\<lparr>h_bridge := br, h_chain := MarkSentToBDN (h_chain h) x\<rparr>)"
    if "SendBlockToBDN (h_bridge h) b e = (br, err)" for b br err x
    using "2.prems" keeps_send_ops(1) [of "h_bridge h" b e] that by (auto simp: eth_ok_def chain_safe_fields)
  with 2 show ?case by (auto split: sum.split prod.split option.split)
qed simp

lemma confirm_to_gateway_ok: "eth_ok B K HH h \<Longrightarrow> eth_ok B K HH (confirm_to_gateway e b h)"
  using keeps_send_ops(2) [of "h_bridge h" b e]
  by (auto simp: confirm_to_gateway_def eth_ok_def chain_safe_fields split: option.split prod.split)

lemma send_confirmation_post:
  assumes "hash_binds HH" "eth_ok B K HH h"
  shows "go_post (eth_ok B K HH) (send_confirmation G HH now e h)"
proof -
  obtain r where "BlockAtDepth HH (h_chain h) (cf_BlockConfirmationsCount (h_config h)) = Inr r"
    using BlockAtDepth_returns [OF assms(1)] assms(2) unfolding eth_ok_def by blast
  then show ?thesis using assms(2) by (auto simp: send_confirmation_def blockAtDepth_def confirm_to_gateway_ok split: sum.split)
qed

lemma sendConfirmedBlocksToBDN_post:
  assumes "hash_binds HH" "eth_ok B K HH h" "make_ok pointerSize n"
  shows "go_post (eth_ok B K HH) (sendConfirmedBlocksToBDN G HH rd h n e)"
proof -
  obtain r where "GetNewHeadsForBDN HH (h_chain h) n = Inr r"
    using GetNewHeadsForBDN_returns [OF _ assms(3)] assms(2) chain_safeD(1) unfolding eth_ok_def by blast
  then show ?thesis
    using send_confirmation_post [OF assms(1) send_heads_ok [OF assms(2)]] by (simp add: sendConfirmedBlocksToBDN_def split: prod.split)
qed

lemma confirmBlock_post:
  assumes "hash_binds HH" "eth_ok B K HH h" "hsh \<noteq> HH None"
  shows "go_post (eth_ok B K HH) (confirmBlock G HH rd h hsh e)"
  unfolding confirmBlock_def go_post_simps
  by (rule go_post_mono [OF ConfirmBlock_post [where HH = HH and K = K, OF assms(1) _ assms(3)]])
    (use assms(2) in \<open>auto simp: eth_ok_def intro!: sendConfirmedBlocksToBDN_post assms(1)\<close>)

lemma processBlockHeaders_post:
  assumes "hash_binds HH" "eth_ok B K HH h" "None \<notin> set hs"
  shows "go_post (eth_ok B K HH) (processBlockHeaders G HH rds h e hs)"
  using assms(2,3)
proof (induction hs arbitrary: h)
  case (Cons hdr hs)
  have "HH hdr \<noteq> HH None" using Cons.prems(2) hash_bindsD(3) [OF assms(1)] by (cases hdr) auto
  from confirmBlock_post [where HH = HH, OF assms(1) Cons.prems(1) this] have
    "go_post (eth_ok B K HH) (confirmBlock G HH (rds (length hs)) h (HH hdr) e)" .
  then show ?case unfolding processBlockHeaders.simps go_post_simps
    by (rule go_post_mono) (use Cons in auto)
qed simp

lemma processTransactions_ok:
  assumes "processTransactions G h e txs = (h', err)" "eth_ok B K HH h"
  shows "eth_ok B K HH h'"
proof (cases "convert_transactions G txs []")
  case (Inr bdnTxs)
  have "B (fst (SendTransactionsToBDN (h_bridge h) bdnTxs e))"
    using assms(2) by (intro keeps_send_ops(3) [OF _ Inr]) (simp add: eth_ok_def)
  then show ?thesis using assms Inr
    by (auto simp: processTransactions_def eth_ok_def split: prod.splits option.splits bridge_error.splits)
qed (use assms in \<open>simp add: processTransactions_def\<close>)

lemma processBlock_post:
  assumes "hash_binds HH" "eth_ok B K HH h" "header_harmless HH (blk_header (bi_Block info))"
  shows "act_post (eth_ok B K HH) (processBlock G HH rd h pid e info)"
proof -
  have add: "go_post (\<lambda>(c', n). chain_safe K HH c' \<and> make_ok pointerSize n) (AddBlock HH (h_chain h) info BSBlockchain)"
    by (intro AddBlock_post assms(1)) (use assms(2,3) in \<open>simp_all add: eth_ok_def header_harmless_def NumberU64_def\<close>)
  have "act_post (\<lambda>h1. act_post (\<lambda>ps. eth_ok B K HH (h1\<lparr>h_peers := ps\<rparr>)) (broadcastBlock order b td source (h_peers h1)))
      (lift_go (sendConfirmedBlocksToBDN G HH rd (h\<lparr>h_chain := c\<rparr>) n e))" if "chain_safe K HH c" "make_ok pointerSize n" for c n order b td source
  proof -
    have "eth_ok B K HH (h\<lparr>h_chain := c\<rparr>)" using assms(2) that by (simp add: eth_ok_def)
    from sendConfirmedBlocksToBDN_post [OF assms(1) this that(2)] show ?thesis unfolding act_post_simps
      by (rule go_post_mono) (auto simp: eth_ok_def intro: act_post_mono [OF broadcastBlock_post])
  qed
  then show ?thesis using assms(2) unfolding processBlock_def Let_def
    by (auto split: option.split intro!: go_post_mono [OF add])
qed

lemma processBlockAnnouncement_post:
  assumes "hash_binds HH" "eth_ok B K HH h"
  shows "keeps_ok B K HH (processBlockAnnouncement G HH W rds h pid e bs)"
  using assms(2)
proof (induction bs arbitrary: h)
  case (Cons b bs)
  obtain bh n where b: "b = (bh, n)" by (cases b)
  show ?case
  proof (cases "HasBlock (h_chain h) bh")
    case True
    then have "bh \<in> dom (blockHashToBody (h_chain h))" by (auto simp: HasBlock_def hasBody_def)
    with Cons.prems hash_bindsD(3) [OF assms(1)] have "bh \<noteq> HH None"
      unfolding eth_ok_def by (metis chain_safeD(1) chain_okD(1) stores_okD(6))
    have "go_post (eth_ok B K HH) (confirmBlock G HH (rds (length bs)) h bh e)"
      using confirmBlock_post [where HH = HH, OF assms(1) Cons.prems \<open>bh \<noteq> HH None\<close>] .
    then have "go_post (\<lambda>h. keeps_ok B K HH (processBlockAnnouncement G HH W rds h pid e bs))
        (confirmBlock G HH (rds (length bs)) h bh e)" by (rule go_post_mono) (rule Cons.IH)
    with True show ?thesis by (simp add: b)
  next
    case False
    then show ?thesis unfolding b processBlockAnnouncement.simps
      by (auto intro!: act_post_mono [OF request_block_post [OF Cons.prems]] act_post_mono [OF Cons.IH])
  qed
qed simp

lemma Handle_post:
  assumes "hash_binds HH" "eth_ok B K HH h" "packet_harmless HH packet" "\<forall>p. packet = StatusPacket p \<longrightarrow> st_Head p \<in> K"
  shows "keeps_ok B K HH (Handle G HH W rds h pid e packet)"
proof (cases packet)
  case (NewBlockPacket p)
  then show ?thesis using processBlock_post [OF assms(1,2), of "NewBlockInfo (nb_Block p) (nb_TD p)"] assms(3)
    by (auto simp: Handle_def elim!: act_post_mono)
next
  case (BlockHeadersPacket hs)
  then show ?thesis using processBlockHeaders_post [OF assms(1,2), of hs] assms(3) by (auto simp: Handle_def elim!: go_post_mono)
next
  case (StatusPacket p)
  then show ?thesis using assms(2,4) by (simp add: Handle_def eth_ok_def chain_safe_fields)
next
  case (NewBlockHashesPacket bs)
  then show ?thesis using processBlockAnnouncement_post [OF assms(1,2)] by (simp add: Handle_def)
qed (use assms(2) in \<open>auto simp: Handle_def split: prod.split intro: processTransactions_ok\<close>)

lemma processBlockComponents_post:
  assumes "hash_binds HH" "eth_ok B K HH h" "response_harmless HH (Inr (headers, bodies))"
  shows "keeps_ok B K HH (processBlockComponents G HH rd h pid e headers bodies)"
proof (cases "length headers \<noteq> 1 \<and> length bodies \<noteq> 1")
  case True
  then show ?thesis using assms(2) by (simp add: processBlockComponents_def)
next
  case False
  with assms(3) obtain hdr hs body bs where l: "headers = Some hdr # hs" "bodies = body # bs" "header_harmless HH hdr"
    by (cases headers; cases bodies) (auto simp: response_harmless_def split: option.splits)
  let ?info = "NewBlockInfo \<lparr>blk_header = hdr, blk_body = body\<rparr> None"
  obtain c info err where s: "SetTotalDifficulty HH (h_chain h) ?info = (c, info, err)" by (cases "SetTotalDifficulty HH (h_chain h) ?info")
  have "chain_safe K HH c" using chain_safe_fields(4) [of K HH "h_chain h" ?info] assms(2) s by (simp add: eth_ok_def)
  then have "eth_ok B K HH (h\<lparr>h_chain := c\<rparr>)" using assms(2) by (simp add: eth_ok_def)
  from processBlock_post [OF assms(1) this, of info] have "act_post (eth_ok B K HH) (processBlock G HH rd (h\<lparr>h_chain := c\<rparr>) pid e info)"
    using SetTotalDifficulty_frame [OF s] l(3) by simp
  then show ?thesis using False l(1,2) s by (auto simp: processBlockComponents_def elim!: act_post_mono)
qed

lemma awaitBlockResponse_post:
  assumes "hash_binds HH" "eth_ok B K HH h" "response_harmless HH fetched"
  shows "act_post (eth_ok B K HH) (awaitBlockResponse G HH rd h pid e fetched)"
proof (cases fetched)
  case (Inl err)
  show ?thesis unfolding awaitBlockResponse_def Inl sum.case act_post_simps
    by (rule on_peer_post [OF assms(2)]) (auto intro: peer_ok_sends)
next
  case (Inr r)
  then obtain headers bodies where r: "fetched = Inr (headers, bodies)" by (cases r) auto
  have "keeps_ok B K HH (processBlockComponents G HH rd h pid e headers bodies)"
    using processBlockComponents_post [OF assms(1,2)] assms(3) r by simp
  then show ?thesis unfolding awaitBlockResponse_def r sum.case prod.case act_post_simps
    by (rule act_post_mono) (simp add: case_prod_unfold)
qed

lemma pass_on_post:
  assumes "hash_binds (e_HH E)" "eth_ok B K (e_HH E) h" "packet_harmless (e_HH E) packet" "e_G E = G" "\<forall>p. packet \<noteq> StatusPacket p"
  shows "keeps_ok B K (e_HH E) (pass_on E h pid packet)"
  using Handle_post [OF assms(1-3)] assms(4,5) by (auto simp: pass_on_def endpoint_of_def split: option.split)

lemma responses_post:
  fixes h :: "('t, 'x, 'n, 'k) handler"
  assumes "hash_binds (e_HH E)" "eth_ok B K (e_HH E) h" "msg_harmless (e_HH E) (Inr msg)" "e_G E = G"
  shows "keeps_ok B K (e_HH E) (handleBlockHeaders E h pid msg)" "keeps_ok B K (e_HH E) (handleBlockHeaders66 E h pid msg)"
    "keeps_ok B K (e_HH E) (handleBlockBodies E h pid msg)" "keeps_ok B K (e_HH E) (handleBlockBodies66 E h pid msg)"
proof -
  have hdrs: "None \<notin> set hs \<Longrightarrow> eth_ok B K (e_HH E) h1 \<Longrightarrow> keeps_ok B K (e_HH E) (pass_on E h1 pid (BlockHeadersPacket hs))" for hs h1
    by (rule pass_on_post [OF assms(1)]) (simp_all add: assms(4))
  have "keeps_ok B K (e_HH E) (abind (on_peer h pid (\<lambda>peer. abind (updatePeerHeadFromHeaders (e_HH E) hs peer) (\<lambda>ep.
       Inr (NotifyResponse ep (BlockHeadersPacket hs))))) (\<lambda>(h1, handled, d).
       if handled then returns (h1, delivered d, None) else pass_on E h1 pid (BlockHeadersPacket hs)))" if hs: "None \<notin> set hs" for hs
  proof (rule on_peer_then [OF assms(2)])
    fix ep :: "('t, 'x) peer" assume ep: "peer_ok ep"
    show "act_post (\<lambda>x. peer_ok (fst x)) (abind (updatePeerHeadFromHeaders (e_HH E) hs ep) (\<lambda>ep. Inr (NotifyResponse ep (BlockHeadersPacket hs))))"
      unfolding act_post_simps
    proof (rule act_post_mono [OF updatePeerHeadFromHeaders_post [OF hs ep]])
      fix ep1 :: "('t, 'x) peer" assume ok: "peer_ok ep1"
      show "act_post (\<lambda>x. peer_ok (fst x)) (Inr (NotifyResponse ep1 (BlockHeadersPacket hs)))"
        by (cases "NotifyResponse ep1 (BlockHeadersPacket hs)") (auto intro: peer_ok_NotifyResponse [OF ok])
    qed
  qed (use hdrs hs in auto)
  then show "keeps_ok B K (e_HH E) (handleBlockHeaders E h pid msg)"
    using assms(2,3) by (auto simp: eth_handlers msg_harmless_def simp del: act_post_simps(4) split: sum.splits eth_packet.splits)
  have "keeps_ok B K (e_HH E) (abind (on_peer h pid (\<lambda>peer. abind (updatePeerHeadFromHeaders (e_HH E) hs peer) (\<lambda>ep.
       returns (NotifyResponse66 ep rid (BlockHeadersPacket hs))))) (\<lambda>(h1, r). case r of Inl err \<Rightarrow> returns (h1, [], Some (BePeer err))
       | Inr (handled, d) \<Rightarrow> if handled then returns (h1, delivered d, None) else pass_on E h1 pid (BlockHeadersPacket hs)))"
    if hs: "None \<notin> set hs" for hs rid
    by (rule on_peer_then [OF assms(2)])
      (use hdrs hs in \<open>auto simp: peer_ok_NotifyResponse66 intro: act_post_mono [OF updatePeerHeadFromHeaders_post] split: sum.split\<close>)
  then show "keeps_ok B K (e_HH E) (handleBlockHeaders66 E h pid msg)"
    using assms(2,3) by (auto simp: eth_handlers msg_harmless_def simp del: act_post_simps(4) split: sum.splits eth_packet.splits)
  have "keeps_ok B K (e_HH E) (abind (on_peer h pid (\<lambda>peer. Inr (NotifyResponse peer (BlockBodiesPacket bs)))) (\<lambda>(h1, handled, d).
       returns (h1, delivered d, None)))" for bs
  proof (rule on_peer_then [OF assms(2)])
    fix ep :: "('t, 'x) peer" assume ok: "peer_ok ep"
    show "act_post (\<lambda>x. peer_ok (fst x)) (Inr (NotifyResponse ep (BlockBodiesPacket bs)))"
      by (cases "NotifyResponse ep (BlockBodiesPacket bs)") (auto intro: peer_ok_NotifyResponse [OF ok])
  qed (auto split: prod.split)
  then show "keeps_ok B K (e_HH E) (handleBlockBodies E h pid msg)"
    using assms(2) by (auto simp: eth_handlers simp del: act_post_simps(4) split: sum.split eth_packet.split)
  have "keeps_ok B K (e_HH E) (abind (on_peer h pid (\<lambda>peer. returns (NotifyResponse66 peer rid (BlockBodiesPacket bs)))) (\<lambda>(h1, r).
       case r of Inl err \<Rightarrow> returns (h1, [], Some (BePeer err)) | Inr (handled, d) \<Rightarrow> returns (h1, delivered d, None)))" for rid bs
    by (rule on_peer_then [OF assms(2)]) (auto simp: peer_ok_NotifyResponse66 split: sum.split)
  then show "keeps_ok B K (e_HH E) (handleBlockBodies66 E h pid msg)"
    using assms(2) by (auto simp: eth_handlers simp del: act_post_simps(4) split: sum.split eth_packet.split)
qed

lemma updates_post:
  fixes h :: "('t, 'x, 'n, 'k) handler"
  assumes "hash_binds (e_HH E)" "eth_ok B K (e_HH E) h" "msg_harmless (e_HH E) (Inr msg)" "e_G E = G"
  shows "keeps_ok B K (e_HH E) (handleNewBlock E h pid msg)" "keeps_ok B K (e_HH E) (handleTransactions E h pid msg)"
    "keeps_ok B K (e_HH E) (handlePooledTransactions E h pid msg)" "keeps_ok B K (e_HH E) (handlePooledTransactions66 E h pid msg)"
    "keeps_ok B K (e_HH E) (handleNewPooledTransactionHashes E h pid msg)" "keeps_ok B K (e_HH E) (handleNewBlockHashes E h pid msg)"
    "keeps_ok B K (e_HH E) (handleUnimplemented E h pid msg)"
proof -
  have "keeps_ok B K (e_HH E) (abind (on_peer h pid (\<lambda>peer. Inr (map_option (\<lambda>ep. (ep, ()))
      (UpdateHead peer (NumberU64 (nb_Block p)) (block_Hash (e_HH E) (nb_Block p)))))) (\<lambda>(h1, u). pass_on E h1 pid (NewBlockPacket p)))"
    if "packet_harmless (e_HH E) (NewBlockPacket p)" for p
  proof (rule on_peer_then [OF assms(2)])
    fix ep :: "('t, 'x) peer" assume ok: "peer_ok ep"
    show "act_post (\<lambda>x. peer_ok (fst x)) (Inr (map_option (\<lambda>ep. (ep, ())) (UpdateHead ep (NumberU64 (nb_Block p)) (block_Hash (e_HH E) (nb_Block p)))))"
      by (cases "UpdateHead ep (NumberU64 (nb_Block p)) (block_Hash (e_HH E) (nb_Block p))") (auto intro: peer_ok_UpdateHead [OF ok])
  qed (use pass_on_post [OF assms(1) _ that assms(4)] in auto)
  then show "keeps_ok B K (e_HH E) (handleNewBlock E h pid msg)"
    using assms(2,3) by (auto simp: eth_handlers msg_harmless_def simp del: act_post_simps(4) split: sum.splits eth_packet.splits)
  have "keeps_ok B K (e_HH E) (abind (on_peer h pid (\<lambda>peer. abind (updatePeerHeadFromNewHashes bs peer) (\<lambda>ep. returns (ep, ())))) (\<lambda>(h1, u).
      pass_on E h1 pid (NewBlockHashesPacket bs)))" for bs
    by (rule on_peer_then [OF assms(2)]) (auto intro: updatePeerHeadFromNewHashes_post pass_on_post [OF assms(1) _ _ assms(4)])
  then show "keeps_ok B K (e_HH E) (handleNewBlockHashes E h pid msg)"
    using assms(2) by (auto simp: eth_handlers simp del: act_post_simps(4) split: sum.split eth_packet.split)
qed (use assms(2) in \<open>auto simp: eth_handlers intro!: pass_on_post [OF assms(1,2) _ assms(4)] split: sum.split eth_packet.split\<close>)

lemma handleMessage_post:
  assumes "hash_binds (e_HH E)" "eth_ok B K (e_HH E) h" "msg_harmless (e_HH E) r" "e_G E = G"
  shows "keeps_ok B K (e_HH E) (handleMessage E h pid r)"
proof (cases r)
  case (Inl err)
  then show ?thesis using assms(2) by (simp add: handleMessage_def)
next
  case (Inr msg)
  have m: "msg_harmless (e_HH E) (Inr msg)" using assms(3) Inr by simp
  show ?thesis unfolding handleMessage_def Inr eth65_def eth66_def
    using assms(2) by (auto split: option.split eth_code.split intro!: queries_post [OF assms(2) m] responses_post [OF assms(1,2) m assms(4)] updates_post [OF assms(1,2) m assms(4)])
qed

end

subsection \<open>The loop that serves the BDN\<close>

locale backend_loop = backend_bridge +
  assumes keeps_loop: "B b \<Longrightarrow> backend_serves e \<Longrightarrow> B (bridge_step b e)"
begin

lemma storeBDNBlock_post:
  assumes "hash_binds HH" "eth_ok B K HH h" "bdn_harmless G HH b"
  shows "go_post (\<lambda>x. eth_ok B K HH (fst x)) (storeBDNBlock G HH h b)"
proof (cases "BlockBDNtoBlockchain G b")
  case (Inr info)
  have "go_post (\<lambda>(c', n). chain_safe K HH c' \<and> make_ok pointerSize n) (AddBlock HH (h_chain h) info BSBDN)"
    by (intro AddBlock_post assms(1)) (use assms(2,3) Inr in \<open>simp_all add: eth_ok_def bdn_harmless_def header_harmless_def NumberU64_def\<close>)
  then have "go_post (\<lambda>(c, n). eth_ok B K HH (h\<lparr>h_chain := c\<rparr>)) (AddBlock HH (h_chain h) info BSBDN)"
    by (rule go_post_mono) (use assms(2) in \<open>auto simp: eth_ok_def\<close>)
  then show ?thesis using Inr assms(2) by (auto simp: storeBDNBlock_def case_prod_unfold)
qed (use assms(2) in \<open>simp add: storeBDNBlock_def\<close>)

lemma processBDNBlock_post:
  assumes "hash_binds HH" "eth_ok B K HH h" "bdn_harmless G HH b"
  shows "act_post (eth_ok B K HH) (processBDNBlock G HH W rd h b)"
  unfolding processBDNBlock_def act_post_simps
proof (rule go_post_mono [OF storeBDNBlock_post [OF assms]], goal_cases)
  case (1 x)
  then obtain h1 r where x: "x = (h1, r)" and ok: "eth_ok B K HH h1" by (cases x) auto
  have upd: "eth_ok B K HH (h1\<lparr>h_chain := c, h_peers := ps\<rparr>)"
    if "SetTotalDifficulty HH (h_chain h1) info = (c, i, err)" "peers_ok ps" for info c i err ps
    using chain_safe_fields(4) [of K HH "h_chain h1" info] ok that by (simp add: eth_ok_def)
  have ps: "peers_ok (h_peers h1)" using ok by (simp add: eth_ok_def)
  show ?case
    using ok upd broadcastBlockAnnouncement_ok [OF ps]
    by (auto simp: x split: sum.split option.split prod.split intro!: act_post_mono [OF broadcastBlock_post [OF ps]])
qed

lemma keeps_loop_ops:
  assumes "B b"
  shows "B (fst (SendBlockchainStatusResponse b es))" "B (fst (SendNoActiveBlockchainPeersAlert b))"
    "ReceiveBDNTransactions b = Some (x1, b') \<Longrightarrow> B b'" "ReceiveTransactionHashesRequest b = Some (x2, b') \<Longrightarrow> B b'"
    "ReceiveBlockFromBDN b = Some (x3, b') \<Longrightarrow> B b'" "ReceiveNetworkConfigUpdates b = Some (x4, b') \<Longrightarrow> B b'"
    "ReceiveBlockchainStatusRequest b = Some (x5, b') \<Longrightarrow> B b'"
  using keeps_loop [OF assms, of "EvSendBlockchainStatusResponse es"] keeps_loop [OF assms, of EvSendNoActiveBlockchainPeersAlert]
    keeps_loop [OF assms, of EvReceiveBDNTransactions] keeps_loop [OF assms, of EvReceiveTransactionHashesRequest]
    keeps_loop [OF assms, of EvReceiveBlockFromBDN] keeps_loop [OF assms, of EvReceiveNetworkConfigUpdates]
    keeps_loop [OF assms, of EvReceiveBlockchainStatusRequest]
  by (simp_all add: after_recv_def)

lemma eth_ok_bridge: "eth_ok B K HH h \<Longrightarrow> B b \<Longrightarrow> eth_ok B K HH (h\<lparr>h_bridge := b\<rparr>)"
  by (simp add: eth_ok_def)

lemma handleBDNBridge_round_post:
  assumes "hash_binds HH" "eth_ok B K HH h" "round_harmless G HH h k"
  shows "act_post (eth_ok B K HH) (handleBDNBridge_round G HH W rd h k)"
proof -
  have b: "B (h_bridge h)" using assms(2) by (simp add: eth_ok_def)
  note ops = keeps_loop_ops [OF b]
  have txs: "eth_ok B K HH (processBDNTransactions G W rd h1 txs)" if "eth_ok B K HH h1" for h1 txs
    using that by (simp add: processBDNTransactions_def eth_ok_def broadcastTransactions_ok)
  have req: "eth_ok B K HH (processBDNTransactionRequests W rd h1 q)" if "eth_ok B K HH h1" for h1 q
    using that by (auto simp: processBDNTransactionRequests_def eth_ok_def intro!: peers_ok_upd peer_ok_sends(4) [OF peers_okD] split: option.split)
  have st: "eth_ok B K HH (processBlockchainStatusRequest rd h1)" if "eth_ok B K HH h1" for h1
    using that by (simp add: processBlockchainStatusRequest_def eth_ok_def keeps_loop_ops(1))
  have cfg: "eth_ok B K HH (h\<lparr>h_bridge := br, h_config := config_Update (h_config h) c\<rparr>)" if "B br" "0 \<le> cf_BlockConfirmationsCount c" for br c
    using assms(2) that by (simp add: eth_ok_def config_Update_def)
  show ?thesis
    using assms(2,3) eth_ok_bridge [OF assms(2)]
    by (cases k) (auto simp: handleBDNBridge_round_def round_harmless_def intro!: cfg txs req st processBDNBlock_post [OF assms(1)] dest: ops(3-) split: option.splits)
qed

end

end
