(* ===== verification/Eth_Machine.thy ===== *)
theory Eth_Machine
  imports Eth_Safety
begin

text \<open>
  The Ethereum side of the gateway as one machine: peers that connect, every message they send, the blocks
  that are fetched for announcements, the rounds of the loop that serves the BDN, the goroutines of the
  peers, the cleaning of the chain, and whatever the gateway does at the other end of the bridge. The
  theorem is that no interleaving of these makes it panic, outside a list of excluded events.
\<close>

section \<open>The machine\<close>

text \<open>
  The events: a peer connects and its handshake is read; a message of a peer is handled; the goroutine of a
  requested block gets its responses (in which version and, for version 66, which response fails first); a
  goroutine asks a peer for ancient headers, or gets them; a round of the loop for the BDN; the check for
  peers; the checkpoint timer of a peer; a goroutine of a peer; a cleaning of the chain; and any use of the
  bridge by the gateway. An operation that would wait has not happened yet.
\<close>

datatype ('t, 'x, 'n, 'k) eth_event =
    EnRun string node_endpoint nat "string + status_packet p2p_msg"
  | EnMessage "nat \<Rightarrow> readings" string "string + ('t, 'x) eth_raw"
  | EnAwait readings string node_endpoint bool bool "('t, 'x) eth_packet option" "('t, 'x) eth_packet option"
  | EnAskAncient readings string get_headers
  | EnAncient string "u64 option" "('t, 'x) eth_packet"
  | EnRound readings bdn_case
  | EnLiveness readings
  | EnCheckpoint string
  | EnPeer string "('t, 'x) peer_event"
  | EnClean "(u64 \<times> 'x header_entry list) list" int
  | EnBridge "(tb_transaction, tb_block, ('n, 'k) eth_config) bridge_event"

definition fetched_parts ::
  "bool \<Rightarrow> bool \<Rightarrow> ('t, 'x) eth_packet option \<Rightarrow> ('t, 'x) eth_packet option \<Rightarrow>
     fetch_error + 'x eth_header option list \<times> ('t, 'x) eth_body list" where
  "fetched_parts v66 bodyFirst rh rb = (if v66 then fetchBlockResponse66 bodyFirst rh rb else fetchBlockResponse rh rb)"

fun eth_step :: "('t, 'x) eth_env \<Rightarrow> ('t, 'x, 'n, 'k) handler \<Rightarrow> ('t, 'x, 'n, 'k) eth_event \<Rightarrow> ('t, 'x, 'n, 'k) handler go" where
  "eth_step E h (EnRun pid endpoint version r) = Inr (fst (run_start E h pid endpoint version r))"
| "eth_step E h (EnMessage rds pid r) =
     settle h (abind (handleMessage (E\<lparr>e_rds := rds\<rparr>) h pid r) (\<lambda>(h1, effects, err).
       returns (if err \<noteq> None then RunPeer_end h1 pid else h1)))"
| "eth_step E h (EnAwait rd pid endpoint v66 bodyFirst rh rb) =
     settle h (awaitBlockResponse (e_G E) (e_HH E) rd h pid endpoint (fetched_parts v66 bodyFirst rh rb))"
| "eth_step E h (EnAskAncient rd pid query) = settle h (abind (ancient_request (e_W E) rd h pid query) (\<lambda>(h1, err). returns h1))"
| "eth_step E h (EnAncient pid rid packet) = settle h (abind (ancient_reply (e_W E) h pid rid packet) (\<lambda>(h1, err). returns h1))"
| "eth_step E h (EnRound rd k) = settle h (handleBDNBridge_round (e_G E) (e_HH E) (e_W E) rd h k)"
| "eth_step E h (EnLiveness rd) = Inr (checkInitialBlockchainLiveliness rd h)"
| "eth_step E h (EnCheckpoint pid) = Inr (checkpoint_timeout h pid)"
| "eth_step E h (EnPeer pid e) =
     (case h_peers h pid of None \<Rightarrow> Inr h
      | Some ep \<Rightarrow> gbind (peer_step (e_W E pid) (e_HH E) ep e) (\<lambda>ep'. Inr (h\<lparr>h_peers := (h_peers h)(pid \<mapsto> ep')\<rparr>)))"
| "eth_step E h (EnClean items maxSize) = gbind (chain_clean items (h_chain h) maxSize) (\<lambda>(c, cnt). Inr (h\<lparr>h_chain := c\<rparr>))"
| "eth_step E h (EnBridge e) = Inr (h\<lparr>h_bridge := bridge_step (h_bridge h) e\<rparr>)"

text \<open>
  Which events are harmless: the conditions on packets, responses, blocks and configurations from above, and
  that a cleaning lists the stored heights and has a positive window.
\<close>

fun harmless :: "('t, 'x) eth_env \<Rightarrow> ('t, 'x, 'n, 'k) handler \<Rightarrow> ('t, 'x, 'n, 'k) eth_event \<Rightarrow> bool" where
  "harmless E h (EnMessage rds pid r) = msg_harmless (e_HH E) r"
| "harmless E h (EnAwait rd pid endpoint v66 bodyFirst rh rb) = response_harmless (e_HH E) (fetched_parts v66 bodyFirst rh rb)"
| "harmless E h (EnAncient pid rid packet) = (case packet of BlockHeadersPacket hdrs \<Rightarrow> True | _ \<Rightarrow> False)"
| "harmless E h (EnRound rd k) = round_harmless (e_G E) (e_HH E) h k"
| "harmless E h (EnClean items maxSize) = chain_admits (e_HH E) (h_chain h) (EvClean items maxSize)"
| "harmless E h _ = True"

text \<open>The heads that peers name when they connect: a clean-up of height 0 removes their metadata and bodies.\<close>

fun run_heads :: "('t, 'x, 'n, 'k) eth_event \<Rightarrow> hash set" where
  "run_heads (EnRun pid endpoint version r) = handshake_head r"
| "run_heads _ = {}"

definition named_heads :: "('t, 'x, 'n, 'k) eth_event list \<Rightarrow> hash set" where
  "named_heads es = (\<Union>e \<in> set es. run_heads e)"

lemma settle_fst_post:
  "keeps_ok B K HH r \<Longrightarrow> eth_ok B K HH h \<Longrightarrow> go_post (eth_ok B K HH) (settle h (abind r (\<lambda>(h1, err). returns h1)))"
  by (rule settle_post) (simp_all add: case_prod_unfold)

text \<open>The steps of the loop that serves the BDN, and those of the gateway.\<close>

fun serves_bdn :: "('t, 'x, 'n, 'k) eth_event \<Rightarrow> bool" where
  "serves_bdn (EnRound rd k) = True"
| "serves_bdn (EnLiveness rd) = True"
| "serves_bdn _ = False"

fun from_gateway :: "('t, 'x, 'n, 'k) eth_event \<Rightarrow> bool" where
  "from_gateway (EnBridge e) = True"
| "from_gateway _ = False"

text \<open>Without these two, a property of the bridge only has to withstand the sends of the handlers.\<close>

context backend_bridge begin

lemma eth_step_sends:
  assumes "hash_binds (e_HH E)" "eth_ok B K (e_HH E) h" "harmless E h ev" "run_heads ev \<subseteq> K" "e_G E = G" "\<not> serves_bdn ev" "\<not> from_gateway ev"
  shows "go_post (eth_ok B K (e_HH E)) (eth_step E h ev)"
proof (cases ev)
  case (EnMessage rds pid r)
  then have "keeps_ok B K (e_HH E) (handleMessage (E\<lparr>e_rds := rds\<rparr>) h pid r)"
    using handleMessage_post [of "E\<lparr>e_rds := rds\<rparr>" K h r pid] assms by simp
  then show ?thesis unfolding EnMessage eth_step.simps
    by (intro settle_post assms(2)) (auto elim!: act_post_mono simp: RunPeer_end_ok)
next
  case (EnAncient pid rid packet)
  then obtain hdrs where "packet = BlockHeadersPacket hdrs" using assms(3) by (cases packet) auto
  then show ?thesis using EnAncient settle_fst_post [OF ancient_reply_post] assms(2) by simp
next
  case (EnPeer pid e)
  show ?thesis
  proof (cases "h_peers h pid")
    case (Some ep)
    obtain ep' where s: "peer_step (e_W E pid) (e_HH E) ep e = Inr ep'" using peer_step_returns by blast
    have "peer_ok ep'" using peer_ok_step [OF _ s] assms(2) Some by (auto simp: eth_ok_def dest: peers_okD)
    then show ?thesis using EnPeer Some s assms(2) by (auto simp: eth_ok_def)
  qed (use EnPeer assms(2) in simp)
next
  case (EnClean items maxSize)
  then have "go_post (\<lambda>x. chain_safe K (e_HH E) (fst x)) (chain_clean items (h_chain h) maxSize)"
    using assms(2,3) by (intro chain_clean_post) (simp_all add: eth_ok_def)
  then show ?thesis unfolding EnClean eth_step.simps go_post_simps
    by (rule go_post_mono) (use assms(2) in \<open>auto simp: eth_ok_def\<close>)
next
  case (EnAskAncient rd pid query)
  then show ?thesis using settle_fst_post [OF ancient_request_post] assms(2) by simp
next
  case (EnAwait rd pid endpoint v66 bodyFirst rh rb)
  then show ?thesis using assms by (simp add: settle_post awaitBlockResponse_post)
qed (use assms in \<open>simp_all add: run_start_post checkpoint_timeout_ok\<close>)

end

context backend_loop begin

lemma eth_step_post:
  assumes "hash_binds (e_HH E)" "eth_ok B K (e_HH E) h" "harmless E h ev" "run_heads ev \<subseteq> K" "e_G E = G"
    and "\<And>e. ev = EnBridge e \<Longrightarrow> B (bridge_step (h_bridge h) e)"
  shows "go_post (eth_ok B K (e_HH E)) (eth_step E h ev)"
proof (cases ev)
  case (EnRound rd k)
  then show ?thesis using assms by (simp add: settle_post handleBDNBridge_round_post)
next
  case (EnLiveness rd)
  then show ?thesis using assms(2) keeps_loop_ops(2) [of "h_bridge h"] by (simp add: checkInitialBlockchainLiveliness_def eth_ok_def)
next
  case (EnBridge e)
  then show ?thesis using assms(2,6) by (simp add: eth_ok_def)
qed (rule eth_step_sends; use assms in simp)+

end

text \<open>The capacities of the channels are such a property.\<close>

interpretation bounded: backend_loop G bridge_ok for G
  by unfold_locales (simp_all add: bridge_ok_step)

lemma eth_step_bounded:
  assumes "hash_binds (e_HH E)" "eth_ok bridge_ok K (e_HH E) h" "harmless E h ev" "run_heads ev \<subseteq> K"
  shows "go_post (eth_ok bridge_ok K (e_HH E)) (eth_step E h ev)"
proof (rule bounded.eth_step_post [OF assms])
  show "bridge_ok (bridge_step (h_bridge h) e)" for e using assms(2) by (simp add: eth_ok_def bridge_ok_step)
qed simp

interpretation eth: total_machine "NewHandler NewTurboBridge newEthereumMainnetConfig" "eth_step E"
  "\<lambda>h ev. (hash_binds (e_HH E) \<and> harmless E h ev) \<and> run_heads ev \<subseteq> K" "eth_ok bridge_ok K (e_HH E)" for E K
proof unfold_locales
  show "eth_ok bridge_ok K (e_HH E) (NewHandler NewTurboBridge newEthereumMainnetConfig)"
    by (simp add: eth_ok_def NewHandler_def chain_safe_new bridge_ok_new peers_ok_def newPeerSet_def newEthereumMainnetConfig_def unknownConfig_def)
next
  fix s e s' assume "eth_ok bridge_ok K (e_HH E) s" "(hash_binds (e_HH E) \<and> harmless E s e) \<and> run_heads e \<subseteq> K" "eth_step E s e = Inr s'"
  then show "eth_ok bridge_ok K (e_HH E) s'" using eth_step_bounded [of E K s e] by simp
next
  fix s e assume "eth_ok bridge_ok K (e_HH E) s" "(hash_binds (e_HH E) \<and> harmless E s e) \<and> run_heads e \<subseteq> K"
  then show "\<exists>s'. eth_step E s e = Inr s'" using eth_step_bounded [of E K s e] by (auto dest: go_postD)
qed

text \<open>
  C4. The Ethereum side survives. From a fresh start, whatever peers connect, whatever messages they send in
  whatever order, whichever goroutines run in between and whatever the gateway does with the bridge, as long as
  no event is excluded the program does not panic, and in the state it reaches the chain is linked, every stored
  header has its metadata and body, unless a peer named its hash as its head when it connected (the clean-ups may have
  removed those), every channel of the bridge is within its capacity, and so are the queues of every peer.
  Excluded are: a query for more than \<open>2 ^ 45\<close> headers, for which \<open>make\<close> panics; a nil header in a packet; a block whose
  parent hash is the hash of the nil header, or whose number is above \<open>2 ^ 48 div 40\<close>, for which \<open>make\<close> can
  panic; responses to a request for a block of which one has one element and the other none, or whose one header
  is excluded as that of a block is; a negative depth of confirmation; a response other than headers to a request
  for ancient headers; and a cleaning that does not list the stored heights or whose window is not positive or not below
  \<open>2 ^ 63\<close>. Header hashes do not collide, and there is memory for the slices that \<open>make\<close> accepts.
\<close>

theorem ethereum_side_survives:
  assumes "hash_binds (e_HH E)" "0 \<le> cf_BlockConfirmationsCount config"
    and "go_admitted (eth_step E) (harmless E) (NewHandler NewTurboBridge config) es"
  shows "\<exists>h. go_run (eth_step E) (NewHandler NewTurboBridge config) es = Inr h \<and>
    chain_ok_but (named_heads es) (e_HH E) (h_chain h) \<and> bridge_ok (h_bridge h) \<and>
    (\<forall>pid ep. h_peers h pid = Some ep \<longrightarrow> peer_ok ep)"
proof -
  have start: "eth_ok bridge_ok (named_heads es) (e_HH E) (NewHandler NewTurboBridge config)"
    using assms(2) by (simp add: eth_ok_def NewHandler_def chain_safe_new bridge_ok_new peers_ok_def newPeerSet_def)
  have "go_admitted (eth_step E) (\<lambda>h ev. hash_binds (e_HH E) \<and> harmless E h ev) (NewHandler NewTurboBridge config) es"
    by (rule go_admitted_mono [OF assms(3)]) (use assms(1) in simp)
  moreover have "\<forall>e \<in> set es. run_heads e \<subseteq> named_heads es" by (auto simp: named_heads_def)
  ultimately have "go_admitted (eth_step E) (\<lambda>h ev. (hash_binds (e_HH E) \<and> harmless E h ev) \<and> run_heads ev \<subseteq> named_heads es)
      (NewHandler NewTurboBridge config) es" by (rule go_admitted_and)
  from eth.run_returns [OF start this] obtain h where
    "go_run (eth_step E) (NewHandler NewTurboBridge config) es = Inr h" "eth_ok bridge_ok (named_heads es) (e_HH E) h" by blast
  then show ?thesis by (intro exI [of _ h]) (simp add: eth_ok_def peers_ok_def chain_safeD(1))
qed

text \<open>
  Two peers connect; the first sends a block, the loop of the second queues it and sends it when the head below it is
  confirmed, the second passes the checkpoint and asks for the header, and the gateway asks for the status of the peers.
\<close>

definition ex_status :: "string + status_packet p2p_msg" where
  "ex_status = Inr \<lparr>m_Code = StatusMsg, m_Size = 9, m_Decode = Inr \<lparr>st_ProtocolVersion = 66, st_NetworkID = 1, st_TD = Some 5,
     st_Head = [8], st_Genesis = mainnet_genesis, st_ForkID = ([], 0)\<rparr>\<rparr>"

definition ex_block5 :: "(byte list, unit) eth_block" where
  "ex_block5 = ex_body\<lparr>blk_header := (blk_header ex_body)\<lparr>ParentHash := [9]\<rparr>\<rparr>"

definition ex_events :: "(byte list, unit, unit, unit) eth_event list" where
  "ex_events = [EnRun ''p'' ex_endpoint 66 ex_status, EnRun ''q'' ex_endpoint 66 ex_status,
     EnMessage (\<lambda>n. ex_rd [''p'', ''q'']) ''p'' (Inr \<lparr>m_Code = NewBlockMsg, m_Size = 9, m_Decode = Inr (NewBlockPacket \<lparr>nb_Block = ex_block5, nb_TD = Some 7\<rparr>)\<rparr>),
     EnPeer ''q'' PvLoopBlock, EnPeer ''q'' (PvUpdateHead 4 [9]), EnPeer ''q'' PvLoopHead, EnCheckpoint ''q'',
     EnMessage (\<lambda>n. ex_rd []) ''q'' (Inr \<lparr>m_Code = GetBlockHeadersMsg, m_Size = 9,
       m_Decode = Inr (GetBlockHeadersPacket66 3 \<lparr>gh_Origin = \<lparr>hn_Hash = zero_hash, hn_Number = 5\<rparr>, gh_Amount = 1, gh_Skip = 0, gh_Reverse = False\<rparr>)\<rparr>),
     EnBridge EvSendBlockchainStatusRequest, EnRound (ex_rd [''p'', ''q'']) CaseStatus]"

definition ex_summary :: "(byte list, unit, unit, unit) handler \<Rightarrow> u64 list \<times> eth_code list option \<times> nat" where
  "ex_summary h = (map ref_height (chainState (h_chain h)), map_option (\<lambda>ep. map fst (p_written ep)) (h_peers h ''q''),
     length (ch_items (br_blockchainStatusResponse (h_bridge h))))"

theorem ethereum_side_survives_witness:
  "\<exists>h. go_run (eth_step ex_env) (NewHandler NewTurboBridge newEthereumMainnetConfig) ex_events = Inr h \<and>
     ex_summary h = ([5], Some [StatusMsg, NewBlockMsg, BlockHeadersMsg], 1) \<and> chain_ok_but {[8]} toy_hash (h_chain h)"
proof -
  have "case go_run (eth_step ex_env) (NewHandler NewTurboBridge newEthereumMainnetConfig) ex_events of
      Inl p \<Rightarrow> False | Inr h \<Rightarrow> ex_summary h = ([5], Some [StatusMsg, NewBlockMsg, BlockHeadersMsg], 1)" by code_simp
  then obtain h where h: "go_run (eth_step ex_env) (NewHandler NewTurboBridge newEthereumMainnetConfig) ex_events = Inr h"
    "ex_summary h = ([5], Some [StatusMsg, NewBlockMsg, BlockHeadersMsg], 1)" by (auto split: sum.splits)
  have "go_admitted (eth_step ex_env) (harmless ex_env) s ex_events" for s
    by (rule go_admitted_events) (auto simp: ex_events_def msg_harmless_def ex_block5_def ex_body_def header_harmless_def
        big_Uint64_def ex_env_def toy_hash_def round_harmless_def height_fits_def make_ok_def blockRefSize_def maxAlloc_def)
  moreover have "named_heads ex_events = {[8]}" by (simp add: named_heads_def ex_events_def ex_status_def)
  ultimately show ?thesis using ethereum_side_survives [of ex_env newEthereumMainnetConfig ex_events] h
    by (simp add: ex_env_def toy_hash_binds newEthereumMainnetConfig_def unknownConfig_def)
qed

text \<open>
  The condition on parent hashes is needed: \<open>InitializeDifficulty\<close> stores a nil header at height 0, and its hash is a
  known constant. Five blocks to a fresh chain, two of them a chain and three a fork whose lowest block names
  that constant as its parent, make the reorganisation find the nil header.
\<close>

definition ex_child :: "int \<Rightarrow> (unit, unit) block_info \<Rightarrow> (unit, unit) block_info" where
  "ex_child n b = ex_block n (toy_hash (Some (blk_header (bi_Block b))))"

definition nil_parent_events :: "(unit, unit) chain_event list" where
  "nil_parent_events = (let a = ex_block 1 [7]; f = ex_block 1 (toy_hash (None :: unit eth_header option)); f2 = ex_child 2 f in
     EvInitializeDifficulty [8] (Some 5) # map (\<lambda>b. EvAddBlock b BSBlockchain) [a, ex_child 2 a, f, f2, ex_child 3 f2])"

lemma nil_parent_panics:
  "case go_run (chain_step toy_hash) NewChain nil_parent_events of Inl p \<Rightarrow> p = NilDereference | Inr c \<Rightarrow> False"
  by code_simp

end
