(* ===== verification/Gateway_Safety.thy ===== *)
theory Gateway_Safety
  imports Gateway_Flow Gateway_Types Eth_Safety
begin

text \<open>
  When the steps of the gateway node do not panic: which frames of a relay are harmless, which queued messages
  pack, and that every step of a gateway whose queues hold such messages returns and leaves such a gateway.
\<close>

section \<open>Packing without a layout\<close>

text \<open>Writes within a buffer keep its length.\<close>

lemma copy_post: "off \<le> length buf \<Longrightarrow> (\<And>b. length b = length buf \<Longrightarrow> P b) \<Longrightarrow> go_post P (copy_at buf off src)"
  by (simp add: copy_at_def)

lemma put_post: "off + length bs \<le> length buf \<Longrightarrow> (\<And>b. length b = length buf \<Longrightarrow> P b) \<Longrightarrow> go_post P (put_at buf off bs)"
  by (simp add: put_at_def)

lemma put_ids_post:
  "off + 4 * length ids \<le> length buf \<Longrightarrow> (\<And>b. length b = length buf \<Longrightarrow> P b) \<Longrightarrow> go_post P (put_ids buf off ids)"
proof (induction buf off ids arbitrary: P rule: put_ids.induct)
  case (2 buf off sid sids)
  show ?case unfolding put_ids.simps go_post_simps
    by (rule put_post) (use 2 in \<open>auto simp: UInt32Len_def\<close>)
qed simp

lemma BroadcastHeader_Pack_post:
  assumes "72 < length buf" "\<And>b' buf'. length buf' = length buf \<Longrightarrow> P (b\<lparr>msgType := mtype\<rparr>, buf')"
  shows "go_post P (BroadcastHeader_Pack b buf mtype)"
  unfolding BroadcastHeader_Pack_def Header_Pack_def go_post_simps
  by (intro copy_post put_post) (use assms in \<open>auto simp: layout_defs\<close>)

text \<open>What may stand on a send queue: a transaction with content or a broadcast message that is not nil.\<close>

definition queueable :: "node_msg \<Rightarrow> bool" where
  "queueable msg = (case msg of TxMsg m \<Rightarrow> tm_content m \<noteq> [] | BroadcastMsg b \<Rightarrow> b \<noteq> None)"

lemma queueable_packs:
  assumes "queueable msg" "frame_size msg < 2 ^ 32"
  shows "go_post (\<lambda>r. True) (node_msg_Pack msg)"
proof (cases msg)
  case (TxMsg m)
  with assms have "unat (tx_size m) = 93 + length (tm_content m)"
    by (intro tx_size_content) (auto simp: queueable_def frame_size_def)
  then show ?thesis unfolding TxMsg node_msg_Pack_def node_msg.case Tx_Pack_def Let_def go_post_simps
    by (intro BroadcastHeader_Pack_post) (auto simp: layout_defs intro!: put_post copy_post)
next
  case (BroadcastMsg x)
  with assms obtain b where x: "x = Some b" by (auto simp: queueable_def)
  then have "unat (Broadcast_Size b) = broadcast_len b"
    using assms(2) BroadcastMsg by (intro Broadcast_Size_len) (simp add: frame_size_def)
  then show ?thesis
    unfolding BroadcastMsg x node_msg_Pack_def node_msg.case option.case Broadcast_Pack_def Let_def go_post_simps
    by (intro BroadcastHeader_Pack_post) (auto simp: broadcast_len_def layout_defs intro!: put_post copy_post put_ids_post)
qed

lemma sendLoop_round_returns:
  "\<forall>msg \<in> set msgs. go_post (\<lambda>r. True) (Pack msg) \<Longrightarrow> go_post (\<lambda>s'. True) (sendLoop_round Pack s msgs env)"
proof (induction msgs arbitrary: s env)
  case (Cons msg msgs)
  have "go_post (\<lambda>s'. True) (packAndWrite Pack s msg we ce)" for s we ce
    using Cons.prems by (auto simp: packAndWrite_def go_post_def gbind_def split: sum.splits option.splits)
  then show ?case using Cons by (auto simp: Let_def elim!: go_post_mono split: prod.split)
qed simp

section \<open>Frames of a relay\<close>

text \<open>
  A frame is harmless when it is long enough to have a type and, if that is the type of transactions, long enough for a
  transaction with content, or with an empty content and a short ID.
\<close>

definition frame_harmless :: "byte list \<Rightarrow> bool" where
  "frame_harmless frame \<longleftrightarrow> 16 \<le> length frame \<and>
     (trim_null (take 12 (drop 4 frame)) = TxType \<longrightarrow>
        101 < length frame \<or> length frame = 101 \<and> le_val (take 4 (drop 72 frame)) \<noteq> 0)"

definition empty_tx :: "tx_message \<Rightarrow> bool" where
  "empty_tx tx \<longleftrightarrow> tm_txID tx = TxIDEmpty \<and> tm_content tx = []"

lemma slice_post: "go_post P (slice_of buf lo hi) \<longleftrightarrow>
    0 \<le> lo \<and> lo \<le> hi \<and> hi \<le> int (length buf) \<and> P (take (nat hi - nat lo) (drop (nat lo) buf))"
  by (auto simp: slice_of_def)

lemma read_post: "go_post P (read_le n buf off) \<longleftrightarrow> off + n \<le> length buf \<and> P (le_val (take n (drop off buf)))"
  by (auto simp: read_le_def)

lemma word_of_le_val: "length bs = 4 \<Longrightarrow> (word_of_nat (le_val bs) = (0 :: u32)) = (le_val bs = 0)"
  using le_val_bound [of bs] by (simp add: word_of_nat_eq_0_iff) (metis dvd_imp_le neq0_conv not_le dvd_0_right)

text \<open>These are exactly the frames whose handling does not panic.\<close>

lemma frame_harmless_iff:
  "go_post (\<lambda>r. \<forall>tx. r = Some tx \<longrightarrow> \<not> empty_tx tx) (relay_ProcessMessage now frame) = frame_harmless frame"
proof (cases "length frame < 73")
  case True
  then show ?thesis
    by (auto simp: relay_ProcessMessage_def TbType_def Tx_Unpack_def BroadcastHeader_Unpack_def Header_Unpack_def slice_post
        layout_defs wire_sizes checkBufSize_def wrap64_def frame_harmless_def empty_tx_def empty_tx_message_def TxIDEmpty_def)
next
  case False
  then show ?thesis
    by (auto simp: relay_ProcessMessage_def TbType_def Tx_Unpack_def BroadcastHeader_Unpack_def Header_Unpack_def slice_post read_post
        layout_defs wire_sizes checkBufSize_def wrap64_def frame_harmless_def empty_tx_def empty_tx_message_def TxIDEmpty_def Let_def
        word_of_le_val)
qed

lemma processTransaction_post:
  "\<not> empty_tx tx \<Longrightarrow> (\<And>g'. processTransaction rd g tx source = Inr g' \<Longrightarrow> P g') \<Longrightarrow> go_post P (processTransaction rd g tx source)"
  using processTransaction_returns [of tx rd g source] by (auto simp: empty_tx_def)

text \<open>
  C34. A frame from a relay makes the gateway panic exactly when it is shorter than the 16 bytes that hold its type, or
  has the type of transactions and is shorter than 101 bytes, or has 101 and no short ID: short frames run out
  of the bounds of a slice, and a transaction with neither content nor short ID makes the store panic. Nothing recovers.
\<close>

theorem relay_frame_panics_iff:
  "(\<exists>p. relay_frame rd g frame source = Inl p) = (\<not> frame_harmless frame)"
proof (cases "relay_ProcessMessage (tr_new rd) frame")
  case (Inl p)
  then show ?thesis using frame_harmless_iff [of "tr_new rd" frame] by (simp add: relay_frame_def lift_go_def abind_def)
next
  case (Inr r)
  have "(\<exists>p. lift_go (processTransaction rd g tx source) = Inl p) = empty_tx tx" for tx
    using processTransaction_panics_iff [of rd g tx source]
    by (cases "processTransaction rd g tx source") (simp_all add: empty_tx_def lift_go_def)
  then show ?thesis using Inr frame_harmless_iff [of "tr_new rd" frame]
    by (cases r) (auto simp: relay_frame_def HandleMsg_def lift_go_def [of "returns _"] lift_go_def [of "Inr _"] abind_def)
qed

section \<open>The invariant\<close>

text \<open>
  The invariant of the gateway, a property \<open>B\<close> of the bridge, queueable messages on all queues, and no empty
  transaction among those for the background.
\<close>

definition queues_ok :: "'k node_conn \<Rightarrow> bool" where
  "queues_ok conn = (case conn of TbConn s \<Rightarrow> list_all queueable (c_sendMessages s) | BlockchainConn e \<Rightarrow> True)"

definition background_ok :: "node_msg \<Rightarrow> bool" where
  "background_ok msg = (case msg of TxMsg tx \<Rightarrow> \<not> empty_tx tx | BroadcastMsg b \<Rightarrow> True)"

definition gw_safe :: "((tb_transaction, tb_block, 'cfg) turbo_bridge \<Rightarrow> bool) \<Rightarrow> ('k, 'cfg) gateway \<Rightarrow> bool" where
  "gw_safe B g \<longleftrightarrow> gateway_ok g \<and> B (g_bridge g) \<and> list_all queues_ok (g_Connections g) \<and>
     list_all (\<lambda>(msg, source). background_ok msg) (ch_items (g_asyncMsgChannel g))"

lemma queues_ok_with_msg: "queues_ok conn \<Longrightarrow> queueable msg \<Longrightarrow> queues_ok (with_msg msg conn)"
  by (auto simp: queues_ok_def with_msg_def split: node_conn.splits)

lemma gw_safe_broadcast: "gw_safe B g \<Longrightarrow> queueable msg \<Longrightarrow> gw_safe B (fst (gateway_broadcast cl g msg source to))"
  by (auto simp: gw_safe_def gateway_ok_broadcast) (auto simp: broadcast_eq list_all_iff queues_ok_with_msg)

lemma queues_ok_step: "conn_step conn ev = Inr conn' \<Longrightarrow> queues_ok conn \<Longrightarrow> queues_ok conn'"
  by (cases "(conn, ev)" rule: conn_step.cases)
    (auto simp: queues_ok_def ssl_Connect_def ssl_Disable_def ssl_close_def Let_def gbind_Inr_iff
      split: option.splits if_splits intro: sendLoop_round_typed)

text \<open>What the gateway does on the bridge.\<close>

fun gateway_uses :: "(tb_transaction, tb_block, 'cfg) bridge_event \<Rightarrow> bool" where
  "gateway_uses (EvSendTransactionsFromBDN txs) = True"
| "gateway_uses EvReceiveNodeTransactions = True"
| "gateway_uses EvReceiveBlockFromNode = True"
| "gateway_uses _ = False"

text \<open>
  Which events are harmless: frames that are, a block that is new and can be encoded, a transaction for the background that
  is not empty, and writing out a queue without a message of 4 GB. What the blockchain side does to the bridge is
  not a step of the gateway here.
\<close>

fun gw_harmless :: "('t, 'x) geth \<Rightarrow> ('k, 'cfg) gateway \<Rightarrow> ('k, 'cfg) gw_event \<Rightarrow> bool" where
  "gw_harmless G g (GFrame rd frame i) = frame_harmless frame"
| "gw_harmless G g (GBlock rd) =
     (case ReceiveBlockFromNode (g_bridge g) of None \<Rightarrow> True
      | Some (b, br) \<Rightarrow> (case BxBlockToBroadcast G (g_blockProcessor g) (tr_exists rd) (tr_add rd) (bf_Block b) 0 of
          (bp, Inl err) \<Rightarrow> False | (bp, Inr r) \<Rightarrow> True))"
| "gw_harmless G g (GBackground rd msg i) = background_ok msg"
| "gw_harmless G g (GConn i (CDrain env)) =
     (case g_Connections g ! i of TbConn s \<Rightarrow> list_all (\<lambda>msg. frame_size msg < 2 ^ 32) (c_sendMessages s) | BlockchainConn e \<Rightarrow> True)"
| "gw_harmless G g (GBridge e) = False"
| "gw_harmless G g _ = True"

section \<open>Every harmless step returns\<close>

locale gateway_bridge =
  fixes B :: "(tb_transaction, tb_block, 'cfg) turbo_bridge \<Rightarrow> bool"
  assumes keeps_uses: "B b \<Longrightarrow> gateway_uses e \<Longrightarrow> B (bridge_step b e)"
    and has_content: "B b \<Longrightarrow> ReceiveNodeTransactions b = Some (x, b') \<Longrightarrow> t \<in> set (tf_Transactions x) \<Longrightarrow> slice_elems (tx_content t) \<noteq> []"
begin

lemma keeps_use_ops:
  assumes "B b"
  shows "B (fst (SendTransactionsFromBDN b txs))" "ReceiveNodeTransactions b = Some (x, b') \<Longrightarrow> B b'"
    "ReceiveBlockFromNode b = Some (y, b') \<Longrightarrow> B b'"
  using keeps_uses [OF assms, of "EvSendTransactionsFromBDN txs"] keeps_uses [OF assms, of EvReceiveNodeTransactions]
    keeps_uses [OF assms, of EvReceiveBlockFromNode] by (simp_all add: after_recv_def)

lemma processTransaction_safe:
  assumes "gw_safe B g" "\<not> empty_tx tx"
  shows "go_post (gw_safe B) (processTransaction rd g tx source)"
proof (rule processTransaction_post [OF assms(2)])
  fix g' assume g': "processTransaction rd g tx source = Inr g'"
  then obtain st r where
    a: "Add emptyTxIDAssigner_Next (g_TxStore g) (tr_age rd) (tr_exists rd) (tr_add rd) (bh_hash tx) (Some (tm_content tx))
      (tm_txID tx) (bh_networkNum tx) (tr_now rd) = Inr (st, r)" and
    eq: "g' = (if NewContent r \<or> Reprocess r then relay_tx rd (g\<lparr>g_TxStore := st\<rparr>) tx source r else g\<lparr>g_TxStore := st\<rparr>)"
    by (auto simp: processTransaction_def gbind_Inr_iff Let_def split: if_splits)
  have ok: "gateway_ok g'" using gateway_ok_tx [OF g'] assms(1) by (simp add: gw_safe_def)
  have "NewContent r \<Longrightarrow> tm_content tx \<noteq> []" using Add_new_content [OF a] by (auto simp: tx_HasContent_def)
  then have s: "NewContent r \<Longrightarrow> queueable (TxMsg ((SetSender tx x)\<lparr>tm_timestamp := t\<rparr>))" for x t
    by (simp add: queueable_def SetSender_def)
  have B: "B (g_bridge g)" using assms(1) by (simp add: gw_safe_def)
  show "gw_safe B g'"
    using ok assms(1) eq s Add_not_Reprocess [OF a] keeps_use_ops(1) [OF B]
    by (auto simp: gw_safe_def relay_tx_def Let_def broadcast_eq list_all_iff queues_ok_with_msg split: if_splits)
qed

lemma process_node_txs_safe:
  "gw_safe B g \<Longrightarrow> \<forall>t \<in> set txs. slice_elems (tx_content t) \<noteq> [] \<Longrightarrow> go_post (gw_safe B) (process_node_txs rds g txs source)"
proof (induction txs arbitrary: rds g)
  case (Cons t txs)
  then have "\<not> empty_tx (Messages.NewTx (tx_hash t) (slice_elems (tx_content t)) 1 now)" for now
    by (simp add: empty_tx_def Messages.NewTx_def)
  from processTransaction_safe [OF Cons.prems(1) this] show ?case unfolding process_node_txs.simps go_post_simps
    by (rule go_post_mono) (use Cons in auto)
qed simp

lemma HandleMsg_safe:
  "gw_safe B g \<Longrightarrow> background_ok msg \<Longrightarrow> act_post (gw_safe B) (HandleMsg rd g msg source False)"
  by (auto simp: HandleMsg_def background_ok_def processTransaction_safe split: node_msg.splits)

lemma processBlock_safe:
  assumes "gw_safe B g" "BxBlockToBroadcast G (g_blockProcessor g) (tr_exists rd) (tr_add rd) b 0 = (bp, Inr r)"
  shows "gw_safe B (processBlockFromBlockchain G rd g b source)"
proof -
  have "gw_safe B (g\<lparr>g_blockProcessor := bp\<rparr>)" using assms(1) by (simp add: gw_safe_def gateway_ok_def)
  then show ?thesis
    using assms(2) by (cases r) (simp add: processBlockFromBlockchain_def gw_safe_broadcast queueable_def)
qed

lemma conn_step_safe:
  assumes "gw_safe B g" "i < length (g_Connections g)" "gw_harmless G g (GConn i ev)"
  shows "go_post (\<lambda>conn'. True) (conn_step (g_Connections g ! i) ev)"
proof (cases "g_Connections g ! i")
  case (TbConn s)
  have "queues_ok (TbConn s)" using assms(1,2) TbConn nth_mem [of i "g_Connections g"] by (auto simp: gw_safe_def list_all_iff)
  show ?thesis
  proof (cases ev)
    case (CDrain env)
    then have "\<forall>msg \<in> set (c_sendMessages s). go_post (\<lambda>r. True) (node_msg_Pack msg)"
      using assms(3) TbConn \<open>queues_ok (TbConn s)\<close> by (auto simp: list_all_iff queues_ok_def queueable_packs)
    then show ?thesis using sendLoop_round_returns TbConn CDrain by simp
  qed (use TbConn in simp_all)
qed simp

lemma gw_step_safe:
  assumes "gw_safe B g" "gw_harmless G g e"
  shows "go_post (gw_safe B) (gw_step G g e)"
proof -
  have B: "B (g_bridge g)" "gateway_ok g" using assms(1) by (simp_all add: gw_safe_def)
  have upd: "gw_safe B (g\<lparr>g_bridge := b\<rparr>)" if "B b" "bridge_ok b" for b
    using assms(1) that by (simp add: gw_safe_def gateway_ok_def)
  show ?thesis
  proof (cases e)
    case (GTxs rds)
    have "act_post (gw_safe B) (bridge_txs_case rds g)"
    proof (cases "ReceiveNodeTransactions (g_bridge g)")
      case (Some x)
      then obtain txs br where x: "ReceiveNodeTransactions (g_bridge g) = Some (txs, br)" by (cases x) auto
      have "bridge_ok br" using bridge_ok_step [of "g_bridge g" EvReceiveNodeTransactions] B(2) x by (simp add: gateway_ok_def after_recv_def)
      then show ?thesis using x process_node_txs_safe [OF upd] keeps_use_ops(2) [OF B(1) x] has_content [OF B(1) x]
        by (simp add: bridge_txs_case_def)
    qed (simp add: bridge_txs_case_def)
    then show ?thesis using GTxs assms(1) by (simp add: settle_post)
  next
    case (GBlock rd)
    have "act_post (gw_safe B) (bridge_block_case G rd g)"
    proof (cases "ReceiveBlockFromNode (g_bridge g)")
      case (Some x)
      then obtain b br where x: "ReceiveBlockFromNode (g_bridge g) = Some (b, br)" by (cases x) auto
      have "bridge_ok br" using bridge_ok_step [of "g_bridge g" EvReceiveBlockFromNode] B(2) x by (simp add: gateway_ok_def after_recv_def)
      then show ?thesis using x assms(2) GBlock processBlock_safe [OF upd] keeps_use_ops(3) [OF B(1) x]
        by (auto simp: bridge_block_case_def split: prod.splits sum.splits)
    qed (simp add: bridge_block_case_def)
    then show ?thesis using GBlock assms(1) by (simp add: settle_post)
  next
    case (GFrame rd frame i)
    have "act_post (gw_safe B) (relay_frame rd g frame conn)" for conn
      unfolding relay_frame_def act_post_simps
      by (rule go_post_mono [OF frame_harmless_iff [THEN iffD2]])
        (use assms GFrame in \<open>auto simp: background_ok_def intro: HandleMsg_safe split: option.split\<close>)
    then show ?thesis using GFrame assms(1) by (simp add: with_conn_def settle_post)
  next
    case (GBackground rd msg i)
    have "gw_safe B (g\<lparr>g_asyncMsgChannel := c\<rparr>)" if "try_send (g_asyncMsgChannel g) (msg, src) = Some c" for src c
      using that assms GBackground gateway_ok_async(1) [OF B(2) that] by (auto simp: gw_safe_def try_send_def split: if_splits)
    then show ?thesis using GBackground assms(1) by (auto simp: with_conn_def HandleMsg_def settle_def split: option.split)
  next
    case (GAsync rd)
    have "act_post (gw_safe B) (HandleMsgAsync rd g)"
    proof (cases "ch_recv (g_asyncMsgChannel g)")
      case (Some x)
      then obtain msg src c where x: "ch_recv (g_asyncMsgChannel g) = Some ((msg, src), c)" by (cases x) auto
      have "gw_safe B (g\<lparr>g_asyncMsgChannel := c\<rparr>)" "background_ok msg"
        using x assms(1) gateway_ok_async(2) [OF B(2) x] by (auto simp: gw_safe_def ch_recv_def split: list.splits)
      then show ?thesis using x by (simp add: HandleMsgAsync_def HandleMsg_safe)
    qed (simp add: HandleMsgAsync_def)
    then show ?thesis using GAsync assms(1) by (simp add: settle_post)
  next
    case (GClosed i)
    have "gw_safe B (fst (OnConnClosed g conn))" for conn
      using assms(1) gateway_ok_closed [OF B(2), of conn] by (auto simp: gw_safe_def OnConnClosed_def list_all_iff split: option.splits dest: remove_conn_set)
    then show ?thesis using GClosed assms(1) by (simp add: with_conn_def)
  next
    case (GConn i ev)
    have "gw_safe B (g\<lparr>g_Connections := (g_Connections g)[i := conn']\<rparr>)"
      if "i < length (g_Connections g)" "conn_step (g_Connections g ! i) ev = Inr conn'" for conn'
      using assms(1) that gateway_ok_conn [OF B(2) that] queues_ok_step [OF that(2)]
      by (auto simp: gw_safe_def list_all_iff dest!: set_update_subset_insert [THEN subsetD])
    then show ?thesis using GConn assms conn_step_safe [OF assms(1), of i G ev]
      by (auto simp: with_conn_def go_post_def split: sum.splits)
  next
    case (GRelay ip port)
    then show ?thesis using assms(1) gateway_ok_relay [OF B(2), of ip port]
      by (simp add: gw_safe_def) (simp add: connectRelay_def OnConnEstablished_def queues_ok_def NewSSLConnection_def)
  qed (use assms(2) in simp)
qed

end

end
