(* ===== verification/Node_Machine.thy ===== *)
theory Node_Machine
  imports Eth_Machine Gateway_Safety "HOL-Library.Sublist"
begin

text \<open>
  The running program as one machine: the gateway node and the Ethereum side, which share the bridge, and the clean-up
  of the transaction store. Each side was shown to be safe for every property of the bridge that the other side's use
  of it keeps; here the two are put together. The theorems are that the program survives every sequence of harmless
  events, and what never leaves the bridge.
\<close>

section \<open>The machine\<close>

text \<open>
  The state is that of the two sides. A step of one side changes the bridge the other side sees.
\<close>

type_synonym ('t, 'x, 'n, 'k, 's) node = "('s, ('n, 'k) eth_config) gateway \<times> ('t, 'x, 'n, 'k) handler"

datatype ('t, 'x, 'n, 'k, 's) node_event =
    OnGateway "('s, ('n, 'k) eth_config) gw_event"
  | OnEthereum "('t, 'x, 'n, 'k) eth_event"
  | OnCleanup instant "hash \<Rightarrow> instant" "(hash \<times> tb_transaction) list" "(hash \<times> tb_transaction) list"

fun node_step ::
  "('t, 'x) eth_env \<Rightarrow> ('t, 'x, 'n, 'k, 's) node \<Rightarrow> ('t, 'x, 'n, 'k, 's) node_event \<Rightarrow> ('t, 'x, 'n, 'k, 's) node go" where
  "node_step E (g, h) (OnGateway e) = gbind (gw_step (e_G E) g e) (\<lambda>g'. Inr (g', h\<lparr>h_bridge := g_bridge g'\<rparr>))"
| "node_step E (g, h) (OnEthereum e) = gbind (eth_step E h e) (\<lambda>h'. Inr (g\<lparr>g_bridge := h_bridge h'\<rparr>, h'))"
| "node_step E (g, h) (OnCleanup now clk items1 items2) =
     gbind (CleanNow now clk items1 items2 (g_TxStore g)) (\<lambda>(t, sent). Inr (g\<lparr>g_TxStore := t\<rparr>, h))"

text \<open>The program as it starts: a new bridge, a gateway and a handler around it.\<close>

definition node_start ::
  "node_endpoint list \<Rightarrow> instant \<Rightarrow> string \<Rightarrow> ('n, 'k) eth_config \<Rightarrow> ('t, 'x, 'n, 'k, 's) node" where
  "node_start peers now text config = (NewGateway NewTurboBridge peers now text, NewHandler NewTurboBridge config)"

text \<open>
  Harmless are the harmless events of either side; what one side says of the use of the bridge by the other is no event
  of its own here, and the rounds of the loop that serves the BDN are always harmless. A clean-up is
  harmless when every network in its second listing of the store occurs in the first.
\<close>

fun node_harmless ::
  "('t, 'x) eth_env \<Rightarrow> ('t, 'x, 'n, 'k, 's) node \<Rightarrow> ('t, 'x, 'n, 'k, 's) node_event \<Rightarrow> bool" where
  "node_harmless E (g, h) (OnGateway e) = gw_harmless (e_G E) g e"
| "node_harmless E (g, h) (OnEthereum e) = (\<not> from_gateway e \<and> (serves_bdn e \<or> harmless E h e))"
| "node_harmless E (g, h) (OnCleanup now clk items1 items2) =
     ((\<lambda>(k, tx). tx_networkNum tx) ` set items2 \<subseteq> (\<lambda>(k, tx). tx_networkNum tx) ` set items1)"

text \<open>The heads that peers name when they connect.\<close>

fun heads_of :: "('t, 'x, 'n, 'k, 's) node_event \<Rightarrow> hash set" where
  "heads_of (OnEthereum e) = run_heads e"
| "heads_of _ = {}"

section \<open>What holds of the bridge\<close>

text \<open>
  Blocks and configurations never arrive for the Ethereum side, transactions of nodes have a content, and the confirmed
  blocks \<open>cs\<close> that were on their channel once are there for ever.
\<close>

definition encodings_nonempty :: "('t, 'x) geth \<Rightarrow> bool" where
  "encodings_nonempty G \<longleftrightarrow> (\<forall>tx bs. enc_tx G tx = Inr bs \<longrightarrow> bs \<noteq> [])"

definition with_contents :: "tb_transaction list \<Rightarrow> bool" where
  "with_contents txs \<longleftrightarrow> (\<forall>t \<in> set txs. slice_elems (tx_content t) \<noteq> [])"

definition node_bridge ::
  "('t, 'x) geth \<Rightarrow> tb_block block_from_node list \<Rightarrow> (tb_transaction, tb_block, 'cfg) turbo_bridge \<Rightarrow> bool" where
  "node_bridge G cs b \<longleftrightarrow> encodings_nonempty G \<and> bridge_ok b \<and> ch_items (br_blocksFromBDN b) = [] \<and> ch_items (br_config b) = [] \<and>
     (\<forall>x \<in> set (ch_items (br_transactionsFromNode b)). with_contents (tf_Transactions x)) \<and>
     prefix cs (ch_items (br_confirmedBlockFromNode b))"

text \<open>Without the loop that serves the BDN, the transactions \<open>ts\<close> of relays stay as well.\<close>

definition started_bridge ::
  "('t, 'x) geth \<Rightarrow> tb_block block_from_node list \<Rightarrow> tb_transaction list list \<Rightarrow> (tb_transaction, tb_block, 'cfg) turbo_bridge \<Rightarrow> bool" where
  "started_bridge G cs ts b \<longleftrightarrow> node_bridge G cs b \<and> prefix ts (ch_items (br_transactionsFromBDN b))"

lemma convert_transactions_contents:
  "encodings_nonempty G \<Longrightarrow> convert_transactions G txs acc = Inr out \<Longrightarrow> with_contents acc \<Longrightarrow> with_contents out"
  by (induction G txs acc rule: convert_transactions.induct)
    (auto simp: with_contents_def encodings_nonempty_def TransactionBlockchainToBDN_def NewRawTbTransaction_def split: sum.splits)

lemmas to_gateway_sends = SendTransactionsToBDN_def SendConfirmedBlockToGateway_def SendBlockToBDN_def SendTransactionsFromBDN_def
  SendBlockchainStatusResponse_def SendNoActiveBlockchainPeersAlert_def

lemmas used_receives = ReceiveNodeTransactions_def ReceiveBDNTransactions_def ReceiveTransactionHashesRequest_def
  ReceiveBlockFromNode_def ReceiveBlockFromBDN_def ReceiveNetworkConfigUpdates_def ReceiveBlockchainStatusRequest_def

lemma node_bridge_step:
  assumes "node_bridge G cs b" "backend_sends G e \<or> backend_serves e \<or> gateway_uses e"
  shows "node_bridge G cs (bridge_step b e)"
proof -
  have "bridge_ok (bridge_step b e)" using assms(1) by (simp add: node_bridge_def bridge_ok_step)
  then show ?thesis
    using assms convert_transactions_contents [of G _ "[]"]
    by (cases e) (auto simp: node_bridge_def to_gateway_sends used_receives after_recv_def try_send_def ch_recv_def with_contents_def
        prefix_append split: option.splits list.splits if_splits)
qed

lemma started_bridge_step:
  assumes "started_bridge G cs ts b" "backend_sends G e \<or> gateway_uses e"
  shows "started_bridge G cs ts (bridge_step b e)"
  using assms node_bridge_step [of G cs b e]
  by (cases e) (auto simp: started_bridge_def to_gateway_sends used_receives after_recv_def try_send_def ch_recv_def
      prefix_append split: option.splits list.splits if_splits)

lemma node_bridge_content:
  "node_bridge G cs b \<Longrightarrow> ReceiveNodeTransactions b = Some (x, b') \<Longrightarrow> t \<in> set (tf_Transactions x) \<Longrightarrow> slice_elems (tx_content t) \<noteq> []"
  by (auto simp: node_bridge_def with_contents_def ReceiveNodeTransactions_def ch_recv_def split: list.splits)

lemma node_bridge_new: "encodings_nonempty G \<Longrightarrow> node_bridge G [] NewTurboBridge"
  using bridge_ok_new by (auto simp: node_bridge_def NewTurboBridge_def make_chan_def)

text \<open>Both sides keep these properties, the Ethereum side the second as long as it does not serve the BDN.\<close>

interpretation node_eth: backend_loop G "node_bridge G cs" for G cs
  by unfold_locales (auto intro: node_bridge_step)

interpretation node_gw: gateway_bridge "node_bridge G cs :: (tb_transaction, tb_block, ('n, 'k) eth_config) turbo_bridge \<Rightarrow> bool" for G cs
  by unfold_locales (auto intro: node_bridge_step dest: node_bridge_content)

interpretation started_eth: backend_bridge G "started_bridge G cs ts" for G cs ts
  by unfold_locales (auto intro: started_bridge_step)

interpretation started_gw: gateway_bridge "started_bridge G cs ts :: (tb_transaction, tb_block, ('n, 'k) eth_config) turbo_bridge \<Rightarrow> bool" for G cs ts
proof unfold_locales
  show "started_bridge G cs ts (bridge_step b e)" if "started_bridge G cs ts b" "gateway_uses e"
    for G :: "('t, 'x) geth" and cs ts and b :: "(tb_transaction, tb_block, ('n, 'k) eth_config) turbo_bridge" and e
    using that by (simp add: started_bridge_step)
qed (auto simp: started_bridge_def dest: node_bridge_content)

section \<open>Every harmless step returns\<close>

definition node_safe ::
  "((tb_transaction, tb_block, ('n, 'k) eth_config) turbo_bridge \<Rightarrow> bool) \<Rightarrow> hash set \<Rightarrow> 'x header_hash \<Rightarrow>
     ('t, 'x, 'n, 'k, 's) node \<Rightarrow> bool" where
  "node_safe B K HH = (\<lambda>(g, h). gw_safe B g \<and> eth_ok B K HH h \<and> h_bridge h = g_bridge g)"

lemma CleanNow_returns:
  assumes "(\<lambda>(k, tx). tx_networkNum tx) ` set items2 \<subseteq> (\<lambda>(k, tx). tx_networkNum tx) ` set items1"
  shows "\<exists>r. CleanNow now clk items1 items2 t = Inr r"
proof -
  let ?nets = "map (map_prod id (clean_maxAge (maxTxAge t))) (clean_ages now items1 [])"
  have look: "map_of ?nets n = map_option (clean_maxAge (maxTxAge t)) (map_of (clean_ages now items1 []) n)" for n
    by (simp add: map_prod_def id_def split_def map_of_map [unfolded split_def])
  have "ages_of now (tx_networkNum tx) items1 \<noteq> []" if "(k, tx) \<in> set items2" for k tx
    using assms that by (fastforce simp: ages_of_def filter_empty_conv)
  then have all: "\<forall>(k, tx) \<in> set items2. map_of ?nets (tx_networkNum tx) \<noteq> None"
    by (auto simp: look clean_ages_lookup Let_def)
  have dist: "distinct (map fst ?nets)" using distinct_clean_ages [of "[]" now items1] by (simp add: o_def split_def)
  obtain t' nets' ids' where "clean_remove now clk items2 ?nets [] t = Inr (t', nets', ids')"
    using clean_remove_spec [OF all dist, of now clk "[]" t] by blast
  then show ?thesis by (simp add: CleanNow_def txstore_clean_def)
qed

text \<open>A step of one side keeps the property of the other, whose part of the state is the bridge alone.\<close>

lemma cleanup_safe:
  assumes "node_safe B K HH (g, h)" "node_harmless E (g, h) (OnCleanup now clk items1 items2)"
  shows "go_post (node_safe B K HH) (node_step E (g, h) (OnCleanup now clk items1 items2))"
proof -
  obtain t sent where t: "CleanNow now clk items1 items2 (g_TxStore g) = Inr (t, sent)"
    using CleanNow_returns [of items2 items1 now clk "g_TxStore g"] assms(2) by auto
  then have "store_ok t" using assms(1) store_ok_CleanNow by (auto simp: node_safe_def gw_safe_def gateway_ok_def)
  then show ?thesis using t assms(1) by (simp add: node_safe_def gw_safe_def gateway_ok_def)
qed

lemma gateway_side_safe:
  assumes "node_safe B K HH (g, h)" "go_post (gw_safe B) (gw_step (e_G E) g e)"
  shows "go_post (node_safe B K HH) (node_step E (g, h) (OnGateway e))"
  using assms(2) unfolding node_step.simps go_post_simps
  by (rule go_post_mono) (use assms(1) in \<open>auto simp: node_safe_def gw_safe_def eth_ok_def\<close>)

lemma ethereum_side_safe:
  assumes "node_safe B K HH (g, h)" "go_post (eth_ok B K HH) (eth_step E h e)" "\<And>b. B b \<Longrightarrow> bridge_ok b"
  shows "go_post (node_safe B K HH) (node_step E (g, h) (OnEthereum e))"
  using assms(2) unfolding node_step.simps go_post_simps
  by (rule go_post_mono) (use assms(1,3) in \<open>auto simp: node_safe_def gw_safe_def eth_ok_def gateway_ok_def\<close>)

lemma serving_harmless:
  "node_bridge G cs (h_bridge h) \<Longrightarrow> serves_bdn e \<Longrightarrow> harmless E h e"
  by (cases e) (auto simp: round_harmless_def node_bridge_def ReceiveBlockFromBDN_def ReceiveNetworkConfigUpdates_def ch_recv_def
      split: bdn_case.splits)

lemma node_step_safe:
  assumes "hash_binds (e_HH E)" "node_safe (node_bridge (e_G E) cs) K (e_HH E) s" "node_harmless E s ev \<and> heads_of ev \<subseteq> K"
  shows "go_post (node_safe (node_bridge (e_G E) cs) K (e_HH E)) (node_step E s ev)"
proof (cases s)
  case (Pair g h)
  note safe = assms(2) [unfolded Pair]
  show ?thesis unfolding Pair
  proof (cases ev)
    case (OnGateway e)
    show "go_post (node_safe (node_bridge (e_G E) cs) K (e_HH E)) (node_step E (g, h) ev)" unfolding OnGateway
      by (rule gateway_side_safe [OF safe], rule node_gw.gw_step_safe)
        (use safe assms(3) in \<open>simp_all add: Pair OnGateway node_safe_def\<close>)
  next
    case (OnEthereum e)
    have h: "eth_ok (node_bridge (e_G E) cs) K (e_HH E) h" using safe by (simp add: node_safe_def)
    then have "harmless E h e" using assms(3) serving_harmless [of "e_G E" cs h e E] by (auto simp: Pair OnEthereum eth_ok_def)
    then show "go_post (node_safe (node_bridge (e_G E) cs) K (e_HH E)) (node_step E (g, h) ev)" unfolding OnEthereum
      using assms(3) by (intro ethereum_side_safe [OF safe] node_eth.eth_step_post [OF assms(1) h]) (auto simp: Pair OnEthereum node_bridge_def)
  next
    case (OnCleanup now clk items1 items2)
    then show "go_post (node_safe (node_bridge (e_G E) cs) K (e_HH E)) (node_step E (g, h) ev)"
      using cleanup_safe [OF safe] assms(3) by (simp only: Pair)
  qed
qed

lemma node_start_safe:
  "encodings_nonempty G \<Longrightarrow> 0 \<le> cf_BlockConfirmationsCount config \<Longrightarrow> node_safe (node_bridge G []) K HH (node_start peers now text config)"
  by (simp add: node_safe_def node_start_def gw_safe_def gateway_ok_new eth_ok_def node_bridge_new NewHandler_def chain_safe_new peers_ok_def
      newPeerSet_def) (simp add: NewGateway_def node_bridge_new make_chan_def)

lemma node_run_safe:
  assumes "hash_binds (e_HH E)" "node_safe (node_bridge (e_G E) cs) K (e_HH E) s" "go_admitted (node_step E) (\<lambda>s ev. node_harmless E s ev \<and> heads_of ev \<subseteq> K) s es"
  shows "\<exists>s'. go_run (node_step E) s es = Inr s' \<and> node_safe (node_bridge (e_G E) cs) K (e_HH E) s'"
  by (rule go_run_post [OF node_step_safe [OF assms(1)] assms(2,3)])

text \<open>
  C2. The program survives. From its start, whatever messages peers and relays send in whatever order, whatever connections
  come and go, whichever goroutines of either side run in between and whenever the store and the chain are cleaned up, as
  long as no event is excluded the program does not panic. In the state it reaches the transaction store is consistent,
  the chain is linked, with complete stores but for the heads that peers named when they connected, no channel and no queue
  of a connection or of a peer is beyond its capacity, both sides still hold the same bridge, and nothing has arrived on it
  for the Ethereum side but transactions. Excluded are, besides what C4 excludes on the Ethereum side (among it queries for
  more than \<open>2 ^ 45\<close> headers and blocks numbered above \<open>2 ^ 48 div 40\<close>): a frame of a relay that panics (C34); a
  block from the bridge that cannot be broadcast, because it was before or does not encode; an empty
  transaction in the background; a queued message of 4 GB; and a clean-up of the store that finds a network which its first
  pass did not. Header hashes do not collide, go-ethereum encodes no transaction as nothing, the depth of confirmation is not
  negative, and there is memory for the slices that \<open>make\<close> accepts.
\<close>

theorem node_survives:
  assumes "hash_binds (e_HH E)" "encodings_nonempty (e_G E)" "0 \<le> cf_BlockConfirmationsCount config"
    and "go_admitted (node_step E) (node_harmless E) (node_start peers now dialed config) es"
  shows "\<exists>g h. go_run (node_step E) (node_start peers now dialed config) es = Inr (g, h) \<and>
    gateway_ok g \<and> chain_ok_but (\<Union>e \<in> set es. heads_of e) (e_HH E) (h_chain h) \<and>
    (\<forall>pid ep. h_peers h pid = Some ep \<longrightarrow> peer_ok ep) \<and>
    h_bridge h = g_bridge g \<and> ch_items (br_blocksFromBDN (g_bridge g)) = [] \<and> ch_items (br_config (g_bridge g)) = []"
proof -
  have "\<forall>e \<in> set es. heads_of e \<subseteq> (\<Union>e \<in> set es. heads_of e)" by auto
  from node_run_safe [OF assms(1) node_start_safe [OF assms(2,3)] go_admitted_and [OF assms(4) this]] show ?thesis
    by (auto simp: node_safe_def gw_safe_def eth_ok_def node_bridge_def peers_ok_def dest: chain_safeD(1))
qed

text \<open>
  A peer connects and sends a transaction and a block; the gateway takes the transaction from the bridge and then the
  block, and the store is cleaned up.
\<close>

definition ex_node_env :: "(byte list, unit) eth_env" where
  "ex_node_env = ex_env\<lparr>e_G := ex_geth\<lparr>enc_tx := (\<lambda>t. Inr (1 # t))\<rparr>\<rparr>"

definition ex_node_start :: "(byte list, unit, unit, unit, unit) node" where
  "ex_node_start = node_start [] 0 [] newEthereumMainnetConfig"

definition ex_node_first :: "(byte list, unit, unit, unit, unit) node_event list" where
  "ex_node_first = [OnEthereum (EnRun ''p'' ex_endpoint 66 ex_status),
     OnEthereum (EnMessage (\<lambda>n. ex_rd [''p'']) ''p'' (Inr \<lparr>m_Code = TransactionsMsg, m_Size = 9, m_Decode = Inr (TransactionsPacket [[5]])\<rparr>)),
     OnGateway (GTxs (\<lambda>n. ex_trd)),
     OnEthereum (EnMessage (\<lambda>n. ex_rd [''p'']) ''p'' (Inr \<lparr>m_Code = NewBlockMsg, m_Size = 9, m_Decode = Inr (NewBlockPacket \<lparr>nb_Block = ex_block5, nb_TD = Some 7\<rparr>)\<rparr>))]"

definition ex_node_then :: "(byte list, unit, unit, unit, unit) node_event list" where
  "ex_node_then = [OnGateway (GBlock ex_trd), OnCleanup 0 (\<lambda>h. 0) [] []]"

definition ex_node_summary :: "(byte list, unit, unit, unit, unit) node \<Rightarrow> byte list option \<times> nat \<times> nat" where
  "ex_node_summary = (\<lambda>(g, h). (map_option (\<lambda>t. slice_elems (tx_content t)) (hashToContent (g_TxStore g) [5]),
     length (ch_items (br_blocksFromNode (g_bridge g))), length (ch_items (br_confirmedBlockFromNode (g_bridge g)))))"

lemma ex_node_reaches:
  obtains g h where "go_run (node_step ex_node_env) ex_node_start ex_node_first = Inr (g, h)"
    "ex_node_summary (g, h) = (Some [1, 5], 1, 1)" "gw_harmless (e_G ex_node_env) g (GBlock ex_trd)"
proof -
  have "case go_run (node_step ex_node_env) ex_node_start ex_node_first of Inl p \<Rightarrow> False
    | Inr (g, h) \<Rightarrow> ex_node_summary (g, h) = (Some [1, 5], 1, 1) \<and> gw_harmless (e_G ex_node_env) g (GBlock ex_trd)" by code_simp
  then show ?thesis using that by (auto split: sum.splits)
qed

lemma ex_node_admitted:
  "go_admitted (node_step ex_node_env) (node_harmless ex_node_env) ex_node_start (ex_node_first @ ex_node_then)"
proof -
  obtain g h where r: "go_run (node_step ex_node_env) ex_node_start ex_node_first = Inr (g, h)"
    "gw_harmless (e_G ex_node_env) g (GBlock ex_trd)" by (rule ex_node_reaches)
  have "go_admitted (node_step ex_node_env) (node_harmless ex_node_env) s ex_node_first" for s
    by (rule go_admitted_events, cases s) (auto simp: ex_node_first_def msg_harmless_def ex_block5_def ex_body_def header_harmless_def
        big_Uint64_def ex_node_env_def ex_env_def toy_hash_def height_fits_def make_ok_def blockRefSize_def maxAlloc_def)
  with r show ?thesis by (auto simp: go_admitted_append ex_node_then_def split: sum.split)
qed

lemma ex_node_assumptions:
  "hash_binds (e_HH ex_node_env)" "encodings_nonempty (e_G ex_node_env)"
  "0 \<le> cf_BlockConfirmationsCount (newEthereumMainnetConfig :: (unit, unit) eth_config)"
  by (auto simp: ex_node_env_def ex_env_def toy_hash_binds encodings_nonempty_def newEthereumMainnetConfig_def unknownConfig_def)

theorem node_survives_witness:
  "\<exists>g h. go_run (node_step ex_node_env) ex_node_start (ex_node_first @ ex_node_then) = Inr (g, h) \<and>
     ex_node_summary (g, h) = (Some [1, 5], 0, 1) \<and> gateway_ok g \<and> chain_ok_but {[8]} toy_hash (h_chain h)"
proof -
  have "case go_run (node_step ex_node_env) ex_node_start (ex_node_first @ ex_node_then) of Inl p \<Rightarrow> False
    | Inr s \<Rightarrow> ex_node_summary s = (Some [1, 5], 0, 1)" by code_simp
  then obtain s where s: "go_run (node_step ex_node_env) ex_node_start (ex_node_first @ ex_node_then) = Inr s"
    "ex_node_summary s = (Some [1, 5], 0, 1)" by (auto split: sum.splits)
  have "(\<Union>e \<in> set (ex_node_first @ ex_node_then). heads_of e) = {[8]}"
    by (simp add: ex_node_first_def ex_node_then_def ex_status_def)
  with node_survives [OF ex_node_assumptions ex_node_admitted [unfolded ex_node_start_def]] s show ?thesis
    by (auto simp: ex_node_start_def ex_node_env_def ex_env_def)
qed

section \<open>What stays on the bridge\<close>

fun serves :: "('t, 'x, 'n, 'k, 's) node_event \<Rightarrow> bool" where
  "serves (OnEthereum e) = serves_bdn e"
| "serves _ = False"

lemma started_step_safe:
  assumes "hash_binds (e_HH E)" "node_safe (started_bridge (e_G E) cs ts) K (e_HH E) s" "(node_harmless E s ev \<and> heads_of ev \<subseteq> K) \<and> \<not> serves ev"
  shows "go_post (node_safe (started_bridge (e_G E) cs ts) K (e_HH E)) (node_step E s ev)"
proof (cases s)
  case (Pair g h)
  note safe = assms(2) [unfolded Pair]
  show ?thesis unfolding Pair
  proof (cases ev)
    case (OnGateway e)
    show "go_post (node_safe (started_bridge (e_G E) cs ts) K (e_HH E)) (node_step E (g, h) ev)" unfolding OnGateway
      by (rule gateway_side_safe [OF safe], rule started_gw.gw_step_safe)
        (use safe assms(3) in \<open>simp_all add: Pair OnGateway node_safe_def\<close>)
  next
    case (OnEthereum e)
    have h: "eth_ok (started_bridge (e_G E) cs ts) K (e_HH E) h" using safe by (simp add: node_safe_def)
    then show "go_post (node_safe (started_bridge (e_G E) cs ts) K (e_HH E)) (node_step E (g, h) ev)" unfolding OnEthereum
      using assms(3) by (intro ethereum_side_safe [OF safe] started_eth.eth_step_sends [OF assms(1) h])
        (auto simp: Pair OnEthereum started_bridge_def node_bridge_def)
  next
    case (OnCleanup now clk items1 items2)
    then show "go_post (node_safe (started_bridge (e_G E) cs ts) K (e_HH E)) (node_step E (g, h) ev)"
      using cleanup_safe [OF safe] assms(3) by (simp only: Pair)
  qed
qed

lemma node_safe_from_here:
  assumes "node_safe (node_bridge G []) K HH (g, h)"
  shows "node_safe (started_bridge G (ch_items (br_confirmedBlockFromNode (g_bridge g))) (ch_items (br_transactionsFromBDN (g_bridge g)))) K HH (g, h)"
  using assms by (auto simp: node_safe_def gw_safe_def eth_ok_def started_bridge_def node_bridge_def)

lemma full_stays_full:
  assumes "buffered n c" "prefix xs (ch_items c)" "length xs = n"
  shows "try_send c x = None"
  using assms by (auto simp: buffered_def try_send_def ch_room_def dest: prefix_length_le)

text \<open>
  C11. What never leaves the bridge. Nothing receives the blocks that are confirmed to the gateway: whatever harmless events
  follow a reachable state, those on the channel stay there, in order, and once there are 100 of them every further
  confirmation fails with a full channel for ever. The same holds of the transactions of relays that are meant for the peers, of
  which there can be 500, unless the loop that serves the BDN runs, which no code ever starts.
\<close>

theorem undrained_channels:
  fixes E :: "('t, 'x) eth_env" and g :: "('s, ('n, 'k) eth_config) gateway"
  assumes "hash_binds (e_HH E)" "encodings_nonempty (e_G E)" "0 \<le> cf_BlockConfirmationsCount config"
    and "go_admitted (node_step E) (node_harmless E) (node_start peers now dialed config) (es @ fs)"
    and "go_run (node_step E) (node_start peers now dialed config) es = Inr (g, h)"
  shows "let cs = ch_items (br_confirmedBlockFromNode (g_bridge g)); ts = ch_items (br_transactionsFromBDN (g_bridge g)) in
    \<exists>g' h'. go_run (node_step E) (g, h) fs = Inr (g', h') \<and>
      prefix cs (ch_items (br_confirmedBlockFromNode (g_bridge g'))) \<and>
      (length cs = blockBacklog \<longrightarrow> SendConfirmedBlockToGateway (g_bridge g') block source = (g_bridge g', Some ErrChannelFull)) \<and>
      ((\<forall>e \<in> set fs. \<not> serves e) \<longrightarrow> prefix ts (ch_items (br_transactionsFromBDN (g_bridge g'))) \<and>
        (length ts = transactionBacklog \<longrightarrow> SendTransactionsFromBDN (g_bridge g') txs = (g_bridge g', Some ErrChannelFull)))"
proof -
  let ?P = "\<lambda>B. node_safe B UNIV (e_HH E)"
  have any: "go_admitted (node_step E) (node_harmless E) s xs \<Longrightarrow>
      go_admitted (node_step E) (\<lambda>s ev. node_harmless E s ev \<and> heads_of ev \<subseteq> UNIV) s xs" for s xs by simp
  define cs where "cs = ch_items (br_confirmedBlockFromNode (g_bridge g))"
  define ts where "ts = ch_items (br_transactionsFromBDN (g_bridge g))"
  have "go_admitted (node_step E) (node_harmless E) (node_start peers now dialed config) es"
    and fs: "go_admitted (node_step E) (node_harmless E) (g, h) fs" using assms(4,5) by (simp_all add: go_admitted_append)
  then have "?P (node_bridge (e_G E) []) (g, h)"
    using node_run_safe [OF assms(1) node_start_safe [OF assms(2,3)] any] assms(5) by fastforce
  then have s: "?P (started_bridge (e_G E) cs ts) (g, h)" unfolding cs_def ts_def by (rule node_safe_from_here)
  then have "?P (node_bridge (e_G E) cs) (g, h)" by (auto simp: node_safe_def gw_safe_def eth_ok_def started_bridge_def)
  from node_run_safe [OF assms(1) this any [OF fs]] obtain g' h'
    where r: "go_run (node_step E) (g, h) fs = Inr (g', h')" "?P (node_bridge (e_G E) cs) (g', h')" by auto
  then have c: "bridge_ok (g_bridge g')" "prefix cs (ch_items (br_confirmedBlockFromNode (g_bridge g')))"
    by (auto simp: node_safe_def gw_safe_def node_bridge_def)
  have t: "prefix ts (ch_items (br_transactionsFromBDN (g_bridge g')))" if "\<forall>e \<in> set fs. \<not> serves e"
  proof -
    have "?P (started_bridge (e_G E) cs ts) (g', h')"
      using go_run_post [OF started_step_safe [OF assms(1)] s go_admitted_and [OF any [OF fs] that]] r(1) by auto
    then show ?thesis by (auto simp: node_safe_def gw_safe_def started_bridge_def)
  qed
  show ?thesis unfolding cs_def [symmetric] ts_def [symmetric] Let_def
    using r(1) c t full_stays_full [OF _ c(2)] full_stays_full [OF _ t]
    by (auto simp: SendConfirmedBlockToGateway_def SendTransactionsFromBDN_def bridge_ok_def)
qed

theorem undrained_channels_witness:
  "\<exists>g h g' h'. go_run (node_step ex_node_env) ex_node_start ex_node_first = Inr (g, h) \<and>
     go_run (node_step ex_node_env) (g, h) ex_node_then = Inr (g', h') \<and>
     length (ch_items (br_confirmedBlockFromNode (g_bridge g))) = 1 \<and>
     prefix (ch_items (br_confirmedBlockFromNode (g_bridge g))) (ch_items (br_confirmedBlockFromNode (g_bridge g')))"
proof -
  obtain g h where r: "go_run (node_step ex_node_env) ex_node_start ex_node_first = Inr (g, h)"
    "ex_node_summary (g, h) = (Some [1, 5], 1, 1)" by (rule ex_node_reaches)
  then show ?thesis
    using undrained_channels [where block = ex_tb_block and source = ex_endpoint and txs = "[]",
      OF ex_node_assumptions ex_node_admitted [unfolded ex_node_start_def] r(1) [unfolded ex_node_start_def]]
    by (auto simp: Let_def ex_node_summary_def)
qed

end
