(* ===== verification/Spec2Isabelle.thy ===== *)
theory Spec2Isabelle
  imports Chain_Queries Store_Refinement Relay_Node Eth_Transaction Eth_Config Program Gateway_Types
    Block_Path To_Peers Node_Parts Printing Goroutines Node_Machine
begin

text \<open>
  A verification library for the turbo gateway (module \<^verbatim>\<open>github.com/massbitprotocol/turbo\<close>, sources under
  \<^verbatim>\<open>src/\<close>).

  \<^bold>\<open>The program.\<close> A gateway stands between Ethereum nodes and a network of relays (the BDN). Towards the nodes
  it is a peer of the Ethereum wire protocol (\<^verbatim>\<open>blockchain/eth\<close>): it keeps a short chain of recent blocks,
  tracks the head of each peer, answers queries, and hands new blocks and transactions over a bridge of
  channels (\<^verbatim>\<open>blockchain/bridge.go\<close>) to the gateway node (\<^verbatim>\<open>nodes\<close>). The gateway node remembers
  transactions in a store (\<^verbatim>\<open>services/tbtxstore.go\<close>), turns blocks into broadcast messages
  (\<^verbatim>\<open>services/block_processor.go\<close>), and sends messages (\<^verbatim>\<open>tbmessage\<close>) over TLS connections with
  send queues (\<^verbatim>\<open>connections\<close>) to relays (\<^verbatim>\<open>cmd/relay\<close>). The program (\<^verbatim>\<open>cmd/gateway\<close>) reads its flags, sets up the
  log (\<^verbatim>\<open>logger\<close>), loads certificates and keys (\<^verbatim>\<open>utils/ssl.go\<close>), and starts both sides.

  \<^bold>\<open>The theories.\<close>

  \<^item> \<open>Prelude\<close>: integers of Go with their wrap-around, instants and durations, panics as the left side of
    the sum type \<open>go\<close>, slices, hashes, listed maps, and the locales \<open>step_machine\<close> (an invariant that holds
    initially and is kept by the steps holds along every run) and \<open>total_machine\<close> (and every run returns).
  \<^item> \<open>Hash_History\<close> (\<^verbatim>\<open>services/hash_history.go\<close>), \<open>Tb_Transaction\<close> (\<^verbatim>\<open>types/tbtransaction.go\<close>), \<open>Tx_Store\<close>
    (\<^verbatim>\<open>services/tbtxstore.go\<close>): the transaction store. Its invariant, what the clean-up removes, re-entry
    protection. \<open>Store_Refinement\<close>: the store refines a table of contents, through the locale \<open>simulation\<close>.
  \<^item> \<open>Eth_Types\<close>, \<open>Chain\<close>, \<open>Chain_Invariant\<close>, \<open>Chain_Queries\<close> (\<^verbatim>\<open>blockchain/eth/chain.go\<close>): the chain, with
    the stores by height and by hash and the list of the canonical chain. Every operation keeps the
    chain linked and, but for the clean-up, the stores complete; the clean-up removes metadata and body of a block whose hash a
    peer named as its head, so that the invariant (\<open>chain_ok_but\<close>) has a set of exempt hashes. What
    additions, reorganisations, queries and the clean-up do.
  \<^item> \<open>Wire\<close>, \<open>Messages\<close> (\<^verbatim>\<open>tbmessage\<close>): messages as bytes, with round trips and the cases where packing or
    unpacking panics or loses bytes.
  \<^item> \<open>Connections\<close> (\<^verbatim>\<open>connections\<close>, \<^verbatim>\<open>connections/handler\<close>, \<^verbatim>\<open>utils/nodetype.go\<close>): send queue and send loop,
    framing of the stream (locale \<open>framing\<close>), the read loop as a step relation.
  \<^item> \<open>Bridge\<close> (\<^verbatim>\<open>blockchain/bridge.go\<close>): channels with capacities (locale \<open>fifo_channel\<close>) and the bridge.
  \<^item> \<open>Blocks\<close> (\<^verbatim>\<open>types/hash.go\<close>, \<^verbatim>\<open>types/tbblock.go\<close>, \<^verbatim>\<open>blockchain/eth/converter.go\<close>,
    \<^verbatim>\<open>services/block_processor.go\<close>): conversion of blocks and their broadcast, once each.
  \<^item> \<open>Eth_Peer\<close> (\<^verbatim>\<open>blockchain/eth/peer.go\<close>): a peer, with the loop that releases queued blocks in order.
  \<^item> \<open>Text\<close>: numbers, endpoints and connections as text; decimal numbers are injective.
  \<^item> \<open>Eth_Config\<close> (\<^verbatim>\<open>blockchain/network\<close>, \<^verbatim>\<open>utils/eth_flags.go\<close>): configuration and peer lists as text.
    \<open>Node_Config\<close> (\<^verbatim>\<open>config\<close>, \<^verbatim>\<open>utils/flags.go\<close>): environment, log settings, configuration of the node, and
    the flags with their defaults.
  \<^item> \<open>Logger\<close> (\<^verbatim>\<open>logger\<close>): levels, hooks and set-up; the channel of lines with its goroutine as a step
    relation, and what is written when the logger exits.
  \<^item> \<open>Certificates\<close> (\<^verbatim>\<open>utils/ssl.go\<close>, \<^verbatim>\<open>utils/sslextension.go\<close>, \<^verbatim>\<open>connections/socket.go\<close>,
    \<^verbatim>\<open>blockchain/eth/util.go\<close>): certificate and key files over a map of files, and TLS dialling.
  \<^item> \<open>Backend\<close>, \<open>Backend_Flow\<close> (\<^verbatim>\<open>blockchain/eth/backend.go\<close>, \<^verbatim>\<open>peerset.go\<close>): blocks and transactions between
    peers, chain and bridge.
  \<^item> \<open>Eth_Handlers\<close> (\<^verbatim>\<open>blockchain/eth/handlers.go\<close>, \<^verbatim>\<open>protocol.go\<close>): the messages of the Ethereum protocol; no
    sequence of them breaks the chain.
  \<^item> \<open>Gateway\<close>, \<open>Gateway_Flow\<close> (\<^verbatim>\<open>nodes/base.go\<close>, \<^verbatim>\<open>nodes/gateway.go\<close>, \<^verbatim>\<open>services/async_handler.go\<close>): the gateway
    node as a machine over store, bridge, block processor and connections; transactions are relayed once
    and in the right direction, and those of a peer of the backend reach the relays.
  \<^item> \<open>Eth_Safety\<close>, \<open>Eth_Machine\<close>: the Ethereum side as one machine of connecting peers, messages, fetched blocks,
    rounds of the loop that serves the BDN, goroutines and cleanings. No interleaving makes it panic, outside a list of
    excluded events (the definitions \<open>harmless\<close> and those it uses); most of them do panic, some, as a large
    block number, only in some states. What it needs of the bridge are the locales \<open>backend_bridge\<close> and \<open>backend_loop\<close>: a
    property that the sends of the handlers, and that of the loop for the BDN, keep.
  \<^item> \<open>Gateway_Safety\<close>: the same for the gateway node, with the exact condition on the frames of relays; its use of the bridge is
    the locale \<open>gateway_bridge\<close>. \<open>Node_Machine\<close>: both sides on the bridge they share, with the clean-up of the store.
    The whole program survives every sequence without excluded events, and what stays on the bridge for ever.
  \<^item> \<open>Clock\<close> (\<^verbatim>\<open>utils/clock.go\<close>): timers and tickers, and the loop over a ticker (locale \<open>ticker_loop\<close>), which does at
    most one round per interval. \<open>Goroutines\<close>: its instances, the clean-ups of chain (\<^verbatim>\<open>cleanBlockStorage\<close>), store and
    hash history, and the goroutines of a peer that wait for confirmations.
  \<^item> \<open>Relay_Node\<close> (\<^verbatim>\<open>cmd/relay/main.go\<close>): the other end of a connection; what the gateway has queued is what
    the relay receives.
  \<^item> \<open>Program\<close> (\<^verbatim>\<open>cmd/gateway/main.go\<close>, \<^verbatim>\<open>blockchain/eth/server.go\<close>, \<^verbatim>\<open>connections/manager.go\<close>, and \<^verbatim>\<open>Run\<close>
    of \<^verbatim>\<open>nodes/gateway.go\<close>): the program from its flags to the running gateway and p2p server, with each
    early return and panic. \<open>Node_Parts\<close> (\<^verbatim>\<open>connections/handler/relay.go\<close>, \<^verbatim>\<open>nodes/base.go\<close>, main of
    \<^verbatim>\<open>cmd/relay/main.go\<close>): relay connections from either side, the base of a node, the program of the relay.
  \<^item> \<open>Gateway_Types\<close>: the values in the store, in queues and on the wire have their widths, and every
    operation of the gateway keeps this. \<open>Block_Path\<close>: a block from the chain through bridge, gateway and
    connection to the relay. \<open>To_Peers\<close>: a transaction from a relay through the gateway to the peers.
  \<^item> \<open>Eth_Transaction\<close> (\<^verbatim>\<open>types/ethtransaction.go\<close>): transactions with selected fields, as filters and as JSON.
    \<open>Printing\<close>: the texts of hashes, headers, counters and blocks; equal texts mean equal blocks.

  \<^bold>\<open>How the code is translated.\<close> A struct is a record and a method is a function that returns the new record.
  Maps of Go are partial functions; where the code iterates over one, the order is an argument, as are
  readings of the clock, random numbers and the results of system calls. A panic is a value \<open>Inl\<close> of
  the type \<open>go\<close>; a call that waits on a channel has the value \<open>Inr None\<close> of the type \<open>act\<close>. What a goroutine
  does is a step of its own, and runs interleave steps in any order. Machine integers are words, and Go's
  \<open>int\<close> is an integer with \<open>wrap64\<close> where it can overflow. Code outside the repository is a parameter:
  go-ethereum's encodings (record \<open>geth\<close>), the hash of a header, the p2p connection, enode parsing,
  formatting. The only assumptions on parameters are hypotheses of theorems: that header hashes bind
  (\<open>hash_binds\<close>), that decoding inverts encoding (\<open>rlp_faithful\<close>) and that no encoding of a transaction is empty
  (\<open>encodings_nonempty\<close>).

  \<^bold>\<open>Loops.\<close> All loops but one terminate by their definition: they are structural recursions, or have a measure, as the
  walk down the headers (\<open>fill_missing\<close>). The framing loop is a partial function into options, and it is proved to return for every buffer (\<open>framing_terminates\<close>). Loops that serve
  for ever are given by one round and run over a list of events. No fuel is used. When a timer fires is an event as well; the
  machines of the two sides run the clean-ups as events at any time, which includes the times of the tickers.

  \<^bold>\<open>Memory.\<close> \<open>make\<close> with a capacity that comes from outside (\<open>GetNewHeadsForBDN\<close>, \<open>GetHeaders\<close>, \<open>updateChainState\<close>) panics
  when the capacity is negative or the slice is larger than the \<open>2 ^ 48\<close> bytes that the allocator of Go addresses on 64-bit
  systems (\<open>make_ok\<close>): \<open>2 ^ 45\<close> pointers, or \<open>2 ^ 48 div 40\<close> references of 40 bytes. A smaller slice is granted; a
  machine that runs out of memory below that bound ends the program with an error that is not modelled. The other slices are
  as long as data that is already there.

  \<^bold>\<open>Limits of the model.\<close> Locks are not modelled: an operation under a lock is one step. Pointers are values,
  except where the code compares them (the null address in \<open>Eth_Transaction\<close>). A connection in a queue of
  background messages is the connection as it was when queued. The logger is modelled on its own; the other
  components do not log. Files are a map from names to contents, and the results of writing them arguments.
  \<open>runGateway\<close> runs \<open>gateway_Run\<close> to its end before it starts the p2p server, while main starts a goroutine for it: the
  interleavings of the two are not modelled.

  \<^bold>\<open>Not modelled.\<close> \<^verbatim>\<open>gRPCtalking\<close> (generated and unused), \<^verbatim>\<open>nodes/grpc_gateway.go\<close> (a copy of
  \<^verbatim>\<open>nodes/gateway.go\<close> in the same package), \<^verbatim>\<open>version\<close> (two texts set when building), the
  profiling server and the parsing of the command line (library code), the p2p server behind the protocols it is
  given, and functions that only pass on a call to logrus, to a socket or to a lock.
\<close>

end
